(* ===== verification/Prelude.thy ===== *)
theory Prelude
  imports Main "HOL-Library.Char_ord" "HOL-Library.List_Lexorder"
begin

text \<open>
  Shared vocabulary of the development.

  A Rust \<open>str\<close> or \<open>String\<close> is the list of its UTF-8 bytes (\<^typ>\<open>string\<close>, a \<^typ>\<open>char\<close> being one
  byte), so \<open>len()\<close> is \<^const>\<open>length\<close>. A \<open>Result\<close> is a sum with the error on the left. The string
  operations of the Rust standard library that the code uses (\<open>split\<close>, \<open>split_once\<close>,
  \<open>rsplit_once\<close>, \<open>strip_prefix\<close>, \<open>strip_suffix\<close>, \<open>join\<close>, \<open>chars\<close>) are modelled here once, with
  the laws the components share.
\<close>

section \<open>Results\<close>

type_synonym ('e, 'a) result = "'e + 'a"

abbreviation Err :: "'e \<Rightarrow> ('e, 'a) result" where "Err \<equiv> Inl"
abbreviation Ok :: "'a \<Rightarrow> ('e, 'a) result" where "Ok \<equiv> Inr"

named_theorems result_simps \<open>how the result combinators compute\<close>
named_theorems str_simps \<open>laws of the string operations\<close>

text \<open>The \<open>?\<close> operator: stop at an error, go on with a value.\<close>

definition and_then :: "('e, 'a) result \<Rightarrow> ('a \<Rightarrow> ('e, 'b) result) \<Rightarrow> ('e, 'b) result" where
  "and_then r f = (case r of Inl e \<Rightarrow> Inl e | Inr x \<Rightarrow> f x)"

lemma and_then_simps [simp, result_simps]:
  "and_then (Inl e) f = Inl e"
  "and_then (Inr x) f = f x"
  by (simp_all add: and_then_def)

lemma and_then_Ok_iff [result_simps]:
  "and_then r f = Inr y \<longleftrightarrow> (\<exists>x. r = Inr x \<and> f x = Inr y)"
  by (cases r) auto

lemma and_then_Err_iff:
  "and_then r f = Inl e \<longleftrightarrow> r = Inl e \<or> (\<exists>x. r = Inr x \<and> f x = Inl e)"
  by (cases r) auto

definition ok_or :: "'e \<Rightarrow> 'a option \<Rightarrow> ('e, 'a) result" where
  "ok_or e x = (case x of None \<Rightarrow> Inl e | Some y \<Rightarrow> Inr y)"

lemma ok_or_simps [simp, result_simps]:
  "ok_or e None = Inl e"
  "ok_or e (Some y) = Inr y"
  by (simp_all add: ok_or_def)

lemma ok_or_Ok_iff [simp]: "ok_or e x = Inr y \<longleftrightarrow> x = Some y"
  by (cases x) auto

definition map_err :: "('e \<Rightarrow> 'f) \<Rightarrow> ('e, 'a) result \<Rightarrow> ('f, 'a) result" where
  "map_err f r = (case r of Inl e \<Rightarrow> Inl (f e) | Inr x \<Rightarrow> Inr x)"

lemma map_err_simps [simp, result_simps]:
  "map_err f (Inl e) = Inl (f e)"
  "map_err f (Inr x) = Inr x"
  by (simp_all add: map_err_def)

lemma map_err_Ok_iff [simp]: "map_err f r = Inr x \<longleftrightarrow> r = Inr x"
  by (cases r) auto

text \<open>\<open>collect\<close> of an iterator of results: the first error, or every value in order.\<close>

fun collect :: "('e, 'a) result list \<Rightarrow> ('e, 'a list) result" where
  "collect [] = Inr []"
| "collect (r # rs) = and_then r (\<lambda>x. and_then (collect rs) (\<lambda>xs. Inr (x # xs)))"

lemma collect_map_Ok: "(\<And>x. x \<in> set xs \<Longrightarrow> f x = Inr (g x)) \<Longrightarrow> collect (map f xs) = Inr (map g xs)"
  by (induction xs) auto

lemma collect_Ok_length: "collect rs = Inr xs \<Longrightarrow> length xs = length rs"
  by (induction rs arbitrary: xs) (auto simp: and_then_Ok_iff)

lemma collect_Ok_nth:
  "collect rs = Inr xs \<longleftrightarrow> length xs = length rs \<and> (\<forall>i < length rs. rs ! i = Inr (xs ! i))"
proof (induction rs arbitrary: xs)
  case Nil
  then show ?case by auto
next
  case (Cons r rs)
  then show ?case
    by (cases xs) (auto simp: and_then_Ok_iff nth_Cons split: nat.splits)
qed

lemma collect_Err: "collect rs = Inl e \<Longrightarrow> Inl e \<in> set rs"
  by (induction rs) (auto simp: and_then_Err_iff)

section \<open>Saturating and bounded integers\<close>

definition u64_max :: nat where "u64_max = 2 ^ 64 - 1"

definition saturating_add :: "nat \<Rightarrow> nat \<Rightarrow> nat" where
  "saturating_add a b = min (a + b) u64_max"

definition checked_sub :: "nat \<Rightarrow> nat \<Rightarrow> nat option" where
  "checked_sub a b = (if b \<le> a then Some (a - b) else None)"

definition u32_max :: nat where "u32_max = 2 ^ 32 - 1"

text \<open>An \<open>io::Error\<close>, as far as the code looks at its kind.\<close>

datatype io_error = NotFound | OtherIo string

section \<open>Pages of a strictly sorted list\<close>

lemma filter_after_take:
  fixes m :: "'a :: linorder list"
  assumes "sorted_wrt (<) m" and "0 < n" "n \<le> length m"
  shows "filter (\<lambda>k. last (take n m) < k) m = drop n m"
proof -
  let ?k = "last (take n m)"
  have k: "?k = m ! (n - 1)" using assms(2,3) by (subst last_conv_nth) (auto simp: min_def)
  have "\<not> ?k < x" if "x \<in> set (take n m)" for x
  proof -
    from that obtain i where i: "i < n" "i < length m" "x = m ! i" by (auto simp: in_set_conv_nth)
    then have "i = n - 1 \<or> i < n - 1" by linarith
    with i assms show ?thesis unfolding k by (auto dest: sorted_wrt_nth_less)
  qed
  moreover have "?k < x" if "x \<in> set (drop n m)" for x
  proof -
    from that assms(3) obtain i where "i < length m - n" "x = m ! (n + i)" by (auto simp: in_set_conv_nth)
    with assms show ?thesis unfolding k by (simp add: sorted_wrt_nth_less)
  qed
  ultimately have "filter (\<lambda>k. ?k < k) (take n m) = []" "filter (\<lambda>k. ?k < k) (drop n m) = drop n m"
    by (simp_all add: filter_empty_conv filter_id_conv)
  then show ?thesis by (metis append_Nil append_take_drop_id filter_append)
qed

end
