(* ===== verification/Strings.thy ===== *)
theory Strings
  imports Prelude
begin

text \<open>
  The string operations of the Rust standard library that the components use, over the UTF-8
  bytes of a string, with the laws their proofs share.
\<close>

section \<open>Splitting and joining\<close>

text \<open>\<open>s.split(c)\<close>: always at least one piece.\<close>

fun split_on :: "'a \<Rightarrow> 'a list \<Rightarrow> 'a list list" where
  "split_on c [] = [[]]"
| "split_on c (x # xs) =
     (if x = c then [] # split_on c xs
      else case split_on c xs of [] \<Rightarrow> [[x]] | p # ps \<Rightarrow> (x # p) # ps)"

text \<open>\<open>pieces.join(&c.to_string())\<close>.\<close>

fun join_with :: "'a \<Rightarrow> 'a list list \<Rightarrow> 'a list" where
  "join_with c [] = []"
| "join_with c [p] = p"
| "join_with c (p # q # ps) = p @ c # join_with c (q # ps)"

lemma split_on_neq_Nil [simp]: "split_on c s \<noteq> []"
  by (induction s) (auto split: list.splits)

lemma join_with_Cons: "ps \<noteq> [] \<Longrightarrow> join_with c (p # ps) = p @ c # join_with c ps"
  by (cases ps) auto

lemma join_split [simp, str_simps]: "join_with c (split_on c s) = s"
proof (induction s)
  case (Cons x xs)
  then show ?case
    by (cases "split_on c xs"; cases "tl (split_on c xs)") (auto simp: join_with_Cons)
qed simp

lemma split_on_free: "c \<notin> set p \<Longrightarrow> split_on c p = [p]"
  by (induction p) auto

lemma split_on_append: "c \<notin> set p \<Longrightarrow> split_on c (p @ c # s) = p # split_on c s"
  by (induction p) auto

lemma split_join [str_simps]:
  "ps \<noteq> [] \<Longrightarrow> (\<And>p. p \<in> set ps \<Longrightarrow> c \<notin> set p) \<Longrightarrow> split_on c (join_with c ps) = ps"
proof (induction ps rule: induct_list012)
  case (3 p q ps)
  then show ?case by (simp add: split_on_append)
qed (simp_all add: split_on_free)

lemma split_on_pieces: "p \<in> set (split_on c s) \<Longrightarrow> c \<notin> set p"
  by (induction s arbitrary: p) (auto split: if_splits list.splits)

lemma set_split_on: "p \<in> set (split_on c s) \<Longrightarrow> set p \<subseteq> set s"
proof (induction s arbitrary: p)
  case (Cons x xs)
  then show ?case
    by (cases "split_on c xs") (auto split: if_splits, blast+)
qed auto

lemma set_join_with: "set (join_with c ps) \<subseteq> insert c (\<Union> (set ` set ps))"
  by (induction c ps rule: join_with.induct) auto

text \<open>\<open>s.split_once(c)\<close> and \<open>s.rsplit_once(c)\<close>: around the first and the last occurrence.\<close>

fun split_once :: "char \<Rightarrow> string \<Rightarrow> (string \<times> string) option" where
  "split_once c [] = None"
| "split_once c (x # xs) =
     (if x = c then Some ([], xs)
      else map_option (\<lambda>(a, b). (x # a, b)) (split_once c xs))"

fun rsplit_once :: "char \<Rightarrow> string \<Rightarrow> (string \<times> string) option" where
  "rsplit_once c [] = None"
| "rsplit_once c (x # xs) =
     (case rsplit_once c xs of
        Some (a, b) \<Rightarrow> Some (x # a, b)
      | None \<Rightarrow> if x = c then Some ([], xs) else None)"

lemma split_once_append [str_simps]: "c \<notin> set a \<Longrightarrow> split_once c (a @ c # b) = Some (a, b)"
  by (induction a) auto

lemma split_once_SomeD: "split_once c s = Some (a, b) \<Longrightarrow> s = a @ c # b \<and> c \<notin> set a"
  by (induction s arbitrary: a b) (auto split: if_splits)

lemma split_once_None: "split_once c s = None \<longleftrightarrow> c \<notin> set s"
  by (induction s) auto

lemma rsplit_once_None: "rsplit_once c s = None \<longleftrightarrow> c \<notin> set s"
  by (induction s) (auto split: option.splits)

lemma rsplit_once_append [str_simps]: "c \<notin> set b \<Longrightarrow> rsplit_once c (a @ c # b) = Some (a, b)"
proof (induction a)
  case Nil
  then have "rsplit_once c b = None" by (simp add: rsplit_once_None)
  then show ?case by simp
qed simp

lemma rsplit_once_SomeD: "rsplit_once c s = Some (a, b) \<Longrightarrow> s = a @ c # b \<and> c \<notin> set b"
proof (induction s arbitrary: a b)
  case (Cons x xs)
  then show ?case
    by (cases "rsplit_once c xs") (auto simp: rsplit_once_None split: if_splits)
qed simp

text \<open>\<open>strip_prefix\<close> and \<open>strip_suffix\<close>.\<close>

fun strip_prefix :: "string \<Rightarrow> string \<Rightarrow> string option" where
  "strip_prefix [] s = Some s"
| "strip_prefix (p # ps) [] = None"
| "strip_prefix (p # ps) (x # xs) = (if p = x then strip_prefix ps xs else None)"

definition strip_suffix :: "string \<Rightarrow> string \<Rightarrow> string option" where
  "strip_suffix p s = map_option rev (strip_prefix (rev p) (rev s))"

lemma strip_prefix_append [simp, str_simps]: "strip_prefix p (p @ s) = Some s"
  by (induction p) auto

lemma strip_prefix_iff: "strip_prefix p s = Some t \<longleftrightarrow> s = p @ t"
  by (induction p s rule: strip_prefix.induct) auto

lemma strip_suffix_append [simp, str_simps]: "strip_suffix p (s @ p) = Some s"
  by (simp add: strip_suffix_def)

lemma strip_suffix_iff: "strip_suffix p s = Some t \<longleftrightarrow> s = t @ p"
  by (auto simp: strip_suffix_def strip_prefix_iff) (metis rev_append rev_rev_ident)+

definition starts_with :: "string \<Rightarrow> string \<Rightarrow> bool" where
  "starts_with p s \<longleftrightarrow> strip_prefix p s \<noteq> None"

lemma starts_with_iff [str_simps]: "starts_with p s \<longleftrightarrow> (\<exists>t. s = p @ t)"
  by (auto simp: starts_with_def strip_prefix_iff)

section \<open>Characters\<close>

abbreviation code :: "char \<Rightarrow> nat" where "code \<equiv> of_char"

definition is_digit :: "char \<Rightarrow> bool" where
  "is_digit c \<longleftrightarrow> 48 \<le> code c \<and> code c \<le> 57"

definition is_lower :: "char \<Rightarrow> bool" where
  "is_lower c \<longleftrightarrow> 97 \<le> code c \<and> code c \<le> 122"

definition is_upper :: "char \<Rightarrow> bool" where
  "is_upper c \<longleftrightarrow> 65 \<le> code c \<and> code c \<le> 90"

definition to_lower :: "char \<Rightarrow> char" where
  "to_lower c = (if is_upper c then char_of (code c + 32) else c)"

definition is_alphanumeric :: "char \<Rightarrow> bool" where
  "is_alphanumeric c \<longleftrightarrow> is_digit c \<or> is_lower c \<or> is_upper c"

text \<open>
  \<open>s.chars()\<close>: the bytes of a valid UTF-8 string grouped into characters. A character starts at
  every byte that is not a continuation byte (\<open>10xxxxxx\<close>).
\<close>

definition is_continuation :: "char \<Rightarrow> bool" where
  "is_continuation c \<longleftrightarrow> 128 \<le> code c \<and> code c < 192"

type_synonym uchar = string

fun chars_of :: "string \<Rightarrow> uchar list" where
  "chars_of [] = []"
| "chars_of (c # cs) =
     (case chars_of cs of
        [] \<Rightarrow> [[c]]
      | g # gs \<Rightarrow> if is_continuation (hd g) then (c # g) # gs else [c] # g # gs)"

lemma chars_of_nonempty: "g \<in> set (chars_of s) \<Longrightarrow> g \<noteq> []"
  by (induction s arbitrary: g) (auto split: list.splits if_splits)

lemma concat_chars_of [simp]: "concat (chars_of s) = s"
  by (induction s) (auto split: list.splits if_splits)

lemma chars_of_ascii: "(\<And>c. c \<in> set s \<Longrightarrow> code c < 128) \<Longrightarrow> chars_of s = map (\<lambda>c. [c]) s"
proof (induction s)
  case (Cons c cs)
  then have *: "chars_of cs = map (\<lambda>c. [c]) cs" by auto
  show ?case
  proof (cases cs)
    case (Cons d ds)
    then have "code d < 128" using Cons.prems by auto
    then have "\<not> is_continuation d" by (simp add: is_continuation_def)
    with * Cons show ?thesis by simp
  qed simp
qed simp

text \<open>The code point a group of bytes encodes (RFC 3629).\<close>

fun code_point :: "uchar \<Rightarrow> nat" where
  "code_point [a] = code a"
| "code_point [a, b] = (code a mod 32) * 64 + code b mod 64"
| "code_point [a, b, c] = (code a mod 16) * 4096 + (code b mod 64) * 64 + code c mod 64"
| "code_point [a, b, c, d] =
     (code a mod 8) * 262144 + (code b mod 64) * 4096 + (code c mod 64) * 64 + code d mod 64"
| "code_point _ = 65533"

section \<open>Decimal numbers\<close>

text \<open>\<open>format!("{n}")\<close> and \<open>format!("{n:0w}")\<close> of an unsigned number.\<close>

definition digit_char :: "nat \<Rightarrow> char" where
  "digit_char d = char_of (48 + d)"

fun decimal :: "nat \<Rightarrow> string" where
  "decimal n = (if n < 10 then [digit_char n] else decimal (n div 10) @ [digit_char (n mod 10)])"

declare decimal.simps [simp del]

definition zero_padded :: "nat \<Rightarrow> nat \<Rightarrow> string" where
  "zero_padded w n = (let d = decimal n in replicate (w - length d) (CHR ''0'') @ d)"

definition digit_value :: "char \<Rightarrow> nat" where
  "digit_value c = code c - 48"

definition undecimal :: "string \<Rightarrow> nat" where
  "undecimal = foldl (\<lambda>n c. 10 * n + digit_value c) 0"

lemma code_digit_char [simp]: "d < 10 \<Longrightarrow> code (digit_char d) = 48 + d"
  by (simp add: digit_char_def)

lemma digit_value_char [simp]: "d < 10 \<Longrightarrow> digit_value (digit_char d) = d"
  by (simp add: digit_value_def)

lemma is_digit_char [simp]: "d < 10 \<Longrightarrow> is_digit (digit_char d)"
  by (simp add: is_digit_def)

lemma undecimal_snoc: "undecimal (s @ [c]) = 10 * undecimal s + digit_value c"
  by (simp add: undecimal_def)

lemma undecimal_decimal [simp]: "undecimal (decimal n) = n"
proof (induction n rule: decimal.induct)
  case (1 n)
  show ?case
  proof (cases "n < 10")
    case True
    then show ?thesis by (subst decimal.simps) (simp add: undecimal_def)
  next
    case False
    with 1 show ?thesis by (subst decimal.simps) (simp add: undecimal_snoc)
  qed
qed

lemma decimal_digits: "c \<in> set (decimal n) \<Longrightarrow> is_digit c"
proof (induction n rule: decimal.induct)
  case (1 n)
  then show ?case by (subst (asm) decimal.simps) (auto split: if_splits)
qed

lemma decimal_neq_Nil [simp]: "decimal n \<noteq> []"
  by (subst decimal.simps) auto

lemma decimal_undecimal:
  "ds \<noteq> [] \<Longrightarrow> list_all is_digit ds \<Longrightarrow> hd ds = CHR ''0'' \<longrightarrow> ds = ''0'' \<Longrightarrow>
     decimal (undecimal ds) = ds"
proof (induction ds rule: rev_induct)
  case (snoc c ys)
  then have c: "digit_value c < 10" "digit_char (digit_value c) = c"
    by (auto simp: is_digit_def digit_value_def digit_char_def)
  show ?case
  proof (cases "ys = []")
    case True
    with c show ?thesis by (simp add: undecimal_def, subst decimal.simps) simp
  next
    case False
    with snoc have ys: "decimal (undecimal ys) = ys" "hd ys \<noteq> CHR ''0''" by auto
    moreover have "hd (decimal 0) = CHR ''0''" by (subst decimal.simps) (simp add: digit_char_def char_of_def bit_0)
    ultimately have "undecimal ys \<noteq> 0" by metis
    with c ys(1) show ?thesis by (simp add: undecimal_snoc, subst decimal.simps) simp
  qed
qed simp

lemma undecimal_zeros: "undecimal (replicate k (CHR ''0'') @ s) = undecimal s"
  by (induction k) (auto simp: undecimal_def digit_value_def)

lemma undecimal_zero_padded [simp]: "undecimal (zero_padded w n) = n"
  by (simp add: zero_padded_def Let_def undecimal_zeros)

lemma zero_padded_digits: "c \<in> set (zero_padded w n) \<Longrightarrow> is_digit c"
  by (auto simp: zero_padded_def Let_def is_digit_def dest: decimal_digits split: if_splits)

section \<open>Characters of a valid string\<close>

definition uchar_ok :: "uchar \<Rightarrow> bool" where
  "uchar_ok g \<longleftrightarrow> g \<noteq> [] \<and> \<not> is_continuation (hd g) \<and> list_all is_continuation (tl g)"

lemma chars_of_concat: "list_all uchar_ok gs \<Longrightarrow> chars_of (concat gs) = gs"
proof (induction gs)
  case (Cons g gs)
  then obtain c cs where g: "g = c # cs" "\<not> is_continuation c" "list_all is_continuation cs"
    by (cases g) (auto simp: uchar_ok_def)
  have "chars_of (ds @ concat gs) = (if ds = [] then gs else ds # gs)"
    if "list_all is_continuation (tl ds)" for ds
    using that
  proof (induction ds)
    case Nil
    with Cons show ?case by simp
  next
    case (Cons d ds)
    then have IH: "chars_of (ds @ concat gs) = (if ds = [] then gs else ds # gs)"
      by (cases ds) auto
    show ?case
    proof (cases ds)
      case Nil
      with IH \<open>list_all uchar_ok (g # gs)\<close> show ?thesis
        by (auto simp: uchar_ok_def split: list.splits)
    next
      case (Cons e es)
      with IH \<open>list_all is_continuation (tl (d # ds))\<close> show ?thesis by simp
    qed
  qed
  from this [of g] g show ?case by simp
qed simp

lemma chars_of_parts:
  "chars_of s = g # gs \<Longrightarrow> hd g = hd s \<and> list_all is_continuation (tl g) \<and> list_all uchar_ok gs"
proof (induction s arbitrary: g gs)
  case (Cons c cs)
  show ?case
  proof (cases "chars_of cs")
    case Nil
    with Cons.prems show ?thesis by auto
  next
    case (Cons h hs)
    have "h \<noteq> []" using Cons chars_of_nonempty [of h cs] by simp
    note IH = Cons.IH [OF Cons]
    show ?thesis
    proof (cases "is_continuation (hd h)")
      case True
      with Cons.prems Cons IH \<open>h \<noteq> []\<close> show ?thesis by (cases h) auto
    next
      case False
      with Cons.prems Cons have "g = [c]" "gs = h # hs" by simp_all
      with False IH \<open>h \<noteq> []\<close> show ?thesis by (simp add: uchar_ok_def [of h])
    qed
  qed
qed simp

lemma chars_of_ok: "s = [] \<or> \<not> is_continuation (hd s) \<Longrightarrow> list_all uchar_ok (chars_of s)"
proof (cases "chars_of s")
  case (Cons g gs)
  assume s: "s = [] \<or> \<not> is_continuation (hd s)"
  moreover have "s \<noteq> []" using Cons by auto
  moreover have "g \<noteq> []" using Cons chars_of_nonempty [of g s] by simp
  ultimately show ?thesis using chars_of_parts [OF Cons] Cons by (simp add: uchar_ok_def [of g])
qed simp

section \<open>Byte order\<close>

text \<open>
  \<open>str\<close> compares bytewise, which is \<open><\<close> on \<^typ>\<open>string\<close> here; zero-padded numbers of one width
  compare as the numbers do.
\<close>

lemma foldl_undecimal:
  "foldl (\<lambda>n c. 10 * n + digit_value c) k s = k * 10 ^ length s + undecimal s"
proof (induction s arbitrary: k)
  case (Cons c s)
  from Cons [of "10 * k + digit_value c"] Cons [of "digit_value c"] show ?case
    by (simp add: undecimal_def algebra_simps)
qed (simp add: undecimal_def)

lemma undecimal_Cons: "undecimal (c # s) = digit_value c * 10 ^ length s + undecimal s"
  using foldl_undecimal [of "digit_value c" s] by (simp add: undecimal_def)

lemma undecimal_less: "list_all is_digit s \<Longrightarrow> undecimal s < 10 ^ length s"
proof (induction s)
  case (Cons c s)
  then have "digit_value c \<le> 9" "undecimal s < 10 ^ length s"
    by (auto simp: is_digit_def digit_value_def)
  moreover from this(1) have "digit_value c * 10 ^ length s \<le> 9 * 10 ^ length s"
    by (rule mult_le_mono1)
  ultimately have "digit_value c * 10 ^ length s + undecimal s < 10 * 10 ^ length s" by linarith
  then show ?case by (simp add: undecimal_Cons)
qed (simp add: undecimal_def)

lemma digits_less:
  assumes "length s = length t" "list_all is_digit s" "list_all is_digit t" "undecimal s < undecimal t"
  shows "s < t"
  using assms
proof (induction s t rule: list_induct2)
  case (Cons c s d t)
  let ?k = "10 ^ length t :: nat"
  from Cons have b: "undecimal s < ?k" "undecimal t < ?k"
    using undecimal_less by (auto, metis)
  have "digit_value c < digit_value d \<or> digit_value c = digit_value d \<and> undecimal s < undecimal t"
  proof (cases "digit_value d < digit_value c")
    case True
    then have "(digit_value d + 1) * ?k \<le> digit_value c * ?k" by (intro mult_le_mono1) simp
    with b Cons show ?thesis by (simp add: undecimal_Cons)
  next
    case False
    with Cons show ?thesis by (cases "digit_value c = digit_value d") (auto simp: undecimal_Cons)
  qed
  moreover have "digit_value c < digit_value d \<Longrightarrow> c < d" "digit_value c = digit_value d \<Longrightarrow> c = d"
    using Cons.prems by (auto simp: digit_value_def is_digit_def less_char_def)
      (metis add_diff_inverse_nat not_less of_char_eq_iff)
  ultimately show ?case using Cons by auto
qed (simp add: undecimal_def)

lemma length_decimal: "n < 10 ^ w \<Longrightarrow> 0 < w \<Longrightarrow> length (decimal n) \<le> w"
proof (induction n arbitrary: w rule: decimal.induct)
  case (1 n)
  show ?case
  proof (cases "n < 10")
    case True
    with "1.prems" show ?thesis by (subst decimal.simps) simp
  next
    case False
    then obtain v where w: "w = Suc v" "0 < v"
      using "1.prems" by (cases w; cases "w - 1") auto
    with "1.prems" have "n div 10 < 10 ^ v" by (simp add: div_less_iff_less_mult mult.commute)
    with "1.IH" [OF False this w(2)] False w show ?thesis by (subst decimal.simps) simp
  qed
qed

lemma length_zero_padded: "n < 10 ^ w \<Longrightarrow> 0 < w \<Longrightarrow> length (zero_padded w n) = w"
  using length_decimal [of n w] by (simp add: zero_padded_def Let_def)

lemma zero_padded_less:
  "m < n \<Longrightarrow> n < 10 ^ w \<Longrightarrow> 0 < w \<Longrightarrow> zero_padded w m < zero_padded w n"
  by (rule digits_less) (auto simp: length_zero_padded list_all_iff dest: zero_padded_digits)

lemma append_less_same_length:
  "length s = length (t :: string) \<Longrightarrow> s < t \<Longrightarrow> s @ u < t @ v"
  by (induction s t rule: list_induct2) auto

lemma append_less_left [simp]: "(s :: string) @ u < s @ v \<longleftrightarrow> u < v"
  by (induction s) auto

text \<open>\<open>[&str]::join\<close>.\<close>

fun join_text :: "string \<Rightarrow> string list \<Rightarrow> string" where
  "join_text sep [] = []"
| "join_text sep [p] = p"
| "join_text sep (p # ps) = p @ sep @ join_text sep ps"

end
