(* ===== verification/Hex.thy ===== *)
theory Hex
  imports Strings
begin

text \<open>
  \<open>metsuke-wire/src/hex.rs\<close>: lowercase hex of a byte string, the fixed-width decoder and the
  decoder of any width. A byte is a \<^typ>\<open>char\<close>, so \<open>encode\<close> and \<open>decode_bytes\<close> go between strings.
\<close>

datatype hex_error = NotHex | WrongLength nat nat

definition hex_digit :: "nat \<Rightarrow> char" where
  "hex_digit d = (if d < 10 then char_of (48 + d) else char_of (87 + d))"

text \<open>\<open>format!("{byte:02x}")\<close>, for every byte.\<close>

definition encode :: "string \<Rightarrow> string" where
  "encode bs = concat (map (\<lambda>b. [hex_digit (code b div 16), hex_digit (code b mod 16)]) bs)"

definition is_ascii_hexdigit :: "char \<Rightarrow> bool" where
  "is_ascii_hexdigit c \<longleftrightarrow>
     is_digit c \<or> (97 \<le> code c \<and> code c \<le> 102) \<or> (65 \<le> code c \<and> code c \<le> 70)"

definition hex_value :: "char \<Rightarrow> nat" where
  "hex_value c =
     (if is_digit c then code c - 48 else if 97 \<le> code c then code c - 87 else code c - 55)"

text \<open>
  \<open>digits.chunks(2)\<close> mapped and collected; the odd trailing chunk cannot occur after the length
  test, and \<open>NotHex\<close> is what the code would answer to it.
\<close>

fun decode_pairs :: "string \<Rightarrow> (hex_error, string) result" where
  "decode_pairs [] = Ok []"
| "decode_pairs [c] = Err NotHex"
| "decode_pairs (h # l # cs) =
     (if is_ascii_hexdigit h \<and> is_ascii_hexdigit l
      then and_then (decode_pairs cs) (\<lambda>bs. Ok (char_of (16 * hex_value h + hex_value l) # bs))
      else Err NotHex)"

definition decode_bytes :: "string \<Rightarrow> (hex_error, string) result" where
  "decode_bytes text = (if odd (length text) then Err NotHex else decode_pairs text)"

definition decode :: "nat \<Rightarrow> string \<Rightarrow> (hex_error, string) result" where
  "decode n text =
     (if odd (length text) then Err NotHex
      else if length text div 2 \<noteq> n then Err (WrongLength (length text div 2) n)
      else decode_bytes text)"


section \<open>Digits\<close>

lemma hex_digit_value [simp]: "d < 16 \<Longrightarrow> hex_value (hex_digit d) = d"
  by (auto simp: hex_value_def hex_digit_def is_digit_def)

lemma hexdigit_hex_digit [simp]: "d < 16 \<Longrightarrow> is_ascii_hexdigit (hex_digit d)"
  by (auto simp: is_ascii_hexdigit_def hex_digit_def is_digit_def)

lemma hex_value_less: "is_ascii_hexdigit c \<Longrightarrow> hex_value c < 16"
  by (auto simp: is_ascii_hexdigit_def hex_value_def is_digit_def)

lemma hex_digit_of_value: "is_ascii_hexdigit c \<Longrightarrow> hex_digit (hex_value c) = to_lower c"
  by (auto simp: is_ascii_hexdigit_def hex_value_def is_digit_def hex_digit_def to_lower_def
      is_upper_def)

lemma byte_of_pair:
  assumes "is_ascii_hexdigit h" "is_ascii_hexdigit l"
  shows "code (char_of (16 * hex_value h + hex_value l)) = 16 * hex_value h + hex_value l"
  using assms [THEN hex_value_less] by simp

section \<open>Encoding and decoding\<close>

lemma encode_simps [simp]:
  "encode [] = []"
  "encode (b # bs) = hex_digit (code b div 16) # hex_digit (code b mod 16) # encode bs"
  by (simp_all add: encode_def)

lemma length_encode [simp]: "length (encode bs) = 2 * length bs"
  by (induction bs) auto

lemma code_div_16 [simp]: "code (c :: char) div 16 < 16"
  by (simp add: div_less_iff_less_mult)

lemma encode_eq_Nil [simp]: "[] = encode bs \<longleftrightarrow> bs = []" "encode bs = [] \<longleftrightarrow> bs = []"
  by (cases bs; simp)+

lemma decode_pairs_encode [simp]: "decode_pairs (encode bs) = Ok bs"
  by (induction bs) simp_all

lemma hex_digit_inj: "d < 16 \<Longrightarrow> e < 16 \<Longrightarrow> hex_digit d = hex_digit e \<longleftrightarrow> d = e"
  by (metis hex_digit_value)

lemma byte_eq_pair:
  assumes "is_ascii_hexdigit h" "is_ascii_hexdigit l"
  shows "char_of (16 * hex_value h + hex_value l) = b \<longleftrightarrow>
    hex_digit (code b div 16) = to_lower h \<and> hex_digit (code b mod 16) = to_lower l"
proof -
  note v = assms [THEN hex_value_less]
  have "char_of (16 * hex_value h + hex_value l) = b \<longleftrightarrow> code b = 16 * hex_value h + hex_value l"
    using byte_of_pair [OF assms] by (metis char_of_char)
  also have "\<dots> \<longleftrightarrow> code b div 16 = hex_value h \<and> code b mod 16 = hex_value l"
    using v by (metis Euclidean_Rings.div_eq_0_iff add.right_neutral div_mult_self2 mod_less
        mod_mult_self2 mult_div_mod_eq add.commute zero_neq_numeral)
  also have "\<dots> \<longleftrightarrow> hex_digit (code b div 16) = hex_digit (hex_value h)
      \<and> hex_digit (code b mod 16) = hex_digit (hex_value l)"
    using v by (simp add: hex_digit_inj)
  finally show ?thesis using assms by (simp add: hex_digit_of_value)
qed

lemma decode_pairs_Ok_iff:
  "decode_pairs t = Ok bs \<longleftrightarrow>
     even (length t) \<and> list_all is_ascii_hexdigit t \<and> encode bs = map to_lower t"
proof (induction t arbitrary: bs rule: decode_pairs.induct)
  case (3 h l cs)
  show ?case
  proof (cases "is_ascii_hexdigit h \<and> is_ascii_hexdigit l")
    case True
    with "3.IH" show ?thesis
      by (cases bs) (simp_all add: and_then_Ok_iff byte_eq_pair conj_ac)
  next
    case False
    then show ?thesis by auto
  qed
qed auto

lemma decode_pairs_Err: "decode_pairs t = Err e \<Longrightarrow> e = NotHex"
  by (induction t rule: decode_pairs.induct) (auto simp: and_then_Err_iff split: if_splits)

lemma decode_bytes_Ok_iff:
  "decode_bytes t = Ok bs \<longleftrightarrow>
     even (length t) \<and> list_all is_ascii_hexdigit t \<and> encode bs = map to_lower t"
  by (auto simp: decode_bytes_def decode_pairs_Ok_iff)

lemma decode_bytes_encode [simp]: "decode_bytes (encode bs) = Ok bs"
  by (simp add: decode_bytes_def)

lemma decode_bytes_Err: "decode_bytes t = Err e \<Longrightarrow> e = NotHex"
  by (auto simp: decode_bytes_def dest: decode_pairs_Err split: if_splits)

lemma decode_bytes_length: "decode_bytes t = Ok bs \<Longrightarrow> length t = 2 * length bs"
  by (metis decode_bytes_Ok_iff length_encode length_map)

lemma decode_encode [simp]: "length bs = n \<Longrightarrow> decode n (encode bs) = Ok bs"
  by (simp add: decode_def)

lemma decode_length: "decode n t = Ok bs \<Longrightarrow> length bs = n"
  by (auto simp: decode_def dest: decode_bytes_length split: if_splits)

section \<open>Properties\<close>

text \<open>
  The fixed-width decoder answers exactly the right byte string: \<open>decode n\<close> succeeds with
  \<open>bs\<close> if and only if the text is \<open>2 n\<close> hex digits of either case whose lowercase form is what
  \<open>encode\<close> writes for \<open>bs\<close>. In particular every encoding decodes to itself.
\<close>

theorem decode_exact:
  "decode n t = Ok bs \<longleftrightarrow>
     length t = 2 * n \<and> list_all is_ascii_hexdigit t \<and> encode bs = map to_lower t"
proof (cases "even (length t)")
  case True
  then have "length t div 2 = n \<longleftrightarrow> length t = 2 * n" by auto
  with True show ?thesis by (auto simp: decode_def decode_bytes_Ok_iff)
qed (auto simp: decode_def)

lemma encode_hexdigits: "c \<in> set (encode b) \<Longrightarrow> is_ascii_hexdigit c"
  by (induction b) auto

lemma encode_visible: "c \<in> set (encode b) \<Longrightarrow> 33 \<le> code c \<and> code c < 127 \<and> c \<noteq> CHR '',''"
proof -
  assume "c \<in> set (encode b)"
  then have "is_ascii_hexdigit c" by (rule encode_hexdigits)
  then show ?thesis by (auto simp: is_ascii_hexdigit_def is_digit_def)
qed

end
