(* ===== verification/Codec.thy ===== *)
theory Codec
  imports Strings
begin

text \<open>
  The contract of a textual form: a renderer and a strict reader, the reader accepting exactly what
  the renderer writes. The archive key, the agent id, the payload kind and hex all have it, and what
  follows from it (injectivity, no second spelling) is proved here once.
\<close>

locale codec =
  fixes valid :: "'a \<Rightarrow> bool"
    and render :: "'a \<Rightarrow> string"
    and parse :: "string \<Rightarrow> 'a option"
  assumes parse_render: "valid x \<Longrightarrow> parse (render x) = Some x"
    and parse_sound: "parse s = Some x \<Longrightarrow> valid x \<and> render x = s"
begin

lemma parse_iff: "parse s = Some x \<longleftrightarrow> valid x \<and> s = render x"
  using parse_render parse_sound by blast

lemma render_inj: "valid x \<Longrightarrow> valid y \<Longrightarrow> render x = render y \<longleftrightarrow> x = y"
  by (metis option.inject parse_render)

lemma parse_inj: "parse s = Some x \<Longrightarrow> parse t = Some x \<Longrightarrow> s = t"
  using parse_sound by metis

lemma parse_range: "(\<exists>x. parse s = Some x) \<longleftrightarrow> s \<in> render ` {x. valid x}"
  using parse_iff by blast

end

text \<open>A reader answering a \<open>Result\<close>, as the contract sees it.\<close>

definition accepted :: "('e, 'a) result \<Rightarrow> 'a option" where
  "accepted r = (case r of Inl e \<Rightarrow> None | Inr x \<Rightarrow> Some x)"

lemma accepted_simps [simp]:
  "accepted (Inl e) = None" "accepted (Inr x) = Some x"
  "accepted r = Some x \<longleftrightarrow> r = Inr x" "accepted r = None \<longleftrightarrow> (\<exists>e. r = Inl e)"
  by (cases r; simp add: accepted_def)+

end
