(* ===== verification/Agent_Id.thy ===== *)
theory Agent_Id
  imports Codec
begin

text \<open>
  The agent id of \<open>metsuke-wire/src/envelope.rs\<close> (\<open>AgentId\<close>): \<open>slugify\<close> folds any host name into
  dash-separated runs of lowercase letters and digits, \<open>parse\<close> accepts only what it emits.
\<close>

type_synonym agent_id = string

datatype agent_id_error = Nameless string | NotASlug string

abbreviation dash :: char where "dash \<equiv> CHR ''-''"

text \<open>One character of the name: \<open>to_ascii_lowercase\<close>, kept when ASCII alphanumeric.\<close>

definition fold_char :: "uchar \<Rightarrow> char" where
  "fold_char g =
     (case g of
        [c] \<Rightarrow> let lowered = to_lower c in if is_alphanumeric lowered then lowered else dash
      | _ \<Rightarrow> dash)"

definition slugify :: "string \<Rightarrow> (agent_id_error, agent_id) result" where
  "slugify name =
     (let dashed = map fold_char (chars_of name);
          slug = join_with dash (filter (\<lambda>run. run \<noteq> []) (split_on dash dashed))
      in if slug = [] then Err (Nameless name) else Ok slug)"

definition parse_agent_id :: "string \<Rightarrow> (agent_id_error, agent_id) result" where
  "parse_agent_id text =
     (case slugify text of
        Inr slug \<Rightarrow> if slug = text then Ok slug else Err (NotASlug text)
      | Inl e \<Rightarrow> Err (NotASlug text))"

section \<open>What a slug is\<close>

definition is_slug_char :: "char \<Rightarrow> bool" where
  "is_slug_char c \<longleftrightarrow> is_digit c \<or> is_lower c"

definition is_slug :: "string \<Rightarrow> bool" where
  "is_slug s \<longleftrightarrow> (\<forall>run \<in> set (split_on dash s). run \<noteq> [] \<and> list_all is_slug_char run)"

lemma dash_not_slug_char [simp]: "\<not> is_slug_char dash"
  by (simp add: is_slug_char_def is_digit_def is_lower_def)

lemma slug_char_ascii: "is_slug_char c \<Longrightarrow> code c < 128"
  by (auto simp: is_slug_char_def is_digit_def is_lower_def)

lemma to_lower_slug_char [simp]: "is_slug_char c \<Longrightarrow> to_lower c = c"
  by (auto simp: is_slug_char_def is_digit_def is_lower_def to_lower_def is_upper_def)

lemma alphanumeric_lower: "is_alphanumeric (to_lower c) \<longleftrightarrow> is_slug_char (to_lower c)"
  by (auto simp: is_alphanumeric_def is_slug_char_def is_digit_def is_lower_def is_upper_def
      to_lower_def)

lemma fold_char_cases: "fold_char g = dash \<or> is_slug_char (fold_char g)"
  by (auto simp: fold_char_def Let_def alphanumeric_lower split: list.splits)

lemma fold_char_slug_char [simp]: "is_slug_char c \<Longrightarrow> fold_char [c] = c"
  by (auto simp: fold_char_def Let_def is_alphanumeric_def is_slug_char_def)

lemma fold_char_dash [simp]: "fold_char [dash] = dash"
  by (simp add: fold_char_def Let_def is_alphanumeric_def to_lower_def is_digit_def is_lower_def
      is_upper_def)

lemma set_slug: "is_slug s \<Longrightarrow> c \<in> set s \<Longrightarrow> c = dash \<or> is_slug_char c"
proof -
  assume s: "is_slug s" and c: "c \<in> set s"
  have "set s = set (join_with dash (split_on dash s))" by simp
  also have "\<dots> \<subseteq> insert dash (\<Union> (set ` set (split_on dash s)))" by (rule set_join_with)
  finally show ?thesis using s c by (auto simp: is_slug_def list_all_iff)
qed

lemma slug_no_slash: "is_slug s \<Longrightarrow> CHR ''/'' \<notin> set s"
  by (auto dest!: set_slug simp: is_slug_char_def is_digit_def is_lower_def)

lemma slug_neq_Nil: "is_slug s \<Longrightarrow> s \<noteq> []"
  by (auto simp: is_slug_def)

lemma join_with_eq_Nil: "(\<And>p. p \<in> set ps \<Longrightarrow> p \<noteq> []) \<Longrightarrow> join_with c ps = [] \<longleftrightarrow> ps = []"
  by (cases ps rule: remdups_adj.cases) auto

lemma filter_all_id: "(\<And>x. x \<in> set xs \<Longrightarrow> P x) \<Longrightarrow> filter P xs = xs"
  by (induction xs) auto

section \<open>Correctness\<close>

lemma slugify_is_slug: "slugify name = Ok s \<Longrightarrow> is_slug s"
proof -
  define runs where
    "runs = filter (\<lambda>run. run \<noteq> []) (split_on dash (map fold_char (chars_of name)))"
  assume "slugify name = Ok s"
  then have s: "s = join_with dash runs" "s \<noteq> []"
    by (auto simp: slugify_def runs_def Let_def split: if_splits)
  have chars: "is_slug_char c" if p: "p \<in> set runs" and c: "c \<in> set p" for p c
  proof -
    from p have p': "p \<in> set (split_on dash (map fold_char (chars_of name)))"
      by (simp add: runs_def)
    with c have "c \<in> set (map fold_char (chars_of name))" and "c \<noteq> dash"
      using set_split_on [OF p'] split_on_pieces [OF p'] by auto
    then show ?thesis using fold_char_cases by auto
  qed
  have "runs \<noteq> []" using s by auto
  moreover have "dash \<notin> set p" if "p \<in> set runs" for p
    using chars [OF that] dash_not_slug_char by blast
  ultimately have "split_on dash s = runs"
    unfolding s(1) by (rule split_join)
  then show "is_slug s"
    using chars by (simp add: is_slug_def list_all_iff) (simp add: runs_def)
qed

lemma slugify_slug: "is_slug s \<Longrightarrow> slugify s = Ok s"
proof -
  assume s: "is_slug s"
  have "chars_of s = map (\<lambda>c. [c]) s"
    using s by (intro chars_of_ascii) (auto dest!: set_slug intro: slug_char_ascii)
  then have dashed: "map fold_char (chars_of s) = s"
    using s by (auto simp: comp_def intro!: map_idI dest!: set_slug)
  have "filter (\<lambda>run. run \<noteq> []) (split_on dash s) = split_on dash s"
    using s by (intro filter_all_id) (auto simp: is_slug_def)
  with s dashed show ?thesis by (simp add: slugify_def Let_def slug_neq_Nil)
qed

lemma parse_agent_id_Ok_iff: "parse_agent_id t = Ok s \<longleftrightarrow> s = t \<and> is_slug t"
proof
  assume "parse_agent_id t = Ok s"
  then show "s = t \<and> is_slug t"
    by (auto simp: parse_agent_id_def dest: slugify_is_slug split: sum.splits if_splits)
next
  assume "s = t \<and> is_slug t"
  then show "parse_agent_id t = Ok s" by (simp add: parse_agent_id_def slugify_slug)
qed

interpretation agent_id: codec is_slug "\<lambda>s. s" "\<lambda>t. accepted (parse_agent_id t)"
  by unfold_locales (auto simp: parse_agent_id_Ok_iff)

text \<open>
  \<open>parse\<close> accepts exactly the ids \<open>slugify\<close> makes: a text parses (and then to itself) if and
  only if it is the slug of some name, and a slug is its own slug.
\<close>

theorem agent_id_parse_range:
  "parse_agent_id t = Ok s \<longleftrightarrow> s = t \<and> (\<exists>name. slugify name = Ok t)"
  using parse_agent_id_Ok_iff slugify_is_slug slugify_slug by blast

end
