(* ===== verification/Leios.thy ===== *)
theory Leios
  imports Prelude
begin

text \<open>
  \<open>metsuke-wire/src/leios.rs\<close>: the BLS12-381 key a submission may be signed with. The \<open>blst\<close> library
  is a parameter, a \<open>bls_lib\<close>. A key or a signature the library validated is named by its
  compressed encoding, which is what \<open>to_bytes\<close> gives back.
\<close>

type_synonym bytes = string

text \<open>\<open>blst::BLST_ERROR\<close>, of which the code tells success from the rest.\<close>

datatype blst_error = BLST_SUCCESS | BLST_FAILURE nat

text \<open>
  The calls the code makes on \<open>blst::min_sig\<close>: \<open>PublicKey::key_validate\<close>,
  \<open>Signature::sig_validate(_, infcheck)\<close>, \<open>Signature::verify(sig_groupcheck, msg, dst, aug, pk,
  pk_validate)\<close>, \<open>SecretKey::from_bytes\<close>, \<open>sk_to_pk\<close> and \<open>sign(msg, dst, aug)\<close>.
\<close>

record bls_lib =
  key_validate :: "bytes \<Rightarrow> blst_error"
  sig_validate :: "bytes \<Rightarrow> bool \<Rightarrow> blst_error"
  bls_verify :: "bytes \<Rightarrow> bool \<Rightarrow> bytes \<Rightarrow> bytes \<Rightarrow> bytes \<Rightarrow> bytes \<Rightarrow> bool \<Rightarrow> blst_error"
  secret_key_validate :: "bytes \<Rightarrow> blst_error"
  sk_to_pk :: "bytes \<Rightarrow> bytes"
  bls_sign :: "bytes \<Rightarrow> bytes \<Rightarrow> bytes \<Rightarrow> bytes \<Rightarrow> bytes"

definition DST :: bytes where
  "DST = ''METSUKE_SUBMISSION_V1_BLS_SIG_BLS12381G1_XMD:SHA-256_SSWU_RO_POP_''"

definition PUBLIC_KEY_BYTES :: nat where "PUBLIC_KEY_BYTES = 96"
definition LEIOS_SIGNATURE_BYTES :: nat where "LEIOS_SIGNATURE_BYTES = 48"
definition SIGNING_KEY_BYTES :: nat where "SIGNING_KEY_BYTES = 32"

lemmas leios_sizes = PUBLIC_KEY_BYTES_def LEIOS_SIGNATURE_BYTES_def SIGNING_KEY_BYTES_def

record leios_key_error =
  lk_what :: string
  lk_reason :: blst_error

definition refuse :: "string \<Rightarrow> blst_error \<Rightarrow> leios_key_error" where
  "refuse w r = \<lparr>lk_what = w, lk_reason = r\<rparr>"

datatype leios_public_key = LeiosPublicKey (public_key_bytes: bytes)
datatype leios_signature = LeiosSignature (leios_signature_bytes: bytes)
datatype leios_signing_key = LeiosSigningKey (signing_key_bytes: bytes)

definition public_key_from_bytes ::
  "bls_lib \<Rightarrow> bytes \<Rightarrow> (leios_key_error, leios_public_key) result" where
  "public_key_from_bytes B b =
     (case key_validate B b of
        BLST_SUCCESS \<Rightarrow> Ok (LeiosPublicKey b)
      | r \<Rightarrow> Err (refuse ''verification key'' r))"

definition signature_from_bytes ::
  "bls_lib \<Rightarrow> bytes \<Rightarrow> (leios_key_error, leios_signature) result" where
  "signature_from_bytes B b =
     (case sig_validate B b True of
        BLST_SUCCESS \<Rightarrow> Ok (LeiosSignature b)
      | r \<Rightarrow> Err (refuse ''signature'' r))"

definition leios_verifies ::
  "bls_lib \<Rightarrow> leios_signature \<Rightarrow> bytes \<Rightarrow> leios_public_key \<Rightarrow> bool" where
  "leios_verifies B s message key =
     (bls_verify B (leios_signature_bytes s) True message DST [] (public_key_bytes key) True
      = BLST_SUCCESS)"

definition signing_key_from_bytes ::
  "bls_lib \<Rightarrow> bytes \<Rightarrow> (leios_key_error, leios_signing_key) result" where
  "signing_key_from_bytes B b =
     (case secret_key_validate B b of
        BLST_SUCCESS \<Rightarrow> Ok (LeiosSigningKey b)
      | r \<Rightarrow> Err (refuse ''signing key'' r))"

definition public_key :: "bls_lib \<Rightarrow> leios_signing_key \<Rightarrow> leios_public_key" where
  "public_key B k = LeiosPublicKey (sk_to_pk B (signing_key_bytes k))"

definition leios_sign :: "bls_lib \<Rightarrow> leios_signing_key \<Rightarrow> bytes \<Rightarrow> leios_signature" where
  "leios_sign B k message = LeiosSignature (bls_sign B (signing_key_bytes k) message DST [])"

text \<open>
  What \<open>blst\<close> documents of a secret key it accepted: the public key and the signatures it makes
  have the compressed sizes, pass validation, and a signature verifies under the key that made it
  and the tag it was made with.
\<close>

definition bls_lib_ok :: "bls_lib \<Rightarrow> bool" where
  "bls_lib_ok B \<longleftrightarrow>
     (\<forall>k. secret_key_validate B k = BLST_SUCCESS \<longrightarrow>
        length (sk_to_pk B k) = 96 \<and> key_validate B (sk_to_pk B k) = BLST_SUCCESS
        \<and> (\<forall>m d. length (bls_sign B k m d []) = 48
             \<and> sig_validate B (bls_sign B k m d []) True = BLST_SUCCESS
             \<and> bls_verify B (bls_sign B k m d []) True m d [] (sk_to_pk B k) True = BLST_SUCCESS))"

lemma public_key_from_bytes_Ok [simp]:
  "public_key_from_bytes B b = Ok k \<longleftrightarrow> key_validate B b = BLST_SUCCESS \<and> k = LeiosPublicKey b"
  by (auto simp: public_key_from_bytes_def split: blst_error.splits)

lemma signature_from_bytes_Ok [simp]:
  "signature_from_bytes B b = Ok s \<longleftrightarrow> sig_validate B b True = BLST_SUCCESS \<and> s = LeiosSignature b"
  by (auto simp: signature_from_bytes_def split: blst_error.splits)

lemma signing_key_from_bytes_Ok [simp]:
  "signing_key_from_bytes B b = Ok k \<longleftrightarrow>
     secret_key_validate B b = BLST_SUCCESS \<and> k = LeiosSigningKey b"
  by (auto simp: signing_key_from_bytes_def split: blst_error.splits)

end
