(* ===== verification/Pool_Id.thy ===== *)
theory Pool_Id
  imports Hex Leios Codec
begin

text \<open>
  The pool id of \<open>metsuke-wire/src/envelope.rs\<close> (\<open>PoolId\<close>): 28 bytes, bech32 on the wire, hex in the
  chain's tooling, and the blake2b-224 hash of a cold key. The \<open>bech32\<close> crate is a parameter.
\<close>

datatype pool_id = PoolId (as_hash: bytes)

instantiation pool_id :: linorder
begin

text \<open>The derived \<open>Ord\<close>: the bytes, lexicographically.\<close>

definition less_eq_pool_id :: "pool_id \<Rightarrow> pool_id \<Rightarrow> bool" where
  "less_eq_pool_id p q \<longleftrightarrow> as_hash p \<le> as_hash q"

definition less_pool_id :: "pool_id \<Rightarrow> pool_id \<Rightarrow> bool" where
  "less_pool_id p q \<longleftrightarrow> as_hash p < as_hash q"

instance
  by standard (auto simp: less_eq_pool_id_def less_pool_id_def pool_id.expand)

end

definition POOL_HRP :: string where "POOL_HRP = ''pool''"

text \<open>
  The two calls on the \<open>bech32\<close> crate: \<open>CheckedHrpstring::new\<close>, answering the human-readable prefix and
  the payload bytes or why the text is no bech32, and \<open>bech32::encode\<close>.
\<close>

record bech32_lib =
  checked_hrpstring :: "string \<Rightarrow> (string, string \<times> bytes) result"
  bech32_encode :: "string \<Rightarrow> bytes \<Rightarrow> string"

datatype pool_id_error =
    Bech32 string
  | WrongHrp string
  | PoolWrongLength nat
  | PoolHex hex_error

definition from_bech32 :: "bech32_lib \<Rightarrow> string \<Rightarrow> (pool_id_error, pool_id) result" where
  "from_bech32 L s =
     and_then (map_err Bech32 (checked_hrpstring L s)) (\<lambda>(hrp, payload).
       if hrp \<noteq> POOL_HRP then Err (WrongHrp hrp)
       else if length payload = 28 then Ok (PoolId payload)
       else Err (PoolWrongLength (length payload)))"

definition from_hex :: "string \<Rightarrow> (pool_id_error, pool_id) result" where
  "from_hex text = and_then (map_err PoolHex (decode 28 text)) (\<lambda>b. Ok (PoolId b))"

definition to_bech32 :: "bech32_lib \<Rightarrow> pool_id \<Rightarrow> string" where
  "to_bech32 L p = bech32_encode L POOL_HRP (as_hash p)"

text \<open>A held pool id is a real 28-byte hash: the invariant every constructor establishes.\<close>

definition pool_id_wf :: "pool_id \<Rightarrow> bool" where
  "pool_id_wf p \<longleftrightarrow> length (as_hash p) = 28"

lemma from_bech32_wf: "from_bech32 L s = Ok p \<Longrightarrow> pool_id_wf p"
  by (auto simp: from_bech32_def and_then_Ok_iff pool_id_wf_def split: if_splits)

lemma from_hex_wf: "from_hex s = Ok p \<Longrightarrow> pool_id_wf p"
  by (auto simp: from_hex_def and_then_Ok_iff pool_id_wf_def dest: decode_length)

text \<open>
  What the \<open>bech32\<close> crate documents, for the prefix this code uses: a 28-byte payload is within the
  length limit and decodes to what was encoded; the encoding is lowercase ASCII letters and digits
  with no dash; and, for a text in lowercase, encoding what was decoded gives the text back.
\<close>

definition bech32_ok :: "bech32_lib \<Rightarrow> bool" where
  "bech32_ok L \<longleftrightarrow>
     (\<forall>b. length b = 28 \<longrightarrow>
        checked_hrpstring L (bech32_encode L ''pool'' b) = Ok (''pool'', b)
        \<and> CHR ''-'' \<notin> set (bech32_encode L ''pool'' b)
        \<and> CHR ''/'' \<notin> set (bech32_encode L ''pool'' b))"

lemma from_bech32_to_bech32: "bech32_ok L \<Longrightarrow> pool_id_wf p \<Longrightarrow> from_bech32 L (to_bech32 L p) = Ok p"
  by (simp add: bech32_ok_def from_bech32_def to_bech32_def POOL_HRP_def pool_id_wf_def)

lemma to_bech32_inj:
  "bech32_ok L \<Longrightarrow> pool_id_wf p \<Longrightarrow> pool_id_wf q \<Longrightarrow> to_bech32 L p = to_bech32 L q \<longleftrightarrow> p = q"
  by (metis from_bech32_to_bech32 sum.inject(2))

lemma from_hex_Ok_iff:
  "from_hex t = Ok p \<longleftrightarrow>
     length t = 56 \<and> list_all is_ascii_hexdigit t \<and> encode (as_hash p) = map to_lower t"
  by (cases p) (auto simp: from_hex_def and_then_Ok_iff decode_bytes_Ok_iff decode_def)

end
