(* ===== verification/Json.thy ===== *)
theory Json
  imports Pool_Id Agent_Id
begin

text \<open>
  The values \<open>serde_json\<close> reads and writes for the program, and the library itself as a parameter
  (\<open>json_lib\<close>): one entry per type the code serialises or parses. The types that travel are the
  provenance, the header frame, the scrape and the trace line of \<open>metsuke-wire/src/envelope.rs\<close>.

  An instant is the number of nanoseconds since the Unix epoch, UTC.
\<close>

type_synonym instant = int

text \<open>\<open>serde_json::Value\<close>; a number keeps its own text.\<close>

datatype json =
    JNull
  | JBool bool
  | JNumber string
  | JString string
  | JArray "json list"
  | JObject "(string \<times> json) list"

type_synonym json_object = "(string \<times> json) list"

definition PROVENANCE_KEY :: string where "PROVENANCE_KEY = ''metsuke''"

record provenance =
  pv_pool :: pool_id
  pv_agent :: agent_id

record header =
  h_schema_version :: nat
  h_provenance :: provenance
  h_agent_version :: string
  h_counter :: nat
  h_timestamp :: instant

datatype failure_reason = Unreachable | FailureRefused | TooLargeBody | Unreadable

record failure =
  f_reason :: failure_reason
  f_detail :: string

record metric =
  m_name :: string
  m_labels :: "(string \<times> string) list"
  m_value :: string
  m_declared_type :: "string option"

record scrape =
  scraped_at :: instant
  clock_offset_ms :: "int option"
  scrape_failure :: "failure option"
  metrics :: "metric list"

text \<open>A trace line the node wrote: a JSON object with no reserved key in it.\<close>

datatype trace_line = TraceLine (line_fields: json_object)

datatype trace_line_error = NotAnObject string | ReservedKey

text \<open>
  \<open>serde_json::to_vec\<close> and \<open>from_slice\<close> of the header, \<open>from_slice\<close> of its version alone
  (\<open>SchemaVersionPeek\<close>), \<open>from_str\<close> of a line's stamp alone (\<open>StampPeek\<close>), the two stamped
  renderings (\<open>Stamped\<close>), and a line as a JSON object and back.
\<close>

record json_lib =
  header_to_vec :: "header \<Rightarrow> (string, bytes) result"
  header_from_slice :: "bytes \<Rightarrow> (string, header) result"
  schema_version_peek :: "bytes \<Rightarrow> (string, nat) result"
  stamp_peek :: "string \<Rightarrow> (string, provenance) result"
  stamp_scrape :: "scrape \<Rightarrow> provenance \<Rightarrow> (string, string) result"
  stamp_object :: "json_object \<Rightarrow> provenance \<Rightarrow> (string, string) result"
  unstamp_scrape :: "string \<Rightarrow> (string, scrape) result"
  unstamp_object :: "string \<Rightarrow> (string, json_object) result"
  object_from_str :: "string \<Rightarrow> (string, json_object) result"
  object_to_string :: "json_object \<Rightarrow> string"

text \<open>
  What \<open>serde_json\<close> documents of these: a header reads back as itself, its version too; a stamped
  line is one line of valid UTF-8 and its stamp reads back.
\<close>

definition json_ok :: "json_lib \<Rightarrow> bool" where
  "json_ok J \<longleftrightarrow>
     (\<forall>h b. header_to_vec J h = Ok b \<longrightarrow>
        header_from_slice J b = Ok h \<and> schema_version_peek J b = Ok (h_schema_version h))
     \<and> (\<forall>s p t. stamp_scrape J s p = Ok t \<longrightarrow> stamp_peek J t = Ok p \<and> CHR 0x0A \<notin> set t)
     \<and> (\<forall>l p t. stamp_object J l p = Ok t \<longrightarrow> stamp_peek J t = Ok p \<and> CHR 0x0A \<notin> set t)"

text \<open>\<open>TraceLine::parse\<close>, \<open>to_line\<close> and \<open>get\<close>.\<close>

definition trace_line_of :: "json_object \<Rightarrow> (trace_line_error, trace_line) result" where
  "trace_line_of obj =
     (if map_of obj PROVENANCE_KEY \<noteq> None then Err ReservedKey else Ok (TraceLine obj))"

definition trace_line_parse :: "json_lib \<Rightarrow> string \<Rightarrow> (trace_line_error, trace_line) result" where
  "trace_line_parse J line =
     and_then (map_err NotAnObject (object_from_str J line)) trace_line_of"

definition trace_line_to_line :: "json_lib \<Rightarrow> trace_line \<Rightarrow> string" where
  "trace_line_to_line J l = object_to_string J (line_fields l)"

definition trace_line_get :: "trace_line \<Rightarrow> string \<Rightarrow> json option" where
  "trace_line_get l key = map_of (line_fields l) key"

definition trace_line_wf :: "trace_line \<Rightarrow> bool" where
  "trace_line_wf l \<longleftrightarrow> trace_line_get l PROVENANCE_KEY = None"

lemma trace_line_parse_wf: "trace_line_parse J s = Ok l \<Longrightarrow> trace_line_wf l"
  by (auto simp: trace_line_parse_def and_then_Ok_iff trace_line_of_def trace_line_wf_def
      trace_line_get_def split: if_splits)

text \<open>\<open>Reason::ALL\<close> is the chain \<open>after\<close> walks from its first case: the crate's const assertion.\<close>

definition reason_all :: "failure_reason list" where
  "reason_all = [Unreachable, FailureRefused, TooLargeBody, Unreadable]"

fun reason_after :: "failure_reason \<Rightarrow> failure_reason option" where
  "reason_after Unreachable = Some FailureRefused"
| "reason_after FailureRefused = Some TooLargeBody"
| "reason_after TooLargeBody = Some Unreadable"
| "reason_after Unreadable = None"

lemma reason_all_chain: "map reason_after reason_all = map Some (tl reason_all) @ [None]"
  by (simp add: reason_all_def)

lemma reason_all_complete: "set reason_all = UNIV"
  by (auto simp: reason_all_def) (metis failure_reason.exhaust)

end
