(* ===== verification/Attestation.thy ===== *)
theory Attestation
  imports Pool_Id
begin

text \<open>
  \<open>metsuke-wire/src/envelope.rs\<close>: the key-and-signature pair of a submission (\<open>Attestation\<close>), its
  decoder, its headers, and the key that makes it (\<open>SubmissionKey\<close>). Ed25519 (\<open>ed25519_dalek\<close>) and
  blake2b are parameters, beside the BLS library of Leios.
\<close>

record crypto =
  bls :: bls_lib
  vkey_reject :: "bytes \<Rightarrow> string option"
  verify_strict :: "bytes \<Rightarrow> bytes \<Rightarrow> bytes \<Rightarrow> bool"
  ed_verifying_key :: "bytes \<Rightarrow> bytes"
  ed_sign :: "bytes \<Rightarrow> bytes \<Rightarrow> bytes"
  blake2b_224 :: "bytes \<Rightarrow> bytes"
  blake2b_64 :: "bytes \<Rightarrow> bytes"

datatype verifying_key = VerifyingKey (vkey_bytes: bytes)
datatype ed_signature = Signature (ed_signature_bytes: bytes)
datatype signing_key = SigningKey (seed: bytes)

definition HEADER_VKEY :: string where "HEADER_VKEY = ''x-metsuke-vkey''"
definition HEADER_SIGNATURE :: string where "HEADER_SIGNATURE = ''x-metsuke-signature''"
definition HEADER_POOL :: string where "HEADER_POOL = ''x-metsuke-pool''"
definition VKEY_BYTES :: nat where "VKEY_BYTES = 32"
definition SIGNATURE_BYTES :: nat where "SIGNATURE_BYTES = 64"

lemmas scheme_sizes = VKEY_BYTES_def SIGNATURE_BYTES_def leios_sizes

datatype attestation =
    ColdKey verifying_key ed_signature
  | LeiosKey leios_public_key leios_signature

datatype attestation_error =
    Missing string
  | AttestationNotHex string
  | NoSuchScheme nat nat
  | Vkey string
  | LeiosError leios_key_error

datatype attested = AttestedNone | Pair attestation | Malformed attestation_error

definition vkey_from_bytes :: "crypto \<Rightarrow> bytes \<Rightarrow> (string, verifying_key) result" where
  "vkey_from_bytes C b =
     (case vkey_reject C b of None \<Rightarrow> Ok (VerifyingKey b) | Some reason \<Rightarrow> Err reason)"

definition from_cold_key :: "crypto \<Rightarrow> verifying_key \<Rightarrow> pool_id" where
  "from_cold_key C k = PoolId (blake2b_224 C (vkey_bytes k))"

fun key_bytes :: "attestation \<Rightarrow> bytes" where
  "key_bytes (ColdKey vkey _) = vkey_bytes vkey"
| "key_bytes (LeiosKey key _) = public_key_bytes key"

fun signature_bytes :: "attestation \<Rightarrow> bytes" where
  "signature_bytes (ColdKey _ sig) = ed_signature_bytes sig"
| "signature_bytes (LeiosKey _ sig) = leios_signature_bytes sig"

definition headers :: "attestation \<Rightarrow> (string \<times> string) list" where
  "headers a = [(HEADER_VKEY, encode (key_bytes a)), (HEADER_SIGNATURE, encode (signature_bytes a))]"

fun attributes :: "crypto \<Rightarrow> attestation \<Rightarrow> pool_id option" where
  "attributes C (ColdKey vkey _) = Some (from_cold_key C vkey)"
| "attributes C (LeiosKey _ _) = None"

fun verifies :: "crypto \<Rightarrow> attestation \<Rightarrow> bytes \<Rightarrow> bool" where
  "verifies C (ColdKey vkey sig) message =
     verify_strict C (vkey_bytes vkey) message (ed_signature_bytes sig)"
| "verifies C (LeiosKey key sig) message = leios_verifies (bls C) sig message key"

definition decode_hex :: "string option \<Rightarrow> string \<Rightarrow> (attestation_error, bytes) result" where
  "decode_hex v header =
     and_then (ok_or (Missing header) v) (\<lambda>t. map_err (\<lambda>_. AttestationNotHex header) (decode_bytes t))"

text \<open>The \<open>match\<close> on the two widths.\<close>

definition by_scheme :: "crypto \<Rightarrow> bytes \<Rightarrow> bytes \<Rightarrow> (attestation_error, attestation) result" where
  "by_scheme C k s =
     (if length k = VKEY_BYTES \<and> length s = SIGNATURE_BYTES then
        and_then (map_err Vkey (vkey_from_bytes C k)) (\<lambda>vk. Ok (ColdKey vk (Signature s)))
      else if length k = PUBLIC_KEY_BYTES \<and> length s = LEIOS_SIGNATURE_BYTES then
        and_then (map_err LeiosError (public_key_from_bytes (bls C) k)) (\<lambda>key.
        and_then (map_err LeiosError (signature_from_bytes (bls C) s)) (\<lambda>sig.
          Ok (LeiosKey key sig)))
      else Err (NoSuchScheme (length k) (length s)))"

definition attestation_decode ::
  "crypto \<Rightarrow> string option \<Rightarrow> string option \<Rightarrow> (attestation_error, attestation) result" where
  "attestation_decode C vkey signature =
     and_then (decode_hex vkey HEADER_VKEY) (\<lambda>k.
     and_then (decode_hex signature HEADER_SIGNATURE) (\<lambda>s. by_scheme C k s))"

definition from_headers :: "crypto \<Rightarrow> string option \<Rightarrow> string option \<Rightarrow> attested" where
  "from_headers C vkey signature =
     (case (vkey, signature) of
        (None, None) \<Rightarrow> AttestedNone
      | (v, s) \<Rightarrow> (case attestation_decode C v s of Inr pair \<Rightarrow> Pair pair | Inl e \<Rightarrow> Malformed e))"

section \<open>The key an agent signs with\<close>

datatype submission_key = ColdSigningKey signing_key | LeiosSubmissionKey leios_signing_key

fun attest :: "crypto \<Rightarrow> submission_key \<Rightarrow> bytes \<Rightarrow> attestation" where
  "attest C (ColdSigningKey k) wire =
     ColdKey (VerifyingKey (ed_verifying_key C (seed k))) (Signature (ed_sign C (seed k) wire))"
| "attest C (LeiosSubmissionKey k) wire =
     LeiosKey (public_key (bls C) k) (leios_sign (bls C) k wire)"

fun key_attributes :: "crypto \<Rightarrow> submission_key \<Rightarrow> pool_id option" where
  "key_attributes C (ColdSigningKey k) =
     Some (from_cold_key C (VerifyingKey (ed_verifying_key C (seed k))))"
| "key_attributes C (LeiosSubmissionKey _) = None"

fun public_key_hex :: "crypto \<Rightarrow> submission_key \<Rightarrow> string" where
  "public_key_hex C (ColdSigningKey k) = encode (ed_verifying_key C (seed k))"
| "public_key_hex C (LeiosSubmissionKey k) = encode (public_key_bytes (public_key (bls C) k))"

section \<open>Well-formed pairs\<close>

text \<open>
  A pair the decoder can make: the lengths of one scheme, and bytes the libraries accept.
\<close>

fun attestation_wf :: "crypto \<Rightarrow> attestation \<Rightarrow> bool" where
  "attestation_wf C (ColdKey k s) \<longleftrightarrow>
     length (vkey_bytes k) = 32 \<and> length (ed_signature_bytes s) = 64 \<and> vkey_reject C (vkey_bytes k) = None"
| "attestation_wf C (LeiosKey k s) \<longleftrightarrow>
     length (public_key_bytes k) = 96 \<and> length (leios_signature_bytes s) = 48
     \<and> key_validate (bls C) (public_key_bytes k) = BLST_SUCCESS
     \<and> sig_validate (bls C) (leios_signature_bytes s) True = BLST_SUCCESS"

text \<open>What \<open>ed25519_dalek\<close> and blake2b document of the keys and digests they make.\<close>

definition crypto_ok :: "crypto \<Rightarrow> bool" where
  "crypto_ok C \<longleftrightarrow> bls_lib_ok (bls C)
     \<and> (\<forall>k. length k = 32 \<longrightarrow>
          length (ed_verifying_key C k) = 32 \<and> vkey_reject C (ed_verifying_key C k) = None
          \<and> (\<forall>m. length (ed_sign C k m) = 64 \<and> verify_strict C (ed_verifying_key C k) m (ed_sign C k m)))
     \<and> (\<forall>b. length (blake2b_224 C b) = 28)"

fun submission_key_wf :: "crypto \<Rightarrow> submission_key \<Rightarrow> bool" where
  "submission_key_wf C (ColdSigningKey k) \<longleftrightarrow> length (seed k) = 32"
| "submission_key_wf C (LeiosSubmissionKey k) \<longleftrightarrow>
     secret_key_validate (bls C) (signing_key_bytes k) = BLST_SUCCESS"

lemma vkey_from_bytes_Ok [simp]:
  "vkey_from_bytes C b = Ok k \<longleftrightarrow> vkey_reject C b = None \<and> k = VerifyingKey b"
  by (auto simp: vkey_from_bytes_def split: option.splits)

lemma decode_hex_Ok:
  "decode_hex v h = Ok b \<longleftrightarrow> (\<exists>t. v = Some t \<and> decode_bytes t = Ok b)"
  by (auto simp: decode_hex_def and_then_Ok_iff)

lemma by_scheme_Ok:
  "by_scheme C k s = Ok a \<longleftrightarrow> attestation_wf C a \<and> key_bytes a = k \<and> signature_bytes a = s"
proof (cases a)
  case (ColdKey vk sig)
  then show ?thesis
    by (cases vk; cases sig) (auto simp: by_scheme_def and_then_Ok_iff scheme_sizes)
next
  case (LeiosKey key sig)
  then show ?thesis
    by (cases key; cases sig) (auto simp: by_scheme_def and_then_Ok_iff scheme_sizes)
qed

lemma attestation_decode_Ok:
  "attestation_decode C v s = Ok a \<longleftrightarrow>
     attestation_wf C a \<and>
     (\<exists>vt st. v = Some vt \<and> s = Some st \<and> decode_bytes vt = Ok (key_bytes a)
        \<and> decode_bytes st = Ok (signature_bytes a))"
  by (auto simp: attestation_decode_def and_then_Ok_iff decode_hex_Ok by_scheme_Ok)

lemma attest_wf: "crypto_ok C \<Longrightarrow> submission_key_wf C k \<Longrightarrow> attestation_wf C (attest C k m)"
  by (cases k) (auto simp: crypto_ok_def bls_lib_ok_def public_key_def leios_sign_def)

lemma attest_verifies: "crypto_ok C \<Longrightarrow> submission_key_wf C k \<Longrightarrow> verifies C (attest C k m) m"
  by (cases k)
    (auto simp: crypto_ok_def bls_lib_ok_def public_key_def leios_sign_def leios_verifies_def)

lemma attest_attributes: "attributes C (attest C k m) = key_attributes C k"
  by (cases k) auto

lemma attest_key_hex: "encode (key_bytes (attest C k m)) = public_key_hex C k"
  by (cases k) auto

lemma from_headers_Pair: "from_headers C v s = Pair a \<longleftrightarrow> attestation_decode C v s = Ok a"
  by (cases v; cases s)
    (auto simp: from_headers_def attestation_decode_def decode_hex_def split: sum.splits)


text \<open>
  The two headers a download carries decode back to the pair they were written from, and a
  pair is read off headers exactly when both are there, both are hex, and together they are the key
  and signature of one scheme: the lengths alone decide which.
\<close>

theorem headers_roundtrip:
  "from_headers C (map_of (headers a) HEADER_VKEY) (map_of (headers a) HEADER_SIGNATURE) = Pair a
     \<longleftrightarrow> attestation_wf C a"
  by (simp add: from_headers_Pair attestation_decode_Ok headers_def HEADER_VKEY_def
      HEADER_SIGNATURE_def)

text \<open>
  Three answers, not two: no pair is reported exactly when neither header is there, and half
  a pair is always malformed, naming the missing half once the half that is there reads as hex.
\<close>

theorem from_headers_three_answers:
  "(from_headers C v s = AttestedNone \<longleftrightarrow> v = None \<and> s = None)
   \<and> (from_headers C None (Some t) = Malformed (Missing HEADER_VKEY))
   \<and> (from_headers C (Some t) None =
        Malformed (case decode_bytes t of
            Inl _ \<Rightarrow> AttestationNotHex HEADER_VKEY
          | Inr _ \<Rightarrow> Missing HEADER_SIGNATURE))"
  by (cases v; cases s)
    (auto simp: from_headers_def attestation_decode_def decode_hex_def map_err_def split: sum.splits)

text \<open>A concrete instance: the library calls as functions on bytes that meet every contract.\<close>

definition demo_bls :: bls_lib where
  "demo_bls =
     \<lparr>key_validate = (\<lambda>b. if length b = 96 then BLST_SUCCESS else BLST_FAILURE 1),
      sig_validate = (\<lambda>b _. if length b = 48 then BLST_SUCCESS else BLST_FAILURE 1),
      bls_verify = (\<lambda>s _ m d _ k _.
        if s = map char_of [sum_list (map of_char (take 32 k @ m @ d)) :: nat] @ take 47 (k @ k)
        then BLST_SUCCESS else BLST_FAILURE 5),
      secret_key_validate = (\<lambda>k. if length k = 32 then BLST_SUCCESS else BLST_FAILURE 7),
      sk_to_pk = (\<lambda>k. k @ k @ k),
      bls_sign = (\<lambda>k m d _.
        map char_of [sum_list (map of_char (k @ m @ d)) :: nat] @ take 47 (k @ k @ k))\<rparr>"

definition demo_crypto :: crypto where
  "demo_crypto =
     \<lparr>bls = demo_bls,
      vkey_reject = (\<lambda>b. None),
      verify_strict = (\<lambda>k m s. s = k @ map char_of [sum_list (map of_char m) :: nat] @ take 31 k),
      ed_verifying_key = (\<lambda>k. rev k),
      ed_sign = (\<lambda>k m. rev k @ map char_of [sum_list (map of_char m) :: nat] @ take 31 (rev k)),
      blake2b_224 = (\<lambda>b. take 28 (b @ replicate 28 (CHR 0x00))),
      blake2b_64 = (\<lambda>b. take 8 (b @ replicate 8 (CHR 0x00)))\<rparr>"

lemma demo_bls_ok: "bls_lib_ok demo_bls"
  by (auto simp: bls_lib_ok_def demo_bls_def)

lemma demo_crypto_ok: "crypto_ok demo_crypto"
  by (auto simp: crypto_ok_def demo_bls_ok demo_crypto_def)

end
