(* ===== verification/Reader.thy ===== *)
theory Reader
  imports Strings
begin

text \<open>
  \<open>std::io::Read\<close> as the components use it. A source of bytes is the sequence of what its reads
  come to: pieces of data, of whatever sizes the other side delivers, or a failure. A \<open>read\<close> into a
  buffer of \<open>n\<close> bytes takes at most \<open>n\<close> of the next piece, and an empty answer is the end.
\<close>

datatype read_event = Data string | Fail string

type_synonym source = "read_event list"

fun read_some :: "nat \<Rightarrow> source \<Rightarrow> (string, string \<times> source) result" where
  "read_some n [] = Ok ([], [])"
| "read_some n (Fail e # evs) = Err e"
| "read_some n (Data b # evs) =
     (if length b \<le> n then Ok (b, evs) else Ok (take n b, Data (drop n b) # evs))"

text \<open>What the source holds before it ends or fails, and whether it failed.\<close>

fun drained :: "source \<Rightarrow> string \<times> string option" where
  "drained [] = ([], None)"
| "drained (Fail e # evs) = ([], Some e)"
| "drained (Data b # evs) =
     (if b = [] then ([], None) else (let (c, e) = drained evs in (b @ c, e)))"

fun source_size :: "source \<Rightarrow> nat" where
  "source_size [] = 0"
| "source_size (Fail e # evs) = Suc (source_size evs)"
| "source_size (Data b # evs) = Suc (length b + source_size evs)"

lemma read_some_size:
  "read_some n evs = Ok (b, evs') \<Longrightarrow> b \<noteq> [] \<Longrightarrow> source_size evs' < source_size evs"
  by (cases "(n, evs)" rule: read_some.cases) (auto split: if_splits)

lemma read_some_length: "read_some n evs = Ok (b, evs') \<Longrightarrow> length b \<le> n"
  by (cases "(n, evs)" rule: read_some.cases) (auto split: if_splits)

lemma read_some_Err: "read_some n evs = Err e \<Longrightarrow> drained evs = ([], Some e)"
  by (cases "(n, evs)" rule: read_some.cases) (auto split: if_splits)

lemma read_some_end: "0 < n \<Longrightarrow> read_some n evs = Ok ([], evs') \<Longrightarrow> drained evs = ([], None)"
  by (cases "(n, evs)" rule: read_some.cases) (auto split: if_splits)

lemma read_some_drained:
  "read_some n evs = Ok (b, evs') \<Longrightarrow> b \<noteq> [] \<Longrightarrow>
     drained evs = (b @ fst (drained evs'), snd (drained evs'))"
  by (cases "(n, evs)" rule: read_some.cases)
    (auto split: if_splits prod.splits simp: append_assoc [symmetric] simp del: append_assoc)

text \<open>
  The loop every bounded reader of the program runs: read through \<open>take(limit)\<close> into a buffer of
  \<open>chunk\<close> bytes and append, until a read answers nothing.
\<close>

function read_take :: "nat \<Rightarrow> nat \<Rightarrow> source \<Rightarrow> string \<Rightarrow> (string, string) result" where
  "read_take chunk limit evs body =
     (if limit = 0 then Ok body
      else case read_some (min chunk limit) evs of
             Inl e \<Rightarrow> Err e
           | Inr (b, evs') \<Rightarrow>
               if b = [] then Ok body
               else read_take chunk (limit - length b) evs' (body @ b))"
  by pat_completeness auto
termination
  by (relation "measure (\<lambda>(chunk, limit, evs, body). source_size evs)")
    (auto dest: read_some_size)

declare read_take.simps [simp del]

text \<open>
  The loop's answer does not depend on how the bytes were cut into reads: it is the first \<open>limit\<close>
  bytes of the content, or the failure if it comes before them.
\<close>

lemma read_take_drained:
  "0 < chunk \<Longrightarrow>
   read_take chunk limit evs body =
     (let (b, e) = drained evs in
      if limit \<le> length b then Ok (body @ take limit b)
      else case e of Some err \<Rightarrow> Err err | None \<Rightarrow> Ok (body @ b))"
proof (induction chunk limit evs body rule: read_take.induct)
  case (1 chunk limit evs body)
  show ?case
  proof (cases "limit = 0")
    case True
    then show ?thesis by (subst read_take.simps) (auto split: prod.splits)
  next
    case limit: False
    show ?thesis
    proof (cases "read_some (min chunk limit) evs")
      case (Inl e)
      with limit read_some_Err [OF Inl] show ?thesis by (subst read_take.simps) simp
    next
      case (Inr p)
      obtain b evs' where p: "p = (b, evs')" by (cases p)
      show ?thesis
      proof (cases "b = []")
        case True
        then have "drained evs = ([], None)"
          using read_some_end [of "min chunk limit"] Inr p limit "1.prems" by auto
        with True limit Inr p show ?thesis by (subst read_take.simps) simp
      next
        case False
        have len: "length b \<le> limit"
          using read_some_length Inr p by fastforce
        have d: "drained evs = (b @ fst (drained evs'), snd (drained evs'))"
          using read_some_drained Inr p False by simp
        have "read_take chunk limit evs body = read_take chunk (limit - length b) evs' (body @ b)"
          using limit Inr p False by (subst read_take.simps) simp
        with "1.IH" [OF limit Inr [unfolded p] refl False "1.prems"] len d show ?thesis
          by (auto simp: Let_def split: prod.splits option.splits)
      qed
    qed
  qed
qed

section \<open>UTF-8\<close>

text \<open>\<open>String::from_utf8\<close>: the well-formed byte sequences of RFC 3629.\<close>

definition cont :: "char \<Rightarrow> bool" where
  "cont c \<longleftrightarrow> 128 \<le> code c \<and> code c \<le> 191"

definition between :: "nat \<Rightarrow> nat \<Rightarrow> char \<Rightarrow> bool" where
  "between lo hi c \<longleftrightarrow> lo \<le> code c \<and> code c \<le> hi"

fun valid_utf8 :: "string \<Rightarrow> bool" where
  "valid_utf8 [] = True"
| "valid_utf8 (a # s) =
     (if code a < 128 then valid_utf8 s
      else if between 194 223 a then
        (case s of b # s' \<Rightarrow> cont b \<and> valid_utf8 s' | _ \<Rightarrow> False)
      else if between 224 239 a then
        (case s of
           b # c # s' \<Rightarrow>
             cont b \<and> cont c \<and> (code a = 224 \<longrightarrow> 160 \<le> code b) \<and> (code a = 237 \<longrightarrow> code b \<le> 159)
             \<and> valid_utf8 s'
         | _ \<Rightarrow> False)
      else if between 240 244 a then
        (case s of
           b # c # d # s' \<Rightarrow>
             cont b \<and> cont c \<and> cont d \<and> (code a = 240 \<longrightarrow> 144 \<le> code b)
             \<and> (code a = 244 \<longrightarrow> code b \<le> 143) \<and> valid_utf8 s'
         | _ \<Rightarrow> False)
      else False)"

lemma valid_utf8_ascii: "(\<And>c. c \<in> set s \<Longrightarrow> code c < 128) \<Longrightarrow> valid_utf8 s"
  by (induction s) auto

lemma valid_utf8_append: "valid_utf8 s \<Longrightarrow> valid_utf8 t \<Longrightarrow> valid_utf8 (s @ t)"
  by (induction s rule: valid_utf8.induct) (auto split: if_splits list.splits)

lemma valid_utf8_concat: "(\<And>s. s \<in> set ss \<Longrightarrow> valid_utf8 s) \<Longrightarrow> valid_utf8 (concat ss)"
  by (induction ss) (auto simp: valid_utf8_append)

text \<open>A character of a valid string: one lead byte, and continuations only after a multi-byte lead.\<close>

definition uchar_wf :: "uchar \<Rightarrow> bool" where
  "uchar_wf g \<longleftrightarrow> uchar_ok g \<and> (tl g \<noteq> [] \<longrightarrow> 192 \<le> code (hd g))"

lemma valid_utf8_hd: "valid_utf8 s \<Longrightarrow> s = [] \<or> \<not> is_continuation (hd s)"
  by (cases s) (auto simp: is_continuation_def between_def split: if_splits)

lemma chars_of_Cons_char:
  assumes "uchar_ok g" and "valid_utf8 s"
  shows "chars_of (g @ s) = g # chars_of s"
proof -
  have "list_all uchar_ok (g # chars_of s)"
    using assms valid_utf8_hd by (auto intro: chars_of_ok)
  from chars_of_concat [OF this] show ?thesis by simp
qed

lemma cont_is_continuation: "cont = is_continuation"
  by (auto simp: cont_def is_continuation_def fun_eq_iff)

lemma valid_utf8_lead:
  assumes "valid_utf8 (a # s)"
  shows "code a < 128 \<and> valid_utf8 s
    \<or> (\<exists>b t. s = b # t \<and> between 194 223 a \<and> cont b \<and> valid_utf8 t)
    \<or> (\<exists>b c t. s = b # c # t \<and> between 224 239 a \<and> cont b \<and> cont c \<and> valid_utf8 t)
    \<or> (\<exists>b c d t. s = b # c # d # t \<and> between 240 244 a \<and> cont b \<and> cont c \<and> cont d \<and> valid_utf8 t)"
proof -
  consider "code a < 128" | "\<not> code a < 128" "between 194 223 a"
    | "\<not> code a < 128" "\<not> between 194 223 a" "between 224 239 a"
    | "\<not> code a < 128" "\<not> between 194 223 a" "\<not> between 224 239 a" "between 240 244 a"
    using assms by (simp split: if_splits)
  then show ?thesis
  proof cases
    case 2
    with assms show ?thesis by (cases s) simp_all
  next
    case 3
    with assms show ?thesis by (cases s; cases "tl s") simp_all
  next
    case 4
    with assms show ?thesis by (cases s; cases "tl s"; cases "tl (tl s)") simp_all
  qed (use assms in simp)
qed

lemma chars_of_valid: "valid_utf8 s \<Longrightarrow> list_all uchar_wf (chars_of s)"
proof (induction s rule: valid_utf8.induct)
  case (2 a s)
  have step: "list_all uchar_wf (chars_of (g @ t))"
    if "uchar_wf g" "valid_utf8 t" "list_all uchar_wf (chars_of t)" for g t
    using that chars_of_Cons_char [of g t] by (simp add: uchar_wf_def [of g])
  have wf: "uchar_wf [a]" if "code a < 128"
    using that by (simp add: uchar_wf_def uchar_ok_def is_continuation_def)
  have wfs: "uchar_wf (a # cs)" if "192 \<le> code a" "list_all cont cs" for cs
    using that by (auto simp: uchar_wf_def uchar_ok_def cont_is_continuation is_continuation_def)
  from valid_utf8_lead [OF "2.prems"] consider (one) "code a < 128" "valid_utf8 s"
    | (two) b t where "s = b # t" "between 194 223 a" "cont b" "valid_utf8 t"
    | (three) b c t where "s = b # c # t" "between 224 239 a" "cont b" "cont c" "valid_utf8 t"
    | (four) b c d t where "s = b # c # d # t" "between 240 244 a" "cont b" "cont c" "cont d" "valid_utf8 t"
    by blast
  then show ?case
  proof cases
    case one
    then show ?thesis using step [of "[a]" s] wf "2.IH"(1) by simp
  next
    case two
    then have "list_all uchar_wf (chars_of t)" using "2.IH"(2) by (auto simp: between_def)
    with two show ?thesis using step [of "[a, b]" t] wfs [of "[b]"] by (simp add: between_def)
  next
    case three
    then have "list_all uchar_wf (chars_of t)" using "2.IH"(3) by (auto simp: between_def)
    with three show ?thesis using step [of "[a, b, c]" t] wfs [of "[b, c]"] by (simp add: between_def)
  next
    case four
    then have "list_all uchar_wf (chars_of t)" using "2.IH"(4) by (auto simp: between_def)
    with four show ?thesis using step [of "[a, b, c, d]" t] wfs [of "[b, c, d]"] by (simp add: between_def)
  qed
qed simp

lemma uchar_ok_of_wf: "list_all uchar_wf gs \<Longrightarrow> list_all uchar_ok gs"
  by (auto simp: list_all_iff uchar_wf_def)

end
