(* ===== verification/Envelope.thy ===== *)
theory Envelope
  imports Json Attestation Reader
begin

text \<open>
  \<open>metsuke-wire/src/envelope.rs\<close>: the sealed wire form. The container (\<open>split\<close>), the payload lines,
  \<open>seal\<close> and \<open>open\<close>. zstd is a parameter (\<open>zstd_lib\<close>): its encoder, and its decoder as a source of
  reads.
\<close>

text \<open>\<open>lib.rs\<close>: how a binary names itself. The commit it was built at is the build's.\<close>

definition version_line :: "string \<Rightarrow> string \<Rightarrow> string" where
  "version_line build_rev version = version @ '' ('' @ build_rev @ '')''"

definition SCHEMA_VERSION_SCRAPES :: nat where "SCHEMA_VERSION_SCRAPES = 1"
definition SCHEMA_VERSION_LINES :: nat where "SCHEMA_VERSION_LINES = 2"
definition CONTAINER_MAGIC :: nat where "CONTAINER_MAGIC = 0x184D2A50"
definition HEADER_OFFSET :: nat where "HEADER_OFFSET = 8"
definition DECOMPRESS_CHUNK_BYTES :: nat where "DECOMPRESS_CHUNK_BYTES = 64 * 1024"

lemmas schema_versions = SCHEMA_VERSION_SCRAPES_def SCHEMA_VERSION_LINES_def

section \<open>Payload lines and envelopes\<close>

datatype payload_line = PayloadLine (as_str: string)

record payload =
  pl_schema_version :: nat
  pl_lines :: "payload_line list"

record envelope =
  e_schema_version :: nat
  e_provenance :: provenance
  e_agent_version :: string
  e_counter :: nat
  e_timestamp :: instant
  e_payload :: payload

datatype seal_error = SealJson string | Compress string | HeaderTooLarge nat

definition payload_line_scrape ::
  "json_lib \<Rightarrow> scrape \<Rightarrow> provenance \<Rightarrow> (seal_error, payload_line) result" where
  "payload_line_scrape J s p = and_then (map_err SealJson (stamp_scrape J s p)) (\<lambda>t. Ok (PayloadLine t))"

definition payload_line_trace ::
  "json_lib \<Rightarrow> trace_line \<Rightarrow> provenance \<Rightarrow> (seal_error, payload_line) result" where
  "payload_line_trace J l p =
     and_then (map_err SealJson (stamp_object J (line_fields l) p)) (\<lambda>t. Ok (PayloadLine t))"

definition wire_bytes :: "payload_line \<Rightarrow> nat" where
  "wire_bytes l = length (as_str l) + 1"

abbreviation newline :: char where "newline \<equiv> CHR 0x0A"

definition write_wire :: "payload_line \<Rightarrow> bytes \<Rightarrow> bytes" where
  "write_wire l body = body @ as_str l @ [newline]"

definition scrapes_payload :: "payload_line list \<Rightarrow> payload" where
  "scrapes_payload ls = \<lparr>pl_schema_version = SCHEMA_VERSION_SCRAPES, pl_lines = ls\<rparr>"

definition trace_lines_payload :: "payload_line list \<Rightarrow> payload" where
  "trace_lines_payload ls = \<lparr>pl_schema_version = SCHEMA_VERSION_LINES, pl_lines = ls\<rparr>"

definition new_envelope :: "provenance \<Rightarrow> string \<Rightarrow> nat \<Rightarrow> instant \<Rightarrow> payload \<Rightarrow> envelope" where
  "new_envelope p v c t pl =
     \<lparr>e_schema_version = pl_schema_version pl, e_provenance = p, e_agent_version = v,
      e_counter = c, e_timestamp = t, e_payload = pl\<rparr>"

definition header_of :: "envelope \<Rightarrow> header" where
  "header_of e =
     \<lparr>h_schema_version = e_schema_version e, h_provenance = e_provenance e,
      h_agent_version = e_agent_version e, h_counter = e_counter e, h_timestamp = e_timestamp e\<rparr>"

text \<open>What every constructor establishes: a declared version that is the payload's, and one of two.\<close>

definition envelope_wf :: "envelope \<Rightarrow> bool" where
  "envelope_wf e \<longleftrightarrow>
     e_schema_version e = pl_schema_version (e_payload e)
     \<and> (pl_schema_version (e_payload e) = SCHEMA_VERSION_SCRAPES
        \<or> pl_schema_version (e_payload e) = SCHEMA_VERSION_LINES)"

datatype read_error = PayloadIsNot nat nat | LineFields nat string

text \<open>\<open>Envelope::read\<close>: the lines as their fields, a line that does not read named by its index.\<close>

definition read_lines ::
  "(string \<Rightarrow> (string, 'a) result) \<Rightarrow> nat \<Rightarrow> envelope \<Rightarrow> (read_error, 'a list) result" where
  "read_lines unstamp asked e =
     (if e_schema_version e \<noteq> asked then Err (PayloadIsNot asked (e_schema_version e))
      else collect (map (\<lambda>(i, l). map_err (LineFields i) (unstamp (as_str l)))
             (enumerate 0 (pl_lines (e_payload e)))))"

definition envelope_scrapes :: "json_lib \<Rightarrow> envelope \<Rightarrow> (read_error, scrape list) result" where
  "envelope_scrapes J e = read_lines (unstamp_scrape J) SCHEMA_VERSION_SCRAPES e"

definition envelope_trace_lines :: "json_lib \<Rightarrow> envelope \<Rightarrow> (read_error, trace_line list) result" where
  "envelope_trace_lines J e =
     and_then (read_lines (unstamp_object J) SCHEMA_VERSION_LINES e) (\<lambda>os. Ok (map TraceLine os))"

definition payload_lines :: "envelope \<Rightarrow> bytes" where
  "payload_lines e = fold write_wire (pl_lines (e_payload e)) []"

definition payload_digest :: "crypto \<Rightarrow> envelope \<Rightarrow> string" where
  "payload_digest C e = encode (blake2b_64 C (payload_lines e))"

lemma fold_write_wire: "fold write_wire ls body = body @ concat (map (\<lambda>l. as_str l @ [newline]) ls)"
  by (induction ls arbitrary: body) (auto simp: write_wire_def)

lemma payload_lines_concat:
  "payload_lines e = concat (map (\<lambda>l. as_str l @ [newline]) (pl_lines (e_payload e)))"
  by (simp add: payload_lines_def fold_write_wire)

lemma length_payload_lines: "length (payload_lines e) = sum_list (map wire_bytes (pl_lines (e_payload e)))"
  by (simp add: payload_lines_concat length_concat comp_def wire_bytes_def [abs_def])

section \<open>The container\<close>

definition u32_to_le_bytes :: "nat \<Rightarrow> bytes" where
  "u32_to_le_bytes n =
     map char_of [n mod 256, n div 256 mod 256, n div 65536 mod 256, n div 16777216 mod 256]"

fun u32_from_le_bytes :: "bytes \<Rightarrow> nat" where
  "u32_from_le_bytes [a, b, c, d] = code a + 256 * code b + 65536 * code c + 16777216 * code d"
| "u32_from_le_bytes _ = 0"

record frames =
  fr_header :: bytes
  fr_data :: bytes

datatype container_error = NotAContainer | OversizedHeader nat nat | ShortHeader nat nat

text \<open>\<open>usize\<close> is 64 bits wide, so \<open>declared as usize\<close> keeps every \<open>u32\<close>.\<close>

definition split :: "bytes \<Rightarrow> nat \<Rightarrow> (container_error, frames) result" where
  "split b max_header_bytes =
     (if length b < HEADER_OFFSET then Err NotAContainer
      else let magic = take 4 b; declared = u32_from_le_bytes (take 4 (drop 4 b)) in
        if u32_from_le_bytes magic \<noteq> CONTAINER_MAGIC then Err NotAContainer
        else if declared > max_header_bytes then Err (OversizedHeader declared max_header_bytes)
        else let rest = drop HEADER_OFFSET b in
          if length rest < declared then Err (ShortHeader declared (length rest))
          else Ok \<lparr>fr_header = take declared rest, fr_data = drop declared rest\<rparr>)"

datatype header_error = HeaderContainer container_error | HeaderJson string

definition read_header :: "json_lib \<Rightarrow> bytes \<Rightarrow> nat \<Rightarrow> (header_error, header) result" where
  "read_header J b max_header_bytes =
     and_then (map_err HeaderContainer (split b max_header_bytes)) (\<lambda>f.
       map_err HeaderJson (header_from_slice J (fr_header f)))"

definition frame :: "bytes \<Rightarrow> bytes \<Rightarrow> bytes" where
  "frame header data =
     u32_to_le_bytes CONTAINER_MAGIC @ u32_to_le_bytes (length header) @ header @ data"

lemma length_u32_to_le_bytes [simp]: "length (u32_to_le_bytes n) = 4"
  by (simp add: u32_to_le_bytes_def)

lemma u32_roundtrip: "n < 2 ^ 32 \<Longrightarrow> u32_from_le_bytes (u32_to_le_bytes n) = n"
proof -
  assume n: "n < 2 ^ 32"
  define q1 where "q1 = n div 256"
  define q2 where "q2 = q1 div 256"
  define q3 where "q3 = q2 div 256"
  have d: "n div 65536 = q2" "n div 16777216 = q3"
    by (simp_all add: q1_def q2_def q3_def div_mult2_eq [symmetric])
  have "n = 256 * q1 + n mod 256" "q1 = 256 * q2 + q1 mod 256" "q2 = 256 * q3 + q2 mod 256"
    by (simp_all add: q1_def q2_def q3_def)
  moreover have "q3 mod 256 = q3"
    using n by (simp add: q1_def q2_def q3_def div_mult2_eq [symmetric])
  ultimately have "n = n mod 256 + 256 * (q1 mod 256) + 65536 * (q2 mod 256) + 16777216 * (q3 mod 256)"
    by linarith
  then show ?thesis by (simp add: u32_to_le_bytes_def d flip: q1_def)
qed

lemma u32_from_le_bytes_less: "u32_from_le_bytes b < 2 ^ 32"
proof (cases b rule: u32_from_le_bytes.cases)
  case (1 x y z w)
  have "code x < 256" "code y < 256" "code z < 256" "code w < 256" by simp_all
  then have "code x + 256 * code y + 65536 * code z + 16777216 * code w < 4294967296" by linarith
  with 1 show ?thesis by simp
qed simp_all

lemma u32_bytes_roundtrip: "length b = 4 \<Longrightarrow> u32_to_le_bytes (u32_from_le_bytes b) = b"
proof -
  assume "length b = 4"
  then obtain x y z w where b: "b = [x, y, z, w]"
    by (auto simp: numeral_eq_Suc length_Suc_conv)
  define n where "n = u32_from_le_bytes b"
  define m2 where "m2 = code z + 256 * code w"
  define m1 where "m1 = code y + 256 * m2"
  have n: "n = code x + 256 * m1"
    by (simp add: n_def b m1_def m2_def)
  have d: "n div 256 = m1" "m1 div 256 = m2" "m2 div 256 = code w"
    by (simp_all add: n, simp_all add: m1_def, simp add: m2_def)
  have "n mod 256 = code x" "m1 mod 256 = code y" "m2 mod 256 = code z"
    by (simp_all add: n, simp_all add: m1_def, simp add: m2_def)
  moreover have "n div 65536 = m2" "n div 16777216 = code w"
    by (simp_all add: div_mult2_eq [symmetric] flip: d)
  ultimately have "u32_to_le_bytes n = b"
    by (simp add: u32_to_le_bytes_def d b)
  then show ?thesis by (simp add: n_def)
qed

lemma split_frame:
  assumes "length header \<le> cap" and "length header < 2 ^ 32"
  shows "split (frame header data) cap = Ok \<lparr>fr_header = header, fr_data = data\<rparr>"
  using assms u32_roundtrip [of CONTAINER_MAGIC] u32_roundtrip [of "length header"]
  by (simp add: split_def frame_def HEADER_OFFSET_def CONTAINER_MAGIC_def)

lemma split_Ok_iff:
  "split b cap = Ok f \<longleftrightarrow>
     b = frame (fr_header f) (fr_data f) \<and> length (fr_header f) \<le> cap \<and> length (fr_header f) < 2 ^ 32"
proof
  assume ok: "split b cap = Ok f"
  let ?d = "u32_from_le_bytes (take 4 (drop 4 b))"
  from ok have len: "8 \<le> length b" and magic: "u32_from_le_bytes (take 4 b) = CONTAINER_MAGIC"
    and d: "?d \<le> cap" "?d \<le> length (drop 8 b)"
    and f: "fr_header f = take ?d (drop 8 b)" "fr_data f = drop ?d (drop 8 b)"
    by (auto simp: split_def Let_def HEADER_OFFSET_def not_less split: if_splits)
  have "b = take 4 b @ take 4 (drop 4 b) @ drop 8 b"
    using append_take_drop_id [of 4 b] append_take_drop_id [of 4 "drop 4 b"] by simp
  moreover have "take 4 b = u32_to_le_bytes CONTAINER_MAGIC"
    using u32_bytes_roundtrip [of "take 4 b"] len magic by simp
  moreover have "take 4 (drop 4 b) = u32_to_le_bytes ?d"
    using u32_bytes_roundtrip [of "take 4 (drop 4 b)"] len by simp
  moreover have "length (fr_header f) = ?d" using f d by simp
  moreover have "fr_header f @ fr_data f = drop 8 b" unfolding f by (rule append_take_drop_id)
  ultimately have "b = frame (fr_header f) (fr_data f)"
    by (metis frame_def)
  moreover have "?d < 2 ^ 32" by (rule u32_from_le_bytes_less)
  ultimately show "b = frame (fr_header f) (fr_data f) \<and> length (fr_header f) \<le> cap
      \<and> length (fr_header f) < 2 ^ 32"
    using \<open>length (fr_header f) = ?d\<close> d by simp
next
  assume "b = frame (fr_header f) (fr_data f) \<and> length (fr_header f) \<le> cap
      \<and> length (fr_header f) < 2 ^ 32"
  then show "split b cap = Ok f"
    using split_frame [of "fr_header f" cap "fr_data f"] by simp
qed

end
