(* ===== verification/Sealing.thy ===== *)
theory Sealing
  imports Envelope
begin

text \<open>
  \<open>metsuke-wire/src/envelope.rs\<close>: \<open>seal\<close> and \<open>open\<close>, the only way to produce or consume a whole
  submission, with the bounded inflater between them.
\<close>

text \<open>
  \<open>zstd::encode_all\<close>, and \<open>zstd::Decoder::new\<close> with the reads it answers.
\<close>

record zstd_lib =
  zstd_encode_all :: "bytes \<Rightarrow> int \<Rightarrow> (string, bytes) result"
  zstd_decoder :: "bytes \<Rightarrow> (string, source) result"

text \<open>What zstd documents: what it encoded decodes to the same bytes, with no failure on the way.\<close>

definition zstd_ok :: "zstd_lib \<Rightarrow> bool" where
  "zstd_ok Z \<longleftrightarrow>
     (\<forall>b level d. zstd_encode_all Z b level = Ok d \<longrightarrow>
        (\<exists>evs. zstd_decoder Z d = Ok evs \<and> drained evs = (b, None)))"

record limits =
  max_header_bytes :: nat
  max_decompressed_bytes :: nat

datatype open_error =
    OpenSignature
  | OpenContainer container_error
  | Decompress string
  | TooLarge nat
  | OpenJson string
  | NotUtf8
  | UnterminatedLine
  | LineProvenance nat
  | LineStamp nat string
  | UnsupportedSchemaVersion nat

datatype schema = Scrapes | Lines

definition schema_of :: "nat \<Rightarrow> (open_error, schema) result" where
  "schema_of version =
     (if version = SCHEMA_VERSION_SCRAPES then Ok Scrapes
      else if version = SCHEMA_VERSION_LINES then Ok Lines
      else Err (UnsupportedSchemaVersion version))"

section \<open>Sealing\<close>

definition header_json :: "json_lib \<Rightarrow> envelope \<Rightarrow> (seal_error, bytes) result" where
  "header_json J e = map_err SealJson (header_to_vec J (header_of e))"

definition seal ::
  "crypto \<Rightarrow> json_lib \<Rightarrow> zstd_lib \<Rightarrow> submission_key \<Rightarrow> envelope \<Rightarrow> int
    \<Rightarrow> (seal_error, bytes \<times> attestation) result" where
  "seal C J Z key e level =
     and_then (header_json J e) (\<lambda>header.
     if u32_max < length header then Err (HeaderTooLarge (length header))
     else and_then (map_err Compress (zstd_encode_all Z (payload_lines e) level)) (\<lambda>data.
       let wire = u32_to_le_bytes CONTAINER_MAGIC @ u32_to_le_bytes (length header) @ header @ data
       in Ok (wire, attest C key wire)))"

section \<open>Opening\<close>

definition inflate :: "zstd_lib \<Rightarrow> bytes \<Rightarrow> nat \<Rightarrow> (open_error, string) result" where
  "inflate Z data cap =
     and_then (map_err Decompress (zstd_decoder Z data)) (\<lambda>evs.
     and_then (map_err Decompress
         (read_take DECOMPRESS_CHUNK_BYTES (saturating_add cap 1) evs [])) (\<lambda>body.
       if cap < length body then Err (TooLarge cap)
       else if valid_utf8 body then Ok body else Err NotUtf8))"

definition stamped :: "json_lib \<Rightarrow> nat \<Rightarrow> string \<Rightarrow> provenance \<Rightarrow> (open_error, payload_line) result" where
  "stamped J index line stamp =
     and_then (map_err (LineStamp index) (stamp_peek J line)) (\<lambda>found.
       if found = stamp then Ok (PayloadLine line) else Err (LineProvenance index))"

text \<open>The body cut at its newlines; bytes after the last one are an unfinished line.\<close>

definition lines_of :: "string \<Rightarrow> (open_error, string list) result" where
  "lines_of body =
     (case strip_suffix [newline] body of
        Some rest \<Rightarrow> Ok (split_on newline rest)
      | None \<Rightarrow> if body = [] then Ok [] else Err UnterminatedLine)"

definition open_envelope ::
  "crypto \<Rightarrow> json_lib \<Rightarrow> zstd_lib \<Rightarrow> attestation \<Rightarrow> bytes \<Rightarrow> limits \<Rightarrow> (open_error, envelope) result" where
  "open_envelope C J Z a wire lim =
     (if \<not> verifies C a wire then Err OpenSignature
      else and_then (map_err OpenContainer (split wire (max_header_bytes lim))) (\<lambda>f.
        and_then (map_err OpenJson (schema_version_peek J (fr_header f))) (\<lambda>version.
        and_then (schema_of version) (\<lambda>schema.
        and_then (map_err OpenJson (header_from_slice J (fr_header f))) (\<lambda>h.
        and_then (inflate Z (fr_data f) (max_decompressed_bytes lim)) (\<lambda>body.
        and_then (lines_of body) (\<lambda>ls.
        and_then (collect (map (\<lambda>(i, l). stamped J i l (h_provenance h)) (enumerate 0 ls))) (\<lambda>lines.
        let pl = (case schema of Scrapes \<Rightarrow> scrapes_payload lines | Lines \<Rightarrow> trace_lines_payload lines)
        in Ok (new_envelope (h_provenance h) (h_agent_version h) (h_counter h) (h_timestamp h) pl)))))))))"

section \<open>Lemmas\<close>

lemma inflate_drained:
  assumes "cap < u64_max"
  shows "inflate Z data cap =
    and_then (map_err Decompress (zstd_decoder Z data)) (\<lambda>evs.
      let (b, e) = drained evs in
      if cap < length b then Err (TooLarge cap)
      else case e of
          Some err \<Rightarrow> Err (Decompress err)
        | None \<Rightarrow> if valid_utf8 b then Ok b else Err NotUtf8)"
proof -
  have s: "saturating_add cap 1 = Suc cap"
    using assms by (simp add: saturating_add_def)
  have c: "0 < DECOMPRESS_CHUNK_BYTES" by (simp add: DECOMPRESS_CHUNK_BYTES_def)
  show ?thesis
  proof (cases "zstd_decoder Z data")
    case (Inr evs)
    then show ?thesis
      by (cases "drained evs"; cases "snd (drained evs)")
        (auto simp: inflate_def s read_take_drained [OF c] Suc_le_eq simp del: One_nat_def)
  qed (simp add: inflate_def)
qed

lemma inflate_Ok_iff:
  assumes "cap < u64_max"
  shows "inflate Z data cap = Ok body \<longleftrightarrow>
    valid_utf8 body \<and> length body \<le> cap
    \<and> (\<exists>evs. zstd_decoder Z data = Ok evs \<and> drained evs = (body, None))"
proof (cases "zstd_decoder Z data")
  case (Inr evs)
  then show ?thesis
    using assms by (cases "drained evs"; cases "snd (drained evs)") (auto simp: inflate_drained)
qed (simp add: inflate_def)

lemma lines_of_Ok: "lines_of body = Ok ls \<Longrightarrow> concat (map (\<lambda>l. l @ [newline]) ls) = body"
proof -
  assume ok: "lines_of body = Ok ls"
  have "concat (map (\<lambda>l. l @ [newline]) ps) = join_with newline ps @ [newline]" if "ps \<noteq> []" for ps
    using that by (induction newline ps rule: join_with.induct) auto
  with ok show ?thesis
    by (auto simp: lines_of_def strip_suffix_iff split: option.splits if_splits)
qed

lemma lines_of_concat:
  assumes "\<And>l. l \<in> set ls \<Longrightarrow> newline \<notin> set l"
  shows "lines_of (concat (map (\<lambda>l. l @ [newline]) ls)) = Ok ls"
proof (cases "ls = []")
  case True
  then show ?thesis by (simp add: lines_of_def strip_suffix_def)
next
  case False
  then have "concat (map (\<lambda>l. l @ [newline]) ls) = join_with newline ls @ [newline]"
    by (induction newline ls rule: join_with.induct) auto
  with False assms show ?thesis
    by (simp add: lines_of_def split_join)
qed

lemma stamped_Ok_iff:
  "stamped J i line p = Ok pl \<longleftrightarrow> stamp_peek J line = Ok p \<and> pl = PayloadLine line"
  by (auto simp: stamped_def and_then_Ok_iff)

lemma stamped_lines_Ok_iff:
  "collect (map (\<lambda>(i, l). stamped J i l p) (enumerate n ls)) = Ok pls \<longleftrightarrow>
     pls = map PayloadLine ls \<and> (\<forall>l \<in> set ls. stamp_peek J l = Ok p)"
  by (induction ls arbitrary: n pls) (auto simp: and_then_Ok_iff stamped_Ok_iff)

lemma seal_Ok_iff:
  "seal C J Z key e level = Ok (wire, a) \<longleftrightarrow>
     (\<exists>header data. header_to_vec J (header_of e) = Ok header \<and> length header \<le> u32_max
        \<and> zstd_encode_all Z (payload_lines e) level = Ok data
        \<and> wire = frame header data \<and> a = attest C key wire)"
proof -
  have "seal C J Z key e level = Ok (wire, a) \<longleftrightarrow>
    (\<exists>header. header_to_vec J (header_of e) = Ok header \<and> \<not> u32_max < length header
        \<and> (\<exists>data. zstd_encode_all Z (payload_lines e) level = Ok data
              \<and> wire = frame header data \<and> a = attest C key wire))"
    by (auto simp: seal_def header_json_def and_then_Ok_iff Let_def frame_def)
  then show ?thesis by (simp add: not_less)
qed

lemma open_envelope_Ok_iff:
  "open_envelope C J Z a wire lim = Ok e \<longleftrightarrow>
     verifies C a wire \<and>
     (\<exists>f h body ls schema.
        split wire (max_header_bytes lim) = Ok f
        \<and> schema_version_peek J (fr_header f) = Ok (case schema of Scrapes \<Rightarrow> 1 | Lines \<Rightarrow> 2)
        \<and> header_from_slice J (fr_header f) = Ok h
        \<and> inflate Z (fr_data f) (max_decompressed_bytes lim) = Ok body
        \<and> lines_of body = Ok ls \<and> (\<forall>l \<in> set ls. stamp_peek J l = Ok (h_provenance h))
        \<and> e = new_envelope (h_provenance h) (h_agent_version h) (h_counter h) (h_timestamp h)
            (case schema of
               Scrapes \<Rightarrow> scrapes_payload (map PayloadLine ls)
             | Lines \<Rightarrow> trace_lines_payload (map PayloadLine ls)))"
  (is "?lhs \<longleftrightarrow> ?rhs")
proof -
  have schema: "schema_of v = Ok s \<longleftrightarrow> v = (case s of Scrapes \<Rightarrow> 1 | Lines \<Rightarrow> 2)" for v s
    by (cases s) (auto simp: schema_of_def schema_versions)
  show ?thesis
    by (simp add: open_envelope_def and_then_Ok_iff schema stamped_lines_Ok_iff Let_def) blast
qed

section \<open>Properties\<close>

text \<open>
  \<open>split\<close> accepts exactly the bodies \<open>seal\<close> frames: it answers a header and a data frame if and
  only if the body is the container magic, the header's length as a little-endian u32, the header
  and the data, and the header is within the limit it was given. Nothing is read past the body and
  nothing is dropped.
\<close>

theorem split_accepts_exactly_frames:
  "split b cap = Ok \<lparr>fr_header = header, fr_data = data\<rparr> \<longleftrightarrow>
     b = frame header data \<and> length header \<le> cap \<and> length header \<le> u32_max"
  using split_Ok_iff [of b cap "\<lparr>fr_header = header, fr_data = data\<rparr>"]
  by (auto simp: u32_max_def)

text \<open>
  The inflater's answer is a function of the decompressed content alone, however the decoder
  cuts it into reads: over the limit it is refused, whatever comes after the limit; otherwise a
  decoder failure is reported, then bytes that are not UTF-8, and what is accepted is the whole
  content.
\<close>

theorem inflate_by_content:
  assumes "cap < u64_max" and "zstd_decoder Z data = Ok evs" and "drained evs = (content, failure)"
  shows "inflate Z data cap =
    (if cap < length content then Err (TooLarge cap)
     else if failure \<noteq> None then Err (Decompress (the failure))
     else if valid_utf8 content then Ok content else Err NotUtf8)"
  using assms by (simp add: inflate_drained split: option.splits)

text \<open>
  C30: What is sealed opens as itself. Any well-formed envelope whose lines carry its own provenance,
  sealed under any usable key of either scheme, opens under the attestation \<open>seal\<close> made, as the
  same envelope, whenever the header and the payload are within the reader's limits.
\<close>

theorem open_seal:
  assumes libs: "crypto_ok C" "json_ok J" "zstd_ok Z" and key: "submission_key_wf C key"
    and wf: "envelope_wf e"
    and lines: "\<forall>l \<in> set (pl_lines (e_payload e)).
      stamp_peek J (as_str l) = Ok (e_provenance e) \<and> newline \<notin> set (as_str l) \<and> valid_utf8 (as_str l)"
    and sealed: "seal C J Z key e level = Ok (wire, a)"
    and header: "header_json J e = Ok hdr" "length hdr \<le> max_header_bytes lim"
    and payload: "length (payload_lines e) \<le> max_decompressed_bytes lim" "max_decompressed_bytes lim < u64_max"
  shows "open_envelope C J Z a wire lim = Ok e"
proof -
  let ?ls = "map as_str (pl_lines (e_payload e))"
  from header(1) have hv: "header_to_vec J (header_of e) = Ok hdr" by (simp add: header_json_def)
  with sealed obtain data where data: "zstd_encode_all Z (payload_lines e) level = Ok data"
    and wire: "wire = frame hdr data" "length hdr \<le> u32_max" and a: "a = attest C key wire"
    by (auto simp: seal_Ok_iff)
  have sp: "split wire (max_header_bytes lim) = Ok \<lparr>fr_header = hdr, fr_data = data\<rparr>"
    using wire header(2) by (simp add: split_frame u32_max_def)
  have h: "header_from_slice J hdr = Ok (header_of e)"
      "schema_version_peek J hdr = Ok (e_schema_version e)"
    using libs(2) hv by (auto simp: json_ok_def header_of_def)
  obtain evs where evs: "zstd_decoder Z data = Ok evs" "drained evs = (payload_lines e, None)"
    using libs(3) data unfolding zstd_ok_def by blast
  have body: "payload_lines e = concat (map (\<lambda>l. l @ [newline]) ?ls)"
    by (simp add: payload_lines_concat comp_def)
  have "valid_utf8 (payload_lines e)"
    unfolding payload_lines_concat using lines
    by (auto intro!: valid_utf8_concat valid_utf8_append)
  with evs payload have inf: "inflate Z data (max_decompressed_bytes lim) = Ok (payload_lines e)"
    by (simp add: inflate_Ok_iff)
  have ls: "lines_of (payload_lines e) = Ok ?ls"
    unfolding body using lines by (intro lines_of_concat) auto
  have stamps: "\<forall>l \<in> set ?ls. stamp_peek J l = Ok (e_provenance e)" using lines by simp
  obtain schema where
    schema: "e_schema_version e = (case schema of Scrapes \<Rightarrow> 1 | Lines \<Rightarrow> 2)"
    and e: "e = new_envelope (e_provenance e) (e_agent_version e) (e_counter e) (e_timestamp e)
      (case schema of Scrapes \<Rightarrow> scrapes_payload (map PayloadLine ?ls)
       | Lines \<Rightarrow> trace_lines_payload (map PayloadLine ?ls))"
    using wf that [of Scrapes] that [of Lines]
    by (auto simp: envelope_wf_def schema_versions new_envelope_def scrapes_payload_def
        trace_lines_payload_def comp_def)
  have "verifies C a wire" using libs(1) key a by (simp add: attest_verifies)
  with sp h inf ls stamps schema e show ?thesis
    by (subst open_envelope_Ok_iff) (force simp: header_of_def)
qed

text \<open>
  C10: Nothing is opened that was not signed, and nothing is made up: an opened envelope's bytes
  verify under the attestation, its lines are exactly the decompressed data frame, within the
  limit, every line carries the header's provenance, and the envelope is well formed.
\<close>

theorem open_sound:
  assumes "open_envelope C J Z a wire lim = Ok e" and "max_decompressed_bytes lim < u64_max"
  shows "verifies C a wire \<and> envelope_wf e
    \<and> length (payload_lines e) \<le> max_decompressed_bytes lim
    \<and> list_all (\<lambda>l. stamp_peek J (as_str l) = Ok (e_provenance e)) (pl_lines (e_payload e))
    \<and> (\<exists>hdr data evs h. wire = frame hdr data \<and> length hdr \<le> max_header_bytes lim
        \<and> header_from_slice J hdr = Ok h \<and> h_provenance h = e_provenance e \<and> h_counter h = e_counter e
        \<and> zstd_decoder Z data = Ok evs \<and> drained evs = (payload_lines e, None))"
proof -
  obtain f h body ls schema where v: "verifies C a wire"
    and f: "split wire (max_header_bytes lim) = Ok f"
    and h: "header_from_slice J (fr_header f) = Ok h"
    and inf: "inflate Z (fr_data f) (max_decompressed_bytes lim) = Ok body"
    and ls: "lines_of body = Ok ls" and st: "\<forall>l \<in> set ls. stamp_peek J l = Ok (h_provenance h)"
    and e: "e = new_envelope (h_provenance h) (h_agent_version h) (h_counter h) (h_timestamp h)
            (case schema of Scrapes \<Rightarrow> scrapes_payload (map PayloadLine ls)
             | Lines \<Rightarrow> trace_lines_payload (map PayloadLine ls))"
    using assms(1) unfolding open_envelope_Ok_iff by blast
  have pl: "pl_lines (e_payload e) = map PayloadLine ls"
    by (simp add: e new_envelope_def scrapes_payload_def trace_lines_payload_def split: schema.split)
  have "payload_lines e = body"
    using lines_of_Ok [OF ls] by (simp add: payload_lines_concat pl comp_def)
  with inf assms(2) obtain evs where
    "zstd_decoder Z (fr_data f) = Ok evs" "drained evs = (payload_lines e, None)"
    "length (payload_lines e) \<le> max_decompressed_bytes lim"
    by (auto simp: inflate_Ok_iff)
  moreover have "envelope_wf e"
    by (cases schema) (simp_all add: e envelope_wf_def new_envelope_def scrapes_payload_def
        trace_lines_payload_def)
  moreover have "h_provenance h = e_provenance e" "h_counter h = e_counter e"
    by (simp_all add: e new_envelope_def)
  ultimately show ?thesis
    using v f h st by (auto simp: pl list_all_iff split_Ok_iff)
qed

section \<open>Witnesses\<close>

definition demo_provenance :: provenance where
  "demo_provenance = \<lparr>pv_pool = PoolId (replicate 28 (CHR ''p'')), pv_agent = ''relay-1''\<rparr>"

definition demo_envelope :: envelope where
  "demo_envelope =
     new_envelope demo_provenance ''0.1.0'' 7 0 (scrapes_payload [PayloadLine ''a'', PayloadLine ''b''])"

definition demo_json :: json_lib where
  "demo_json =
     \<lparr>header_to_vec = (\<lambda>h. if h = header_of demo_envelope then Ok ''h'' else Err ''no''),
      header_from_slice = (\<lambda>b. if b = ''h'' then Ok (header_of demo_envelope) else Err ''no''),
      schema_version_peek = (\<lambda>b. if b = ''h'' then Ok 1 else Err ''no''),
      stamp_peek = (\<lambda>t. Ok demo_provenance),
      stamp_scrape = (\<lambda>s p. if p = demo_provenance then Ok ''s'' else Err ''no''),
      stamp_object = (\<lambda>s p. if p = demo_provenance then Ok ''o'' else Err ''no''),
      unstamp_scrape = (\<lambda>t. Err ''no''),
      unstamp_object = (\<lambda>t. Err ''no''),
      object_from_str = (\<lambda>t. Ok [(''ns'', JString t)]),
      object_to_string = (\<lambda>obj. case obj of [(_, JString t)] \<Rightarrow> t | _ \<Rightarrow> [])\<rparr>"

definition demo_zstd :: zstd_lib where
  "demo_zstd =
     \<lparr>zstd_encode_all = (\<lambda>b level. Ok b), zstd_decoder = (\<lambda>d. Ok (map (\<lambda>c. Data [c]) d))\<rparr>"

definition demo_limits :: limits where
  "demo_limits = \<lparr>max_header_bytes = 16, max_decompressed_bytes = 64\<rparr>"

definition demo_key :: submission_key where
  "demo_key = ColdSigningKey (SigningKey (replicate 32 (CHR ''k'')))"

lemma demo_json_ok: "json_ok demo_json"
  by (simp add: json_ok_def demo_json_def header_of_def demo_envelope_def new_envelope_def
      scrapes_payload_def schema_versions)

lemma drained_singletons [simp]: "drained (map (\<lambda>c. Data [c]) d) = (d, None)"
  by (induction d) auto

lemma demo_zstd_ok: "zstd_ok demo_zstd"
  by (simp add: zstd_ok_def demo_zstd_def)

lemma demo_seal:
  "\<exists>wire a. seal demo_crypto demo_json demo_zstd demo_key demo_envelope 0 = Ok (wire, a)"
  by (simp add: seal_def header_json_def demo_json_def demo_zstd_def u32_max_def Let_def)

lemma u64_max_big: "n < 1000 \<Longrightarrow> n < u64_max"
  by (simp add: u64_max_def)

theorem inflate_by_content_witness:
  "inflate demo_zstd ''abc'' 2 = Err (TooLarge 2)"
  using inflate_by_content [of 2 demo_zstd "''abc''" "map (\<lambda>c. Data [c]) ''abc''" "''abc''" None]
  by (simp add: u64_max_def demo_zstd_def)

theorem open_seal_witness:
  "\<exists>wire a. open_envelope demo_crypto demo_json demo_zstd a wire demo_limits = Ok demo_envelope"
proof -
  obtain wire a where sealed: "seal demo_crypto demo_json demo_zstd demo_key demo_envelope 0 = Ok (wire, a)"
    using demo_seal by blast
  have key: "submission_key_wf demo_crypto demo_key" by (simp add: demo_key_def)
  have wf: "envelope_wf demo_envelope"
    by (simp add: envelope_wf_def demo_envelope_def new_envelope_def scrapes_payload_def)
  have lines: "\<forall>l \<in> set (pl_lines (e_payload demo_envelope)).
      stamp_peek demo_json (as_str l) = Ok (e_provenance demo_envelope)
      \<and> newline \<notin> set (as_str l) \<and> valid_utf8 (as_str l)"
    by (simp add: demo_envelope_def new_envelope_def scrapes_payload_def demo_json_def)
  have header: "header_json demo_json demo_envelope = Ok ''h''" "length ''h'' \<le> max_header_bytes demo_limits"
    by (simp_all add: header_json_def demo_json_def demo_limits_def)
  have payload: "length (payload_lines demo_envelope) \<le> max_decompressed_bytes demo_limits"
      "max_decompressed_bytes demo_limits < u64_max"
    by (simp_all add: payload_lines_concat demo_envelope_def new_envelope_def scrapes_payload_def
        demo_limits_def u64_max_def)
  show ?thesis
    using open_seal [OF demo_crypto_ok demo_json_ok demo_zstd_ok key wf lines sealed header payload]
    by blast
qed

lemma demo_open:
  "\<exists>wire a. open_envelope demo_crypto demo_json demo_zstd a wire demo_limits = Ok demo_envelope"
proof -
  let ?wire = "frame ''h'' (payload_lines demo_envelope)"
  have "schema_version_peek demo_json ''h'' = Ok (case Scrapes of Scrapes \<Rightarrow> 1 | Lines \<Rightarrow> 2)"
    by (simp add: demo_json_def)
  moreover have "header_from_slice demo_json ''h'' = Ok (header_of demo_envelope)"
    by (simp add: demo_json_def)
  moreover have "inflate demo_zstd (payload_lines demo_envelope) 64 = Ok (payload_lines demo_envelope)"
    by (subst inflate_drained)
      (simp_all add: demo_zstd_def u64_max_def payload_lines_concat demo_envelope_def
        new_envelope_def scrapes_payload_def)
  moreover have "lines_of (concat (map (\<lambda>l. l @ [newline]) [''a'', ''b''])) = Ok [''a'', ''b'']"
    by (rule lines_of_concat) auto
  then have "lines_of (payload_lines demo_envelope) = Ok [''a'', ''b'']"
    by (simp add: payload_lines_concat demo_envelope_def new_envelope_def scrapes_payload_def)
  moreover have "split ?wire 16 = Ok \<lparr>fr_header = ''h'', fr_data = payload_lines demo_envelope\<rparr>"
    by (simp add: split_frame)
  moreover have "verifies demo_crypto (attest demo_crypto demo_key ?wire) ?wire"
    by (rule attest_verifies) (simp_all add: demo_crypto_ok demo_key_def)
  ultimately have "open_envelope demo_crypto demo_json demo_zstd (attest demo_crypto demo_key ?wire)
      ?wire demo_limits = Ok demo_envelope"
    by (subst open_envelope_Ok_iff)
      (auto simp: demo_limits_def demo_json_def header_of_def demo_envelope_def new_envelope_def
        intro!: exI [of _ "\<lparr>fr_header = ''h'', fr_data = payload_lines demo_envelope\<rparr>"]
          exI [of _ Scrapes])
  then show ?thesis by blast
qed

theorem open_sound_witness:
  "\<exists>wire a. verifies demo_crypto a wire \<and> envelope_wf demo_envelope"
proof -
  obtain wire a where
    op: "open_envelope demo_crypto demo_json demo_zstd a wire demo_limits = Ok demo_envelope"
    using demo_open by blast
  have "max_decompressed_bytes demo_limits < u64_max" by (simp add: demo_limits_def u64_max_def)
  from open_sound [OF op this] show ?thesis by blast
qed

end
