(* ===== verification/Http_Client.thy ===== *)
theory Http_Client
  imports Reader
begin

text \<open>
  \<open>metsuke-wire/src/http.rs\<close>: what every binary makes of a non-2xx answer (\<open>classify\<close>), and the one
  bounded, printable line a reason is reduced to (\<open>one_line\<close>). The HTTP client itself (\<open>ureq\<close>) is
  outside the model: an answer is its status and what reading its body came to.
\<close>

definition SUBMISSIONS_PATH :: string where "SUBMISSIONS_PATH = ''/v1/submissions''"
definition OBJECT_PATH :: string where "OBJECT_PATH = ''/v1/object''"
definition PREFIX_FIELD :: string where "PREFIX_FIELD = ''prefix''"
definition AFTER_FIELD :: string where "AFTER_FIELD = ''after''"
definition KEY_FIELD :: string where "KEY_FIELD = ''key''"

record listing =
  l_keys :: "string list"
  l_truncated :: bool

definition REASON_MAX_CHARS :: nat where "REASON_MAX_CHARS = 200"

text \<open>\<open>char::is_control\<close> (general category Cc) and \<open>char::is_whitespace\<close> (White\_Space).\<close>

definition is_control :: "uchar \<Rightarrow> bool" where
  "is_control g \<longleftrightarrow> (let p = code_point g in p < 32 \<or> 127 \<le> p \<and> p < 160)"

definition is_whitespace :: "uchar \<Rightarrow> bool" where
  "is_whitespace g \<longleftrightarrow>
     (let p = code_point g in
      9 \<le> p \<and> p \<le> 13 \<or> p \<in> {32, 133, 160, 5760, 8232, 8233, 8239, 8287, 12288}
      \<or> 8192 \<le> p \<and> p \<le> 8202)"

text \<open>\<open>split_whitespace\<close>: the maximal runs of characters that are not whitespace.\<close>

fun split_where :: "('a \<Rightarrow> bool) \<Rightarrow> 'a list \<Rightarrow> 'a list list" where
  "split_where P [] = [[]]"
| "split_where P (x # xs) =
     (if P x then [] # split_where P xs
      else case split_where P xs of [] \<Rightarrow> [[x]] | p # ps \<Rightarrow> (x # p) # ps)"

definition split_whitespace :: "uchar list \<Rightarrow> uchar list list" where
  "split_whitespace cs = filter (\<lambda>w. w \<noteq> []) (split_where is_whitespace cs)"

abbreviation space :: char where "space \<equiv> CHR '' ''"

definition ellipsis :: string where
  "ellipsis = [CHR 0xE2, CHR 0x80, CHR 0xA6]"

definition one_line :: "string \<Rightarrow> string" where
  "one_line body =
     (let printable = map (\<lambda>g. if is_control g then [space] else g) (chars_of body);
          collapsed = concat (join_with [space] (split_whitespace printable));
          cs = chars_of collapsed
      in if length cs \<le> REASON_MAX_CHARS then collapsed
         else concat (take REASON_MAX_CHARS cs) @ ellipsis)"

record refusal =
  rf_status :: nat
  rf_reason :: string
  rf_retryable :: bool

definition TOO_MANY_REQUESTS :: nat where "TOO_MANY_REQUESTS = 429"

record http_response =
  rs_status :: nat
  rs_body :: "(string, string) result"

definition classify :: "http_response \<Rightarrow> (refusal, unit) result" where
  "classify response =
     (let status = rs_status response in
      if 200 \<le> status \<and> status < 300 then Ok ()
      else Err \<lparr>rf_status = status,
             rf_reason = one_line (case rs_body response of
                 Inr body \<Rightarrow> body
               | Inl error \<Rightarrow> ''unreadable reason: '' @ error),
             rf_retryable = (status = TOO_MANY_REQUESTS \<or> \<not> (400 \<le> status \<and> status < 500))\<rparr>)"

text \<open>\<open>HeaderValue::to_str\<close>: visible ASCII and tabs.\<close>

definition header_to_str :: "string \<Rightarrow> string option" where
  "header_to_str v = (if list_all (\<lambda>c. 32 \<le> code c \<and> code c < 127 \<or> code c = 9) v then Some v else None)"

section \<open>Lemmas\<close>

lemma split_where_pieces: "p \<in> set (split_where P xs) \<Longrightarrow> set p \<subseteq> set xs"
proof (induction xs arbitrary: p)
  case (Cons x xs)
  then show ?case
    by (cases "split_where P xs") (auto split: if_splits, blast+)
qed simp

lemma space_ok [simp]: "uchar_wf [space]" "\<not> is_control [space]"
  by (simp_all add: uchar_wf_def uchar_ok_def is_continuation_def is_control_def)

lemma ellipsis_ok: "uchar_wf ellipsis" "\<not> is_control ellipsis"
  by (simp_all add: ellipsis_def uchar_wf_def uchar_ok_def is_continuation_def is_control_def)

definition printable_char :: "uchar \<Rightarrow> bool" where
  "printable_char g \<longleftrightarrow> uchar_wf g \<and> \<not> is_control g"

lemma collapsed_printable:
  assumes "valid_utf8 body"
  shows "list_all printable_char
    (join_with [space] (split_whitespace (map (\<lambda>g. if is_control g then [space] else g) (chars_of body))))"
proof -
  let ?p = "map (\<lambda>g. if is_control g then [space] else g) (chars_of body)"
  have "g \<in> set ?p \<Longrightarrow> printable_char g" for g
    using chars_of_valid [OF assms] by (auto simp: printable_char_def list_all_iff)
  moreover have "set (join_with [space] (split_whitespace ?p)) \<subseteq> insert [space] (set ?p)"
    using set_join_with [of "[space]" "split_whitespace ?p"] split_where_pieces [of _ is_whitespace ?p]
    by (fastforce simp: split_whitespace_def)
  moreover have "printable_char [space]" by (simp add: printable_char_def)
  ultimately show ?thesis by (auto simp: list_all_iff)
qed

lemma one_line_chars:
  assumes "valid_utf8 body"
  shows "\<exists>cs. list_all printable_char cs \<and> length cs \<le> REASON_MAX_CHARS + 1 \<and> one_line body = concat cs"
proof -
  let ?j = "join_with [space] (split_whitespace (map (\<lambda>g. if is_control g then [space] else g) (chars_of body)))"
  have j: "list_all printable_char ?j" using assms by (rule collapsed_printable)
  then have "list_all uchar_ok ?j" by (auto simp: list_all_iff printable_char_def uchar_wf_def)
  then have c: "chars_of (concat ?j) = ?j" by (rule chars_of_concat)
  show ?thesis
  proof (cases "length ?j \<le> REASON_MAX_CHARS")
    case True
    then have "one_line body = concat ?j" by (simp add: one_line_def Let_def c)
    with True j show ?thesis by (intro exI [of _ ?j]) simp
  next
    case False
    then have "one_line body = concat (take REASON_MAX_CHARS ?j @ [ellipsis])"
      by (simp add: one_line_def Let_def c)
    moreover have "list_all printable_char (take REASON_MAX_CHARS ?j @ [ellipsis])"
      using j ellipsis_ok by (auto simp: list_all_iff printable_char_def dest: in_set_takeD)
    ultimately show ?thesis by (intro exI [of _ "take REASON_MAX_CHARS ?j @ [ellipsis]"]) simp
  qed
qed

text \<open>
  A reason is one bounded printable line. For every valid UTF-8 text, \<open>one_line\<close> answers at most
  201 characters (200 and the ellipsis that marks the cut), none of which is a control character,
  so no newline and no escape reaches the journal.
\<close>

theorem one_line_bounded_printable:
  assumes "valid_utf8 body"
  shows "length (chars_of (one_line body)) \<le> 201
    \<and> list_all (\<lambda>g. \<not> is_control g) (chars_of (one_line body))
    \<and> CHR 0x0A \<notin> set (one_line body)"
proof -
  obtain cs where cs: "list_all printable_char cs" "length cs \<le> 201" "one_line body = concat cs"
    using one_line_chars [OF assms] by (auto simp: REASON_MAX_CHARS_def)
  then have ok: "chars_of (one_line body) = cs"
    by (auto simp: list_all_iff printable_char_def uchar_wf_def intro: chars_of_concat)
  have "CHR 0x0A \<notin> set g" if "g \<in> set cs" for g
  proof
    assume nl: "CHR 0x0A \<in> set g"
    have g: "uchar_wf g" "\<not> is_control g"
      using cs(1) that by (auto simp: list_all_iff printable_char_def)
    then obtain c ds where c: "g = c # ds" "list_all is_continuation ds"
      by (cases g) (auto simp: uchar_wf_def uchar_ok_def)
    with nl have "c = CHR 0x0A" by (auto simp: list_all_iff is_continuation_def)
    with g c show False by (auto simp: uchar_wf_def is_control_def)
  qed
  with cs ok show ?thesis by (auto simp: list_all_iff printable_char_def)
qed

theorem one_line_bounded_printable_witness:
  "length (chars_of (one_line ''no''))  \<le> 201"
  using one_line_bounded_printable [of "''no''"]
  by simp

text \<open>
  The status split every retry loop acts on: an answer is a success exactly in 200..299, and a
  refusal is terminal exactly when its status is a 4xx other than 429.
\<close>

theorem classify_retryable:
  "(case classify r of
      Inr _ \<Rightarrow> rs_status r \<in> {200..<300}
    | Inl e \<Rightarrow> rs_status r \<notin> {200..<300} \<and> rf_status e = rs_status r
        \<and> (rf_retryable e \<longleftrightarrow> rs_status r \<notin> {400..<500} - {429}))"
  by (auto simp: classify_def Let_def TOO_MANY_REQUESTS_def)

end
