(* ===== verification/Object_Key.thy ===== *)
theory Object_Key
  imports Envelope
begin

text \<open>
  \<open>metsuke-wire/src/key.rs\<close>: what an object key encodes. The \<open>uuid\<close> and \<open>time\<close> crates and \<open>bech32\<close> are
  parameters (\<open>key_lib\<close>).
\<close>

definition KEY_PREFIX :: string where "KEY_PREFIX = ''v1/''"
definition KEY_SUFFIX :: string where "KEY_SUFFIX = ''.jsonl.zst''"

section \<open>Payload kinds\<close>

datatype kind = Metrics | Logs

definition kind_of :: "nat \<Rightarrow> kind option" where
  "kind_of schema_version =
     (if schema_version = SCHEMA_VERSION_SCRAPES then Some Metrics
      else if schema_version = SCHEMA_VERSION_LINES then Some Logs
      else None)"

fun kind_as_str :: "kind \<Rightarrow> string" where
  "kind_as_str Metrics = ''metrics''"
| "kind_as_str Logs = ''logs''"

definition kind_parse :: "string \<Rightarrow> kind option" where
  "kind_parse segment = find (\<lambda>k. kind_as_str k = segment) [Metrics, Logs]"

lemma kind_parse_iff: "kind_parse s = Some k \<longleftrightarrow> s = kind_as_str k"
  by (cases k) (auto simp: kind_parse_def)

interpretation kind: codec "\<lambda>_. True" kind_as_str kind_parse
  by unfold_locales (auto simp: kind_parse_iff)

section \<open>Object names\<close>

text \<open>An id the \<open>uuid\<close> crate holds: its sixteen bytes.\<close>

datatype uuid = Uuid bytes

text \<open>
  \<open>Uuid\<close>'s hyphenated text, \<open>try_parse\<close>, whether \<open>get_version\<close> is 7, the seconds of its timestamp,
  \<open>new_v7\<close> of seconds and nanoseconds (the rest of the id is the random bytes it draws, the last
  argument), and \<open>OffsetDateTime::from_unix_timestamp(_).date()\<close> as year, month and day.
\<close>

record key_lib =
  kl_bech32 :: bech32_lib
  uuid_text :: "uuid \<Rightarrow> string"
  uuid_try_parse :: "string \<Rightarrow> (string, uuid) result"
  uuid_is_v7 :: "uuid \<Rightarrow> bool"
  uuid_seconds :: "uuid \<Rightarrow> nat"
  uuid_new_v7 :: "nat \<Rightarrow> nat \<Rightarrow> bytes \<Rightarrow> uuid"
  utc_date :: "nat \<Rightarrow> nat \<times> nat \<times> nat"

record object_name =
  on_id :: uuid
  on_pool :: pool_id
  on_agent :: agent_id
  on_kind :: kind

definition object_name_stamped ::
  "key_lib \<Rightarrow> bytes \<Rightarrow> instant \<Rightarrow> pool_id \<Rightarrow> agent_id \<Rightarrow> kind \<Rightarrow> object_name" where
  "object_name_stamped L entropy now pool agent k =
     \<lparr>on_id = uuid_new_v7 L (nat (now div 1000000000)) (nat (now mod 1000000000)) entropy,
      on_pool = pool, on_agent = agent, on_kind = k\<rparr>"

definition object_date :: "key_lib \<Rightarrow> object_name \<Rightarrow> nat \<times> nat \<times> nat" where
  "object_date L n = utc_date L (uuid_seconds L (on_id n))"

definition date_folder :: "nat \<times> nat \<times> nat \<Rightarrow> string" where
  "date_folder d =
     (case d of (year, month, day) \<Rightarrow>
        zero_padded 4 year @ ''-'' @ zero_padded 2 month @ ''-'' @ zero_padded 2 day)"

definition to_key :: "key_lib \<Rightarrow> object_name \<Rightarrow> string" where
  "to_key L n =
     KEY_PREFIX @ date_folder (object_date L n) @ ''/'' @ uuid_text L (on_id n)
     @ ''-'' @ to_bech32 (kl_bech32 L) (on_pool n) @ ''-'' @ on_agent n
     @ ''-'' @ kind_as_str (on_kind n) @ KEY_SUFFIX"

datatype name_reason =
    ExpectedThreeSegments
  | SchemaPrefix string
  | NotASuffixed string
  | ShorterThanUuid string
  | BadId string string
  | NotV7 uuid
  | NotIdPoolAgentKind string
  | NotPoolAgentKind string
  | NotAgentKind string
  | BadPool pool_id_error
  | BadAgent agent_id_error
  | BadKind string
  | WrongFolder string uuid

record object_name_error =
  oe_key :: string
  oe_reason :: name_reason

definition UUID_LENGTH :: nat where "UUID_LENGTH = 36"

text \<open>\<open>split_at_checked\<close>: \<open>None\<close> past the end or inside a character.\<close>

definition split_at_checked :: "nat \<Rightarrow> string \<Rightarrow> (string \<times> string) option" where
  "split_at_checked n s =
     (if length s < n then None
      else if n < length s \<and> is_continuation (s ! n) then None
      else Some (take n s, drop n s))"

text \<open>The three steps of \<open>ObjectName::parse\<close>: the file's stem, the stem's segments, the name.\<close>

definition key_stem :: "string \<Rightarrow> (name_reason, string \<times> string) result" where
  "key_stem key =
     (case split_on (CHR ''/'') key of
        [prefix, date, file] \<Rightarrow>
          if prefix \<noteq> ''v1'' then Err (SchemaPrefix prefix)
          else and_then (ok_or (NotASuffixed file) (strip_suffix KEY_SUFFIX file)) (\<lambda>stem. Ok (date, stem))
      | _ \<Rightarrow> Err ExpectedThreeSegments)"

definition stem_segments ::
  "key_lib \<Rightarrow> string \<Rightarrow> (name_reason, uuid \<times> string \<times> string \<times> string) result" where
  "stem_segments L stem =
     and_then (ok_or (ShorterThanUuid stem) (split_at_checked UUID_LENGTH stem)) (\<lambda>(id_text, rest).
     and_then (map_err (BadId id_text) (uuid_try_parse L id_text)) (\<lambda>uid.
     if \<not> uuid_is_v7 L uid then Err (NotV7 uid)
     else and_then (ok_or (NotIdPoolAgentKind stem) (strip_prefix ''-'' rest)) (\<lambda>rest.
     and_then (ok_or (NotPoolAgentKind rest) (split_once dash rest)) (\<lambda>(pool, rest).
     and_then (ok_or (NotAgentKind rest) (rsplit_once dash rest)) (\<lambda>(agent, k).
       Ok (uid, pool, agent, k))))))"

definition name_of_segments ::
  "key_lib \<Rightarrow> uuid \<times> string \<times> string \<times> string \<Rightarrow> (name_reason, object_name) result" where
  "name_of_segments L segs =
     (case segs of (uid, pool, agent, k) \<Rightarrow>
       and_then (map_err BadPool (from_bech32 (kl_bech32 L) pool)) (\<lambda>p.
       and_then (map_err BadAgent (parse_agent_id agent)) (\<lambda>a.
       and_then (ok_or (BadKind k) (kind_parse k)) (\<lambda>kd.
         Ok \<lparr>on_id = uid, on_pool = p, on_agent = a, on_kind = kd\<rparr>))))"

definition object_name_parse :: "key_lib \<Rightarrow> string \<Rightarrow> (object_name_error, object_name) result" where
  "object_name_parse L key =
     map_err (\<lambda>r. \<lparr>oe_key = key, oe_reason = r\<rparr>)
       (and_then (key_stem key) (\<lambda>(date, stem).
        and_then (stem_segments L stem) (\<lambda>segs.
        and_then (name_of_segments L segs) (\<lambda>name.
          if to_key L name \<noteq> key then Err (WrongFolder date (on_id name)) else Ok name))))"

section \<open>Round trip\<close>

text \<open>
  What the crates document: the hyphenated text of a v7 id is 36 lowercase hex digits and dashes,
  and parses back.
\<close>

definition key_lib_ok :: "key_lib \<Rightarrow> bool" where
  "key_lib_ok L \<longleftrightarrow> bech32_ok (kl_bech32 L)
     \<and> (\<forall>u. uuid_is_v7 L u \<longrightarrow>
          length (uuid_text L u) = 36 \<and> uuid_try_parse L (uuid_text L u) = Ok u
          \<and> CHR ''/'' \<notin> set (uuid_text L u))"

definition object_name_wf :: "key_lib \<Rightarrow> object_name \<Rightarrow> bool" where
  "object_name_wf L n \<longleftrightarrow>
     uuid_is_v7 L (on_id n) \<and> pool_id_wf (on_pool n) \<and> is_slug (on_agent n)"

lemma kind_str_no_dash: "dash \<notin> set (kind_as_str k)" "CHR ''/'' \<notin> set (kind_as_str k)"
  by (cases k; simp)+

lemma date_folder_no_slash: "CHR ''/'' \<notin> set (date_folder d)"
  by (auto simp: date_folder_def is_digit_def dest!: zero_padded_digits split: prod.splits)

lemma key_stem_to_key:
  assumes "key_lib_ok L" "object_name_wf L n"
  shows "key_stem (to_key L n) =
    Ok (date_folder (object_date L n),
        uuid_text L (on_id n) @ ''-'' @ to_bech32 (kl_bech32 L) (on_pool n) @ ''-'' @ on_agent n
        @ ''-'' @ kind_as_str (on_kind n))" (is "_ = Ok (?d, ?stem)")
proof -
  have "CHR ''/'' \<notin> set (?stem @ KEY_SUFFIX)"
    using assms kind_str_no_dash slug_no_slash
    by (auto simp: key_lib_ok_def object_name_wf_def bech32_ok_def to_bech32_def POOL_HRP_def
        pool_id_wf_def KEY_SUFFIX_def)
  then have "split_on (CHR ''/'') (''v1'' @ CHR ''/'' # ?d @ CHR ''/'' # ?stem @ KEY_SUFFIX)
      = [''v1'', ?d, ?stem @ KEY_SUFFIX]"
    using date_folder_no_slash
    by (subst split_on_append, simp, subst split_on_append, simp, subst split_on_free) auto
  moreover have "to_key L n = ''v1'' @ CHR ''/'' # ?d @ CHR ''/'' # ?stem @ KEY_SUFFIX"
    by (simp add: to_key_def KEY_PREFIX_def)
  moreover have "strip_suffix KEY_SUFFIX (?stem @ KEY_SUFFIX) = Some ?stem"
    by (rule strip_suffix_append)
  ultimately show ?thesis by (simp only: key_stem_def list.case if_False and_then_simps ok_or_simps) simp
qed

lemma stem_segments_stem:
  assumes "key_lib_ok L" "object_name_wf L n"
  shows "stem_segments L
      (uuid_text L (on_id n) @ ''-'' @ to_bech32 (kl_bech32 L) (on_pool n) @ ''-'' @ on_agent n
        @ ''-'' @ kind_as_str (on_kind n))
    = Ok (on_id n, to_bech32 (kl_bech32 L) (on_pool n), on_agent n, kind_as_str (on_kind n))"
    (is "stem_segments L (?u @ ''-'' @ ?rest) = _")
proof -
  have u: "length ?u = 36" "uuid_try_parse L ?u = Ok (on_id n)" "uuid_is_v7 L (on_id n)"
    using assms by (auto simp: key_lib_ok_def object_name_wf_def)
  have "split_at_checked UUID_LENGTH (?u @ ''-'' @ ?rest) = Some (?u, ''-'' @ ?rest)"
    using u(1) by (simp add: split_at_checked_def UUID_LENGTH_def nth_append is_continuation_def)
  moreover have "dash \<notin> set (to_bech32 (kl_bech32 L) (on_pool n))"
    using assms by (simp add: key_lib_ok_def bech32_ok_def object_name_wf_def pool_id_wf_def
        to_bech32_def POOL_HRP_def)
  then have "split_once dash ?rest
      = Some (to_bech32 (kl_bech32 L) (on_pool n), on_agent n @ dash # kind_as_str (on_kind n))"
    using split_once_append by simp
  moreover have "rsplit_once dash (on_agent n @ dash # kind_as_str (on_kind n))
      = Some (on_agent n, kind_as_str (on_kind n))"
    by (intro rsplit_once_append kind_str_no_dash)
  ultimately show ?thesis using u by (simp add: stem_segments_def)
qed

lemma parse_to_key:
  assumes "key_lib_ok L" "object_name_wf L n"
  shows "object_name_parse L (to_key L n) = Ok n"
proof -
  have "from_bech32 (kl_bech32 L) (to_bech32 (kl_bech32 L) (on_pool n)) = Ok (on_pool n)"
    using assms by (simp add: from_bech32_to_bech32 key_lib_ok_def object_name_wf_def)
  moreover have "parse_agent_id (on_agent n) = Ok (on_agent n)"
    using assms by (simp add: parse_agent_id_Ok_iff object_name_wf_def)
  ultimately have "name_of_segments L
      (on_id n, to_bech32 (kl_bech32 L) (on_pool n), on_agent n, kind_as_str (on_kind n)) = Ok n"
    by (simp add: name_of_segments_def kind.parse_render)
  with stem_segments_stem [OF assms] show ?thesis
    by (simp add: object_name_parse_def key_stem_to_key [OF assms])
qed

lemma parse_Ok_sound: "object_name_parse L key = Ok n \<Longrightarrow> object_name_wf L n \<and> key = to_key L n"
  by (auto simp: object_name_parse_def and_then_Ok_iff name_of_segments_def stem_segments_def
      object_name_wf_def parse_agent_id_Ok_iff from_bech32_wf split: if_splits)

lemma object_name_parse_Ok_iff:
  "key_lib_ok L \<Longrightarrow> object_name_parse L key = Ok n \<longleftrightarrow> object_name_wf L n \<and> key = to_key L n"
  using parse_to_key parse_Ok_sound by blast

text \<open>Keys sort by day: the folder is compared before the id.\<close>

definition date_ok :: "nat \<times> nat \<times> nat \<Rightarrow> bool" where
  "date_ok d = (case d of (y, m, dd) \<Rightarrow> y < 10000 \<and> m < 100 \<and> dd < 100)"

definition date_less :: "nat \<times> nat \<times> nat \<Rightarrow> nat \<times> nat \<times> nat \<Rightarrow> bool" where
  "date_less d e =
     (case (d, e) of ((y, m, dd), (y', m', dd')) \<Rightarrow> y < y' \<or> y = y' \<and> (m < m' \<or> m = m' \<and> dd < dd'))"

lemma date_folder_length: "date_ok d \<Longrightarrow> length (date_folder d) = 10"
  by (cases d) (simp add: date_ok_def date_folder_def length_zero_padded)

lemma date_folder_less:
  assumes "date_ok d" "date_ok e" "date_less d e"
  shows "date_folder d < date_folder e"
proof -
  obtain y m dd y' m' dd' where de: "d = (y, m, dd)" "e = (y', m', dd')" by (metis surj_pair)
  from assms have b: "y < 10000" "y' < 10000" "m < 100" "m' < 100" "dd < 100" "dd' < 100"
    by (simp_all add: de date_ok_def)
  consider "y < y'" | "y = y'" "m < m'" | "y = y'" "m = m'" "dd < dd'"
    using assms(3) by (auto simp: de date_less_def)
  then show ?thesis
  proof cases
    case 1
    then have "zero_padded 4 y < zero_padded 4 y'" using b by (intro zero_padded_less) auto
    then show ?thesis
      using b by (auto simp: de date_folder_def length_zero_padded intro!: append_less_same_length)
  next
    case 2
    then have "zero_padded 2 m < zero_padded 2 m'" using b by (intro zero_padded_less) auto
    with 2 show ?thesis
      using b by (auto simp: de date_folder_def length_zero_padded intro!: append_less_same_length)
  next
    case 3
    then have "zero_padded 2 dd < zero_padded 2 dd'" using b by (intro zero_padded_less) auto
    with 3 show ?thesis by (simp add: de date_folder_def)
  qed
qed

lemma to_key_folder: "to_key L n = KEY_PREFIX @ date_folder (object_date L n) @ drop 13 (to_key L n)"
  if "date_ok (object_date L n)"
  using that by (simp add: to_key_def KEY_PREFIX_def date_folder_length)

section \<open>Properties\<close>


text \<open>
  Keys are time-major. Of two names stamped on different days (of four-digit years) the one
  stamped earlier has the bytewise smaller key, whatever their pools, agents, kinds and ids.
\<close>

theorem keys_sort_by_day:
  assumes "date_ok (object_date L a)" "date_ok (object_date L b)"
    and "date_less (object_date L a) (object_date L b)"
  shows "to_key L a < to_key L b"
  using assms date_folder_less [OF assms]
  by (auto simp: to_key_def date_folder_length intro!: append_less_same_length)

section \<open>Witnesses\<close>

definition demo_bech32 :: bech32_lib where
  "demo_bech32 =
     \<lparr>checked_hrpstring = (\<lambda>s.
        case decode_bytes (drop 5 s) of
          Inr b \<Rightarrow> if take 5 s = ''pool1'' then Ok (''pool'', b) else Err ''prefix''
        | Inl _ \<Rightarrow> Err ''not bech32''),
      bech32_encode = (\<lambda>hrp b. hrp @ ''1'' @ encode b)\<rparr>"

definition demo_key_lib :: key_lib where
  "demo_key_lib =
     \<lparr>kl_bech32 = demo_bech32,
      uuid_text = (\<lambda>u. case u of Uuid b \<Rightarrow> encode b),
      uuid_try_parse = (\<lambda>s. case decode_bytes s of Inr b \<Rightarrow> Ok (Uuid b) | Inl _ \<Rightarrow> Err ''not a uuid''),
      uuid_is_v7 = (\<lambda>u. case u of Uuid b \<Rightarrow> length b = 18),
      uuid_seconds = (\<lambda>u. case u of Uuid b \<Rightarrow> code (hd b)),
      uuid_new_v7 = (\<lambda>s n e. Uuid (char_of s # take 17 (e @ replicate 17 (CHR 0x00)))),
      utc_date = (\<lambda>s. (1970 + s div 372, s div 31 mod 12 + 1, s mod 31 + 1))\<rparr>"

lemma hexdigits_plain: "is_ascii_hexdigit c \<Longrightarrow> c \<noteq> CHR ''-'' \<and> c \<noteq> CHR ''/''"
  by (auto simp: is_ascii_hexdigit_def is_digit_def)

lemma demo_bech32_ok: "bech32_ok demo_bech32"
  by (auto simp: bech32_ok_def demo_bech32_def dest!: encode_hexdigits hexdigits_plain)

lemma demo_key_lib_ok: "key_lib_ok demo_key_lib"
  by (auto simp: key_lib_ok_def demo_bech32_ok demo_key_lib_def
      dest!: encode_hexdigits hexdigits_plain split: uuid.splits)

definition demo_name :: object_name where
  "demo_name =
     \<lparr>on_id = Uuid (replicate 18 (CHR ''a'')), on_pool = PoolId (replicate 28 (CHR ''p'')),
      on_agent = ''relay-1'', on_kind = Logs\<rparr>"

lemma demo_name_wf: "object_name_wf demo_key_lib demo_name"
  by (simp add: object_name_wf_def demo_key_lib_def demo_name_def pool_id_wf_def is_slug_def
      is_slug_char_def is_digit_def is_lower_def)


theorem keys_sort_by_day_witness:
  "to_key demo_key_lib demo_name
     < to_key demo_key_lib (demo_name\<lparr>on_id := Uuid (replicate 18 (CHR ''z''))\<rparr>)"
  by (rule keys_sort_by_day)
    (simp_all add: date_ok_def date_less_def object_date_def demo_key_lib_def demo_name_def)

end
