(* ===== verification/Migrate.thy ===== *)
theory Migrate
  imports Prelude
begin

text \<open>
  \<open>metsuke-wire/src/sqlite.rs\<close>: schema migration. SQLite is a parameter: a migration is what its
  statements do to the tables (or why they fail) and the rows they change, and any statement of the
  transaction around it may fail, which rolls the transaction back.
\<close>

type_synonym 'd migration = "'d \<Rightarrow> (string, 'd \<times> nat) result"

record 'd connection =
  user_version :: nat
  tables :: 'd
  total_changes :: nat

text \<open>Where a failure of SQLite itself may strike: reading the version, and around migration \<open>n\<close>.\<close>

datatype txn_step = QueryVersion | Begin nat | Pragma nat | Commit nat

type_synonym faults = "txn_step \<Rightarrow> string option"

datatype migrate_error = Sqlite string | FromTheFuture nat nat

record applied =
  ap_version :: nat
  ap_rows :: nat

text \<open>
  One migration in its transaction. \<open>user_version\<close> rolls back with everything else;
  \<open>total_changes\<close> counts on.
\<close>

definition run_migration ::
  "faults \<Rightarrow> nat \<Rightarrow> 'd migration \<Rightarrow> 'd connection \<Rightarrow> 'd connection \<times> (migrate_error, applied) result" where
  "run_migration fault version m c =
     (case fault (Begin version) of
        Some e \<Rightarrow> (c, Err (Sqlite e))
      | None \<Rightarrow>
          (case m (tables c) of
             Inl e \<Rightarrow> (c, Err (Sqlite e))
           | Inr (d, rows) \<Rightarrow>
               let rolled_back = c\<lparr>total_changes := total_changes c + rows\<rparr> in
               (case fault (Pragma version) of
                  Some e \<Rightarrow> (rolled_back, Err (Sqlite e))
                | None \<Rightarrow>
                    (case fault (Commit version) of
                       Some e \<Rightarrow> (rolled_back, Err (Sqlite e))
                     | None \<Rightarrow>
                         (rolled_back\<lparr>tables := d, user_version := version + 1\<rparr>,
                          Ok \<lparr>ap_version = version + 1,
                             ap_rows = total_changes rolled_back - total_changes c\<rparr>)))))"

fun run_migrations ::
  "faults \<Rightarrow> nat \<Rightarrow> 'd migration list \<Rightarrow> 'd connection
    \<Rightarrow> 'd connection \<times> (migrate_error, applied list) result" where
  "run_migrations fault version [] c = (c, Ok [])"
| "run_migrations fault version (m # ms) c =
     (case run_migration fault version m c of
        (c', Inl e) \<Rightarrow> (c', Err e)
      | (c', Inr a) \<Rightarrow>
          (case run_migrations fault (version + 1) ms c' of
             (c'', Inl e) \<Rightarrow> (c'', Err e)
           | (c'', Inr as) \<Rightarrow> (c'', Ok (a # as))))"

definition migrate ::
  "faults \<Rightarrow> 'd migration list \<Rightarrow> 'd connection
    \<Rightarrow> 'd connection \<times> (migrate_error, applied list) result" where
  "migrate fault migrations c =
     (case fault QueryVersion of
        Some e \<Rightarrow> (c, Err (Sqlite e))
      | None \<Rightarrow>
          if length migrations < user_version c
          then (c, Err (FromTheFuture (user_version c) (length migrations)))
          else run_migrations fault (user_version c) (drop (user_version c) migrations) c)"

section \<open>What a schema version means\<close>

text \<open>
  The tables a fresh database holds after the first \<open>n\<close> migrations: what claiming version \<open>n\<close>
  promises.
\<close>

fun schema_after :: "'d migration list \<Rightarrow> 'd \<Rightarrow> (string, 'd) result" where
  "schema_after [] d = Ok d"
| "schema_after (m # ms) d = and_then (m d) (\<lambda>(d', rows). schema_after ms d')"

definition consistent :: "'d migration list \<Rightarrow> 'd \<Rightarrow> 'd connection \<Rightarrow> bool" where
  "consistent ms fresh c \<longleftrightarrow>
     user_version c \<le> length ms \<and> schema_after (take (user_version c) ms) fresh = Ok (tables c)"

lemma schema_after_append:
  "schema_after (xs @ ys) d = and_then (schema_after xs d) (schema_after ys)"
proof (induction xs arbitrary: d)
  case (Cons m xs)
  then show ?case by (cases "m d") (auto split: prod.splits)
qed simp

lemma run_migration_cases:
  "run_migration fault v m c = (c', Inl e) \<Longrightarrow> tables c' = tables c \<and> user_version c' = user_version c"
  "run_migration fault v m c = (c', Inr a) \<Longrightarrow>
     (\<exists>rows. m (tables c) = Ok (tables c', rows) \<and> a = \<lparr>ap_version = v + 1, ap_rows = rows\<rparr>)
     \<and> user_version c' = v + 1"
  by (auto simp: run_migration_def Let_def split: option.splits sum.splits prod.splits)

lemma consistent_step:
  assumes "consistent ms fresh c" "user_version c < length ms"
    and "run_migration fault (user_version c) (ms ! user_version c) c = (c', Inr a)"
  shows "consistent ms fresh c'"
proof -
  from assms(2) have "take (Suc (user_version c)) ms = take (user_version c) ms @ [ms ! user_version c]"
    by (rule take_Suc_conv_app_nth)
  with assms run_migration_cases(2) [OF assms(3)] show ?thesis
    by (auto simp: consistent_def schema_after_append)
qed

lemma run_migrations_consistent:
  "consistent ms fresh c \<Longrightarrow> run_migrations fault (user_version c) (drop (user_version c) ms) c = (c', r)
    \<Longrightarrow> consistent ms fresh c'
      \<and> (\<forall>as. r = Ok as \<longrightarrow> user_version c' = length ms
            \<and> map ap_version as = [Suc (user_version c)..<Suc (length ms)])"
proof (induction "length ms - user_version c" arbitrary: c c' r)
  case 0
  then show ?case by (auto simp: consistent_def)
next
  case (Suc n)
  from Suc.hyps(2) have less: "user_version c < length ms" by simp
  let ?v = "user_version c"
  from less have drop: "drop ?v ms = ms ! ?v # drop (Suc ?v) ms"
    by (rule Cons_nth_drop_Suc [symmetric])
  obtain c1 r1 where one: "run_migration fault ?v (ms ! ?v) c = (c1, r1)" by fastforce
  show ?case
  proof (cases r1)
    case (Inl e)
    with Suc.prems(2) drop one have "c' = c1" "r = Inl e" by auto
    with Inl one Suc.prems(1) run_migration_cases(1) [of fault ?v "ms ! ?v" c c1 e] show ?thesis
      by (auto simp: consistent_def)
  next
    case (Inr a)
    with one have a: "run_migration fault ?v (ms ! ?v) c = (c1, Inr a)" by simp
    have v1: "user_version c1 = Suc ?v" "ap_version a = Suc ?v"
      using run_migration_cases(2) [OF a] by auto
    have con: "consistent ms fresh c1" using consistent_step [OF Suc.prems(1) less a] .
    obtain c2 r2 where rest: "run_migrations fault (Suc ?v) (drop (Suc ?v) ms) c1 = (c2, r2)"
      by fastforce
    with v1 have "run_migrations fault (user_version c1) (drop (user_version c1) ms) c1 = (c2, r2)"
      by simp
    from Suc.hyps(1) [OF _ con this] v1 Suc.hyps(2)
    have IH: "consistent ms fresh c2 \<and> (\<forall>as. r2 = Ok as \<longrightarrow> user_version c2 = length ms
            \<and> map ap_version as = [Suc (Suc ?v)..<Suc (length ms)])" by simp
    from Suc.prems(2) drop a rest
    have "c' = c2 \<and> r = (case r2 of Inl e \<Rightarrow> Inl e | Inr as \<Rightarrow> Inr (a # as))"
      by (auto split: sum.splits)
    with IH v1 less show ?thesis
      by (auto split: sum.splits simp: upt_conv_Cons)
  qed
qed

section \<open>Properties\<close>

text \<open>
  An interrupted migration leaves a database that migrates again. Whatever step of SQLite
  fails, a database whose tables are what its version promises stays one; and when the call
  succeeds the database is at the newest version and each missing version was applied once, in
  order.
\<close>

theorem migrate_atomic:
  assumes "consistent migrations fresh c" and "migrate fault migrations c = (c', r)"
  shows "consistent migrations fresh c' \<and>
    (case r of
       Inl e \<Rightarrow> True
     | Inr as \<Rightarrow> user_version c' = length migrations
         \<and> map ap_version as = [Suc (user_version c)..<Suc (length migrations)])"
  using assms run_migrations_consistent [OF assms(1), of fault c' r]
  by (auto simp: migrate_def split: option.splits if_splits sum.splits)

text \<open>
  A database written by a newer build is refused and left as it is, and a database already at
  the newest version is left as it is too.
\<close>

theorem migrate_leaves_alone:
  assumes "fault QueryVersion = None"
    and "length migrations \<le> user_version c"
  shows "migrate fault migrations c =
    (c, if user_version c = length migrations then Ok []
        else Err (FromTheFuture (user_version c) (length migrations)))"
  using assms by (auto simp: migrate_def)

section \<open>Witnesses\<close>

definition demo_migrations :: "nat migration list" where
  "demo_migrations = [\<lambda>d. Ok (d + 1, 1), \<lambda>d. Ok (2 * d, 3)]"

theorem migrate_atomic_witness:
  "consistent demo_migrations 5 (fst (migrate (\<lambda>s. if s = Commit 1 then Some ''full'' else None)
     demo_migrations \<lparr>user_version = 0, tables = 5, total_changes = 0\<rparr>))"
proof -
  let ?c = "\<lparr>user_version = 0, tables = 5, total_changes = 0\<rparr> :: nat connection"
  have "consistent demo_migrations 5 ?c" by (simp add: consistent_def)
  from migrate_atomic [OF this prod.collapse [symmetric]] show ?thesis by blast
qed

theorem migrate_leaves_alone_witness:
  "migrate (\<lambda>_. None) demo_migrations \<lparr>user_version = 2, tables = 12, total_changes = 0\<rparr>
     = (\<lparr>user_version = 2, tables = 12, total_changes = 0\<rparr>, Ok [])"
  by (subst migrate_leaves_alone) (simp_all add: demo_migrations_def)

end
