(* ===== verification/Spool.thy ===== *)
theory Spool
  imports Envelope
begin

text \<open>
  \<open>metsuke/src/spool.rs\<close>: the agent's durability layer. The SQLite file is the state: the two row
  tables with their running byte totals (\<open>stream_bytes\<close>) and the counter (\<open>delivery\<close>). Both
  connections (\<open>Spool\<close>, the upload loop's, and \<open>LogSpool\<close>, the trace thread's) work on this one
  state. A transaction is one function on it; where the code reads outside a transaction, what the
  other connection commits in between is an argument.

  Byte counts are \<open>i64\<close> in the file. They are \<^typ>\<open>int\<close> here, clamped where the code clamps: a sum of
  row sizes of rows this process holds in memory stays below \<open>2 ^ 63\<close>.
\<close>

section \<open>The database\<close>

record row =
  r_id :: int
  r_text :: string
  r_bytes :: int

text \<open>
  One stream's table in rowid order, the last id \<open>AUTOINCREMENT\<close> gave, and its line of
  \<open>stream_bytes\<close>.
\<close>

record stream_table =
  t_rows :: "row list"
  t_last_id :: int
  t_total :: int

record spool_db =
  scrapes_table :: stream_table
  log_lines_table :: stream_table
  delivery_counter :: int

datatype stream = SCRAPES | LINES

fun table :: "stream \<Rightarrow> spool_db \<Rightarrow> stream_table" where
  "table SCRAPES db = scrapes_table db"
| "table LINES db = log_lines_table db"

fun set_table :: "stream \<Rightarrow> stream_table \<Rightarrow> spool_db \<Rightarrow> spool_db" where
  "set_table SCRAPES t db = db\<lparr>scrapes_table := t\<rparr>"
| "set_table LINES t db = db\<lparr>log_lines_table := t\<rparr>"

text \<open>The file both migrations leave of a fresh database.\<close>

definition empty_table :: stream_table where
  "empty_table = \<lparr>t_rows = [], t_last_id = 0, t_total = 0\<rparr>"

definition fresh_db :: spool_db where
  "fresh_db = \<lparr>scrapes_table = empty_table, log_lines_table = empty_table, delivery_counter = 0\<rparr>"

text \<open>
  Version 1 of the schema has no \<open>stream_bytes\<close>; the second migration seeds it from the tables.
\<close>

definition seed_total :: "stream_table \<Rightarrow> stream_table" where
  "seed_total t = t\<lparr>t_total := sum_list (map r_bytes (t_rows t))\<rparr>"

definition migration_2 :: "spool_db \<Rightarrow> spool_db" where
  "migration_2 db = db\<lparr>scrapes_table := seed_total (scrapes_table db),
     log_lines_table := seed_total (log_lines_table db)\<rparr>"

section \<open>Operations on a table\<close>

definition i64_max :: int where "i64_max = 2 ^ 63 - 1"

definition clamp :: "nat \<Rightarrow> int" where
  "clamp n = (if int n \<le> i64_max then int n else i64_max)"

definition insert_row :: "string \<Rightarrow> int \<Rightarrow> stream_table \<Rightarrow> stream_table" where
  "insert_row txt b t =
     t\<lparr>t_rows := t_rows t @ [\<lparr>r_id = t_last_id t + 1, r_text = txt, r_bytes = b\<rparr>],
       t_last_id := t_last_id t + 1\<rparr>"

definition set_total :: "int \<Rightarrow> stream_table \<Rightarrow> stream_table" where
  "set_total n t = t\<lparr>t_total := n\<rparr>"

definition add_total :: "int \<Rightarrow> stream_table \<Rightarrow> stream_table" where
  "add_total delta t = t\<lparr>t_total := t_total t + delta\<rparr>"

text \<open>\<open>evict_oldest\<close>: the row of the smallest id goes, and its cost is answered.\<close>

definition evict_oldest :: "row list \<Rightarrow> (int \<times> row list) option" where
  "evict_oldest rs = (case rs of [] \<Rightarrow> None | r # rest \<Rightarrow> Some (r_bytes r, rest))"

text \<open>The \<open>while total > cap\<close> loop: what is left of the rows, the total, and the rows dropped.\<close>

function evict_loop :: "int \<Rightarrow> int \<Rightarrow> nat \<Rightarrow> row list \<Rightarrow> int \<times> nat \<times> row list" where
  "evict_loop cap held dropped rs =
     (if cap < held then
        (case evict_oldest rs of
           None \<Rightarrow> (held, dropped, rs)
         | Some (shed, rest) \<Rightarrow> evict_loop cap (held - shed) (dropped + 1) rest)
      else (held, dropped, rs))"
  by pat_completeness auto
termination
  by (relation "measure (\<lambda>(cap, held, dropped, rs). length rs)")
    (auto simp: evict_oldest_def split: list.splits)

declare evict_loop.simps [simp del]

definition push_table :: "payload_line \<Rightarrow> nat \<Rightarrow> stream_table \<Rightarrow> stream_table \<times> nat" where
  "push_table line max_bytes t =
     (let b = clamp (wire_bytes line);
          cap = clamp max_bytes;
          inserted = insert_row (as_str line) b t;
          (held, dropped, rs) = evict_loop cap (t_total t + b) 0 (t_rows inserted)
      in (set_total held (inserted\<lparr>t_rows := rs\<rparr>), dropped))"

text \<open>The head row's id where that row alone is over the budget.\<close>

definition oversized_head :: "int \<Rightarrow> stream_table \<Rightarrow> int option" where
  "oversized_head ceiling t =
     (case t_rows t of
        [] \<Rightarrow> None
      | r # rest \<Rightarrow> if ceiling < r_bytes r then Some (r_id r) else None)"

text \<open>\<open>DELETE \<dots> WHERE id = ?1 RETURNING bytes\<close>.\<close>

definition delete_id :: "int \<Rightarrow> stream_table \<Rightarrow> stream_table \<times> int option" where
  "delete_id i t =
     (t\<lparr>t_rows := filter (\<lambda>r. r_id r \<noteq> i) (t_rows t)\<rparr>,
      map_option r_bytes (find (\<lambda>r. r_id r = i) (t_rows t)))"

definition drop_oversized :: "int \<Rightarrow> stream_table \<Rightarrow> stream_table \<times> int option" where
  "drop_oversized i t =
     (case delete_id i t of
        (t', None) \<Rightarrow> (t', None)
      | (t', Some b) \<Rightarrow> (add_total (- b) t', Some b))"

text \<open>The cursor walk: rows in order until the running sum passes the ceiling.\<close>

fun walk :: "int \<Rightarrow> int \<Rightarrow> row list \<Rightarrow> row list" where
  "walk ceiling running [] = []"
| "walk ceiling running (r # rs) =
     (if ceiling < running + r_bytes r then [] else r # walk ceiling (running + r_bytes r) rs)"

definition delete_ids :: "int list \<Rightarrow> stream_table \<Rightarrow> stream_table \<times> int" where
  "delete_ids ids t =
     fold (\<lambda>i (t, removed). case delete_id i t of
              (t', None) \<Rightarrow> (t', removed)
            | (t', Some b) \<Rightarrow> (t', removed + b)) ids (t, 0)"

definition ack_table :: "int list \<Rightarrow> stream_table \<Rightarrow> stream_table" where
  "ack_table ids t = (case delete_ids ids t of (t', removed) \<Rightarrow> add_total (- removed) t')"

section \<open>Operations of the spool\<close>

datatype spool_error = SpoolSqlite string | Stamp seal_error

text \<open>
  Where SQLite may fail. A failure anywhere in a transaction rolls it back, so one answer a
  transaction is enough.
\<close>

datatype spool_fault = HeadRead | HeadDelete | Walk | Transaction

type_synonym spool_faults = "spool_fault \<Rightarrow> string option"

definition push_capped ::
  "spool_faults \<Rightarrow> stream \<Rightarrow> payload_line \<Rightarrow> nat \<Rightarrow> spool_db \<Rightarrow> spool_db \<times> (spool_error, nat) result" where
  "push_capped fault s line max_bytes db =
     (case fault Transaction of
        Some e \<Rightarrow> (db, Err (SpoolSqlite e))
      | None \<Rightarrow> (case push_table line max_bytes (table s db) of (t, dropped) \<Rightarrow> (set_table s t db, Ok dropped)))"

text \<open>
  \<open>outstanding_rows\<close>: the head is read outside the write lock, so \<open>meanwhile\<close> is what the other
  connection committed before the delete.
\<close>

definition walk_rows ::
  "spool_faults \<Rightarrow> stream \<Rightarrow> int \<Rightarrow> int option \<Rightarrow> spool_db
    \<Rightarrow> spool_db \<times> (spool_error, row list \<times> nat option) result" where
  "walk_rows fault s ceiling uncarriable db =
     (case fault Walk of
        Some e \<Rightarrow> (db, Err (SpoolSqlite e))
      | None \<Rightarrow> (db, Ok (walk ceiling 0 (t_rows (table s db)), map_option nat uncarriable)))"

definition outstanding_rows ::
  "spool_faults \<Rightarrow> (spool_db \<Rightarrow> spool_db) \<Rightarrow> stream \<Rightarrow> nat \<Rightarrow> spool_db
    \<Rightarrow> spool_db \<times> (spool_error, row list \<times> nat option) result" where
  "outstanding_rows fault meanwhile s budget db =
     (case fault HeadRead of
        Some e \<Rightarrow> (db, Err (SpoolSqlite e))
      | None \<Rightarrow>
          (case oversized_head (clamp budget) (table s db) of
             None \<Rightarrow> walk_rows fault s (clamp budget) None (meanwhile db)
           | Some i \<Rightarrow>
               (case fault HeadDelete of
                  Some e \<Rightarrow> (meanwhile db, Err (SpoolSqlite e))
                | None \<Rightarrow>
                    (case drop_oversized i (table s (meanwhile db)) of
                       (t, removed) \<Rightarrow>
                         walk_rows fault s (clamp budget) removed (set_table s t (meanwhile db))))))"

definition delete_rows ::
  "spool_faults \<Rightarrow> stream \<Rightarrow> int list \<Rightarrow> spool_db \<Rightarrow> spool_db \<times> (spool_error, unit) result" where
  "delete_rows fault s ids db =
     (case fault Transaction of
        Some e \<Rightarrow> (db, Err (SpoolSqlite e))
      | None \<Rightarrow> (set_table s (ack_table ids (table s db)) db, Ok ()))"

definition has_after :: "stream \<Rightarrow> int \<Rightarrow> spool_db \<Rightarrow> bool" where
  "has_after s i db \<longleftrightarrow> list_ex (\<lambda>r. i < r_id r) (t_rows (table s db))"

definition next_counter :: "spool_faults \<Rightarrow> spool_db \<Rightarrow> spool_db \<times> (spool_error, int) result" where
  "next_counter fault db =
     (case fault Transaction of
        Some e \<Rightarrow> (db, Err (SpoolSqlite e))
      | None \<Rightarrow> (db\<lparr>delivery_counter := delivery_counter db + 1\<rparr>, Ok (delivery_counter db + 1)))"

end
