(* ===== verification/Spool_Laws.thy ===== *)
theory Spool_Laws
  imports Spool
begin

text \<open>
  What the spool's operations keep and promise: the running total is the sum of the rows, ids
  ascend, the cap is never overshot, what survives a push is the newest suffix that fits, what is
  taken is the oldest prefix that fits, and an acknowledgement removes exactly the rows it names.
\<close>

section \<open>The invariant of a table\<close>

abbreviation bytes_of :: "row list \<Rightarrow> int" where
  "bytes_of rs \<equiv> sum_list (map r_bytes rs)"

definition row_wf :: "row \<Rightarrow> bool" where
  "row_wf r \<longleftrightarrow> 0 < r_bytes r \<and> r_bytes r = clamp (wire_bytes (PayloadLine (r_text r)))"

definition table_inv :: "stream_table \<Rightarrow> bool" where
  "table_inv t \<longleftrightarrow>
     t_total t = bytes_of (t_rows t)
     \<and> sorted_wrt (<) (map r_id (t_rows t))
     \<and> (\<forall>r \<in> set (t_rows t). row_wf r \<and> r_id r \<le> t_last_id t)"

definition spool_inv :: "spool_db \<Rightarrow> bool" where
  "spool_inv db \<longleftrightarrow> table_inv (scrapes_table db) \<and> table_inv (log_lines_table db)"

lemma spool_inv_table: "spool_inv db \<Longrightarrow> table_inv (table s db)"
  by (cases s) (auto simp: spool_inv_def)

lemma spool_inv_set_table: "spool_inv db \<Longrightarrow> table_inv t \<Longrightarrow> spool_inv (set_table s t db)"
  by (cases s) (auto simp: spool_inv_def)

lemma table_set_table [simp]: "table s (set_table s t db) = t"
  by (cases s) auto

lemma table_set_other: "s \<noteq> s' \<Longrightarrow> table s (set_table s' t db) = table s db"
  by (cases s; cases s') auto

lemma set_table_counter [simp]: "delivery_counter (set_table s t db) = delivery_counter db"
  by (cases s) auto

lemma table_counter [simp]: "table s (db\<lparr>delivery_counter := n\<rparr>) = table s db"
  by (cases s) auto

lemma fresh_inv: "spool_inv fresh_db"
  by (simp add: spool_inv_def fresh_db_def table_inv_def empty_table_def)

lemma clamp_nonneg [simp]: "0 \<le> clamp n"
  by (simp add: clamp_def i64_max_def)

lemma clamp_wire_pos: "0 < clamp (wire_bytes l)"
  by (simp add: clamp_def wire_bytes_def i64_max_def)

lemma rows_nonneg: "\<forall>r \<in> set rs. row_wf r \<Longrightarrow> 0 \<le> bytes_of rs"
  by (rule sum_list_nonneg) (auto simp: row_wf_def intro: less_imp_le)

section \<open>Eviction\<close>

lemma evict_loop_Nil [simp]: "evict_loop cap held d [] = (held, d, [])"
  by (subst evict_loop.simps) (simp add: evict_oldest_def)

lemma evict_loop_Cons:
  "evict_loop cap held d (r # rs) =
     (if cap < held then evict_loop cap (held - r_bytes r) (Suc d) rs else (held, d, r # rs))"
  by (subst evict_loop.simps) (simp add: evict_oldest_def)

text \<open>The loop drops the fewest oldest rows that bring the total under the cap.\<close>

lemma evict_loop_suffix:
  assumes "0 \<le> cap"
  shows "evict_loop cap (bytes_of rs) d rs = (held, d', rs') \<Longrightarrow>
    d \<le> d' \<and> d' - d \<le> length rs \<and> rs' = drop (d' - d) rs \<and> held = bytes_of rs' \<and> held \<le> cap
    \<and> (\<forall>k < d' - d. cap < bytes_of (drop k rs))"
proof (induction rs arbitrary: d)
  case Nil
  with assms show ?case by simp
next
  case (Cons r rs)
  show ?case
  proof (cases "cap < bytes_of (r # rs)")
    case True
    with Cons.prems have "evict_loop cap (bytes_of rs) (Suc d) rs = (held, d', rs')"
      by (simp add: evict_loop_Cons)
    from Cons.IH [OF this] obtain m where m: "d' = Suc d + m" "m \<le> length rs" "rs' = drop m rs"
      "held = bytes_of rs'" "held \<le> cap" "\<forall>k < m. cap < bytes_of (drop k rs)"
      by (auto simp: le_iff_add)
    have "\<forall>k < Suc m. cap < bytes_of (drop k (r # rs))"
      using m(6) True by (auto simp: drop_Cons split: nat.splits)
    with m show ?thesis by (simp add: Suc_diff_le)
  next
    case False
    with Cons.prems show ?thesis by (auto simp: evict_loop_Cons)
  qed
qed

definition inserted_rows :: "payload_line \<Rightarrow> stream_table \<Rightarrow> row list" where
  "inserted_rows line t =
     t_rows t @ [\<lparr>r_id = t_last_id t + 1, r_text = as_str line, r_bytes = clamp (wire_bytes line)\<rparr>]"

lemma push_table_spec:
  assumes "table_inv t" "push_table line max_bytes t = (t', dropped)"
  shows "dropped \<le> length (inserted_rows line t)
    \<and> t_rows t' = drop dropped (inserted_rows line t)
    \<and> t_total t' = bytes_of (t_rows t') \<and> t_total t' \<le> clamp max_bytes
    \<and> t_last_id t' = t_last_id t + 1
    \<and> (\<forall>k < dropped. clamp max_bytes < bytes_of (drop k (inserted_rows line t)))"
proof -
  let ?rs = "inserted_rows line t"
  have held: "t_total t + clamp (wire_bytes line) = bytes_of ?rs"
    using assms(1) by (simp add: table_inv_def inserted_rows_def)
  obtain held d rs' where loop: "evict_loop (clamp max_bytes) (bytes_of ?rs) 0 ?rs = (held, d, rs')"
    by (metis surj_pair)
  from evict_loop_suffix [OF clamp_nonneg loop]
  have *: "d \<le> length ?rs \<and> rs' = drop d ?rs \<and> held = bytes_of rs' \<and> held \<le> clamp max_bytes
    \<and> (\<forall>k < d. clamp max_bytes < bytes_of (drop k ?rs))"
    by auto
  have "t_rows (insert_row (as_str line) (clamp (wire_bytes line)) t) = ?rs"
    by (simp add: insert_row_def inserted_rows_def)
  with assms(2) loop held
  have f: "t_rows t' = rs'" "t_total t' = held" "dropped = d" "t_last_id t' = t_last_id t + 1"
    by (auto simp: push_table_def Let_def set_total_def insert_row_def)
  show ?thesis unfolding f using * by blast
qed

lemma inserted_rows_wf:
  "table_inv t \<Longrightarrow> \<forall>r \<in> set (inserted_rows line t). row_wf r \<and> r_id r \<le> t_last_id t + 1"
  using clamp_wire_pos [of line]
  by (auto simp: table_inv_def inserted_rows_def row_wf_def wire_bytes_def intro: add_increasing2)

lemma inserted_rows_sorted: "table_inv t \<Longrightarrow> sorted_wrt (<) (map r_id (inserted_rows line t))"
  by (auto simp: table_inv_def inserted_rows_def sorted_wrt_append)

lemma sorted_wrt_drop: "sorted_wrt P xs \<Longrightarrow> sorted_wrt P (drop n xs)"
  by (induction xs arbitrary: n) (auto simp: drop_Cons split: nat.splits)

lemma push_table_inv: "table_inv t \<Longrightarrow> push_table line max_bytes t = (t', d) \<Longrightarrow> table_inv t'"
  using push_table_spec [of t line max_bytes t' d] inserted_rows_wf [of t line]
    inserted_rows_sorted [of t line]
  by (auto simp: table_inv_def simp flip: drop_map dest!: in_set_dropD intro!: sorted_wrt_drop)

section \<open>Taking and acknowledging\<close>

lemma delete_id_inv_parts:
  assumes "sorted_wrt (<) (map r_id rs)"
  shows "bytes_of (filter (\<lambda>r. r_id r \<noteq> i) rs)
    = bytes_of rs - (case find (\<lambda>r. r_id r = i) rs of None \<Rightarrow> 0 | Some r \<Rightarrow> r_bytes r)"
  using assms
proof (induction rs)
  case (Cons r rs)
  show ?case
  proof (cases "r_id r = i")
    case True
    then have "\<forall>x \<in> set rs. r_id x \<noteq> i" using Cons.prems by auto
    then have "filter (\<lambda>r. r_id r \<noteq> i) rs = rs" by simp
    with True show ?thesis by simp
  next
    case False
    with Cons show ?thesis by simp
  qed
qed simp

lemma sorted_ids_filter: "sorted_wrt (<) (map r_id rs) \<Longrightarrow> sorted_wrt (<) (map r_id (filter P rs))"
  by (induction rs) auto

lemma drop_oversized_inv:
  assumes "table_inv t" "drop_oversized i t = (t', removed)"
  shows "table_inv t' \<and> t_rows t' = filter (\<lambda>r. r_id r \<noteq> i) (t_rows t)
    \<and> removed = map_option r_bytes (find (\<lambda>r. r_id r = i) (t_rows t)) \<and> t_last_id t' = t_last_id t"
  using assms delete_id_inv_parts [of "t_rows t" i] sorted_ids_filter
  by (auto simp: drop_oversized_def delete_id_def table_inv_def add_total_def split: option.splits)

lemma delete_ids_spec:
  assumes "sorted_wrt (<) (map r_id (t_rows t))"
  shows "\<exists>t' removed. delete_ids ids t = (t', removed)
    \<and> t_rows t' = filter (\<lambda>r. r_id r \<notin> set ids) (t_rows t)
    \<and> removed = bytes_of (t_rows t) - bytes_of (t_rows t')
    \<and> t_total t' = t_total t \<and> t_last_id t' = t_last_id t"
proof -
  let ?f = "\<lambda>i (t, removed). case delete_id i t of
              (t', None) \<Rightarrow> (t', removed)
            | (t', Some b) \<Rightarrow> (t', removed + b)"
  have "\<exists>t' removed. fold ?f ids (t, k) = (t', removed)
    \<and> t_rows t' = filter (\<lambda>r. r_id r \<notin> set ids) (t_rows t)
    \<and> removed = k + bytes_of (t_rows t) - bytes_of (t_rows t')
    \<and> t_total t' = t_total t \<and> t_last_id t' = t_last_id t" for k
    using assms
  proof (induction ids arbitrary: t k)
    case (Cons i ids)
    obtain t1 b where d: "delete_id i t = (t1, b)" by fastforce
    then have rows: "t_rows t1 = filter (\<lambda>r. r_id r \<noteq> i) (t_rows t)"
      and same: "t_total t1 = t_total t" "t_last_id t1 = t_last_id t"
      by (auto simp: delete_id_def)
    let ?k = "k + (case b of None \<Rightarrow> 0 | Some b \<Rightarrow> b)"
    have k: "?k = k + bytes_of (t_rows t) - bytes_of (t_rows t1)"
      using delete_id_inv_parts [OF Cons.prems, of i] d
      by (auto simp: delete_id_def split: option.splits)
    have "sorted_wrt (<) (map r_id (t_rows t1))"
      unfolding rows using Cons.prems by (rule sorted_ids_filter)
    from Cons.IH [OF this, of ?k] obtain t' removed where
      "fold ?f ids (t1, ?k) = (t', removed)"
      "t_rows t' = filter (\<lambda>r. r_id r \<notin> set ids) (t_rows t1)"
      "removed = ?k + bytes_of (t_rows t1) - bytes_of (t_rows t')"
      "t_total t' = t_total t1" "t_last_id t' = t_last_id t1" by blast
    with d k rows same show ?case
      by (auto split: option.splits intro: filter_cong)
  qed simp
  from this [of 0] show ?thesis by (simp add: delete_ids_def)
qed

lemma ack_table_spec:
  assumes "table_inv t"
  shows "table_inv (ack_table ids t)
    \<and> t_rows (ack_table ids t) = filter (\<lambda>r. r_id r \<notin> set ids) (t_rows t)
    \<and> t_last_id (ack_table ids t) = t_last_id t"
proof -
  obtain t' removed where "delete_ids ids t = (t', removed)"
    "t_rows t' = filter (\<lambda>r. r_id r \<notin> set ids) (t_rows t)"
    "removed = bytes_of (t_rows t) - bytes_of (t_rows t')"
    "t_total t' = t_total t" "t_last_id t' = t_last_id t"
    using delete_ids_spec [of t ids] assms by (auto simp: table_inv_def)
  with assms show ?thesis
    by (auto simp: ack_table_def add_total_def table_inv_def intro: sorted_ids_filter)
qed

text \<open>What is taken is the longest prefix within the ceiling.\<close>

lemma walk_prefix:
  "\<exists>rest. rs = walk c k rs @ rest \<and> (k \<le> c \<longrightarrow> k + bytes_of (walk c k rs) \<le> c)
     \<and> (rest \<noteq> [] \<longrightarrow> c < k + bytes_of (walk c k rs) + r_bytes (hd rest))"
proof (induction rs arbitrary: k)
  case (Cons r rs)
  show ?case
  proof (cases "c < k + r_bytes r")
    case False
    from Cons.IH [of "k + r_bytes r"] obtain rest where
      "rs = walk c (k + r_bytes r) rs @ rest"
      "k + r_bytes r \<le> c \<longrightarrow> k + r_bytes r + bytes_of (walk c (k + r_bytes r) rs) \<le> c"
      "rest \<noteq> [] \<longrightarrow> c < k + r_bytes r + bytes_of (walk c (k + r_bytes r) rs) + r_bytes (hd rest)"
      by blast
    with False show ?thesis by (intro exI [of _ rest]) (auto simp: add.assoc)
  qed simp
qed simp

end
