(* ===== verification/Spool_Client.thy ===== *)
theory Spool_Client
  imports Spool_Laws Json
begin

text \<open>
  The two holders of a spool connection (\<open>Spool\<close>, \<open>LogSpool\<close>), the contract a reader of one stream
  has with it, and the runs of the file under both.
\<close>

record uncarriable_report =
  ur_oversized :: nat
  ur_largest_bytes :: nat

definition no_uncarriable :: uncarriable_report where
  "no_uncarriable = \<lparr>ur_oversized = 0, ur_largest_bytes = 0\<rparr>"

definition record_oversized :: "nat \<Rightarrow> uncarriable_report \<Rightarrow> uncarriable_report" where
  "record_oversized b u =
     \<lparr>ur_oversized = ur_oversized u + 1, ur_largest_bytes = max (ur_largest_bytes u) b\<rparr>"

record spool =
  sp_max_bytes :: nat
  sp_provenance :: provenance
  sp_uncarriable :: uncarriable_report

record log_spool =
  lsp_max_bytes :: nat
  lsp_provenance :: provenance

record spooled_row =
  sr_id :: int
  sr_line :: payload_line

definition spool_push ::
  "json_lib \<Rightarrow> spool_faults \<Rightarrow> spool \<Rightarrow> scrape \<Rightarrow> spool_db \<Rightarrow> spool_db \<times> (spool_error, nat) result" where
  "spool_push J fault sp s db =
     (case payload_line_scrape J s (sp_provenance sp) of
        Inl e \<Rightarrow> (db, Err (Stamp e))
      | Inr line \<Rightarrow> push_capped fault SCRAPES line (sp_max_bytes sp) db)"

definition log_spool_push ::
  "json_lib \<Rightarrow> spool_faults \<Rightarrow> log_spool \<Rightarrow> trace_line \<Rightarrow> spool_db \<Rightarrow> spool_db \<times> (spool_error, nat) result" where
  "log_spool_push J fault sp l db =
     (case payload_line_trace J l (lsp_provenance sp) of
        Inl e \<Rightarrow> (db, Err (Stamp e))
      | Inr line \<Rightarrow> push_capped fault LINES line (lsp_max_bytes sp) db)"

definition spooled :: "row \<Rightarrow> spooled_row" where
  "spooled r = \<lparr>sr_id = r_id r, sr_line = PayloadLine (r_text r)\<rparr>"

definition taken ::
  "spool_faults \<Rightarrow> (spool_db \<Rightarrow> spool_db) \<Rightarrow> stream \<Rightarrow> nat \<Rightarrow> spool \<Rightarrow> spool_db
    \<Rightarrow> spool \<times> spool_db \<times> (spool_error, spooled_row list) result" where
  "taken fault meanwhile s budget sp db =
     (case outstanding_rows fault meanwhile s budget db of
        (db', Inl e) \<Rightarrow> (sp, db', Err e)
      | (db', Inr (rs, uncarriable)) \<Rightarrow>
          ((case uncarriable of
              None \<Rightarrow> sp
            | Some b \<Rightarrow> sp\<lparr>sp_uncarriable := record_oversized b (sp_uncarriable sp)\<rparr>),
           db', Ok (map spooled rs)))"

definition spool_take_uncarriable_report :: "spool \<Rightarrow> spool \<times> uncarriable_report" where
  "spool_take_uncarriable_report sp = (sp\<lparr>sp_uncarriable := no_uncarriable\<rparr>, sp_uncarriable sp)"

section \<open>The contract of a stream\<close>

text \<open>
  What sealing a submission relies on: a take answers the oldest rows within the budget and may
  discard at most the head; an acknowledgement removes the rows it names and no other.
\<close>

locale row_store =
  fixes inv :: "'db \<Rightarrow> bool"
    and rows :: "'db \<Rightarrow> row list"
    and take_rows :: "nat \<Rightarrow> 'db \<Rightarrow> 'db \<times> row list"
    and ack_rows :: "int list \<Rightarrow> 'db \<Rightarrow> 'db"
  assumes inv_take: "inv db \<Longrightarrow> inv (fst (take_rows b db))"
    and inv_ack: "inv db \<Longrightarrow> inv (ack_rows ids db)"
    and ids_sorted: "inv db \<Longrightarrow> sorted_wrt (<) (map r_id (rows db))"
    and rows_after_take: "inv db \<Longrightarrow> rows (fst (take_rows b db)) =
        (case rows db of [] \<Rightarrow> [] | r # rs \<Rightarrow> if clamp b < r_bytes r then rs else rows db)"
    and take_is_walk: "inv db \<Longrightarrow> snd (take_rows b db) = walk (clamp b) 0 (rows (fst (take_rows b db)))"
    and rows_ack: "inv db \<Longrightarrow> rows (ack_rows ids db) = filter (\<lambda>r. r_id r \<notin> set ids) (rows db)"
begin

lemma take_prefix:
  assumes "inv db" "take_rows b db = (db', rs)"
  shows "\<exists>rest. rows db' = rs @ rest \<and> bytes_of rs \<le> clamp b
    \<and> (rest \<noteq> [] \<longrightarrow> clamp b < bytes_of rs + r_bytes (hd rest))"
  using take_is_walk [OF assms(1), of b] assms(2) walk_prefix [of "rows db'" "clamp b" 0]
  by (auto split: if_splits)

text \<open>Acknowledging what was taken leaves exactly the rest: nothing sent is kept, nothing else lost.\<close>

lemma ack_taken:
  assumes "inv db" "take_rows b db = (db', rs)"
  shows "rows db' = rs @ rows (ack_rows (map r_id rs) db')"
proof -
  have inv': "inv db'" using inv_take [OF assms(1), of b] assms(2) by simp
  obtain rest where rest: "rows db' = rs @ rest" using take_prefix [OF assms] by blast
  have "\<forall>r \<in> set rest. r_id r \<notin> r_id ` set rs"
    using ids_sorted [OF inv'] by (fastforce simp: rest sorted_wrt_append)
  then have "filter (\<lambda>r. r_id r \<notin> set (map r_id rs)) (rs @ rest) = rest"
    by (auto simp: filter_id_conv)
  with rows_ack [OF inv'] rest show ?thesis by simp
qed

text \<open>A stream that holds rows never stalls: a take either sends something or discards its head.\<close>

lemma take_progress:
  assumes "inv db" "rows db \<noteq> []" "take_rows b db = (db', rs)"
  shows "rs \<noteq> [] \<or> length (rows db') < length (rows db)"
proof (cases "rows db")
  case (Cons r rest)
  show ?thesis
  proof (cases "clamp b < r_bytes r")
    case True
    with rows_after_take [OF assms(1), of b] assms(3) Cons show ?thesis by simp
  next
    case False
    with rows_after_take [OF assms(1), of b] assms(3) Cons have "rows db' = r # rest" by simp
    with take_is_walk [OF assms(1), of b] assms(3) False show ?thesis by simp
  qed
qed (use assms in simp)

end

definition take_stream :: "stream \<Rightarrow> nat \<Rightarrow> spool_db \<Rightarrow> spool_db \<times> row list" where
  "take_stream s b db =
     (case outstanding_rows (\<lambda>_. None) (\<lambda>db. db) s b db of
        (db', Inr (rs, _)) \<Rightarrow> (db', rs)
      | (db', Inl _) \<Rightarrow> (db', []))"

definition ack_stream :: "stream \<Rightarrow> int list \<Rightarrow> spool_db \<Rightarrow> spool_db" where
  "ack_stream s ids db = fst (delete_rows (\<lambda>_. None) s ids db)"

lemma filter_head_id:
  assumes "sorted_wrt (<) (map r_id (r # rs))"
  shows "filter (\<lambda>x. r_id x \<noteq> r_id r) (r # rs) = rs"
  using assms by (auto simp: filter_id_conv)

lemma take_stream_parts:
  assumes "spool_inv db"
  shows "fst (take_stream s b db) =
      (case t_rows (table s db) of
         r # rs \<Rightarrow> if clamp b < r_bytes r then set_table s (fst (drop_oversized (r_id r) (table s db))) db else db
       | [] \<Rightarrow> db)"
    and "snd (take_stream s b db) = walk (clamp b) 0 (t_rows (table s (fst (take_stream s b db))))"
  by (auto simp: take_stream_def outstanding_rows_def walk_rows_def oversized_head_def
      split: list.splits option.splits prod.splits)

lemma take_stream_inv:
  assumes "spool_inv db"
  shows "spool_inv (fst (take_stream s b db))"
  using assms drop_oversized_inv [OF spool_inv_table [OF assms, of s]]
  by (auto simp: take_stream_parts(1) [OF assms] split: list.splits
      intro!: spool_inv_set_table) (metis prod.collapse)

lemma take_stream_rows:
  assumes "spool_inv db"
  shows "t_rows (table s (fst (take_stream s b db))) =
    (case t_rows (table s db) of [] \<Rightarrow> []
     | r # rs \<Rightarrow> if clamp b < r_bytes r then rs else t_rows (table s db))"
proof (cases "t_rows (table s db)")
  case (Cons r rs)
  have "table_inv (table s db)" using assms by (rule spool_inv_table)
  moreover from this have "filter (\<lambda>x. r_id x \<noteq> r_id r) (r # rs) = rs"
    using Cons by (intro filter_head_id) (simp add: table_inv_def)
  ultimately have "t_rows (fst (drop_oversized (r_id r) (table s db))) = rs"
    using drop_oversized_inv [of "table s db" "r_id r"] Cons by (metis prod.collapse)
  with Cons show ?thesis by (simp add: take_stream_parts(1) [OF assms])
qed (simp add: take_stream_parts(1) [OF assms])

lemma ack_stream_facts:
  assumes "spool_inv db"
  shows "spool_inv (ack_stream s ids db)"
    and "t_rows (table s (ack_stream s ids db)) = filter (\<lambda>r. r_id r \<notin> set ids) (t_rows (table s db))"
  using assms ack_table_spec [OF spool_inv_table [OF assms, of s], of ids]
  by (auto simp: ack_stream_def delete_rows_def intro: spool_inv_set_table)

lemma row_store_stream:
  "row_store spool_inv (\<lambda>db. t_rows (table s db)) (take_stream s) (ack_stream s)"
proof
  fix db :: spool_db and b ids
  assume inv: "spool_inv db"
  show "spool_inv (fst (take_stream s b db))" using inv by (rule take_stream_inv)
  show "spool_inv (ack_stream s ids db)" using inv by (rule ack_stream_facts)
  show "sorted_wrt (<) (map r_id (t_rows (table s db)))"
    using spool_inv_table [OF inv, of s] by (simp add: table_inv_def)
  show "t_rows (table s (fst (take_stream s b db))) =
    (case t_rows (table s db) of [] \<Rightarrow> []
     | r # rs \<Rightarrow> if clamp b < r_bytes r then rs else t_rows (table s db))"
    using inv by (rule take_stream_rows)
  show "snd (take_stream s b db) = walk (clamp b) 0 (t_rows (table s (fst (take_stream s b db))))"
    using inv by (rule take_stream_parts)
  show "t_rows (table s (ack_stream s ids db)) = filter (\<lambda>r. r_id r \<notin> set ids) (t_rows (table s db))"
    using inv by (rule ack_stream_facts)
qed

interpretation scrape_store: row_store spool_inv "\<lambda>db. t_rows (table SCRAPES db)"
    "take_stream SCRAPES" "ack_stream SCRAPES"
  by (rule row_store_stream)

interpretation line_store: row_store spool_inv "\<lambda>db. t_rows (table LINES db)"
    "take_stream LINES" "ack_stream LINES"
  by (rule row_store_stream)

section \<open>Runs of the file\<close>

text \<open>
  What may happen to the file, by either connection, in any order: a push to a stream, a take that
  another connection's pushes interrupt between its read and its delete, an acknowledgement of any
  ids, a counter drawn. A call SQLite failed is one of these with the fault it met.
\<close>

datatype spool_event =
    Pushed stream payload_line nat
  | Took stream nat
  | Acked stream "int list"
  | Drew int
  | DrawFailed

text \<open>The other connection only ever appends (\<open>LogSpool\<close>).\<close>

inductive log_pushes :: "spool_db \<Rightarrow> spool_db \<Rightarrow> bool" where
  no_push: "log_pushes db db"
| one_push: "log_pushes db db' \<Longrightarrow> log_pushes db (fst (push_capped fault LINES line cap db'))"

inductive spool_step :: "spool_db \<Rightarrow> spool_event \<Rightarrow> spool_db \<Rightarrow> bool" where
  step_push: "spool_step db (Pushed s line cap) (fst (push_capped fault s line cap db))"
| step_take: "log_pushes db (meanwhile db) \<Longrightarrow>
    spool_step db (Took s b) (fst (outstanding_rows fault meanwhile s b db))"
| step_ack: "spool_step db (Acked s ids) (fst (delete_rows fault s ids db))"
| step_draw: "next_counter fault db = (db', Inr n) \<Longrightarrow> spool_step db (Drew n) db'"
| step_draw_failed: "next_counter fault db = (db', Inl e) \<Longrightarrow> spool_step db DrawFailed db'"

inductive_cases drew_step: "spool_step db (Drew n) db'"

inductive spool_run :: "spool_db \<Rightarrow> spool_event list \<Rightarrow> spool_db \<Rightarrow> bool" where
  run_nil: "spool_run db [] db"
| run_snoc: "spool_run db es db' \<Longrightarrow> spool_step db' e db'' \<Longrightarrow> spool_run db (es @ [e]) db''"

fun drawn :: "spool_event list \<Rightarrow> int list" where
  "drawn [] = []"
| "drawn (Drew n # es) = n # drawn es"
| "drawn (_ # es) = drawn es"

lemma run_append: "spool_run b es' c \<Longrightarrow> spool_run a es b \<Longrightarrow> spool_run a (es @ es') c"
  by (induction rule: spool_run.induct) (auto simp: append_assoc [symmetric] simp del: append_assoc intro: run_snoc)

lemma run_one: "spool_step a e b \<Longrightarrow> spool_run a [e] b"
  using run_snoc [OF run_nil] by fastforce

lemma log_pushes_run:
  "log_pushes db db' \<Longrightarrow> \<exists>es. spool_run db es db' \<and> list_all (\<lambda>e. \<exists>line cap. e = Pushed LINES line cap) es"
proof (induction rule: log_pushes.induct)
  case (no_push db)
  then show ?case by (intro exI [of _ "[]"]) (simp add: run_nil)
next
  case (one_push db db' fault line cap)
  then obtain es where "spool_run db es db'" "list_all (\<lambda>e. \<exists>line cap. e = Pushed LINES line cap) es" by blast
  then show ?case by (intro exI [of _ "es @ [Pushed LINES line cap]"]) (auto intro: run_snoc step_push)
qed

lemma push_capped_inv: "spool_inv db \<Longrightarrow> spool_inv (fst (push_capped fault s line cap db))"
  by (auto simp: push_capped_def split: option.splits prod.splits
      intro!: spool_inv_set_table dest: push_table_inv [OF spool_inv_table])

lemma push_capped_counter: "delivery_counter (fst (push_capped fault s line cap db)) = delivery_counter db"
  by (auto simp: push_capped_def split: option.splits prod.splits)

lemma log_pushes_inv: "log_pushes db db' \<Longrightarrow> spool_inv db \<Longrightarrow> spool_inv db' \<and> delivery_counter db' = delivery_counter db"
  by (induction rule: log_pushes.induct) (auto simp: push_capped_inv push_capped_counter)

lemma outstanding_rows_db:
  "fst (outstanding_rows fault meanwhile s b db) \<in>
     {db, meanwhile db} \<union> {set_table s (fst (drop_oversized i (table s (meanwhile db)))) (meanwhile db) | i.
        oversized_head (clamp b) (table s db) = Some i}"
  by (auto simp: outstanding_rows_def walk_rows_def split: option.splits prod.splits)

lemma outstanding_rows_inv:
  assumes "spool_inv db" "spool_inv (meanwhile db)"
  shows "spool_inv (fst (outstanding_rows fault meanwhile s b db))"
  using outstanding_rows_db [of fault meanwhile s b db] assms
    drop_oversized_inv [OF spool_inv_table [OF assms(2), of s]]
  by (auto intro!: spool_inv_set_table) (metis prod.collapse)+

lemma outstanding_rows_counter:
  "delivery_counter (meanwhile db) = delivery_counter db \<Longrightarrow>
    delivery_counter (fst (outstanding_rows fault meanwhile s b db)) = delivery_counter db"
  using outstanding_rows_db [of fault meanwhile s b db] by auto

lemma delete_rows_inv: "spool_inv db \<Longrightarrow> spool_inv (fst (delete_rows fault s ids db))"
  by (auto simp: delete_rows_def ack_table_spec spool_inv_table split: option.splits
      intro!: spool_inv_set_table)

lemma spool_step_inv: "spool_step db e db' \<Longrightarrow> spool_inv db \<Longrightarrow> spool_inv db'"
  by (induction rule: spool_step.induct)
    (auto simp: push_capped_inv delete_rows_inv next_counter_def spool_inv_def [of "_\<lparr>delivery_counter := _\<rparr>"]
      split: option.splits intro!: outstanding_rows_inv dest: log_pushes_inv, simp_all add: spool_inv_def)

lemma spool_step_counter:
  "spool_step db e db' \<Longrightarrow> spool_inv db \<Longrightarrow>
     delivery_counter db' = (case e of Drew n \<Rightarrow> n | _ \<Rightarrow> delivery_counter db)
     \<and> (case e of Drew n \<Rightarrow> n = delivery_counter db + 1 | _ \<Rightarrow> True)"
  by (induction rule: spool_step.induct)
    (auto simp: push_capped_counter delete_rows_def next_counter_def outstanding_rows_counter log_pushes_inv
      split: option.splits)

lemma drawn_append: "drawn (es @ [e]) = drawn es @ (case e of Drew n \<Rightarrow> [n] | _ \<Rightarrow> [])"
  by (induction es rule: drawn.induct) (cases e, auto)

lemma spool_run_inv:
  "spool_run db es db' \<Longrightarrow> spool_inv db \<Longrightarrow>
     spool_inv db' \<and> delivery_counter db \<le> delivery_counter db'
     \<and> sorted_wrt (<) (drawn es) \<and> (\<forall>n \<in> set (drawn es). delivery_counter db < n \<and> n \<le> delivery_counter db')"
proof (induction rule: spool_run.induct)
  case (run_snoc db es db' e db'')
  then have IH: "spool_inv db'" "delivery_counter db \<le> delivery_counter db'" "sorted_wrt (<) (drawn es)"
    "\<forall>n \<in> set (drawn es). delivery_counter db < n \<and> n \<le> delivery_counter db'"
    by auto
  note c = spool_step_counter [OF run_snoc.hyps(2) IH(1)]
  from IH c spool_step_inv [OF run_snoc.hyps(2) IH(1)] show ?case
    by (cases e) (auto simp: drawn_append sorted_wrt_append)
qed simp

lemma migration_2_inv:
  assumes "\<And>s. sorted_wrt (<) (map r_id (t_rows (table s db)))"
    and "\<And>s r. r \<in> set (t_rows (table s db)) \<Longrightarrow> row_wf r \<and> r_id r \<le> t_last_id (table s db)"
  shows "spool_inv (migration_2 db)"
  using assms(1) [of SCRAPES] assms(1) [of LINES] assms(2) [of _ SCRAPES] assms(2) [of _ LINES]
  by (auto simp: spool_inv_def migration_2_def seed_total_def table_inv_def)

lemma row_of_id:
  "sorted_wrt (<) (map r_id rs) \<Longrightarrow> r \<in> set rs \<Longrightarrow> r' \<in> set rs \<Longrightarrow> r_id r = r_id r' \<Longrightarrow> r = r'"
  by (induction rs) auto

lemma pushed_row_left:
  assumes inv: "spool_inv db" and r: "r \<in> set (t_rows (table s db))"
    and gone: "r \<notin> set (t_rows (table s (fst (push_capped fault s' line cap db))))"
  shows "s' = s \<and> (\<exists>older newer. inserted_rows line (table s db) = older @ r # newer
      \<and> clamp cap < bytes_of (r # newer))"
proof -
  obtain t d where push: "push_table line cap (table s' db) = (t, d)" by fastforce
  have "fault Transaction = None" using gone r by (auto simp: push_capped_def split: option.splits)
  with push gone have db': "r \<notin> set (t_rows (table s (set_table s' t db)))"
    by (simp add: push_capped_def)
  then have s: "s' = s" using r by (cases s; cases s') auto
  note spec = push_table_spec [OF spool_inv_table [OF inv] push]
  let ?rs = "inserted_rows line (table s db)"
  have "r \<in> set ?rs" using r by (simp add: inserted_rows_def)
  then obtain k where k: "k < length ?rs" "?rs ! k = r" by (auto simp: in_set_conv_nth)
  have "k < d"
  proof (rule ccontr)
    assume "\<not> k < d"
    then have "r \<in> set (drop d ?rs)"
      using k nth_mem [of "k - d" "drop d ?rs"] by simp
    with spec db' s show False by simp
  qed
  moreover have "?rs = take k ?rs @ r # drop (Suc k) ?rs" "drop k ?rs = r # drop (Suc k) ?rs"
    using k id_take_nth_drop [of k ?rs] Cons_nth_drop_Suc [of k ?rs] by auto
  ultimately show ?thesis using spec s by metis
qed

lemma taken_row_left:
  assumes inv: "spool_inv db" and r: "r \<in> set (t_rows (table s db))"
    and stays: "r \<in> set (t_rows (table s (meanwhile db)))"
    and gone: "r \<notin> set (t_rows (table s (fst (outstanding_rows fault meanwhile s' b db))))"
    and inv': "spool_inv (meanwhile db)"
  shows "s' = s \<and> clamp b < r_bytes r \<and> r = hd (t_rows (table s db))"
proof -
  obtain i where i: "oversized_head (clamp b) (table s' db) = Some i"
    and db': "fst (outstanding_rows fault meanwhile s' b db)
      = set_table s' (fst (drop_oversized i (table s' (meanwhile db)))) (meanwhile db)"
    using outstanding_rows_db [of fault meanwhile s' b db] gone r stays by auto
  have s: "s' = s" using db' gone stays by (cases s; cases s') auto
  have "t_rows (fst (drop_oversized i (table s (meanwhile db))))
      = filter (\<lambda>r. r_id r \<noteq> i) (t_rows (table s (meanwhile db)))"
    using drop_oversized_inv [OF spool_inv_table [OF inv', of s], of i] by (metis prod.collapse)
  with gone stays db' s have "r_id r = i" by auto
  moreover obtain h rest where h: "t_rows (table s db) = h # rest" "r_id h = i" "clamp b < r_bytes h"
    using i s by (auto simp: oversized_head_def split: list.splits if_splits)
  ultimately have "r = h"
    using row_of_id [of "t_rows (table s db)" r h] r spool_inv_table [OF inv, of s]
    by (auto simp: table_inv_def)
  with h s show ?thesis by simp
qed

section \<open>Properties\<close>

text \<open>
  C25: A push never leaves the cap overshot and keeps the newest suffix that fits: the rows after it
  are the old rows and the new one less the \<open>dropped\<close> oldest, they are within the cap, dropping one
  row fewer would not have been, and the recorded total is what they add up to.
\<close>

theorem push_keeps_newest_suffix:
  assumes "spool_inv db" and "push_capped fault s line cap db = (db', Ok dropped)"
  shows "t_rows (table s db') = drop dropped (inserted_rows line (table s db))
    \<and> t_total (table s db') = bytes_of (t_rows (table s db'))
    \<and> t_total (table s db') \<le> clamp cap
    \<and> (dropped = 0 \<or> clamp cap < bytes_of (drop (dropped - 1) (inserted_rows line (table s db))))"
proof -
  obtain t where push: "push_table line cap (table s db) = (t, dropped)" and db': "table s db' = t"
    using assms(2) by (auto simp: push_capped_def split: option.splits prod.splits)
  note spec = push_table_spec [OF spool_inv_table [OF assms(1)] push]
  have "dropped = 0 \<or> dropped - 1 < dropped" by auto
  with spec show ?thesis unfolding db' by blast
qed


lemma row_leaves_step:
  assumes "spool_inv db" and "spool_step db e db'"
    and "r \<in> set (t_rows (table s db))" and "r \<notin> set (t_rows (table s db'))"
  shows "case e of
      Pushed s' line cap \<Rightarrow> s' = s \<and> (\<exists>older newer. inserted_rows line (table s db) = older @ r # newer
          \<and> clamp cap < bytes_of (r # newer))
    | Took s' b \<Rightarrow> s' = s \<and> clamp b < r_bytes r \<and> r = hd (t_rows (table s db))
        \<or> (\<exists>mid. log_pushes db mid \<and> r \<notin> set (t_rows (table s mid)))
    | Acked s' ids \<Rightarrow> s' = s \<and> r_id r \<in> set ids
    | Drew n \<Rightarrow> False
    | DrawFailed \<Rightarrow> False"
  using assms(2)
proof cases
  case (step_push s' line cap fault)
  then show ?thesis using pushed_row_left [OF assms(1,3), of fault s' line cap] assms(4) by simp
next
  case (step_take meanwhile s' b fault)
  show ?thesis
  proof (cases "r \<in> set (t_rows (table s (meanwhile db)))")
    case True
    have inv: "spool_inv (meanwhile db)" using log_pushes_inv [OF step_take(3) assms(1)] by blast
    from assms(4) have "r \<notin> set (t_rows (table s (fst (outstanding_rows fault meanwhile s' b db))))"
      unfolding step_take(2) .
    from taken_row_left [OF assms(1,3) True this inv]
    have "s' = s \<and> clamp b < r_bytes r \<and> r = hd (t_rows (table s db))" .
    then show ?thesis unfolding step_take(1) spool_event.case by blast
  next
    case False
    with step_take show ?thesis by auto
  qed
next
  case (step_ack s' ids fault)
  then have "r \<notin> set (t_rows (table s (fst (delete_rows fault s' ids db))))" using assms(4) by simp
  then have "s' = s \<and> r_id r \<in> set ids"
    using assms(3) ack_table_spec [OF spool_inv_table [OF assms(1), of s'], of ids]
    by (cases s; cases s') (auto simp: delete_rows_def split: option.splits)
  with step_ack show ?thesis by simp
next
  case (step_draw fault n)
  then have "t_rows (table s db') = t_rows (table s db)"
    by (cases s) (auto simp: next_counter_def split: option.splits)
  with assms show ?thesis by simp
next
  case (step_draw_failed fault e')
  then show ?thesis using assms by (auto simp: next_counter_def split: option.splits)
qed

text \<open>
  A row leaves the spool only by acknowledgement, as one of the oldest past the cap, or for
  being larger than a whole submission on its own at the head of its stream. Every step of either
  connection, interleaved and failing as it may: an acknowledged row was named; a row a push
  dropped is at the head of more bytes than the cap; a row a take dropped was the oversized head,
  unless the trace thread's own pushes had already evicted it.
\<close>

theorem row_leaves_only:
  assumes "spool_inv db" and "spool_step db e db'"
    and "r \<in> set (t_rows (table s db))" and "r \<notin> set (t_rows (table s db'))"
  shows "case e of
      Pushed s' line cap \<Rightarrow> s' = s \<and> (\<exists>older newer. inserted_rows line (table s db) = older @ r # newer
          \<and> clamp cap < bytes_of (r # newer))
    | Took s' b \<Rightarrow> s' = s \<and> clamp b < r_bytes r \<and> r = hd (t_rows (table s db))
        \<or> (\<exists>mid. log_pushes db mid \<and> r \<notin> set (t_rows (table s mid)))
    | Acked s' ids \<Rightarrow> s' = s \<and> r_id r \<in> set ids
    | Drew n \<Rightarrow> False
    | DrawFailed \<Rightarrow> False"
  by (rule row_leaves_step [OF assms])

text \<open>
  C12: A number is never handed out twice, across every run of the file and both streams: the
  counters drawn are strictly increasing, and later than any drawn before the run.
\<close>

theorem counters_never_repeat:
  assumes "spool_run db es db'" and "spool_inv db"
  shows "sorted_wrt (<) (drawn es) \<and> (\<forall>n \<in> set (drawn es). delivery_counter db < n \<and> n \<le> delivery_counter db')"
  using spool_run_inv [OF assms] by blast

text \<open>
  C11: The running totals are never wrong: from a fresh file, after any interleaving of both
  connections and any failures, each stream's recorded total is the sum of its rows.
\<close>

theorem totals_always_right:
  assumes "spool_run fresh_db es db"
  shows "t_total (table s db) = bytes_of (t_rows (table s db))"
  using spool_run_inv [OF assms fresh_inv] spool_inv_table [of db s] by (auto simp: table_inv_def)

section \<open>Witnesses\<close>

definition demo_db :: spool_db where
  "demo_db =
     \<lparr>scrapes_table = \<lparr>t_rows = [\<lparr>r_id = 1, r_text = ''aa'', r_bytes = 3\<rparr>, \<lparr>r_id = 2, r_text = ''bbb'', r_bytes = 4\<rparr>],
        t_last_id = 2, t_total = 7\<rparr>,
      log_lines_table = empty_table, delivery_counter = 5\<rparr>"

lemma demo_db_inv: "spool_inv demo_db"
  by (simp add: spool_inv_def demo_db_def table_inv_def empty_table_def row_wf_def wire_bytes_def
      clamp_def i64_max_def)

theorem push_keeps_newest_suffix_witness:
  "\<exists>db' dropped. push_capped (\<lambda>_. None) SCRAPES (PayloadLine ''cc'') 8 demo_db = (db', Ok dropped)
     \<and> t_total (table SCRAPES db') \<le> 8"
proof -
  obtain db' dropped where push: "push_capped (\<lambda>_. None) SCRAPES (PayloadLine ''cc'') 8 demo_db = (db', Ok dropped)"
    by (cases "push_table (PayloadLine ''cc'') 8 (table SCRAPES demo_db)") (simp add: push_capped_def)
  have "clamp 8 = 8" by (simp add: clamp_def i64_max_def)
  with push_keeps_newest_suffix [OF demo_db_inv push] push show ?thesis by auto
qed


theorem row_leaves_only_witness: "(1::int) \<in> set [1, 9]"
proof -
  have step: "spool_step demo_db (Acked SCRAPES [1, 9]) (fst (delete_rows (\<lambda>_. None) SCRAPES [1, 9] demo_db))"
    by (rule step_ack)
  have "\<lparr>r_id = 1, r_text = ''aa'', r_bytes = 3\<rparr> \<in> set (t_rows (table SCRAPES demo_db))"
    by (simp add: demo_db_def)
  moreover have "\<lparr>r_id = 1, r_text = ''aa'', r_bytes = 3\<rparr>
      \<notin> set (t_rows (table SCRAPES (fst (delete_rows (\<lambda>_. None) SCRAPES [1, 9] demo_db))))"
    using ack_table_spec [OF spool_inv_table [OF demo_db_inv, of SCRAPES], of "[1, 9]"]
    by (simp add: delete_rows_def)
  ultimately show ?thesis using row_leaves_only [OF demo_db_inv step] by fastforce
qed

lemma demo_run: "spool_run fresh_db [Drew 1, Drew 2]
    (fresh_db\<lparr>delivery_counter := 2\<rparr>)"
proof -
  have "spool_run fresh_db ([] @ [Drew 1]) (fresh_db\<lparr>delivery_counter := 1\<rparr>)"
    by (rule run_snoc [OF run_nil], rule step_draw [of "\<lambda>_. None"])
      (simp add: next_counter_def fresh_db_def)
  then have "spool_run fresh_db ([Drew 1] @ [Drew 2]) (fresh_db\<lparr>delivery_counter := 2\<rparr>)"
    by (intro run_snoc, simp) (rule step_draw [of "\<lambda>_. None"], simp add: next_counter_def fresh_db_def)
  then show ?thesis by simp
qed

theorem counters_never_repeat_witness: "sorted_wrt (<) (drawn [Drew 1, Drew 2])"
  using counters_never_repeat [OF demo_run fresh_inv] by blast

theorem totals_always_right_witness:
  "t_total (table LINES (fresh_db\<lparr>delivery_counter := 2\<rparr>))
     = bytes_of (t_rows (table LINES (fresh_db\<lparr>delivery_counter := 2\<rparr>)))"
  by (rule totals_always_right [OF demo_run])

end
