(* ===== verification/Delivery.thy ===== *)
theory Delivery
  imports Spool_Client Sealing
begin

text \<open>
  \<open>metsuke/src/delivery.rs\<close>: the only path from spooled rows to a sealed upload. The file the spool
  holds (\<^typ>\<open>spool_db\<close>) is threaded beside the \<open>Delivery\<close>; SQLite's failures and what the trace
  thread's own connection commits in between are arguments (\<open>take_world\<close>).
\<close>

record delivery_libs =
  dl_crypto :: crypto
  dl_json :: json_lib
  dl_zstd :: zstd_lib
  dl_agent_version :: string

record delivery =
  d_spool :: spool
  d_key :: submission_key
  d_compression_level :: int
  d_batch_max_bytes :: nat

datatype submission_rows = ScrapeRows "int list" | LineRows "int list"

record sealed_submission =
  ss_wire_bytes :: bytes
  ss_attestation :: attestation
  ss_counter :: nat
  ss_payload_digest :: string
  ss_rows :: submission_rows
  ss_more :: bool

definition submission_lines :: "sealed_submission \<Rightarrow> nat" where
  "submission_lines s = (case ss_rows s of ScrapeRows ids \<Rightarrow> length ids | LineRows ids \<Rightarrow> length ids)"

definition carried :: "sealed_submission \<Rightarrow> string" where
  "carried s =
     (case ss_rows s of
        ScrapeRows _ \<Rightarrow> if submission_lines s = 1 then ''scrape'' else ''scrapes''
      | LineRows _ \<Rightarrow> if submission_lines s = 1 then ''trace line'' else ''trace lines'')"

definition more_waits :: "sealed_submission \<Rightarrow> bool" where
  "more_waits s = ss_more s"

datatype delivery_error =
    DeliverySpool spool_error
  | DeliverySeal seal_error
  | BudgetBelowFraming nat nat

definition delivery_push ::
  "json_lib \<Rightarrow> spool_faults \<Rightarrow> delivery \<Rightarrow> scrape \<Rightarrow> spool_db \<Rightarrow> spool_db \<times> (delivery_error, nat) result" where
  "delivery_push J fault d s db =
     (case spool_push J fault (d_spool d) s db of (db', r) \<Rightarrow> (db', map_err DeliverySpool r))"

text \<open>Which stream a take draws from, which payload it makes and which rows it acknowledges.\<close>

fun payload_of :: "stream \<Rightarrow> payload_line list \<Rightarrow> payload" where
  "payload_of SCRAPES ls = scrapes_payload ls"
| "payload_of LINES ls = trace_lines_payload ls"

fun acks_of :: "stream \<Rightarrow> int list \<Rightarrow> submission_rows" where
  "acks_of SCRAPES ids = ScrapeRows ids"
| "acks_of LINES ids = LineRows ids"

definition delivery_envelope :: "delivery_libs \<Rightarrow> delivery \<Rightarrow> nat \<Rightarrow> instant \<Rightarrow> payload \<Rightarrow> envelope" where
  "delivery_envelope L d counter now pl =
     new_envelope (sp_provenance (d_spool d)) (dl_agent_version L) counter now pl"

definition row_budget :: "delivery_libs \<Rightarrow> delivery \<Rightarrow> instant \<Rightarrow> payload \<Rightarrow> (delivery_error, nat) result" where
  "row_budget L d now nothing =
     and_then (map_err DeliverySeal (header_json (dl_json L) (delivery_envelope L d u64_max now nothing))) (\<lambda>header.
       let framing = HEADER_OFFSET + length header in
       case checked_sub (d_batch_max_bytes d) framing of
         Some n \<Rightarrow> if 0 < n then Ok n else Err (BudgetBelowFraming (d_batch_max_bytes d) framing)
       | None \<Rightarrow> Err (BudgetBelowFraming (d_batch_max_bytes d) framing))"

text \<open>
  What a take meets: where SQLite fails in taking the rows, in asking for later ones and in drawing
  the counter, and what the other connection commits between the head's read and its delete, and
  between the walk and the question of what is left.
\<close>

record take_world =
  tw_take :: spool_faults
  tw_meanwhile :: "spool_db \<Rightarrow> spool_db"
  tw_between :: "spool_db \<Rightarrow> spool_db"
  tw_after :: "string option"
  tw_draw :: spool_faults

definition delivery_seal ::
  "delivery_libs \<Rightarrow> spool_faults \<Rightarrow> delivery \<Rightarrow> instant \<Rightarrow> payload \<Rightarrow> submission_rows \<Rightarrow> bool \<Rightarrow> spool_db
    \<Rightarrow> spool_db \<times> (delivery_error, sealed_submission) result" where
  "delivery_seal L fault d now pl rs waits db =
     (case next_counter fault db of
        (db', Inl e) \<Rightarrow> (db', Err (DeliverySpool e))
      | (db', Inr c) \<Rightarrow>
          (let counter = nat (c mod 2 ^ 64);
               e = delivery_envelope L d counter now pl
           in (db', case seal (dl_crypto L) (dl_json L) (dl_zstd L) (d_key d) e (d_compression_level d) of
                 Inl err \<Rightarrow> Err (DeliverySeal err)
               | Inr (wire, a) \<Rightarrow>
                   Ok \<lparr>ss_wire_bytes = wire, ss_attestation = a, ss_counter = counter,
                       ss_payload_digest = payload_digest (dl_crypto L) e, ss_rows = rs, ss_more = waits\<rparr>)))"

definition seal_rows ::
  "delivery_libs \<Rightarrow> spool_faults \<Rightarrow> delivery \<Rightarrow> instant \<Rightarrow> spooled_row list \<Rightarrow> bool
    \<Rightarrow> (payload_line list \<Rightarrow> payload) \<Rightarrow> (int list \<Rightarrow> submission_rows) \<Rightarrow> spool_db
    \<Rightarrow> spool_db \<times> (delivery_error, sealed_submission option) result" where
  "seal_rows L fault d now rs waits mk_payload acks db =
     (if rs = [] then (db, Ok None)
      else case delivery_seal L fault d now (mk_payload (map sr_line rs)) (acks (map sr_id rs)) waits db of
             (db', Inl e) \<Rightarrow> (db', Err e)
           | (db', Inr s) \<Rightarrow> (db', Ok (Some s)))"

text \<open>\<open>rows.last()\<close>, and whether a row lies past it.\<close>

definition rows_wait ::
  "string option \<Rightarrow> stream \<Rightarrow> spooled_row list \<Rightarrow> spool_db \<Rightarrow> (delivery_error, bool) result" where
  "rows_wait fault s rs db =
     (if rs = [] then Ok False
      else case fault of
             Some e \<Rightarrow> Err (DeliverySpool (SpoolSqlite e))
           | None \<Rightarrow> Ok (has_after s (sr_id (last rs)) db))"

text \<open>\<open>take_submission\<close> is this for \<^const>\<open>SCRAPES\<close>, \<open>take_line_submission\<close> for \<^const>\<open>LINES\<close>.\<close>

definition take_from ::
  "stream \<Rightarrow> delivery_libs \<Rightarrow> take_world \<Rightarrow> instant \<Rightarrow> delivery \<Rightarrow> spool_db
    \<Rightarrow> delivery \<times> spool_db \<times> (delivery_error, sealed_submission option) result" where
  "take_from s L w now d db =
     (case row_budget L d now (payload_of s []) of
        Inl e \<Rightarrow> (d, db, Err e)
      | Inr budget \<Rightarrow>
          (case taken (tw_take w) (tw_meanwhile w) s budget (d_spool d) db of
             (sp, db1, Inl e) \<Rightarrow> (d\<lparr>d_spool := sp\<rparr>, db1, Err (DeliverySpool e))
           | (sp, db1, Inr rs) \<Rightarrow>
               (case rows_wait (tw_after w) s rs (tw_between w db1) of
                  Inl e \<Rightarrow> (d\<lparr>d_spool := sp\<rparr>, tw_between w db1, Err e)
                | Inr waits \<Rightarrow>
                    (case seal_rows L (tw_draw w) (d\<lparr>d_spool := sp\<rparr>) now rs waits (payload_of s) (acks_of s)
                            (tw_between w db1) of
                       (db2, r) \<Rightarrow> (d\<lparr>d_spool := sp\<rparr>, db2, r)))))"

definition take_submission ::
  "delivery_libs \<Rightarrow> take_world \<Rightarrow> instant \<Rightarrow> delivery \<Rightarrow> spool_db
    \<Rightarrow> delivery \<times> spool_db \<times> (delivery_error, sealed_submission option) result" where
  "take_submission = take_from SCRAPES"

definition take_line_submission ::
  "delivery_libs \<Rightarrow> take_world \<Rightarrow> instant \<Rightarrow> delivery \<Rightarrow> spool_db
    \<Rightarrow> delivery \<times> spool_db \<times> (delivery_error, sealed_submission option) result" where
  "take_line_submission = take_from LINES"

definition delivery_take_uncarriable_report :: "delivery \<Rightarrow> delivery \<times> uncarriable_report" where
  "delivery_take_uncarriable_report d =
     (case spool_take_uncarriable_report (d_spool d) of (sp, u) \<Rightarrow> (d\<lparr>d_spool := sp\<rparr>, u))"

definition delivery_ack ::
  "spool_faults \<Rightarrow> sealed_submission \<Rightarrow> spool_db \<Rightarrow> spool_db \<times> (delivery_error, unit) result" where
  "delivery_ack fault s db =
     (case (case ss_rows s of ScrapeRows ids \<Rightarrow> delete_rows fault SCRAPES ids db
                            | LineRows ids \<Rightarrow> delete_rows fault LINES ids db) of
        (db', r) \<Rightarrow> (db', map_err DeliverySpool r))"

end
