(* ===== verification/Delivery_Laws.thy ===== *)
theory Delivery_Laws
  imports Delivery
begin

text \<open>
  What a sealed submission is: the oldest rows within the budget, one counter, one signed body. The
  runs of the file a take and an acknowledgement are, and the properties of \<open>delivery.rs\<close>.
\<close>

definition line_of_row :: "row \<Rightarrow> payload_line" where
  "line_of_row r = PayloadLine (r_text r)"

lemma spooled_parts [simp]: "sr_id (spooled r) = r_id r" "sr_line (spooled r) = line_of_row r"
  by (simp_all add: spooled_def line_of_row_def)

lemma taken_Ok:
  assumes "taken fault meanwhile s b sp db = (sp', db', Inr rs)"
  shows "db' = fst (outstanding_rows fault meanwhile s b db)
    \<and> rs = map spooled (walk (clamp b) 0 (t_rows (table s db')))
    \<and> sp_provenance sp' = sp_provenance sp"
  using assms
  by (auto simp: taken_def outstanding_rows_def walk_rows_def split: prod.splits sum.splits option.splits)

lemma next_counter_Ok:
  "next_counter fault db = (db', Inr c) \<Longrightarrow>
     c = delivery_counter db + 1 \<and> db' = db\<lparr>delivery_counter := c\<rparr>"
  by (auto simp: next_counter_def split: option.splits)

lemma rows_wait_Ok:
  assumes "rows_wait fault s (map spooled rs) db = Inr waits" "rs \<noteq> []"
  shows "waits = has_after s (r_id (last rs)) db"
  using assms by (auto simp: rows_wait_def last_map split: option.splits)

text \<open>A submission the file held when it was sealed.\<close>

definition sealed_from ::
  "stream \<Rightarrow> delivery_libs \<Rightarrow> delivery \<Rightarrow> instant \<Rightarrow> nat \<Rightarrow> row list \<Rightarrow> envelope \<Rightarrow> sealed_submission \<Rightarrow> bool" where
  "sealed_from s L d now budget rs e sub \<longleftrightarrow>
     row_budget L d now (payload_of s []) = Ok budget
     \<and> rs \<noteq> [] \<and> ss_rows sub = acks_of s (map r_id rs)
     \<and> e = delivery_envelope L d (ss_counter sub) now (payload_of s (map line_of_row rs))
     \<and> seal (dl_crypto L) (dl_json L) (dl_zstd L) (d_key d) e (d_compression_level d)
         = Ok (ss_wire_bytes sub, ss_attestation sub)
     \<and> ss_payload_digest sub = payload_digest (dl_crypto L) e"

lemma take_from_Some:
  assumes "take_from s L w now d db = (d', db', Inr (Some sub))"
  shows "\<exists>budget db1 rs e. sealed_from s L d now budget rs e sub
    \<and> db1 = fst (outstanding_rows (tw_take w) (tw_meanwhile w) s budget db)
    \<and> rs = walk (clamp budget) 0 (t_rows (table s db1))
    \<and> ss_more sub = has_after s (r_id (last rs)) (tw_between w db1)
    \<and> next_counter (tw_draw w) (tw_between w db1) = (db', Inr (delivery_counter db'))
    \<and> ss_counter sub = nat (delivery_counter db' mod 2 ^ 64)"
proof -
  obtain budget where budget: "row_budget L d now (payload_of s []) = Ok budget"
    using assms by (auto simp: take_from_def split: sum.splits)
  obtain sp db1 spr where tk: "taken (tw_take w) (tw_meanwhile w) s budget (d_spool d) db = (sp, db1, Inr spr)"
    using assms budget by (auto simp: take_from_def split: prod.splits sum.splits)
  let ?rs = "walk (clamp budget) 0 (t_rows (table s db1))"
  have db1: "db1 = fst (outstanding_rows (tw_take w) (tw_meanwhile w) s budget db)"
    and spr: "spr = map spooled ?rs" and prov: "sp_provenance sp = sp_provenance (d_spool d)"
    using taken_Ok [OF tk] by auto
  obtain waits where waits: "rows_wait (tw_after w) s spr (tw_between w db1) = Inr waits"
    using assms budget tk by (auto simp: take_from_def split: sum.splits)
  let ?d = "d\<lparr>d_spool := sp\<rparr>"
  have seal: "seal_rows L (tw_draw w) ?d now spr waits (payload_of s) (acks_of s) (tw_between w db1)
      = (db', Inr (Some sub))"
    using assms budget tk waits by (auto simp: take_from_def split: prod.splits)
  then have ne: "?rs \<noteq> []" using spr by (auto simp: seal_rows_def)
  have env: "delivery_envelope L ?d = delivery_envelope L d"
    by (rule ext)+ (simp add: delivery_envelope_def prov)
  from seal obtain c where c: "next_counter (tw_draw w) (tw_between w db1) = (db', Inr c)"
    by (auto simp: seal_rows_def delivery_seal_def Let_def split: prod.splits sum.splits if_splits)
  note nc = next_counter_Ok [OF c]
  have "waits = has_after s (r_id (last ?rs)) (tw_between w db1)"
    using rows_wait_Ok waits spr ne by blast
  with seal spr ne c nc have "sealed_from s L d now budget ?rs
      (delivery_envelope L d (ss_counter sub) now (payload_of s (map line_of_row ?rs))) sub
    \<and> ss_more sub = has_after s (r_id (last ?rs)) (tw_between w db1)
    \<and> ss_counter sub = nat (delivery_counter db' mod 2 ^ 64)"
    by (auto simp: seal_rows_def delivery_seal_def sealed_from_def budget env Let_def comp_def
        split: prod.splits sum.splits)
  moreover have "delivery_counter db' = c" using nc by simp
  ultimately show ?thesis using db1 c by blast
qed

section \<open>Row ids are never reused\<close>

definition extends :: "stream \<Rightarrow> spool_db \<Rightarrow> spool_db \<Rightarrow> bool" where
  "extends s db db' \<longleftrightarrow> t_last_id (table s db) \<le> t_last_id (table s db')
     \<and> (\<forall>r \<in> set (t_rows (table s db')). r \<in> set (t_rows (table s db)) \<or> t_last_id (table s db) < r_id r)"

lemma extends_refl [simp]: "extends s db db"
  by (simp add: extends_def)

lemma extends_trans: "extends s a b \<Longrightarrow> extends s b c \<Longrightarrow> extends s a c"
  by (fastforce simp: extends_def)

lemma extends_set_table:
  "s \<noteq> s' \<Longrightarrow> extends s db (set_table s' t db)"
  by (simp add: extends_def table_set_other)

lemma extends_push:
  assumes "spool_inv db"
  shows "extends s db (fst (push_capped fault s' line cap db))"
proof (cases "s' = s \<and> fault Transaction = None")
  case True
  obtain t d where push: "push_table line cap (table s db) = (t, d)" by fastforce
  note spec = push_table_spec [OF spool_inv_table [OF assms] push]
  have "r \<in> set (t_rows (table s db)) \<or> t_last_id (table s db) < r_id r" if "r \<in> set (t_rows t)" for r
    using that spec in_set_dropD [of r d "inserted_rows line (table s db)"]
    by (auto simp: inserted_rows_def)
  with spec True push show ?thesis by (simp add: extends_def push_capped_def)
next
  case False
  then show ?thesis
    by (auto simp: push_capped_def extends_set_table split: option.splits prod.splits)
qed

lemma extends_filter:
  "set (t_rows t) \<subseteq> set (t_rows (table s db)) \<Longrightarrow> t_last_id t = t_last_id (table s db) \<Longrightarrow>
     extends s db (set_table s' t db)" if "s' = s"
  using that by (auto simp: extends_def)

lemma extends_log_pushes: "log_pushes db db' \<Longrightarrow> spool_inv db \<Longrightarrow> extends s db db'"
  by (induction rule: log_pushes.induct) (auto intro: extends_trans extends_push dest: log_pushes_inv)

lemma extends_outstanding:
  assumes "spool_inv db" "log_pushes db (meanwhile db)"
  shows "extends s db (fst (outstanding_rows fault meanwhile s' b db))"
proof -
  have m: "extends s db (meanwhile db)" using extends_log_pushes [OF assms(2,1)] .
  have inv: "spool_inv (meanwhile db)" using log_pushes_inv [OF assms(2,1)] by simp
  have "extends s (meanwhile db) (set_table s' (fst (drop_oversized i (table s' (meanwhile db)))) (meanwhile db))" for i
  proof (cases "s' = s")
    case True
    obtain t rm where "drop_oversized i (table s (meanwhile db)) = (t, rm)" by fastforce
    with drop_oversized_inv [OF spool_inv_table [OF inv] this] True show ?thesis
      by (intro extends_filter) auto
  qed (simp add: extends_set_table)
  with m show ?thesis
    using outstanding_rows_db [of fault meanwhile s' b db] by (auto intro: extends_trans)
qed

lemma extends_delete:
  assumes "spool_inv db"
  shows "extends s db (fst (delete_rows fault s' ids db))"
proof (cases "s' = s")
  case True
  with ack_table_spec [OF spool_inv_table [OF assms, of s], of ids] show ?thesis
    by (auto simp: delete_rows_def extends_def split: option.splits)
qed (auto simp: delete_rows_def extends_set_table split: option.splits)

lemma extends_counter [simp]: "extends s db (db\<lparr>delivery_counter := n\<rparr>)"
  by (cases s) (simp_all add: extends_def)

lemma extends_step: "spool_step db e db' \<Longrightarrow> spool_inv db \<Longrightarrow> extends s db db'"
  by (induction rule: spool_step.induct)
    (auto simp: next_counter_def split: option.splits
      intro: extends_push extends_outstanding extends_delete)

lemma extends_run: "spool_run db es db' \<Longrightarrow> spool_inv db \<Longrightarrow> extends s db db'"
proof (induction rule: spool_run.induct)
  case (run_snoc db es db' e db'')
  then show ?case using spool_run_inv [OF run_snoc.hyps(1)] by (blast intro: extends_trans extends_step)
qed simp

lemma extends_same_id:
  assumes "spool_inv db" "extends s db db'" "r \<in> set (t_rows (table s db))"
    and "r' \<in> set (t_rows (table s db'))" "r_id r' = r_id r"
  shows "r' = r"
  using assms spool_inv_table [OF assms(1), of s] row_of_id [of "t_rows (table s db)" r' r]
  by (force simp: extends_def table_inv_def)

section \<open>Properties\<close>

text \<open>
  What the other connection does while a take is under way is append trace lines; and
  \<open>serde_json\<close> prints an integer in decimal, so no counter is wider than \<open>u64::MAX\<close>.
\<close>

definition world_ok :: "take_world \<Rightarrow> bool" where
  "world_ok w \<longleftrightarrow> (\<forall>db. log_pushes db (tw_meanwhile w db) \<and> log_pushes db (tw_between w db))"

definition counter_width_ok :: "json_lib \<Rightarrow> bool" where
  "counter_width_ok J \<longleftrightarrow>
     (\<forall>h b b'. h_counter h \<le> u64_max \<longrightarrow> header_to_vec J h = Ok b
        \<longrightarrow> header_to_vec J (h\<lparr>h_counter := u64_max\<rparr>) = Ok b' \<longrightarrow> length b \<le> length b')"

lemma pl_lines_payload_of [simp]: "pl_lines (payload_of s ls) = ls"
  by (cases s) (simp_all add: scrapes_payload_def trace_lines_payload_def)

lemma pl_version_payload_of: "pl_schema_version (payload_of s ls) = pl_schema_version (payload_of s [])"
  by (cases s) (simp_all add: scrapes_payload_def trace_lines_payload_def)

lemma delivery_envelope_simps [simp]:
  "e_payload (delivery_envelope L d c now pl) = pl"
  "e_counter (delivery_envelope L d c now pl) = c"
  by (simp_all add: delivery_envelope_def new_envelope_def)

lemma header_reserve:
  "(header_of (delivery_envelope L d c now (payload_of s ls)))\<lparr>h_counter := u64_max\<rparr>
     = header_of (delivery_envelope L d u64_max now (payload_of s []))"
  by (simp add: header_of_def delivery_envelope_def new_envelope_def pl_version_payload_of [of s ls])

lemma row_budget_Ok:
  assumes "row_budget L d now pl = Ok budget"
  shows "\<exists>hdr. header_json (dl_json L) (delivery_envelope L d u64_max now pl) = Ok hdr
    \<and> budget + (HEADER_OFFSET + length hdr) = d_batch_max_bytes d \<and> 0 < budget"
  using assms
  by (auto simp: row_budget_def and_then_Ok_iff Let_def checked_sub_def split: option.splits if_splits)

text \<open>Rows within a budget below the clamp cost what they are on the wire.\<close>

lemma bytes_of_wire:
  assumes "\<forall>r \<in> set rs. row_wf r" "bytes_of rs < i64_max"
  shows "bytes_of rs = int (sum_list (map wire_bytes (map line_of_row rs)))"
  using assms
proof (induction rs)
  case (Cons r rs)
  have "0 \<le> bytes_of rs" using Cons.prems by (intro rows_nonneg) auto
  with Cons.prems have "r_bytes r < i64_max" "bytes_of rs < i64_max" by (auto simp: row_wf_def)
  moreover from this Cons.prems have "r_bytes r = int (wire_bytes (line_of_row r))"
    by (auto simp: row_wf_def line_of_row_def clamp_def split: if_splits)
  ultimately show ?case using Cons by simp
qed simp

text \<open>
  C22: A sealed submission is within the agent's ceiling: the container's offset, its header frame and
  its payload lines together are at most \<open>batch_max_bytes\<close>, whatever counter it drew and whatever the
  trace thread appended meanwhile, and it carries at least one line.
\<close>

theorem submission_fits:
  assumes "counter_width_ok (dl_json L)" and "world_ok w" and "spool_inv db"
    and "int (d_batch_max_bytes d) \<le> i64_max"
    and "take_from s L w now d db = (d', db', Ok (Some sub))"
  shows "\<exists>e hdr. header_json (dl_json L) e = Ok hdr
    \<and> seal (dl_crypto L) (dl_json L) (dl_zstd L) (d_key d) e (d_compression_level d)
        = Ok (ss_wire_bytes sub, ss_attestation sub)
    \<and> e_counter e = ss_counter sub \<and> pl_lines (e_payload e) \<noteq> []
    \<and> HEADER_OFFSET + length hdr + length (payload_lines e) \<le> d_batch_max_bytes d"
proof -
  obtain budget db1 rs e where sealed: "sealed_from s L d now budget rs e sub"
    and db1: "db1 = fst (outstanding_rows (tw_take w) (tw_meanwhile w) s budget db)"
    and rs: "rs = walk (clamp budget) 0 (t_rows (table s db1))"
    and counter: "ss_counter sub = nat (delivery_counter db' mod 2 ^ 64)"
    using take_from_Some [OF assms(5)] by blast
  from sealed have e: "e = delivery_envelope L d (ss_counter sub) now (payload_of s (map line_of_row rs))"
    and seal: "seal (dl_crypto L) (dl_json L) (dl_zstd L) (d_key d) e (d_compression_level d)
        = Ok (ss_wire_bytes sub, ss_attestation sub)" and ne: "rs \<noteq> []"
    by (auto simp: sealed_from_def)
  have "row_budget L d now (payload_of s []) = Ok budget" using sealed by (simp add: sealed_from_def)
  from row_budget_Ok [OF this] obtain res where
    res: "header_to_vec (dl_json L) (header_of (delivery_envelope L d u64_max now (payload_of s []))) = Ok res"
      "budget + (HEADER_OFFSET + length res) = d_batch_max_bytes d"
    by (auto simp: header_json_def)
  from seal obtain hdr where hdr: "header_to_vec (dl_json L) (header_of e) = Ok hdr"
    by (auto simp: seal_Ok_iff)
  have "h_counter (header_of e) \<le> u64_max"
    by (simp add: e header_of_def counter u64_max_def nat_le_iff)
  with assms(1) hdr res(1) header_reserve [of L d "ss_counter sub" now s "map line_of_row rs"]
  have len: "length hdr \<le> length res" unfolding counter_width_ok_def e by metis
  have inv1: "spool_inv db1"
    unfolding db1 using assms(2,3) by (intro outstanding_rows_inv) (auto simp: world_ok_def dest: log_pushes_inv)
  obtain rest where rest: "t_rows (table s db1) = rs @ rest" "bytes_of rs \<le> clamp budget"
    using walk_prefix [of "t_rows (table s db1)" "clamp budget" 0] rs by auto
  have small: "int budget < i64_max" using res(2) assms(4) by (simp add: HEADER_OFFSET_def)
  then have "clamp budget = int budget" by (simp add: clamp_def)
  moreover have "\<forall>r \<in> set rs. row_wf r"
    using spool_inv_table [OF inv1, of s] rest(1) by (auto simp: table_inv_def)
  ultimately have "sum_list (map wire_bytes (map line_of_row rs)) \<le> budget"
    using bytes_of_wire [of rs] rest(2) small by linarith
  then have "length (payload_lines e) \<le> budget" by (simp add: length_payload_lines e)
  then show ?thesis
    using len res(2) hdr seal ne by (intro exI [of _ e] exI [of _ hdr]) (auto simp: header_json_def e)
qed

text \<open>
  An acknowledgement deletes only what that submission sealed. However long after the take it
  arrives and whatever both connections did to the file meanwhile, every row it removes is of the
  stream it was drawn from and is one of the lines in the sealed envelope.
\<close>

theorem ack_deletes_only_sealed:
  assumes "world_ok w" and "spool_inv db"
    and "take_from s L w now d db = (d', db', Ok (Some sub))" and "spool_run db' es db''"
    and "r \<in> set (t_rows (table s' db''))"
    and "r \<notin> set (t_rows (table s' (fst (delivery_ack fault sub db''))))"
  shows "s' = s \<and> (\<exists>e. seal (dl_crypto L) (dl_json L) (dl_zstd L) (d_key d) e (d_compression_level d)
        = Ok (ss_wire_bytes sub, ss_attestation sub)
      \<and> line_of_row r \<in> set (pl_lines (e_payload e)))"
proof -
  obtain budget db1 rs e where sealed: "sealed_from s L d now budget rs e sub"
    and db1: "db1 = fst (outstanding_rows (tw_take w) (tw_meanwhile w) s budget db)"
    and rs: "rs = walk (clamp budget) 0 (t_rows (table s db1))"
    and drew: "next_counter (tw_draw w) (tw_between w db1) = (db', Inr (delivery_counter db'))"
    using take_from_Some [OF assms(3)] by blast
  have pushes: "log_pushes db (tw_meanwhile w db)" "log_pushes db1 (tw_between w db1)"
    using assms(1) by (auto simp: world_ok_def)
  have inv1: "spool_inv db1"
    unfolding db1 using pushes(1) assms(2) by (intro outstanding_rows_inv) (auto dest: log_pushes_inv)
  have "spool_step (tw_between w db1) (Drew (delivery_counter db')) db'"
    using drew by (rule step_draw)
  then have inv': "spool_inv db'" and ext': "extends s db1 db'"
    using log_pushes_inv [OF pushes(2) inv1] extends_log_pushes [OF pushes(2) inv1, of s]
    by (auto intro: spool_step_inv extends_trans extends_step)
  then have ext: "extends s db1 db''" using extends_run [OF assms(4), of s] extends_trans by blast
  have inv'': "spool_inv db''" using spool_run_inv [OF assms(4) inv'] by simp
  have ack: "fst (delivery_ack fault sub db'') = fst (delete_rows fault s (map r_id rs) db'')"
    using sealed by (cases s) (auto simp: sealed_from_def delivery_ack_def split: prod.splits)
  have s: "s' = s"
    using assms(5,6) unfolding ack by (cases s; cases s') (auto simp: delete_rows_def split: option.splits)
  with assms(5,6) ack_table_spec [OF spool_inv_table [OF inv'', of s], of "map r_id rs"]
  have "r_id r \<in> set (map r_id rs)"
    unfolding ack by (auto simp: delete_rows_def split: option.splits)
  then obtain r' where r': "r' \<in> set rs" "r_id r = r_id r'" by auto
  have "r' \<in> set (t_rows (table s db1))"
    using walk_prefix [of "t_rows (table s db1)" "clamp budget" 0] rs r'(1) by (metis Un_iff set_append)
  then have "r = r'" using extends_same_id [OF inv1 ext _ _ r'(2)] assms(5) s by blast
  with r' sealed s show ?thesis by (auto simp: sealed_from_def)
qed

text \<open>
  With no failure and nothing interleaved, a submission carries the oldest rows in order and its
  \<open>more\<close> says whether rows are left; once acknowledged, exactly those are.
\<close>

theorem submission_then_ack:
  assumes "spool_inv db" and "tw_meanwhile w = (\<lambda>db. db)" and "tw_between w = (\<lambda>db. db)"
    and "take_from s L w now d db = (d', db', Ok (Some sub))"
    and "delivery_ack fault sub db' = (db'', Ok ())"
  shows "\<exists>rs rest e budget. t_rows (table s db') = rs @ rest \<and> t_rows (table s db'') = rest
    \<and> sealed_from s L d now budget rs e sub \<and> (ss_more sub \<longleftrightarrow> rest \<noteq> [])"
proof -
  obtain budget db1 rs e where sealed: "sealed_from s L d now budget rs e sub"
    and db1: "db1 = fst (outstanding_rows (tw_take w) (tw_meanwhile w) s budget db)"
    and rs: "rs = walk (clamp budget) 0 (t_rows (table s db1))"
    and more: "ss_more sub = has_after s (r_id (last rs)) db1"
    and drew: "next_counter (tw_draw w) db1 = (db', Inr (delivery_counter db'))"
    using take_from_Some [OF assms(4)] assms(3) by auto
  have inv1: "spool_inv db1"
    unfolding db1 using assms(1,2) by (intro outstanding_rows_inv) auto
  have db': "table s db' = table s db1"
    using next_counter_Ok [OF drew] table_counter by metis
  obtain rest where rest: "t_rows (table s db1) = rs @ rest"
    using walk_prefix [of "t_rows (table s db1)" "clamp budget" 0] rs by auto
  have sorted: "sorted_wrt (<) (map r_id (rs @ rest))"
    using spool_inv_table [OF inv1, of s] rest by (simp add: table_inv_def)
  then have apart: "\<forall>x \<in> set rs. \<forall>y \<in> set rest. r_id x < r_id y" by (simp add: sorted_wrt_append)
  have ne: "rs \<noteq> []" using sealed by (simp add: sealed_from_def)
  then have "\<forall>x \<in> set rs. r_id x \<le> r_id (last rs)"
    using sorted by (induction rs rule: rev_induct) (auto simp: sorted_wrt_append)
  then have "ss_more sub \<longleftrightarrow> rest \<noteq> []"
    using apart ne last_in_set [OF ne] by (fastforce simp: more has_after_def rest list_ex_iff neq_Nil_conv)
  moreover have "db'' = set_table s (ack_table (map r_id rs) (table s db')) db'"
    using assms(5) sealed
    by (cases s) (auto simp: sealed_from_def delivery_ack_def delete_rows_def split: option.splits)
  then have "t_rows (table s db'') = filter (\<lambda>r. r_id r \<notin> set (map r_id rs)) (rs @ rest)"
    using ack_table_spec [OF spool_inv_table [OF inv1, of s], of "map r_id rs"] by (simp add: db' rest)
  moreover have "filter (\<lambda>r. r_id r \<notin> set (map r_id rs)) (rs @ rest) = rest"
    using apart by (fastforce simp: filter_id_conv)
  ultimately show ?thesis using sealed rest db' by auto
qed

section \<open>Witnesses\<close>

definition demo_header_json :: json_lib where
  "demo_header_json = demo_json\<lparr>header_to_vec := (\<lambda>h. Ok ''hh'')\<rparr>"

definition demo_libs :: delivery_libs where
  "demo_libs = \<lparr>dl_crypto = demo_crypto, dl_json = demo_header_json, dl_zstd = demo_zstd, dl_agent_version = ''0.1.0''\<rparr>"

definition demo_delivery :: delivery where
  "demo_delivery =
     \<lparr>d_spool = \<lparr>sp_max_bytes = 100, sp_provenance = demo_provenance, sp_uncarriable = no_uncarriable\<rparr>,
      d_key = demo_key, d_compression_level = 0, d_batch_max_bytes = 14\<rparr>"

definition quiet_world :: take_world where
  "quiet_world = \<lparr>tw_take = (\<lambda>_. None), tw_meanwhile = (\<lambda>db. db), tw_between = (\<lambda>db. db), tw_after = None,
     tw_draw = (\<lambda>_. None)\<rparr>"

lemma quiet_world_ok: "world_ok quiet_world"
  by (simp add: world_ok_def quiet_world_def no_push)

lemmas demo_take_simps = take_from_def row_budget_def demo_libs_def demo_delivery_def demo_db_def
  header_json_def demo_header_json_def quiet_world_def HEADER_OFFSET_def checked_sub_def taken_def
  outstanding_rows_def walk_rows_def oversized_head_def clamp_def i64_max_def spooled_def rows_wait_def
  has_after_def seal_rows_def delivery_seal_def next_counter_def seal_def demo_zstd_def u32_max_def Let_def

lemma demo_take:
  "\<exists>d' db' sub. take_from SCRAPES demo_libs quiet_world 0 demo_delivery demo_db = (d', db', Ok (Some sub))
     \<and> ss_more sub \<and> ss_rows sub = ScrapeRows [1] \<and> (\<exists>db''. delivery_ack (\<lambda>_. None) sub db' = (db'', Ok ()))"
  by (simp add: demo_take_simps delivery_ack_def delete_rows_def)

theorem submission_fits_witness: "HEADER_OFFSET \<le> d_batch_max_bytes demo_delivery"
proof -
  obtain d' db' sub where tk: "take_from SCRAPES demo_libs quiet_world 0 demo_delivery demo_db = (d', db', Ok (Some sub))"
    using demo_take by blast
  have "counter_width_ok (dl_json demo_libs)"
    by (simp add: counter_width_ok_def demo_libs_def demo_header_json_def)
  moreover have "int (d_batch_max_bytes demo_delivery) \<le> i64_max"
    by (simp add: demo_delivery_def i64_max_def)
  ultimately show ?thesis
    using submission_fits [OF _ quiet_world_ok demo_db_inv _ tk] by force
qed

theorem ack_deletes_only_sealed_witness:
  "\<exists>(sub :: sealed_submission) e. ss_rows sub = ScrapeRows [1] \<and> PayloadLine ''aa'' \<in> set (pl_lines (e_payload e))
     \<and> seal demo_crypto demo_header_json demo_zstd demo_key e 0 = Ok (ss_wire_bytes sub, ss_attestation sub)"
proof -
  let ?r = "\<lparr>r_id = 1, r_text = ''aa'', r_bytes = 3\<rparr>"
  obtain d' db' sub where tk: "take_from SCRAPES demo_libs quiet_world 0 demo_delivery demo_db = (d', db', Ok (Some sub))"
    and rows: "ss_rows sub = ScrapeRows [1]"
    using demo_take by blast
  have db': "db' = demo_db\<lparr>delivery_counter := 6\<rparr>"
    using tk by (simp add: demo_take_simps) 
  have inv: "spool_inv db'" using demo_db_inv by (simp add: db' spool_inv_def)
  have held: "?r \<in> set (t_rows (table SCRAPES db'))" by (simp add: db' demo_db_def)
  have gone: "?r \<notin> set (t_rows (table SCRAPES (fst (delivery_ack (\<lambda>_. None) sub db'))))"
    using ack_table_spec [OF spool_inv_table [OF inv, of SCRAPES], of "[1]"]
    by (simp add: delivery_ack_def delete_rows_def rows)
  from ack_deletes_only_sealed [OF quiet_world_ok demo_db_inv tk run_nil held gone] rows
  show ?thesis
    by (simp add: demo_libs_def demo_delivery_def line_of_row_def) blast
qed

theorem submission_then_ack_witness:
  "\<exists>(sub :: sealed_submission) (db'' :: spool_db) rest. ss_more sub \<and> t_rows (table SCRAPES db'') = rest \<and> rest \<noteq> []"
proof -
  obtain d' db' sub db'' where
    tk: "take_from SCRAPES demo_libs quiet_world 0 demo_delivery demo_db = (d', db', Ok (Some sub))"
    and more: "ss_more sub" and ack: "delivery_ack (\<lambda>_. None) sub db' = (db'', Ok ())"
    using demo_take by blast
  have "tw_meanwhile quiet_world = (\<lambda>db. db)" "tw_between quiet_world = (\<lambda>db. db)"
    by (simp_all add: quiet_world_def)
  from submission_then_ack [OF demo_db_inv this tk ack]
  obtain rest where "t_rows (table SCRAPES db'') = rest" "ss_more sub = (rest \<noteq> [])" by blast
  with more show ?thesis by blast
qed

end
