(* ===== verification/Uploader.thy ===== *)
theory Uploader
  imports Delivery_Laws Http_Client
begin

text \<open>
  \<open>metsuke/src/uploader.rs\<close>: one sealed submission out, and what the answer means for the spool and
  the schedule. The transport (\<open>ureq\<close>) is a parameter from a request to an answer or the text of a
  transport error; \<open>serde_json\<close>'s reading of an \<open>Ack\<close> is another.
\<close>

record ack =
  latest_version :: string

record upload_config =
  upload_url :: string
  max_submissions :: nat

datatype upload_outcome =
    UpAcked ack
  | UpRetryable string
  | UpRejected nat string

record http_request =
  rq_url :: string
  rq_headers :: "(string \<times> string) list"
  rq_body :: bytes

type_synonym transport = "http_request \<Rightarrow> (string, http_response) result"
type_synonym ack_parser = "string \<Rightarrow> (string, ack) result"

definition upload_request :: "bech32_lib \<Rightarrow> upload_config \<Rightarrow> pool_id \<Rightarrow> sealed_submission \<Rightarrow> http_request" where
  "upload_request B cfg pool sub =
     \<lparr>rq_url = upload_url cfg,
      rq_headers = headers (ss_attestation sub)
        @ [(HEADER_POOL, to_bech32 B pool), (''content-encoding'', ''zstd''), (''content-type'', ''application/json'')],
      rq_body = ss_wire_bytes sub\<rparr>"

definition upload ::
  "bech32_lib \<Rightarrow> ack_parser \<Rightarrow> transport \<Rightarrow> upload_config \<Rightarrow> pool_id \<Rightarrow> sealed_submission \<Rightarrow> upload_outcome" where
  "upload B ack_from_str send cfg pool sub =
     (case send (upload_request B cfg pool sub) of
        Inl e \<Rightarrow> UpRetryable e
      | Inr response \<Rightarrow>
          (case classify response of
             Inr _ \<Rightarrow>
               (case and_then (rs_body response) ack_from_str of
                  Inr a \<Rightarrow> UpAcked a
                | Inl e \<Rightarrow> UpRetryable (''unreadable ack: '' @ e))
           | Inl r \<Rightarrow>
               if rf_retryable r
               then UpRetryable (''server answered '' @ decimal (rf_status r) @ '': '' @ rf_reason r)
               else UpRejected (rf_status r) (rf_reason r)))"

section \<open>Versions\<close>

text \<open>\<open>u64::from_str\<close>: at most one leading \<open>+\<close>, then decimal digits, in range.\<close>

definition parse_u64 :: "string \<Rightarrow> nat option" where
  "parse_u64 s =
     (let ds = (case s of [] \<Rightarrow> [] | c # cs \<Rightarrow> if c = CHR ''+'' then cs else s)
      in if ds \<noteq> [] \<and> list_all is_digit ds \<and> undecimal ds \<le> u64_max then Some (undecimal ds) else None)"

fun collect_option :: "'a option list \<Rightarrow> 'a list option" where
  "collect_option [] = Some []"
| "collect_option (None # xs) = None"
| "collect_option (Some x # xs) = map_option ((#) x) (collect_option xs)"

definition parse_version :: "string \<Rightarrow> nat list option" where
  "parse_version v = collect_option (map parse_u64 (split_on (CHR ''.'') v))"

definition newer_version_available :: "string \<Rightarrow> string \<Rightarrow> bool" where
  "newer_version_available current latest =
     (case (parse_version current, parse_version latest) of
        (Some c, Some l) \<Rightarrow> c < l
      | _ \<Rightarrow> False)"

lemma parse_u64_decimal [simp]: "n \<le> u64_max \<Longrightarrow> parse_u64 (decimal n) = Some n"
proof -
  assume n: "n \<le> u64_max"
  obtain c cs where c: "decimal n = c # cs" using decimal_neq_Nil [of n] by (cases "decimal n") auto
  have "is_digit c" using decimal_digits [of c n] c by simp
  then have "c \<noteq> CHR ''+''" by (auto simp: is_digit_def)
  with n c decimal_digits [of _ n] undecimal_decimal [of n] show ?thesis
    by (auto simp: parse_u64_def list_all_iff)
qed

lemma decimal_no_dot: "CHR ''.'' \<notin> set (decimal n)"
  using decimal_digits [of "CHR ''.''" n] by (auto simp: is_digit_def)

definition version_text :: "nat list \<Rightarrow> string" where
  "version_text v = join_with (CHR ''.'') (map decimal v)"

lemma collect_option_Some [simp]: "collect_option (map Some xs) = Some xs"
  by (induction xs) auto

lemma parse_version_text:
  assumes "v \<noteq> []" "\<forall>n \<in> set v. n \<le> u64_max"
  shows "parse_version (version_text v) = Some v"
proof -
  have "split_on (CHR ''.'') (version_text v) = map decimal v"
    unfolding version_text_def using assms(1) decimal_no_dot by (intro split_join) auto
  moreover have "map parse_u64 (map decimal v) = map Some v" using assms(2) by (auto simp: comp_def)
  ultimately show ?thesis by (simp add: parse_version_def del: map_map)
qed

section \<open>Properties\<close>

text \<open>
  The nudge compares versions as the numbers they print: one is newer exactly when it is later
  segment by segment, so \<open>0.10.0\<close> is newer than \<open>0.9.0\<close>, and no version is newer than itself.
\<close>

theorem newer_is_numeric:
  assumes "c \<noteq> []" "l \<noteq> []" and "\<forall>n \<in> set c \<union> set l. n \<le> u64_max"
  shows "newer_version_available (version_text c) (version_text l) \<longleftrightarrow> c < l"
  using parse_version_text [of c] parse_version_text [of l] assms
  by (simp add: newer_version_available_def)

text \<open>
  An outcome is \<open>Acked\<close> only for an answer that says so: the request that carried exactly the
  sealed bytes, its attestation and the pool was answered 2xx with a body that reads as an
  acknowledgement. It is \<open>Rejected\<close> exactly for a 4xx other than 429; everything else is retried.
\<close>

theorem upload_outcomes:
  "case upload B P send cfg pool sub of
     UpAcked a \<Rightarrow> (\<exists>r body. send (upload_request B cfg pool sub) = Ok r \<and> rs_status r \<in> {200..<300}
        \<and> rs_body r = Ok body \<and> P body = Ok a)
   | UpRejected st _ \<Rightarrow> (\<exists>r. send (upload_request B cfg pool sub) = Ok r \<and> rs_status r = st
        \<and> st \<in> {400..<500} - {429})
   | UpRetryable _ \<Rightarrow> (case send (upload_request B cfg pool sub) of
        Inl _ \<Rightarrow> True
      | Inr r \<Rightarrow> rs_status r \<notin> {400..<500} - {429}
          \<and> \<not> (rs_status r \<in> {200..<300} \<and> (\<exists>body a. rs_body r = Ok body \<and> P body = Ok a)))"
  by (auto simp: upload_def classify_def Let_def TOO_MANY_REQUESTS_def and_then_Ok_iff and_then_Err_iff
      split: sum.splits if_splits)

section \<open>Witnesses\<close>

theorem newer_is_numeric_witness:
  "newer_version_available (version_text [0, 9, 0]) (version_text [0, 10, 0])"
  using newer_is_numeric [of "[0, 9, 0]" "[0, 10, 0]"] by (simp add: u64_max_def)

end
