(* ===== verification/Schedule.thy ===== *)
theory Schedule
  imports Uploader
begin

text \<open>
  \<open>metsuke/src/schedule.rs\<close>: one upload outcome in, the delay until the next attempt out. A \<open>Duration\<close>
  is its nanoseconds, at most \<open>duration_max\<close>; where the code panics (a sum past it, the remainder by a
  span that wrapped to zero) the delay is \<^const>\<open>None\<close>.
\<close>

definition duration_max :: nat where
  "duration_max = (2 ^ 64 - 1) * 10 ^ 9 + 999999999"

definition as_millis :: "nat \<Rightarrow> nat" where
  "as_millis d = d div 10 ^ 6"

definition duration_add :: "nat \<Rightarrow> nat \<Rightarrow> nat option" where
  "duration_add a b = (if a + b \<le> duration_max then Some (a + b) else None)"

definition duration_saturating_mul :: "nat \<Rightarrow> nat \<Rightarrow> nat" where
  "duration_saturating_mul d k = min (d * k) duration_max"

record schedule_config =
  upload_interval :: nat
  jitter_max :: nat
  backoff_max :: nat

record schedule =
  consecutive_rejections :: nat
  phase_chosen :: bool

definition schedule_new :: schedule where
  "schedule_new = \<lparr>consecutive_rejections = 0, phase_chosen = False\<rparr>"

text \<open>\<open>as_millis() as u64 + 1\<close>: a span of \<open>2 ^ 64\<close> is the overflow.\<close>

definition jitter :: "nat \<Rightarrow> nat \<Rightarrow> nat \<Rightarrow> nat option" where
  "jitter widest interval entropy =
     (let span = as_millis (min widest interval) mod 2 ^ 64 + 1
      in if span = 2 ^ 64 then None else Some (entropy mod span * 10 ^ 6))"

definition jittered :: "schedule_config \<Rightarrow> nat \<Rightarrow> nat option" where
  "jittered cfg entropy =
     Option.bind (jitter (jitter_max cfg) (upload_interval cfg) entropy) (duration_add (upload_interval cfg))"

definition saturating_pow2 :: "nat \<Rightarrow> nat" where
  "saturating_pow2 n = (if n < 32 then 2 ^ n else u32_max)"

definition after :: "upload_outcome \<Rightarrow> schedule_config \<Rightarrow> nat \<Rightarrow> schedule \<Rightarrow> schedule \<times> nat option" where
  "after outcome cfg entropy s =
     (case outcome of
        UpAcked _ \<Rightarrow>
          (s\<lparr>consecutive_rejections := 0, phase_chosen := True\<rparr>,
           if phase_chosen s then Some (upload_interval cfg) else jittered cfg entropy)
      | UpRetryable _ \<Rightarrow> (s\<lparr>consecutive_rejections := 0\<rparr>, jittered cfg entropy)
      | UpRejected _ _ \<Rightarrow>
          (let n = min (consecutive_rejections s + 1) u32_max
           in (s\<lparr>consecutive_rejections := n\<rparr>,
               Some (min (duration_saturating_mul (upload_interval cfg) (saturating_pow2 n)) (backoff_max cfg)))))"

text \<open>
  The two lines that name the next attempt. What an instant may be and how RFC 3339 writes it are the
  \<open>time\<close> crate's (\<open>clock_lib\<close>); a wait is one of its durations below \<open>2 ^ 63\<close> seconds.
\<close>

record clock_lib =
  ck_checked_add :: "instant \<Rightarrow> nat \<Rightarrow> instant option"
  ck_rfc3339 :: "instant \<Rightarrow> string option"

definition rendered_at :: "clock_lib \<Rightarrow> instant \<Rightarrow> nat \<Rightarrow> string" where
  "rendered_at K now wait =
     (case (if wait div 10 ^ 9 < 2 ^ 63 then ck_checked_add K now wait else None) of
        None \<Rightarrow> ''a time this clock cannot render''
      | Some t \<Rightarrow>
          (case ck_rfc3339 K (t - t mod 10 ^ 9) of
             Some s \<Rightarrow> s
           | None \<Rightarrow> ''a time this clock cannot render''))"

definition next_submission_line :: "clock_lib \<Rightarrow> instant \<Rightarrow> nat \<Rightarrow> string" where
  "next_submission_line K now wait = ''the next submission is scheduled at '' @ rendered_at K now wait"

definition nothing_sent_line :: "clock_lib \<Rightarrow> instant \<Rightarrow> nat \<Rightarrow> string" where
  "nothing_sent_line K now wait = ''nothing to send; the next upload is at '' @ rendered_at K now wait"

text \<open>The schedule after a history of outcomes, oldest first, each with the entropy it was given.\<close>

definition schedule_after :: "schedule_config \<Rightarrow> (upload_outcome \<times> nat) list \<Rightarrow> schedule" where
  "schedule_after cfg hist = fold (\<lambda>(outcome, entropy) s. fst (after outcome cfg entropy s)) hist schedule_new"

definition is_rejected :: "upload_outcome \<Rightarrow> bool" where
  "is_rejected u = (case u of UpRejected _ _ \<Rightarrow> True | _ \<Rightarrow> False)"

definition is_acked :: "upload_outcome \<Rightarrow> bool" where
  "is_acked u = (case u of UpAcked _ \<Rightarrow> True | _ \<Rightarrow> False)"

definition trailing_rejections :: "(upload_outcome \<times> nat) list \<Rightarrow> nat" where
  "trailing_rejections hist = length (takeWhile (\<lambda>(u, _). is_rejected u) (rev hist))"

lemma schedule_after_snoc:
  "schedule_after cfg (hist @ [(u, k)]) = fst (after u cfg k (schedule_after cfg hist))"
  by (simp add: schedule_after_def)

lemma schedule_after_state:
  "consecutive_rejections (schedule_after cfg hist) = min (trailing_rejections hist) u32_max
   \<and> (phase_chosen (schedule_after cfg hist) \<longleftrightarrow> list_ex (\<lambda>(u, _). is_acked u) hist)"
proof (induction hist rule: rev_induct)
  case Nil
  then show ?case by (simp add: schedule_after_def schedule_new_def trailing_rejections_def)
next
  case (snoc x hist)
  obtain u k where x: "x = (u, k)" by fastforce
  show ?case
    using snoc unfolding x schedule_after_snoc
    by (cases u) (auto simp: after_def Let_def trailing_rejections_def is_rejected_def is_acked_def
        min_def u32_max_def)
qed

lemma jitter_le:
  "jitter widest interval entropy = Some j \<Longrightarrow> j \<le> min widest interval"
proof -
  let ?m = "min widest interval"
  assume "jitter widest interval entropy = Some j"
  then have j: "j = entropy mod (as_millis ?m mod 2 ^ 64 + 1) * 10 ^ 6"
    by (simp add: jitter_def Let_def split: if_splits)
  have "entropy mod (as_millis ?m mod 2 ^ 64 + 1) \<le> as_millis ?m mod 2 ^ 64"
    using mod_less_divisor [of "as_millis ?m mod 2 ^ 64 + 1" entropy] by simp
  also have "\<dots> \<le> as_millis ?m" by (rule mod_less_eq_dividend)
  finally have "j \<le> as_millis ?m * 10 ^ 6" using j by simp
  also have "\<dots> \<le> ?m" unfolding as_millis_def by (rule div_times_less_eq_dividend)
  finally show ?thesis .
qed

text \<open>Saturation is never what decides a backoff: the clamp is reached first.\<close>

lemma saturating_backoff:
  assumes "backoff_max cfg \<le> duration_max" "backoff_max cfg \<le> upload_interval cfg * u32_max"
    and "n = min k u32_max"
  shows "min (duration_saturating_mul (upload_interval cfg) (saturating_pow2 n)) (backoff_max cfg)
    = min (upload_interval cfg * 2 ^ k) (backoff_max cfg)"
proof (cases "k < 32")
  case True
  then have "n = k" using assms(3) by (simp add: u32_max_def)
  with True assms(1) show ?thesis by (simp add: duration_saturating_mul_def saturating_pow2_def)
next
  case False
  then have n: "\<not> n < 32" using assms(3) by (simp add: u32_max_def)
  have "u32_max \<le> 2 ^ 32" by (simp add: u32_max_def)
  also have "(2 :: nat) ^ 32 \<le> 2 ^ k" using False by (intro power_increasing) auto
  finally have "upload_interval cfg * u32_max \<le> upload_interval cfg * 2 ^ k" by (rule mult_le_mono2)
  with assms(2) have "backoff_max cfg \<le> upload_interval cfg * 2 ^ k" by (rule le_trans)
  with assms(1,2) n show ?thesis
    by (simp add: duration_saturating_mul_def saturating_pow2_def min_absorb2)
qed

section \<open>Properties\<close>

text \<open>
  C31: The delay after any history. A rejection that is the \<open>k\<close>-th in a row waits the interval doubled
  \<open>k\<close> times, clamped, for every \<open>k\<close>; an accepted submission keeps the interval exactly once a phase
  is chosen; the first one and every retry wait between one interval and that much more jitter,
  never more than a second interval.
\<close>

theorem delay_after_history:
  assumes "upload_interval cfg + jitter_max cfg \<le> duration_max"
    and "as_millis (jitter_max cfg) < 2 ^ 64 - 1"
    and "backoff_max cfg \<le> duration_max" and "backoff_max cfg \<le> upload_interval cfg * u32_max"
  shows "\<exists>d. snd (after u cfg entropy (schedule_after cfg hist)) = Some d
    \<and> (case u of
         UpRejected _ _ \<Rightarrow> d = min (upload_interval cfg * 2 ^ (trailing_rejections hist + 1)) (backoff_max cfg)
       | _ \<Rightarrow> if is_acked u \<and> list_ex (\<lambda>(u, _). is_acked u) hist then d = upload_interval cfg
              else upload_interval cfg \<le> d \<and> d \<le> upload_interval cfg + min (jitter_max cfg) (upload_interval cfg))"
proof -
  let ?s = "schedule_after cfg hist"
  have le: "as_millis (min (jitter_max cfg) (upload_interval cfg)) \<le> as_millis (jitter_max cfg)"
    unfolding as_millis_def by (intro div_le_mono) simp
  then obtain j where j: "jitter (jitter_max cfg) (upload_interval cfg) entropy = Some j"
    using assms(2) by (auto simp: jitter_def Let_def)
  note jl = jitter_le [OF j]
  then have jit: "jittered cfg entropy = Some (upload_interval cfg + j)"
    using assms(1) j by (simp add: jittered_def duration_add_def)
  show ?thesis
  proof (cases u)
    case (UpRejected st reason)
    have "min (consecutive_rejections ?s + 1) u32_max = min (trailing_rejections hist + 1) u32_max"
      using schedule_after_state [of cfg hist] by (auto simp: min_def)
    from saturating_backoff [OF assms(3,4) this] show ?thesis
      by (simp add: UpRejected after_def Let_def)
  qed (use jit jl schedule_after_state [of cfg hist] in \<open>auto simp: after_def is_acked_def\<close>)
qed

theorem delay_after_history_witness:
  "\<exists>d. snd (after (UpRejected 403 ''no'') \<lparr>upload_interval = 10 ^ 9, jitter_max = 10 ^ 8, backoff_max = 10 ^ 10\<rparr> 5
      (schedule_after \<lparr>upload_interval = 10 ^ 9, jitter_max = 10 ^ 8, backoff_max = 10 ^ 10\<rparr> [(UpRejected 403 ''no'', 3)]))
    = Some d \<and> d = 4 * 10 ^ 9"
  using delay_after_history [of "\<lparr>upload_interval = 10 ^ 9, jitter_max = 10 ^ 8, backoff_max = 10 ^ 10\<rparr>"
      "UpRejected 403 ''no''" 5 "[(UpRejected 403 ''no'', 3)]"]
  by (simp add: duration_max_def as_millis_def u32_max_def trailing_rejections_def is_rejected_def)

end
