(* ===== verification/Scrape.thy ===== *)
theory Scrape
  imports Uploader
begin

text \<open>
  \<open>metsuke/src/scrape.rs\<close>: one PrometheusSimple endpoint, the socket half (\<open>fetch\<close>, over an answer
  that is a value) and the text half (\<open>parse\<close>). The scan works on bytes: every delimiter it looks for
  is ASCII, so it never cuts a character. What \<open>f64::from_str\<close> and \<open>Number::from_f64\<close> make of a
  text is a parameter.
\<close>

section \<open>Reading the endpoint\<close>

datatype body_error = BodyExceedsLimit nat | BodyFailed string

text \<open>An answer of the endpoint: its status, its body read whole and its body read under a limit.\<close>

record metrics_answer =
  ma_response :: http_response
  ma_limited :: "nat \<Rightarrow> (body_error, string) result"

datatype fetch_error =
    FetchUnreachable string
  | FetchRefused refusal
  | FetchTooLarge nat
  | FetchUnreadable string

record scrape_config =
  sc_metrics_url :: string
  sc_max_body_bytes :: nat

fun fetch_reason :: "fetch_error \<Rightarrow> failure_reason" where
  "fetch_reason (FetchUnreachable _) = Unreachable"
| "fetch_reason (FetchRefused _) = FailureRefused"
| "fetch_reason (FetchTooLarge _) = TooLargeBody"
| "fetch_reason (FetchUnreadable _) = Unreadable"

fun fetch_detail :: "fetch_error \<Rightarrow> string" where
  "fetch_detail (FetchUnreachable e) = ''the endpoint did not answer: '' @ e"
| "fetch_detail (FetchRefused r) =
     ''the endpoint answered '' @ decimal (rf_status r) @ '' ('' @ rf_reason r @ '')''"
| "fetch_detail (FetchTooLarge limit) =
     ''the body is past the configured limit of '' @ decimal limit @ '' bytes''"
| "fetch_detail (FetchUnreadable e) = ''the answer's body did not read: '' @ e"

definition failure_of :: "fetch_error \<Rightarrow> failure" where
  "failure_of e = \<lparr>f_reason = fetch_reason e, f_detail = fetch_detail e\<rparr>"

definition fetch :: "(string \<Rightarrow> (string, metrics_answer) result) \<Rightarrow> scrape_config \<Rightarrow> (fetch_error, string) result" where
  "fetch call cfg =
     and_then (map_err FetchUnreachable (call (sc_metrics_url cfg))) (\<lambda>answer.
     and_then (map_err FetchRefused (classify (ma_response answer))) (\<lambda>_.
     map_err (\<lambda>e. case e of BodyExceedsLimit limit \<Rightarrow> FetchTooLarge limit | BodyFailed other \<Rightarrow> FetchUnreadable other)
       (ma_limited answer (sc_max_body_bytes cfg))))"

section \<open>Text\<close>

text \<open>\<open>str::lines\<close>: a terminator is \<open>\n\<close> or \<open>\r\n\<close>, and a text that ends in one has no empty last line.\<close>

definition strip_cr :: "string \<Rightarrow> string" where
  "strip_cr l = (case strip_suffix [CHR 0x0D] l of Some l' \<Rightarrow> l' | None \<Rightarrow> l)"

definition str_lines :: "string \<Rightarrow> string list" where
  "str_lines body =
     (let ps = split_on newline body
      in map strip_cr (butlast ps) @ (if last ps = [] then [] else [last ps]))"

definition words_of :: "string \<Rightarrow> string list" where
  "words_of s = map concat (split_whitespace (chars_of s))"

definition is_blank :: "string \<Rightarrow> bool" where
  "is_blank s \<longleftrightarrow> list_all is_whitespace (chars_of s)"

text \<open>A \<open>BTreeMap\<close> is its entries in key order.\<close>

fun btree_insert :: "string \<Rightarrow> 'a \<Rightarrow> (string \<times> 'a) list \<Rightarrow> (string \<times> 'a) list" where
  "btree_insert k v [] = [(k, v)]"
| "btree_insert k v ((k', v') # m) =
     (if k < k' then (k, v) # (k', v') # m
      else if k = k' then (k, v) # m
      else (k', v') # btree_insert k v m)"

definition declared_types :: "string \<Rightarrow> (string \<times> string) list" where
  "declared_types body =
     fold (\<lambda>l m. case strip_prefix ''# TYPE '' l of
              None \<Rightarrow> m
            | Some rest \<Rightarrow> (case words_of rest of
                n # t # _ \<Rightarrow> btree_insert n t m
              | _ \<Rightarrow> m)) (str_lines body) []"

section \<open>Numbers\<close>

definition parse_i64 :: "string \<Rightarrow> int option" where
  "parse_i64 s =
     (case s of
        [] \<Rightarrow> None
      | c # cs \<Rightarrow>
          (let neg = (c = CHR ''-''); ds = (if neg \<or> c = CHR ''+'' then cs else s);
               n = (if neg then - int (undecimal ds) else int (undecimal ds))
           in if ds \<noteq> [] \<and> list_all is_digit ds \<and> - (2 ^ 63) \<le> n \<and> n < 2 ^ 63 then Some n else None))"

definition int_text :: "int \<Rightarrow> string" where
  "int_text n = (if n < 0 then CHR ''-'' # decimal (nat (- n)) else decimal (nat n))"

datatype float_reading = NotAFloat | NonFiniteFloat | FiniteFloat string

type_synonym float_parser = "string \<Rightarrow> float_reading"

definition number :: "float_parser \<Rightarrow> string \<Rightarrow> string option" where
  "number P s =
     (case parse_u64 s of
        Some n \<Rightarrow> Some (decimal n)
      | None \<Rightarrow> (case parse_i64 s of
          Some i \<Rightarrow> Some (int_text i)
        | None \<Rightarrow> (case P s of FiniteFloat t \<Rightarrow> Some t | _ \<Rightarrow> None)))"

section \<open>Lines\<close>

datatype refused = NonFinite string string | UnreadableLine string

record parsed_body =
  pb_metrics :: "metric list"
  pb_refused :: "refused list"

abbreviation quote :: char where "quote \<equiv> CHR 0x22"
abbreviation backslash :: char where "backslash \<equiv> CHR 0x5C"

fun take_quoted :: "string \<Rightarrow> (string \<times> string) option" where
  "take_quoted [] = None"
| "take_quoted (c # s) =
     (if c = quote then Some ([], s)
      else if c = backslash then
        (case s of
           [] \<Rightarrow> None
         | d # s' \<Rightarrow> map_option (\<lambda>(v, rest). ((if d = CHR ''n'' then newline else d) # v, rest)) (take_quoted s'))
      else map_option (\<lambda>(v, rest). (c # v, rest)) (take_quoted s))"

lemma take_quoted_shorter: "take_quoted s = Some (v, rest) \<Longrightarrow> length rest < length s"
proof (induction s arbitrary: v rest rule: take_quoted.induct)
  case (2 c s)
  show ?case
  proof (cases "c = backslash")
    case True
    with "2.prems" obtain d s' where s: "s = d # s'" by (cases s) auto
    with "2.prems" True obtain v' where "take_quoted s' = Some (v', rest)" by auto
    with "2.IH"(1) [of d s'] True s show ?thesis by fastforce
  next
    case False
    with "2.prems" "2.IH"(2) show ?thesis by (fastforce split: if_splits)
  qed
qed simp

lemma split_once_shorter: "split_once c s = Some (a, b) \<Longrightarrow> length b < length s"
  by (drule split_once_SomeD) simp

lemma strip_prefix_shorter: "strip_prefix p s = Some t \<Longrightarrow> length t \<le> length s"
  by (simp add: strip_prefix_iff)

definition skip_comma :: "string \<Rightarrow> string" where
  "skip_comma s = (case strip_prefix '','' s of Some s' \<Rightarrow> s' | None \<Rightarrow> s)"

lemma skip_comma_shorter: "length (skip_comma s) \<le> length s"
  by (auto simp: skip_comma_def strip_prefix_iff split: option.splits)

text \<open>One \<open>name="value"\<close> of the list, and what follows it.\<close>

definition one_label :: "string \<Rightarrow> ((string \<times> string) \<times> string) option" where
  "one_label s =
     Option.bind (split_once (CHR ''='') s) (\<lambda>(name, s1).
     Option.bind (strip_prefix [quote] s1) (\<lambda>s2.
     Option.bind (take_quoted s2) (\<lambda>(v, s3). Some ((name, v), skip_comma s3))))"

lemma one_label_shorter: "one_label s = Some (l, rest) \<Longrightarrow> length rest < length s"
  unfolding one_label_def
  by (auto simp: Option.bind_eq_Some_conv dest!: split_once_shorter strip_prefix_shorter take_quoted_shorter
      intro!: le_less_trans [OF skip_comma_shorter])

function labels_loop :: "(string \<times> string) list \<Rightarrow> string \<Rightarrow> ((string \<times> string) list \<times> string) option" where
  "labels_loop labels rest =
     (case strip_prefix ''}'' rest of
        Some following \<Rightarrow> Some (labels, following)
      | None \<Rightarrow> (case one_label rest of
          None \<Rightarrow> None
        | Some ((name, v), rest') \<Rightarrow> labels_loop (btree_insert name v labels) rest'))"
  by pat_completeness auto
termination
  by (relation "measure (\<lambda>(labels, rest). length rest)") (auto dest: one_label_shorter)

declare labels_loop.simps [simp del]

definition labels_of :: "string \<Rightarrow> ((string \<times> string) list \<times> string) option" where
  "labels_of s = labels_loop [] s"

text \<open>\<open>line.find(['{', ' '])\<close> and \<open>split_at\<close>; an empty name is refused, as is a line with neither.\<close>

definition name_and_rest :: "string \<Rightarrow> (string \<times> string) option" where
  "name_and_rest line =
     (let nm = takeWhile (\<lambda>c. c \<noteq> CHR ''{'' \<and> c \<noteq> CHR '' '') line;
          rest = dropWhile (\<lambda>c. c \<noteq> CHR ''{'' \<and> c \<noteq> CHR '' '') line
      in if nm = [] \<or> rest = [] then None else Some (nm, rest))"

definition parse_metric :: "float_parser \<Rightarrow> string \<Rightarrow> (string \<times> string) list \<Rightarrow> (refused, metric) result" where
  "parse_metric P line types =
     and_then (ok_or (UnreadableLine line) (name_and_rest line)) (\<lambda>(nm, rest).
     and_then (case strip_prefix ''{'' rest of
         Some rest' \<Rightarrow> ok_or (UnreadableLine line) (labels_of rest')
       | None \<Rightarrow> Ok ([], rest)) (\<lambda>(labels, rest'').
     and_then (case words_of rest'' of w # _ \<Rightarrow> Ok w | [] \<Rightarrow> Err (UnreadableLine line)) (\<lambda>w.
     and_then (case number P w of
         Some n \<Rightarrow> Ok n
       | None \<Rightarrow> Err (if P w = NotAFloat then UnreadableLine line else NonFinite nm w)) (\<lambda>n.
     Ok \<lparr>m_name = nm, m_labels = labels, m_value = n, m_declared_type = map_of types nm\<rparr>))))"

definition states_something :: "string \<Rightarrow> bool" where
  "states_something line \<longleftrightarrow> \<not> starts_with ''#'' line \<and> \<not> is_blank line"

definition parse_step :: "float_parser \<Rightarrow> (string \<times> string) list \<Rightarrow> string \<Rightarrow> parsed_body \<Rightarrow> parsed_body" where
  "parse_step P types line pb =
     (if \<not> states_something line then pb
      else case parse_metric P line types of
             Inr m \<Rightarrow> pb\<lparr>pb_metrics := pb_metrics pb @ [m]\<rparr>
           | Inl r \<Rightarrow> pb\<lparr>pb_refused := pb_refused pb @ [r]\<rparr>)"

definition parse_body :: "float_parser \<Rightarrow> string \<Rightarrow> parsed_body" where
  "parse_body P body =
     fold (parse_step P (declared_types body)) (str_lines body) \<lparr>pb_metrics = [], pb_refused = []\<rparr>"

definition scrape_endpoint ::
  "float_parser \<Rightarrow> (string \<Rightarrow> (string, metrics_answer) result) \<Rightarrow> instant \<Rightarrow> scrape_config \<Rightarrow> scrape \<times> refused list" where
  "scrape_endpoint P call now cfg =
     (case fetch call cfg of
        Inr body \<Rightarrow>
          (\<lparr>scraped_at = now, clock_offset_ms = None, scrape_failure = None, metrics = pb_metrics (parse_body P body)\<rparr>,
           pb_refused (parse_body P body))
      | Inl e \<Rightarrow>
          (\<lparr>scraped_at = now, clock_offset_ms = None, scrape_failure = Some (failure_of e), metrics = []\<rparr>, []))"

section \<open>The exposition text as it is written\<close>

definition escape :: "string \<Rightarrow> string" where
  "escape v = concat (map (\<lambda>c. if c = newline then [backslash, CHR ''n'']
     else if c = quote \<or> c = backslash then [backslash, c] else [c]) v)"

definition render_label :: "string \<times> string \<Rightarrow> string" where
  "render_label l = fst l @ CHR ''='' # quote # escape (snd l) @ [quote]"

definition render_labels :: "(string \<times> string) list \<Rightarrow> string" where
  "render_labels ls = join_with (CHR '','') (map render_label ls)"

definition render_metric :: "string \<Rightarrow> (string \<times> string) list \<Rightarrow> string \<Rightarrow> string" where
  "render_metric nm ls w = nm @ (if ls = [] then [] else ''{'' @ render_labels ls @ ''}'') @ '' '' @ w"

definition label_ok :: "string \<times> string \<Rightarrow> bool" where
  "label_ok l \<longleftrightarrow> CHR ''='' \<notin> set (fst l) \<and> \<not> starts_with ''}'' (fst l)"

definition graphic :: "char \<Rightarrow> bool" where
  "graphic c \<longleftrightarrow> 33 \<le> code c \<and> code c \<le> 126"

lemma take_quoted_escape [str_simps]: "take_quoted (escape v @ quote # rest) = Some (v, rest)"
  by (induction v) (auto simp: escape_def)

lemma one_label_render:
  assumes "label_ok l"
  shows "one_label (render_label l @ rest) = Some (l, skip_comma rest)"
proof -
  obtain n v where l: "l = (n, v)" by fastforce
  have "split_once (CHR ''='') (n @ CHR ''='' # quote # escape v @ quote # rest)
      = Some (n, quote # escape v @ quote # rest)"
    using assms l by (intro split_once_append) (simp add: label_ok_def)
  moreover have "strip_prefix [quote] (quote # escape v @ quote # rest) = Some (escape v @ quote # rest)"
    by simp
  ultimately show ?thesis by (simp add: one_label_def render_label_def l take_quoted_escape)
qed

lemma btree_insert_last: "\<forall>(k', _) \<in> set m. k' < k \<Longrightarrow> btree_insert k v m = m @ [(k, v)]"
  by (induction m) auto

lemma not_brace: "label_ok l \<Longrightarrow> strip_prefix ''}'' (render_label l @ rest) = None"
proof -
  assume ok: "label_ok l"
  obtain n v where l: "l = (n, v)" by fastforce
  show ?thesis
    using ok by (cases n) (auto simp: l label_ok_def render_label_def starts_with_def)
qed

lemma labels_loop_step:
  "label_ok l \<Longrightarrow>
     labels_loop m (render_label l @ rest) = labels_loop (btree_insert (fst l) (snd l) m) (skip_comma rest)"
  by (subst labels_loop.simps) (simp add: not_brace one_label_render split: prod.split)

lemma labels_loop_render:
  assumes "sorted_wrt (<) (map fst (prior @ ls))" "\<forall>l \<in> set ls. label_ok l"
  shows "labels_loop prior (render_labels ls @ CHR ''}'' # rest) = Some (prior @ ls, rest)"
  using assms
proof (induction ls arbitrary: prior)
  case Nil
  then show ?case by (subst labels_loop.simps) (simp add: render_labels_def)
next
  case (Cons l ls)
  let ?tail = "render_labels ls @ CHR ''}'' # rest"
  have ok: "label_ok l" and oks: "\<forall>l \<in> set ls. label_ok l" using Cons.prems(2) by auto
  let ?more = "if ls = [] then ''}'' @ rest else CHR '','' # ?tail"
  have shape: "render_labels (l # ls) @ CHR ''}'' # rest = render_label l @ ?more"
    by (cases ls) (simp_all add: render_labels_def)
  have skipped: "skip_comma ?more = ?tail"
    by (simp add: skip_comma_def render_labels_def)
  have "btree_insert (fst l) (snd l) prior = prior @ [l]"
    using Cons.prems(1) by (subst btree_insert_last) (auto simp: sorted_wrt_append)
  moreover have "labels_loop (prior @ [l]) ?tail = Some ((prior @ [l]) @ ls, rest)"
    using Cons.prems(1) oks by (intro Cons.IH) simp_all
  ultimately show ?case
    unfolding shape labels_loop_step [OF ok] skipped by simp
qed

lemma words_of_graphic:
  assumes "w \<noteq> []" "list_all graphic w"
  shows "words_of ('' '' @ w) = [w]"
proof -
  have "code c < 128" if "c \<in> set ('' '' @ w)" for c
    using that assms(2) by (auto simp: list_all_iff graphic_def)
  then have cs: "chars_of ('' '' @ w) = [space] # map (\<lambda>c. [c]) w"
    using chars_of_ascii [of "'' '' @ w"] by simp
  have "\<not> is_whitespace [c]" if "c \<in> set w" for c
    using that assms(2) by (auto simp: is_whitespace_def list_all_iff graphic_def)
  then have pieces: "split_where is_whitespace (map (\<lambda>c. [c]) u) = [map (\<lambda>c. [c]) u]" if "set u \<subseteq> set w" for u
    using that by (induction u) auto
  have "is_whitespace [space]" by (simp add: is_whitespace_def)
  with pieces [of w] assms(1) show ?thesis
    by (simp add: words_of_def split_whitespace_def cs comp_def concat_map_singleton del: chars_of.simps append_Cons)
qed

lemma name_and_rest_append:
  assumes "nm \<noteq> []" "CHR ''{'' \<notin> set nm" "CHR '' '' \<notin> set nm" "rest \<noteq> []" "hd rest \<in> {CHR ''{'', CHR '' ''}"
  shows "name_and_rest (nm @ rest) = Some (nm, rest)"
proof -
  let ?P = "\<lambda>c. c \<noteq> CHR ''{'' \<and> c \<noteq> CHR '' ''"
  have all: "\<forall>c \<in> set nm. ?P c" using assms(2,3) by metis
  obtain c cs where rest: "rest = c # cs" "\<not> ?P c" using assms(4,5) by (cases rest) auto
  have "takeWhile ?P (nm @ rest) = nm" "dropWhile ?P (nm @ rest) = rest"
    using all rest(2) unfolding rest(1) by (auto simp: takeWhile_append2 dropWhile_append2)
  with assms(1,4) show ?thesis by (simp add: name_and_rest_def)
qed

section \<open>Properties\<close>

text \<open>
  C32: A metric line reads back as what it states. For every name, label list and value as the
  exposition format writes them, quotes, backslashes and newlines in label values escaped and any
  other character (braces and commas too) as it is, \<open>parse\<close> answers that name, those labels and the
  number the value is.
\<close>

theorem metric_reads_rendering:
  assumes "nm \<noteq> []" and "CHR ''{'' \<notin> set nm" and "CHR '' '' \<notin> set nm"
    and "sorted_wrt (<) (map fst ls)" and "\<forall>l \<in> set ls. label_ok l"
    and "w \<noteq> []" and "list_all graphic w" and "number P w = Some v"
  shows "parse_metric P (render_metric nm ls w) types
    = Ok \<lparr>m_name = nm, m_labels = ls, m_value = v, m_declared_type = map_of types nm\<rparr>"
proof -
  let ?rest = "(if ls = [] then [] else ''{'' @ render_labels ls @ ''}'') @ '' '' @ w"
  have name: "name_and_rest (render_metric nm ls w) = Some (nm, ?rest)"
    unfolding render_metric_def using assms(1-3) by (intro name_and_rest_append) auto
  have labels: "labels_loop [] (render_labels ls @ CHR ''}'' # '' '' @ w) = Some (ls, '' '' @ w)"
    using labels_loop_render [of "[]" ls "'' '' @ w"] assms(4,5) by simp
  have words: "words_of ('' '' @ w) = [w]" using assms(6,7) by (rule words_of_graphic)
  show ?thesis
    using labels words assms(8) by (simp add: parse_metric_def name labels_of_def)
qed

lemma parse_steps:
  "fold (parse_step P types) ls pb =
     (let stating = filter states_something ls; reading = (\<lambda>l. parse_metric P l types)
      in pb\<lparr>pb_metrics := pb_metrics pb @ List.map_filter (\<lambda>l. case reading l of Inr m \<Rightarrow> Some m | Inl _ \<Rightarrow> None) stating,
            pb_refused := pb_refused pb @ List.map_filter (\<lambda>l. case reading l of Inr _ \<Rightarrow> None | Inl e \<Rightarrow> Some e) stating\<rparr>)"
  by (induction ls arbitrary: pb)
    (auto simp: Let_def parse_step_def List.map_filter_simps split: sum.splits)

lemma map_filter_split:
  "length (List.map_filter (\<lambda>l. case f l of Inr m \<Rightarrow> Some m | Inl _ \<Rightarrow> None) ls)
     + length (List.map_filter (\<lambda>l. case f l of Inr _ \<Rightarrow> None | Inl e \<Rightarrow> Some e) ls) = length ls"
  by (induction ls) (auto simp: List.map_filter_simps split: sum.splits)

text \<open>
  No line is lost and none is made up: the metrics of a body are those its lines state, in order,
  the refusals are its other lines, and comments and blank lines are the only ones that are neither.
\<close>

theorem body_accounts_for_every_line:
  "let stating = filter states_something (str_lines body);
       reading = (\<lambda>l. parse_metric P l (declared_types body))
   in pb_metrics (parse_body P body) = List.map_filter (\<lambda>l. case reading l of Inr m \<Rightarrow> Some m | Inl _ \<Rightarrow> None) stating
    \<and> pb_refused (parse_body P body) = List.map_filter (\<lambda>l. case reading l of Inr _ \<Rightarrow> None | Inl e \<Rightarrow> Some e) stating
    \<and> length (pb_metrics (parse_body P body)) + length (pb_refused (parse_body P body)) = length stating"
  by (simp add: Let_def parse_body_def parse_steps map_filter_split)

section \<open>Witnesses\<close>

definition demo_floats :: float_parser where
  "demo_floats s = (if s = ''1.5'' then FiniteFloat ''1.5'' else if s = ''NaN'' then NonFiniteFloat else NotAFloat)"

theorem metric_reads_rendering_witness:
  "\<exists>m. parse_metric demo_floats (render_metric ''up'' [(''a'', ''}x''), (''b'', [quote, newline])] ''1.5'') [] = Ok m
     \<and> m_labels m = [(''a'', ''}x''), (''b'', [quote, newline])]"
proof -
  have "parse_metric demo_floats (render_metric ''up'' [(''a'', ''}x''), (''b'', [quote, newline])] ''1.5'') []
    = Ok \<lparr>m_name = ''up'', m_labels = [(''a'', ''}x''), (''b'', [quote, newline])], m_value = ''1.5'',
        m_declared_type = map_of [] ''up''\<rparr>"
    by (rule metric_reads_rendering)
      (simp_all add: label_ok_def starts_with_def graphic_def number_def parse_u64_def parse_i64_def
        demo_floats_def is_digit_def less_char_def)
  then show ?thesis by simp
qed

end
