(* ===== verification/Sntp.thy ===== *)
theory Sntp
  imports Prelude "HOL-Library.Word" "HOL-Library.Signed_Division"
begin

text \<open>
  \<open>metsuke/src/sntp.rs\<close>: one UDP exchange per configured server, first success wins. The network
  and the clock are arguments (\<open>sntp_net\<close>): whether a server resolves and its socket connects, the
  instants read before sending and after receiving, and the datagram a request is answered with. An
  instant is nanoseconds since the Unix epoch; \<open>i128\<close> arithmetic on instants does not overflow and
  is \<^typ>\<open>int\<close>. Rust's \<open>/\<close> truncates, as \<open>sdiv\<close> does.
\<close>

unbundle bit_operations_syntax

definition NTP_UNIX_DELTA_SECS :: int where "NTP_UNIX_DELTA_SECS = 2208988800"

abbreviation nanos_per_sec :: int where "nanos_per_sec \<equiv> 1000000000"

text \<open>\<open>as u64\<close> of an \<open>i128\<close> keeps the low 64 bits, as \<^const>\<open>word_of_int\<close> does.\<close>

definition to_ntp :: "int \<Rightarrow> 64 word" where
  "to_ntp t =
     (let nanos = t + NTP_UNIX_DELTA_SECS * nanos_per_sec;
          secs = word_of_int (nanos div nanos_per_sec);
          frac = word_of_int (nanos mod nanos_per_sec) * word_of_int (2 ^ 32) div word_of_int nanos_per_sec
      in push_bit 32 secs OR frac)"

definition from_ntp :: "64 word \<Rightarrow> int" where
  "from_ntp ntp =
     (let secs = uint (drop_bit 32 ntp) - NTP_UNIX_DELTA_SECS;
          frac_ns = drop_bit 32 ((ntp AND 0xffffffff) * word_of_int nanos_per_sec)
      in secs * nanos_per_sec + uint frac_ns)"

text \<open>\<open>to_be_bytes\<close> and \<open>from_be_bytes\<close> of eight bytes.\<close>

definition be_bytes :: "64 word \<Rightarrow> 8 word list" where
  "be_bytes w = map (\<lambda>i. ucast (drop_bit (8 * i) w)) (rev [0..<8])"

definition from_be_bytes :: "8 word list \<Rightarrow> 64 word" where
  "from_be_bytes bs = foldl (\<lambda>acc b. push_bit 8 acc OR ucast b) 0 bs"

definition sntp_request :: "int \<Rightarrow> 8 word list" where
  "sntp_request t1 = 0x23 # replicate 39 0 @ be_bytes (to_ntp t1)"

record sntp_net =
  sn_connects :: "string \<Rightarrow> bool"
  sn_sent_at :: "string \<Rightarrow> int"
  sn_answer :: "string \<Rightarrow> 8 word list \<Rightarrow> 8 word list option"
  sn_received_at :: "string \<Rightarrow> int"

definition slice :: "nat \<Rightarrow> nat \<Rightarrow> 'a list \<Rightarrow> 'a list" where
  "slice a b xs = take (b - a) (drop a xs)"

text \<open>What the reply is worth, once a datagram is there: the checks of RFC 4330 and the offset.\<close>

definition i64_of :: "int \<Rightarrow> int option" where
  "i64_of n = (if - (2 ^ 63) \<le> n \<and> n < 2 ^ 63 then Some n else None)"

definition offset_of :: "int \<Rightarrow> 8 word list \<Rightarrow> 8 word list \<Rightarrow> int \<Rightarrow> int option" where
  "offset_of t1 request reply t4 =
     (if length reply < 48 then None
      else if slice 24 32 reply \<noteq> slice 40 48 request then None
      else if reply ! 0 AND 7 \<noteq> 4 then None
      else if reply ! 1 = 0 then None
      else if drop_bit 6 (reply ! 0) = 3 then None
      else let t2 = from_be_bytes (slice 32 40 reply); t3 = from_be_bytes (slice 40 48 reply);
               offset_ns = ((from_ntp t2 - t1) + (from_ntp t3 - t4)) sdiv 2
           in i64_of (offset_ns sdiv 1000000))"

text \<open>The receive buffer holds 48 bytes; a longer datagram is cut to it.\<close>

definition sntp_exchange :: "sntp_net \<Rightarrow> string \<Rightarrow> int option" where
  "sntp_exchange net server =
     (if \<not> sn_connects net server then None
      else let t1 = sn_sent_at net server; request = sntp_request t1
           in case sn_answer net server request of
                None \<Rightarrow> None
              | Some datagram \<Rightarrow> offset_of t1 request (take 48 datagram) (sn_received_at net server))"

fun find_map :: "('a \<Rightarrow> 'b option) \<Rightarrow> 'a list \<Rightarrow> 'b option" where
  "find_map f [] = None"
| "find_map f (x # xs) = (case f x of Some y \<Rightarrow> Some y | None \<Rightarrow> find_map f xs)"

definition probe :: "sntp_net \<Rightarrow> string list \<Rightarrow> int option" where
  "probe net servers = find_map (sntp_exchange net) servers"

section \<open>Timestamps\<close>

lemma be_bytes_length [simp]: "length (be_bytes w) = 8"
  by (simp add: be_bytes_def)

lemma foldl_bytes:
  fixes w acc :: "64 word"
  shows "foldl (\<lambda>a b. push_bit 8 a OR ucast b) acc (map (\<lambda>i. ucast (drop_bit (8 * i) w) :: 8 word) (rev [0..<k]))
    = push_bit (8 * k) acc OR take_bit (8 * k) w"
proof (induction k arbitrary: acc)
  case (Suc k)
  have "push_bit (8 * k) (push_bit 8 acc OR ucast (ucast (drop_bit (8 * k) w) :: 8 word)) OR take_bit (8 * k) w
    = push_bit (8 * Suc k) acc OR take_bit (8 * Suc k) w"
    by (rule bit_word_eqI) (auto simp: bit_simps add.commute [of 8 "8 * k"])
  with Suc show ?case by simp
qed simp

lemma from_be_bytes_be_bytes [simp]: "from_be_bytes (be_bytes w) = w"
proof -
  have "take_bit 64 w = w" by (rule bit_word_eqI) (simp add: bit_simps)
  with foldl_bytes [of 0 w 8] show ?thesis by (simp add: from_be_bytes_def be_bytes_def)
qed

lemma sntp_request_length [simp]: "length (sntp_request t) = 48"
  by (simp add: sntp_request_def)

lemma sntp_request_stamp: "slice 40 48 (sntp_request t) = be_bytes (to_ntp t)"
  by (simp add: slice_def sntp_request_def numeral_eq_Suc)

text \<open>Within the first era (until 2036) a timestamp is its seconds and its fraction, both exact.\<close>

definition in_era :: "int \<Rightarrow> bool" where
  "in_era t \<longleftrightarrow> 0 \<le> t + NTP_UNIX_DELTA_SECS * nanos_per_sec
     \<and> t + NTP_UNIX_DELTA_SECS * nanos_per_sec < 2 ^ 32 * nanos_per_sec"

lemma or_shift_uint:
  fixes a b :: "64 word"
  assumes "uint a < 2 ^ 32" "uint b < 2 ^ 32"
  shows "drop_bit 32 (push_bit 32 a OR b) = a" "(push_bit 32 a OR b) AND 0xffffffff = b"
proof -
  have a: "take_bit 32 a = a" and b: "take_bit 32 b = b"
    using assms by (simp_all add: word_uint_eq_iff unsigned_take_bit_eq take_bit_int_eq_self_iff)
  then have bits: "\<not> bit a n" "\<not> bit b n" if "32 \<le> n" for n
    using that by (metis bit_take_bit_iff not_le)+
  show "drop_bit 32 (push_bit 32 a OR b) = a"
    by (rule bit_word_eqI) (use bits in \<open>auto simp: bit_simps not_less [symmetric]\<close>)
  have "0xffffffff = (mask 32 :: 64 word)" by (simp add: mask_eq_exp_minus_1)
  then show "(push_bit 32 a OR b) AND 0xffffffff = b"
    by (simp only: flip: take_bit_eq_mask)
      (rule bit_word_eqI, use bits in \<open>auto simp: bit_simps not_less [symmetric]\<close>)
qed

lemma uint_small: "0 \<le> x \<Longrightarrow> x < 2 ^ 64 \<Longrightarrow> uint (word_of_int x :: 64 word) = x"
  by (simp add: uint_word_of_int_eq take_bit_int_eq_self_iff)

lemma uint_drop: "uint (drop_bit n (w :: 64 word)) = uint w div 2 ^ n"
  by (simp add: unsigned_drop_bit_eq bintr_uint flip: drop_bit_eq_div)

lemma uint_mult_small:
  fixes w :: "64 word"
  assumes "uint w = f" "0 \<le> f" "f < 2 ^ 32"
  shows "uint (w * word_of_int nanos_per_sec) = f * nanos_per_sec"
proof -
  have "w = word_of_int f" using assms(1) by auto
  then have "w * word_of_int nanos_per_sec = word_of_int (f * nanos_per_sec)" by (simp only: wi_hom_mult)
  with assms show ?thesis by (simp only:) (intro uint_small, auto)
qed

lemma ntp_parts:
  assumes "in_era t"
  shows "uint (drop_bit 32 (to_ntp t)) = (t + NTP_UNIX_DELTA_SECS * nanos_per_sec) div nanos_per_sec"
    and "uint (to_ntp t AND 0xffffffff)
      = (t + NTP_UNIX_DELTA_SECS * nanos_per_sec) mod nanos_per_sec * 2 ^ 32 div nanos_per_sec"
proof -
  let ?n = "t + NTP_UNIX_DELTA_SECS * nanos_per_sec"
  let ?secs = "word_of_int (?n div nanos_per_sec) :: 64 word"
  let ?frac = "word_of_int (?n mod nanos_per_sec) * word_of_int (2 ^ 32) div word_of_int nanos_per_sec :: 64 word"
  have n: "0 \<le> ?n div nanos_per_sec" "?n div nanos_per_sec < 2 ^ 32"
    using assms by (auto simp: in_era_def pos_imp_zdiv_nonneg_iff div_less_iff_less_mult)
  then have secs: "uint ?secs = ?n div nanos_per_sec" by (intro uint_small) auto
  have r: "0 \<le> ?n mod nanos_per_sec" "?n mod nanos_per_sec < nanos_per_sec" by simp_all
  then have "uint (word_of_int (?n mod nanos_per_sec) * word_of_int (2 ^ 32) :: 64 word)
      = ?n mod nanos_per_sec * 2 ^ 32"
    unfolding wi_hom_mult by (intro uint_small) auto
  then have frac: "uint ?frac = ?n mod nanos_per_sec * 2 ^ 32 div nanos_per_sec"
    by (simp add: uint_div)
  have "uint ?frac < 2 ^ 32" unfolding frac using r by (simp add: div_less_iff_less_mult)
  moreover have "uint ?secs < 2 ^ 32" unfolding secs using n by simp
  moreover have "to_ntp t = push_bit 32 ?secs OR ?frac" by (simp add: to_ntp_def Let_def)
  ultimately show "uint (drop_bit 32 (to_ntp t)) = ?n div nanos_per_sec"
    and "uint (to_ntp t AND 0xffffffff) = ?n mod nanos_per_sec * 2 ^ 32 div nanos_per_sec"
    using secs frac by (simp_all only: or_shift_uint)
qed

lemma scaled_back:
  assumes "0 \<le> (r :: int)"
  shows "r - 1 \<le> (r * 2 ^ 32 div nanos_per_sec) * nanos_per_sec div 2 ^ 32
    \<and> (r * 2 ^ 32 div nanos_per_sec) * nanos_per_sec div 2 ^ 32 \<le> r"
proof -
  let ?x = "(r * 2 ^ 32 div nanos_per_sec) * nanos_per_sec"
  define m where "m = r * 2 ^ 32 mod nanos_per_sec"
  have x: "?x = r * 2 ^ 32 - m" unfolding m_def by (rule minus_mod_eq_div_mult [symmetric])
  have "0 \<le> m" "m < nanos_per_sec" by (simp_all add: m_def)
  then have "(r - 1) * 2 ^ 32 \<le> ?x \<and> ?x \<le> r * 2 ^ 32"
    unfolding x by simp
  then have "(r - 1) * 2 ^ 32 div 2 ^ 32 \<le> ?x div 2 ^ 32 \<and> ?x div 2 ^ 32 \<le> r * 2 ^ 32 div 2 ^ 32"
    by (meson zdiv_mono1 zero_less_numeral zero_less_power)
  then show ?thesis by simp
qed

lemma from_to_ntp:
  assumes "in_era t"
  shows "t - 1 \<le> from_ntp (to_ntp t) \<and> from_ntp (to_ntp t) \<le> t"
proof -
  let ?n = "t + NTP_UNIX_DELTA_SECS * nanos_per_sec"
  let ?r = "?n mod nanos_per_sec"
  let ?f = "?r * 2 ^ 32 div nanos_per_sec"
  have r: "0 \<le> ?r" "?r < nanos_per_sec" by simp_all
  then have f: "0 \<le> ?f" "?f < 2 ^ 32" by (auto simp: div_less_iff_less_mult)
  have "uint ((to_ntp t AND 0xffffffff) * word_of_int nanos_per_sec) = ?f * nanos_per_sec"
    using ntp_parts(2) [OF assms] f by (intro uint_mult_small)
  then have "uint (drop_bit 32 ((to_ntp t AND 0xffffffff) * word_of_int nanos_per_sec)) = ?f * nanos_per_sec div 2 ^ 32"
    by (simp only: uint_drop)
  then have "from_ntp (to_ntp t) = (?n div nanos_per_sec - NTP_UNIX_DELTA_SECS) * nanos_per_sec
      + ?f * nanos_per_sec div 2 ^ 32"
    by (simp add: from_ntp_def Let_def ntp_parts(1) [OF assms])
  moreover have "?n = ?n div nanos_per_sec * nanos_per_sec + ?r" by simp
  moreover have "?r - 1 \<le> ?f * nanos_per_sec div 2 ^ 32 \<and> ?f * nanos_per_sec div 2 ^ 32 \<le> ?r"
    by (rule scaled_back) simp
  ultimately show ?thesis unfolding left_diff_distrib by linarith
qed

text \<open>Past 2036 the seconds lose their high bits: an instant and one an era later stamp alike.\<close>

lemma era_rollover: "to_ntp (t + 2 ^ 32 * nanos_per_sec) = to_ntp t"
proof -
  let ?n = "t + NTP_UNIX_DELTA_SECS * nanos_per_sec"
  have n: "t + 2 ^ 32 * nanos_per_sec + NTP_UNIX_DELTA_SECS * nanos_per_sec = ?n + 2 ^ 32 * nanos_per_sec"
    by simp
  have "(?n + 2 ^ 32 * nanos_per_sec) div nanos_per_sec = ?n div nanos_per_sec + 2 ^ 32"
    using div_mult_self1 [of nanos_per_sec ?n "2 ^ 32"] by linarith
  moreover have "(?n + 2 ^ 32 * nanos_per_sec) mod nanos_per_sec = ?n mod nanos_per_sec"
    by (rule mod_mult_self1)
  moreover have "push_bit 32 (word_of_int (x + 2 ^ 32)) = (push_bit 32 (word_of_int x) :: 64 word)" for x
    by (simp add: push_bit_eq_mult wi_hom_syms(1) [symmetric] distrib_right flip: wi_hom_add)
  ultimately show ?thesis unfolding to_ntp_def n by (simp only: Let_def)
qed

lemma sdiv_near: "0 < b \<Longrightarrow> \<bar>(a :: int) sdiv b * b - a\<bar> < b"
proof -
  assume b: "0 < b"
  have "\<bar>a\<bar> div b * b = \<bar>a\<bar> - \<bar>a\<bar> mod b" by (rule minus_mod_eq_div_mult [symmetric])
  moreover have "0 \<le> \<bar>a\<bar> mod b" "\<bar>a\<bar> mod b < b" using b by simp_all
  moreover have "a sdiv b * b = sgn a * (\<bar>a\<bar> div b * b)"
    using b by (simp add: signed_divide_int_def)
  ultimately show ?thesis by (cases "0 < a"; cases "a = 0") auto
qed

section \<open>Properties\<close>

text \<open>
  C33: Where the delay is the same both ways, the probe is right to a millisecond: a server whose
  clock is \<open>theta\<close> nanoseconds ahead, that receives the request \<open>delay\<close> after it was sent, answers
  \<open>delay\<close> before the reply arrives and echoes the request's stamp, is reported as that far ahead. The
  bounds are those of the protocol's first era, which ends in 2036.
\<close>

theorem symmetric_delay_offset:
  assumes "sn_connects net server"
    and "t1 = sn_sent_at net server" and "t4 = sn_received_at net server"
    and "sn_answer net server (sntp_request t1) = Some
      (b0 # b1 # others @ be_bytes (to_ntp t1)
        @ be_bytes (to_ntp (t1 + delay + theta)) @ be_bytes (to_ntp (t4 - delay + theta)))"
    and "length others = 22" and "b0 AND 7 = 4" and "drop_bit 6 b0 \<noteq> 3" and "b1 \<noteq> 0"
    and "in_era (t1 + delay + theta)" and "in_era (t4 - delay + theta)" and "\<bar>theta\<bar> < 2 ^ 63"
  shows "\<exists>ms. sntp_exchange net server = Some ms \<and> \<bar>ms * 1000000 - theta\<bar> \<le> 1000000"
proof -
  let ?T2 = "t1 + delay + theta" and ?T3 = "t4 - delay + theta"
  let ?reply = "b0 # b1 # others @ be_bytes (to_ntp t1) @ be_bytes (to_ntp ?T2) @ be_bytes (to_ntp ?T3)"
  have reply: "length ?reply = 48" "slice 24 32 ?reply = be_bytes (to_ntp t1)"
      "slice 32 40 ?reply = be_bytes (to_ntp ?T2)" "slice 40 48 ?reply = be_bytes (to_ntp ?T3)"
    using assms(5) by (simp_all add: slice_def)
  define a where "a = (from_ntp (to_ntp ?T2) - t1) + (from_ntp (to_ntp ?T3) - t4)"
  define q where "q = a sdiv 2"
  have a: "2 * theta - 2 \<le> a" "a \<le> 2 * theta"
    using from_to_ntp [OF assms(9)] from_to_ntp [OF assms(10)] by (auto simp: a_def)
  then have q: "\<bar>q - theta\<bar> \<le> 1" using sdiv_near [of 2 a] unfolding q_def by linarith
  have ms: "\<bar>q sdiv 1000000 * 1000000 - q\<bar> < 1000000" by (rule sdiv_near) simp
  have "- (2 ^ 63) \<le> x \<and> x < 2 ^ 63" if "\<bar>x * 1000000 - q\<bar> < 1000000" for x
    using that q assms(11) unfolding abs_less_iff abs_le_iff by auto
  then have "- (2 ^ 63) \<le> q sdiv 1000000" "q sdiv 1000000 < 2 ^ 63" using ms by blast+
  then have "offset_of t1 (sntp_request t1) ?reply t4 = Some (q sdiv 1000000)"
    using reply assms(6-8) unfolding q_def a_def
    by (simp add: offset_of_def sntp_request_stamp i64_of_def Let_def)
  moreover have "take 48 ?reply = ?reply" using assms(5) by simp
  ultimately have "sntp_exchange net server = Some (q sdiv 1000000)"
    unfolding sntp_exchange_def Let_def using assms(1-4) by simp
  moreover have "\<bar>q sdiv 1000000 * 1000000 - theta\<bar> \<le> 1000000" using ms q by linarith
  ultimately show ?thesis by blast
qed

theorem symmetric_delay_offset_witness:
  "\<exists>net ms. sntp_exchange net ''a'' = Some ms \<and> \<bar>ms * 1000000 - 7000000\<bar> \<le> 1000000"
proof -
  let ?net = "\<lparr>sn_connects = (\<lambda>_. True), sn_sent_at = (\<lambda>_. 0),
    sn_answer = (\<lambda>_ _. Some (4 # 1 # replicate 22 0 @ be_bytes (to_ntp 0)
        @ be_bytes (to_ntp (0 + 5 + 7000000)) @ be_bytes (to_ntp (10 - 5 + 7000000)))),
    sn_received_at = (\<lambda>_. 10)\<rparr>"
  have "\<exists>ms. sntp_exchange ?net ''a'' = Some ms \<and> \<bar>ms * 1000000 - 7000000\<bar> \<le> 1000000"
    by (rule symmetric_delay_offset [of _ _ 0 10 4 1 "replicate 22 0" 5 7000000])
      (simp_all add: in_era_def NTP_UNIX_DELTA_SECS_def)
  then show ?thesis by blast
qed

end
