(* ===== verification/Agent.thy ===== *)
theory Agent
  imports Scrape Sntp Schedule "HOL-Library.Sublist"
begin

text \<open>
  \<open>metsuke/src/agent.rs\<close> and \<open>scraper.rs\<close>: the two ticks the binary schedules. What each round of an
  upload tick meets (SQLite, the other connection, the network) is its \<open>round\<close>; rounds are numbered
  in the order the tick takes submissions.
\<close>

section \<open>A whole scrape\<close>

record scraper_config =
  scr_scrape :: scrape_config
  scr_sntp_servers :: "string list"

record scrape_world =
  sw_floats :: float_parser
  sw_call :: "string \<Rightarrow> (string, metrics_answer) result"
  sw_now :: instant
  sw_net :: sntp_net

definition scraper_scrape_once :: "scrape_world \<Rightarrow> scraper_config \<Rightarrow> scrape \<times> refused list" where
  "scraper_scrape_once w cfg =
     (case scrape_endpoint (sw_floats w) (sw_call w) (sw_now w) (scr_scrape cfg) of
        (row, refusals) \<Rightarrow> (row\<lparr>clock_offset_ms := probe (sw_net w) (scr_sntp_servers cfg)\<rparr>, refusals))"

section \<open>The agent\<close>

record agent =
  ag_scraper :: scraper_config
  ag_delivery :: delivery
  ag_upload :: upload_config
  ag_pool_id :: pool_id
  ag_dropped_since_report :: nat

datatype upload_error =
    NotAttempted delivery_error
  | AckAfterAccept delivery_error

record scrape_news =
  sn_failed :: "string option"
  sn_refused :: "refused list"

record uploaded =
  up_outcome :: upload_outcome
  up_counter :: nat
  up_lines :: nat
  up_carried :: string
  up_bytes :: nat
  up_payload_digest :: string

record upload_tick =
  ut_sent :: "uploaded list"
  ut_failed :: "upload_error option"

definition new_agent :: "scraper_config \<Rightarrow> delivery \<Rightarrow> upload_config \<Rightarrow> pool_id \<Rightarrow> agent" where
  "new_agent s d u p =
     \<lparr>ag_scraper = s, ag_delivery = d, ag_upload = u, ag_pool_id = p, ag_dropped_since_report = 0\<rparr>"

definition agent_scrape_once ::
  "json_lib \<Rightarrow> scrape_world \<Rightarrow> spool_faults \<Rightarrow> agent \<Rightarrow> spool_db
    \<Rightarrow> agent \<times> spool_db \<times> (delivery_error, scrape_news) result" where
  "agent_scrape_once J w fault ag db =
     (case scraper_scrape_once w (ag_scraper ag) of
        (row, refusals) \<Rightarrow>
          (case delivery_push J fault (ag_delivery ag) row db of
             (db', Inl e) \<Rightarrow> (ag, db', Err e)
           | (db', Inr dropped) \<Rightarrow>
               (ag\<lparr>ag_dropped_since_report := ag_dropped_since_report ag + dropped\<rparr>, db',
                Ok \<lparr>sn_failed = map_option f_detail (scrape_failure row), sn_refused = refusals\<rparr>)))"

record agent_libs =
  al_delivery :: delivery_libs
  al_bech32 :: bech32_lib
  al_ack :: ack_parser

record round =
  rd_take :: take_world
  rd_send :: transport
  rd_during :: "spool_db \<Rightarrow> spool_db"
  rd_ack :: spool_faults

definition posted :: "agent_libs \<Rightarrow> transport \<Rightarrow> agent \<Rightarrow> sealed_submission \<Rightarrow> uploaded" where
  "posted L send ag sub =
     \<lparr>up_outcome = upload (al_bech32 L) (al_ack L) send (ag_upload ag) (ag_pool_id ag) sub,
      up_counter = ss_counter sub, up_lines = submission_lines sub, up_carried = carried sub,
      up_bytes = length (ss_wire_bytes sub), up_payload_digest = ss_payload_digest sub\<rparr>"

definition accepted :: "uploaded \<Rightarrow> bool" where
  "accepted u = is_acked (up_outcome u)"

text \<open>
  One stream's \<open>while sent.len() < allowance\<close> loop. It breaks (\<^const>\<open>None\<close>), or it returns from the
  tick, with the failure that ended it if one did.
\<close>

type_synonym drain_state = "agent \<times> spool_db \<times> uploaded list \<times> nat"

function drain_loop ::
  "agent_libs \<Rightarrow> (nat \<Rightarrow> round) \<Rightarrow> instant \<Rightarrow> nat \<Rightarrow> stream \<Rightarrow> agent \<Rightarrow> spool_db \<Rightarrow> uploaded list \<Rightarrow> nat
    \<Rightarrow> drain_state \<times> upload_error option option" where
  "drain_loop L rounds now allowance s ag db sent n =
     (if length sent < allowance then
        (case take_from s (al_delivery L) (rd_take (rounds n)) now (ag_delivery ag) db of
           (d, db1, Inl e) \<Rightarrow> ((ag\<lparr>ag_delivery := d\<rparr>, db1, sent, Suc n), Some (Some (NotAttempted e)))
         | (d, db1, Inr None) \<Rightarrow> ((ag\<lparr>ag_delivery := d\<rparr>, db1, sent, Suc n), None)
         | (d, db1, Inr (Some sub)) \<Rightarrow>
             (let ag1 = ag\<lparr>ag_delivery := d\<rparr>;
                  entry = posted L (rd_send (rounds n)) ag1 sub;
                  sent1 = sent @ [entry];
                  db2 = rd_during (rounds n) db1
              in if \<not> accepted entry then ((ag1, db2, sent1, Suc n), Some None)
                 else (case delivery_ack (rd_ack (rounds n)) sub db2 of
                         (db3, Inl e) \<Rightarrow> ((ag1, db3, sent1, Suc n), Some (Some (AckAfterAccept e)))
                       | (db3, Inr _) \<Rightarrow>
                           if \<not> more_waits sub then ((ag1, db3, sent1, Suc n), None)
                           else drain_loop L rounds now allowance s ag1 db3 sent1 (Suc n))))
      else ((ag, db, sent, n), None))"
  by pat_completeness auto
termination
  by (relation "measure (\<lambda>(L, rounds, now, allowance, s, ag, db, sent, n). allowance - length sent)") auto

declare drain_loop.simps [simp del]

fun drain_streams ::
  "agent_libs \<Rightarrow> (nat \<Rightarrow> round) \<Rightarrow> instant \<Rightarrow> nat \<Rightarrow> stream list \<Rightarrow> agent \<Rightarrow> spool_db \<Rightarrow> uploaded list \<Rightarrow> nat
    \<Rightarrow> agent \<times> spool_db \<times> upload_tick" where
  "drain_streams L rounds now allowance [] ag db sent n = (ag, db, \<lparr>ut_sent = sent, ut_failed = None\<rparr>)"
| "drain_streams L rounds now allowance (s # ss) ag db sent n =
     (case drain_loop L rounds now allowance s ag db sent n of
        ((ag', db', sent', n'), Some failed) \<Rightarrow> (ag', db', \<lparr>ut_sent = sent', ut_failed = failed\<rparr>)
      | ((ag', db', sent', n'), None) \<Rightarrow> drain_streams L rounds now allowance ss ag' db' sent' n')"

definition upload_once ::
  "agent_libs \<Rightarrow> (nat \<Rightarrow> round) \<Rightarrow> instant \<Rightarrow> agent \<Rightarrow> spool_db \<Rightarrow> agent \<times> spool_db \<times> upload_tick" where
  "upload_once L rounds now ag db =
     drain_streams L rounds now (max_submissions (ag_upload ag)) [SCRAPES, LINES] ag db [] 0"

definition take_dropped_report :: "agent \<Rightarrow> agent \<times> nat" where
  "take_dropped_report ag = (ag\<lparr>ag_dropped_since_report := 0\<rparr>, ag_dropped_since_report ag)"

definition agent_take_uncarriable_report :: "agent \<Rightarrow> agent \<times> uncarriable_report" where
  "agent_take_uncarriable_report ag =
     (case delivery_take_uncarriable_report (ag_delivery ag) of (d, u) \<Rightarrow> (ag\<lparr>ag_delivery := d\<rparr>, u))"

end
