(* ===== verification/Agent_Laws.thy ===== *)
theory Agent_Laws
  imports Agent Object_Key
begin

text \<open>
  An upload tick refines the spool's step relation: whatever it meets, it is a run of takes, draws,
  acknowledgements and the trace thread's appends, with an acknowledgement only for a submission the
  server accepted.
\<close>

section \<open>Ticks as runs\<close>

fun acked_counts :: "spool_event list \<Rightarrow> nat list" where
  "acked_counts [] = []"
| "acked_counts (Acked s ids # es) = length ids # acked_counts es"
| "acked_counts (_ # es) = acked_counts es"

lemma acked_counts_append [simp]: "acked_counts (es @ es') = acked_counts es @ acked_counts es'"
  by (induction es rule: acked_counts.induct) auto

lemma drawn_append_list [simp]: "drawn (es @ es') = drawn es @ drawn es'"
  by (induction es rule: drawn.induct) auto

definition counter_of :: "int \<Rightarrow> nat" where
  "counter_of c = nat (c mod 2 ^ 64)"

definition tick_event :: "delivery_libs \<Rightarrow> delivery \<Rightarrow> instant \<Rightarrow> spool_event \<Rightarrow> bool" where
  "tick_event L d now e \<longleftrightarrow>
     (case e of
        Pushed s _ _ \<Rightarrow> s = LINES
      | Took s b \<Rightarrow> row_budget L d now (payload_of s []) = Ok b
      | _ \<Rightarrow> True)"

lemma lines_pushed:
  "list_all (\<lambda>e. \<exists>line cap. e = Pushed LINES line cap) es \<Longrightarrow>
     list_all (tick_event L d now) es \<and> acked_counts es = [] \<and> drawn es = []"
  by (induction es) (auto simp: tick_event_def)

lemma log_pushes_tick:
  assumes "log_pushes db db'"
  obtains es where "spool_run db es db'" "list_all (tick_event L d now) es" "acked_counts es = []" "drawn es = []"
  using log_pushes_run [OF assms] lines_pushed by metis

lemma taken_parts:
  assumes "taken fault meanwhile s b sp db = (sp', db', r)"
  shows "db' = fst (outstanding_rows fault meanwhile s b db) \<and> sp_provenance sp' = sp_provenance sp"
  using assms by (auto simp: taken_def split: prod.splits sum.splits option.splits)

lemma row_budget_cong:
  "sp_provenance (d_spool d') = sp_provenance (d_spool d) \<Longrightarrow> d_batch_max_bytes d' = d_batch_max_bytes d
     \<Longrightarrow> row_budget L d' = row_budget L d"
  by (rule ext)+ (simp only: row_budget_def delivery_envelope_def)

lemma tick_event_cong: "row_budget L d' = row_budget L d \<Longrightarrow> tick_event L d' now = tick_event L d now"
  by (rule ext) (simp add: tick_event_def split: spool_event.splits)

lemma delivery_seal_run:
  assumes "delivery_seal L fault d now pl rs waits db = (db', r)"
  shows "\<exists>e. spool_step db e db' \<and> tick_event L d' now e \<and> acked_counts [e] = []
    \<and> (case r of Inr sub \<Rightarrow> map counter_of (drawn [e]) = [ss_counter sub] | Inl _ \<Rightarrow> True)"
proof (cases "next_counter fault db")
  case (Pair db1 c)
  show ?thesis
  proof (cases c)
    case (Inl e)
    with Pair assms have "db' = db1" "r = Inl (DeliverySpool e)" by (auto simp: delivery_seal_def)
    then show ?thesis using step_draw_failed [of fault db db1 e] Pair Inl
      by (intro exI [of _ DrawFailed]) (simp add: tick_event_def)
  next
    case (Inr n)
    with Pair assms have "db' = db1" by (auto simp: delivery_seal_def Let_def)
    moreover have "case r of Inr sub \<Rightarrow> ss_counter sub = counter_of n | Inl _ \<Rightarrow> True"
      using Pair Inr assms by (auto simp: delivery_seal_def Let_def counter_of_def split: sum.splits)
    ultimately show ?thesis using step_draw [of fault db db1 n] Pair Inr
      by (intro exI [of _ "Drew n"]) (auto simp: tick_event_def split: sum.splits)
  qed
qed

fun drew_for :: "(delivery_error, sealed_submission option) result \<Rightarrow> int list \<Rightarrow> bool" where
  "drew_for (Inr (Some sub)) ns \<longleftrightarrow> map counter_of ns = [ss_counter sub]"
| "drew_for _ ns \<longleftrightarrow> True"

lemma seal_rows_run:
  assumes "seal_rows L fault d now rs waits mk acks db = (db', r)"
  shows "\<exists>es. spool_run db es db' \<and> list_all (tick_event L d' now) es \<and> acked_counts es = []
    \<and> drew_for r (drawn es)"
proof (cases "rs = []")
  case True
  with assms show ?thesis by (intro exI [of _ "[]"]) (auto simp: seal_rows_def run_nil)
next
  case False
  obtain r1 where seal: "delivery_seal L fault d now (mk (map sr_line rs)) (acks (map sr_id rs)) waits db = (db', r1)"
    and r: "r = map_sum id Some r1"
    using assms False by (auto simp: seal_rows_def split: prod.splits sum.splits)
  from delivery_seal_run [OF seal, of d'] r show ?thesis
    by (elim exE) (rule_tac x = "[e]" in exI, auto simp: run_one split: sum.splits)
qed

lemma take_from_run:
  assumes "world_ok w" "take_from s L w now d db = (d', db', r)"
  shows "\<exists>es. spool_run db es db' \<and> list_all (tick_event L d now) es \<and> acked_counts es = []
    \<and> drew_for r (drawn es)
    \<and> row_budget L d' = row_budget L d"
proof (cases "row_budget L d now (payload_of s [])")
  case (Inl e)
  with assms show ?thesis by (intro exI [of _ "[]"]) (auto simp: take_from_def run_nil)
next
  case (Inr budget)
  obtain sp db1 tr where tk: "taken (tw_take w) (tw_meanwhile w) s budget (d_spool d) db = (sp, db1, tr)"
    by (metis prod_cases3)
  have db1: "db1 = fst (outstanding_rows (tw_take w) (tw_meanwhile w) s budget db)"
    and prov: "sp_provenance sp = sp_provenance (d_spool d)"
    using taken_parts [OF tk] by auto
  have d': "d' = d\<lparr>d_spool := sp\<rparr>"
    using assms(2) Inr tk by (auto simp: take_from_def split: sum.splits prod.splits)
  then have budgets: "row_budget L d' = row_budget L d" by (intro row_budget_cong) (simp_all add: prov)
  have take: "spool_run db [Took s budget] db1"
    unfolding db1 using assms(1) by (intro run_one step_take) (simp add: world_ok_def)
  have ev: "tick_event L d now (Took s budget)" using Inr by (simp add: tick_event_def)
  have "log_pushes db1 (tw_between w db1)" using assms(1) by (simp add: world_ok_def)
  then obtain ps where ps: "spool_run db1 ps (tw_between w db1)" "list_all (tick_event L d now) ps"
      "acked_counts ps = []" "drawn ps = []"
    by (rule log_pushes_tick)
  show ?thesis
  proof (cases tr)
    case (Inl e)
    with assms(2) Inr tk have "db' = db1" "r = Inl (DeliverySpool e)" by (auto simp: take_from_def)
    with take ev budgets show ?thesis by (intro exI [of _ "[Took s budget]"]) simp
  next
    case rows: (Inr rs)
    show ?thesis
    proof (cases "rows_wait (tw_after w) s rs (tw_between w db1)")
      case (Inl e)
      with assms(2) \<open>row_budget L d now (payload_of s []) = Ok budget\<close> tk rows
      have "db' = tw_between w db1" "r = Inl e" by (auto simp: take_from_def)
      with run_append [OF ps(1) take] ps ev budgets show ?thesis
        by (intro exI [of _ "[Took s budget] @ ps"]) simp
    next
      case (Inr waits)
      with assms(2) \<open>row_budget L d now (payload_of s []) = Ok budget\<close> tk rows
      have "seal_rows L (tw_draw w) (d\<lparr>d_spool := sp\<rparr>) now rs waits (payload_of s) (acks_of s) (tw_between w db1)
          = (db', r)"
        by (auto simp: take_from_def split: prod.splits)
      from seal_rows_run [OF this, of d] obtain es where
        es: "spool_run (tw_between w db1) es db'" "list_all (tick_event L d now) es" "acked_counts es = []"
          "drew_for r (drawn es)"
        by blast
      let ?es = "([Took s budget] @ ps) @ es"
      have "drawn ?es = drawn es" "list_all (tick_event L d now) ?es" "acked_counts ?es = []"
        using ps es ev by simp_all
      with run_append [OF es(1) run_append [OF ps(1) take]] es(4) budgets show ?thesis
        by (intro exI [of _ ?es]) (simp only: simp_thms)
    qed
  qed
qed

section \<open>The drain\<close>

definition round_ok :: "round \<Rightarrow> bool" where
  "round_ok rd \<longleftrightarrow> world_ok (rd_take rd) \<and> (\<forall>db. log_pushes db (rd_during rd db))"

text \<open>What a round of the loop leaves, whichever way it goes on.\<close>

definition drained_run ::
  "delivery_libs \<Rightarrow> delivery \<Rightarrow> instant \<Rightarrow> spool_db \<Rightarrow> spool_event list \<Rightarrow> spool_db \<Rightarrow> uploaded list \<Rightarrow> bool" where
  "drained_run L d now db es db' new \<longleftrightarrow>
     spool_run db es db' \<and> list_all (tick_event L d now) es
     \<and> acked_counts es = map up_lines (filter accepted new)
     \<and> subseq (map up_counter new) (map counter_of (drawn es))"

lemma drained_run_append:
  assumes "drained_run L d now a es b new" "drained_run L d now b es' c new'"
  shows "drained_run L d now a (es @ es') c (new @ new')"
  using assms by (auto simp: drained_run_def intro: run_append list_emb_append_mono)

fun ended_well :: "uploaded list \<Rightarrow> upload_error option option \<Rightarrow> bool" where
  "ended_well new None \<longleftrightarrow> list_all accepted new"
| "ended_well new (Some None) \<longleftrightarrow> new \<noteq> [] \<and> list_all accepted (butlast new) \<and> \<not> accepted (last new)"
| "ended_well new (Some (Some (NotAttempted _))) \<longleftrightarrow> list_all accepted new"
| "ended_well new (Some (Some (AckAfterAccept _))) \<longleftrightarrow> new \<noteq> [] \<and> list_all accepted new"

lemma ended_well_append:
  "list_all accepted new \<Longrightarrow> ended_well new' res \<Longrightarrow> ended_well (new @ new') res"
  by (cases "(new', res)" rule: ended_well.cases) (auto simp: butlast_append)

lemma posted_parts [simp]:
  "up_counter (posted L send ag sub) = ss_counter sub"
  "up_lines (posted L send ag sub) = submission_lines sub"
  by (simp_all add: posted_def)

lemma delivery_ack_step:
  assumes "delivery_ack fault sub db = (db', r)"
  shows "\<exists>s ids. length ids = submission_lines sub \<and> spool_step db (Acked s ids) db'"
proof -
  obtain s ids where rows: "ss_rows sub = acks_of s ids"
    by (metis acks_of.simps submission_rows.exhaust)
  then have "db' = fst (delete_rows fault s ids db)"
    using assms by (cases s) (auto simp: delivery_ack_def split: prod.splits)
  moreover have "length ids = submission_lines sub"
    using rows by (cases s) (simp_all add: submission_lines_def)
  ultimately show ?thesis using step_ack by blast
qed

definition drained_to ::
  "agent_libs \<Rightarrow> instant \<Rightarrow> nat \<Rightarrow> agent \<Rightarrow> spool_db \<Rightarrow> uploaded list
    \<Rightarrow> agent \<Rightarrow> spool_db \<Rightarrow> uploaded list \<Rightarrow> upload_error option option \<Rightarrow> bool" where
  "drained_to L now allowance ag db sent ag' db' sent' res \<longleftrightarrow>
     (\<exists>es new. sent' = sent @ new
        \<and> drained_run (al_delivery L) (ag_delivery ag) now db es db' new \<and> ended_well new res)
     \<and> length sent' \<le> max (length sent) allowance
     \<and> row_budget (al_delivery L) (ag_delivery ag') = row_budget (al_delivery L) (ag_delivery ag)"

lemma drained_run_cong:
  assumes "row_budget L d' = row_budget L d"
  shows "drained_run L d' now = drained_run L d now"
  unfolding drained_run_def [abs_def] tick_event_cong [OF assms] ..

lemma drained_toE:
  assumes "drained_to L now allowance ag db sent ag' db' sent' res"
  obtains es new where "sent' = sent @ new"
    "drained_run (al_delivery L) (ag_delivery ag) now db es db' new" "ended_well new res"
    "length sent' \<le> max (length sent) allowance"
    "row_budget (al_delivery L) (ag_delivery ag') = row_budget (al_delivery L) (ag_delivery ag)"
  using assms unfolding drained_to_def by blast

lemma drained_to_trans:
  assumes "drained_to L now allowance ag db sent ag1 db1 sent1 None"
    and "drained_to L now allowance ag1 db1 sent1 ag2 db2 sent2 res"
  shows "drained_to L now allowance ag db sent ag2 db2 sent2 res"
proof -
  obtain es new where 1: "sent1 = sent @ new" "drained_run (al_delivery L) (ag_delivery ag) now db es db1 new"
      "ended_well new None" "length sent1 \<le> max (length sent) allowance"
      "row_budget (al_delivery L) (ag_delivery ag1) = row_budget (al_delivery L) (ag_delivery ag)"
    using assms(1) by (rule drained_toE)
  obtain es' new' where 2: "sent2 = sent1 @ new'" "drained_run (al_delivery L) (ag_delivery ag1) now db1 es' db2 new'"
      "ended_well new' res" "length sent2 \<le> max (length sent1) allowance"
      "row_budget (al_delivery L) (ag_delivery ag2) = row_budget (al_delivery L) (ag_delivery ag1)"
    using assms(2) by (rule drained_toE)
  have "drained_run (al_delivery L) (ag_delivery ag) now db (es @ es') db2 (new @ new')"
    using 1(2) 2(2) drained_run_cong [OF 1(5)] by (intro drained_run_append) simp_all
  moreover have "ended_well (new @ new') res" using 1(3) 2(3) by (intro ended_well_append) simp_all
  moreover have "sent2 = sent @ new @ new'" using 1(1) 2(1) by simp
  moreover have "length sent2 \<le> max (length sent) allowance" using 1(4) 2(4) by linarith
  ultimately show ?thesis unfolding drained_to_def 2(5) 1(5) by blast
qed

text \<open>One round that took nothing, one that was not accepted, and one that was.\<close>

lemma round_without_submission:
  assumes "round_ok rd" "take_from s (al_delivery L) (rd_take rd) now (ag_delivery ag) db = (d, db1, r)"
    and "ended_well [] res"
  shows "drained_to L now allowance ag db sent (ag\<lparr>ag_delivery := d\<rparr>) db1 sent res"
proof -
  obtain es where "spool_run db es db1" "list_all (tick_event (al_delivery L) (ag_delivery ag) now) es"
      "acked_counts es = []" "row_budget (al_delivery L) d = row_budget (al_delivery L) (ag_delivery ag)"
    using take_from_run [OF _ assms(2)] assms(1) by (auto simp: round_ok_def)
  then have "drained_run (al_delivery L) (ag_delivery ag) now db es db1 []"
    by (simp add: drained_run_def)
  with \<open>row_budget _ d = _\<close> assms(3) show ?thesis unfolding drained_to_def by fastforce
qed

lemma round_posted:
  assumes "round_ok rd"
    and "take_from s (al_delivery L) (rd_take rd) now (ag_delivery ag) db = (d, db1, Inr (Some sub))"
  obtains es where "spool_run db es (rd_during rd db1)"
    "list_all (tick_event (al_delivery L) (ag_delivery ag) now) es" "acked_counts es = []"
    "map counter_of (drawn es) = [ss_counter sub]"
    "row_budget (al_delivery L) d = row_budget (al_delivery L) (ag_delivery ag)"
proof -
  obtain es where es: "spool_run db es db1" "list_all (tick_event (al_delivery L) (ag_delivery ag) now) es"
      "acked_counts es = []" "map counter_of (drawn es) = [ss_counter sub]"
      "row_budget (al_delivery L) d = row_budget (al_delivery L) (ag_delivery ag)"
    using take_from_run [OF _ assms(2)] assms(1) by (auto simp: round_ok_def)
  have "log_pushes db1 (rd_during rd db1)" using assms(1) by (simp add: round_ok_def)
  then obtain ps where ps: "spool_run db1 ps (rd_during rd db1)"
      "list_all (tick_event (al_delivery L) (ag_delivery ag) now) ps" "acked_counts ps = []" "drawn ps = []"
    by (rule log_pushes_tick)
  show ?thesis using es ps run_append [OF ps(1) es(1)] by (intro that [of "es @ ps"]) simp_all
qed

lemma round_refused:
  assumes "round_ok rd" "length sent < allowance"
    and "take_from s (al_delivery L) (rd_take rd) now (ag_delivery ag) db = (d, db1, Inr (Some sub))"
    and "\<not> accepted (posted L (rd_send rd) (ag\<lparr>ag_delivery := d\<rparr>) sub)"
  shows "drained_to L now allowance ag db sent (ag\<lparr>ag_delivery := d\<rparr>) (rd_during rd db1)
    (sent @ [posted L (rd_send rd) (ag\<lparr>ag_delivery := d\<rparr>) sub]) (Some None)"
proof -
  obtain es where "spool_run db es (rd_during rd db1)"
    "list_all (tick_event (al_delivery L) (ag_delivery ag) now) es" "acked_counts es = []"
    "map counter_of (drawn es) = [ss_counter sub]"
    "row_budget (al_delivery L) d = row_budget (al_delivery L) (ag_delivery ag)"
    using round_posted [OF assms(1,3)] by blast
  moreover from this assms(4) have "drained_run (al_delivery L) (ag_delivery ag) now db es (rd_during rd db1)
      [posted L (rd_send rd) (ag\<lparr>ag_delivery := d\<rparr>) sub]"
    by (simp add: drained_run_def)
  moreover have "ended_well [posted L (rd_send rd) (ag\<lparr>ag_delivery := d\<rparr>) sub] (Some None)"
    using assms(4) by simp
  ultimately show ?thesis using assms(2) unfolding drained_to_def by auto
qed

lemma round_accepted:
  assumes "round_ok rd" "length sent < allowance"
    and "take_from s (al_delivery L) (rd_take rd) now (ag_delivery ag) db = (d, db1, Inr (Some sub))"
    and "accepted (posted L (rd_send rd) (ag\<lparr>ag_delivery := d\<rparr>) sub)"
    and "delivery_ack (rd_ack rd) sub (rd_during rd db1) = (db3, r)"
    and "res = None \<or> (\<exists>e. res = Some (Some (AckAfterAccept e)))"
  shows "drained_to L now allowance ag db sent (ag\<lparr>ag_delivery := d\<rparr>) db3
    (sent @ [posted L (rd_send rd) (ag\<lparr>ag_delivery := d\<rparr>) sub]) res"
proof -
  obtain es where es: "spool_run db es (rd_during rd db1)"
    "list_all (tick_event (al_delivery L) (ag_delivery ag) now) es" "acked_counts es = []"
    "map counter_of (drawn es) = [ss_counter sub]"
    "row_budget (al_delivery L) d = row_budget (al_delivery L) (ag_delivery ag)"
    using round_posted [OF assms(1,3)] by blast
  obtain s' ids where ack: "length ids = submission_lines sub" "spool_step (rd_during rd db1) (Acked s' ids) db3"
    using delivery_ack_step [OF assms(5)] by blast
  have "drained_run (al_delivery L) (ag_delivery ag) now db (es @ [Acked s' ids]) db3
      [posted L (rd_send rd) (ag\<lparr>ag_delivery := d\<rparr>) sub]"
    using run_snoc [OF es(1) ack(2)] es ack(1) assms(4) by (simp add: drained_run_def tick_event_def)
  moreover have "ended_well [posted L (rd_send rd) (ag\<lparr>ag_delivery := d\<rparr>) sub] res"
    using assms(4,6) by auto
  ultimately show ?thesis using es(5) assms(2) unfolding drained_to_def by auto
qed

lemma drain_loop_drains:
  "drain_loop L rounds now allowance s ag db sent n = ((ag', db', sent', n'), res) \<Longrightarrow>
     (\<And>n. round_ok (rounds n)) \<Longrightarrow> drained_to L now allowance ag db sent ag' db' sent' res"
proof (induction L rounds now allowance s ag db sent n rule: drain_loop.induct)
  case (1 L rounds now allowance s ag db sent n)
  note ok = "1.prems"(2)
  note loop = "1.prems"(1) [unfolded drain_loop.simps [of L rounds now allowance s ag db sent n]]
  show ?case
  proof (cases "length sent < allowance")
    case False
    with loop show ?thesis by (auto simp: drained_to_def drained_run_def run_nil intro!: exI [of _ "[]"])
  next
    case more: True
    obtain d db1 r where tk: "take_from s (al_delivery L) (rd_take (rounds n)) now (ag_delivery ag) db = (d, db1, r)"
      by (metis prod_cases3)
    show ?thesis
    proof (cases r)
      case (Inl e)
      with loop more tk show ?thesis
        using round_without_submission [OF ok tk, of "Some (Some (NotAttempted e))"] by auto
    next
      case r: (Inr opt)
      show ?thesis
      proof (cases opt)
        case None
        with loop more tk r show ?thesis using round_without_submission [OF ok tk, of None] by auto
      next
        case (Some sub)
        note tk' = tk [unfolded r Some]
        let ?ag = "ag\<lparr>ag_delivery := d\<rparr>"
        let ?entry = "posted L (rd_send (rounds n)) ?ag sub"
        show ?thesis
        proof (cases "accepted ?entry")
          case False
          with loop more tk' show ?thesis using round_refused [OF ok more tk' False] by (auto simp: Let_def)
        next
          case acc: True
          obtain db3 ra where ack: "delivery_ack (rd_ack (rounds n)) sub (rd_during (rounds n) db1) = (db3, ra)"
            by fastforce
          note fine = round_accepted [OF ok more tk' acc ack]
          show ?thesis
          proof (cases ra)
            case (Inl e)
            with loop more tk' acc ack show ?thesis
              using fine [of "Some (Some (AckAfterAccept e))"] by (auto simp: Let_def)
          next
            case ra: (Inr u)
            show ?thesis
            proof (cases "more_waits sub")
              case False
              with loop more tk' acc ack ra show ?thesis using fine [of None] by (auto simp: Let_def)
            next
              case True
              with loop more tk' acc ack ra
              have rest: "drain_loop L rounds now allowance s ?ag db3 (sent @ [?entry]) (Suc n) = ((ag', db', sent', n'), res)"
                by (simp add: Let_def)
              have "drained_to L now allowance ?ag db3 (sent @ [?entry]) ag' db' sent' res"
                using "1.IH" [OF more tk' [symmetric] refl refl refl refl refl refl refl _ ack [symmetric] ra _ rest ok]
                  acc True by simp
              with fine [of None] show ?thesis by (auto intro: drained_to_trans)
            qed
          qed
        qed
      qed
    qed
  qed
qed

lemma drain_streams_drains:
  assumes "\<And>n. round_ok (rounds n)"
  shows "drain_streams L rounds now allowance ss ag db sent n = (ag', db', tick) \<Longrightarrow>
    \<exists>res. drained_to L now allowance ag db sent ag' db' (ut_sent tick) res
      \<and> ut_failed tick = (case res of None \<Rightarrow> None | Some failed \<Rightarrow> failed)"
proof (induction ss arbitrary: ag db sent n)
  case Nil
  then show ?case
    by (auto simp: drained_to_def drained_run_def run_nil intro!: exI [of _ None] exI [of _ "[] :: spool_event list"])
next
  case (Cons s ss)
  obtain ag1 db1 sent1 n1 res where loop: "drain_loop L rounds now allowance s ag db sent n = ((ag1, db1, sent1, n1), res)"
    by (metis prod.exhaust)
  note drained = drain_loop_drains [OF loop assms]
  show ?case
  proof (cases res)
    case None
    with Cons.prems loop have "drain_streams L rounds now allowance ss ag1 db1 sent1 n1 = (ag', db', tick)" by simp
    from Cons.IH [OF this] drained None show ?thesis by (auto intro: drained_to_trans)
  next
    case (Some failed)
    with Cons.prems loop have "ag' = ag1" "db' = db1" "ut_sent tick = sent1" "ut_failed tick = failed" by auto
    with drained Some show ?thesis by (intro exI [of _ res]) simp
  qed
qed

lemma upload_once_drains:
  assumes "\<forall>n. round_ok (rounds n)" "upload_once L rounds now ag db = (ag', db', tick)"
  obtains es res where "drained_run (al_delivery L) (ag_delivery ag) now db es db' (ut_sent tick)"
    "ended_well (ut_sent tick) res" "length (ut_sent tick) \<le> max_submissions (ag_upload ag)"
    "ut_failed tick = (case res of None \<Rightarrow> None | Some failed \<Rightarrow> failed)"
proof -
  obtain res where res: "drained_to L now (max_submissions (ag_upload ag)) ag db [] ag' db' (ut_sent tick) res"
      "ut_failed tick = (case res of None \<Rightarrow> None | Some failed \<Rightarrow> failed)"
    using drain_streams_drains [of rounds] assms unfolding upload_once_def by blast
  from res(1) obtain es new where es: "ut_sent tick = [] @ new"
      "drained_run (al_delivery L) (ag_delivery ag) now db es db' new" "ended_well new res"
      "length (ut_sent tick) \<le> max (length ([] :: uploaded list)) (max_submissions (ag_upload ag))"
    unfolding drained_to_def by blast
  show ?thesis by (rule that [of es res]) (use es res in simp_all)
qed

lemma log_pushes_scrapes: "log_pushes db db' \<Longrightarrow> table SCRAPES db' = table SCRAPES db"
  by (induction rule: log_pushes.induct) (auto simp: push_capped_def split: option.splits prod.splits)

lemma tick_run_scrape_row:
  assumes "spool_run db es db'" "spool_inv db" "list_all (tick_event L d now) es" "acked_counts es = []"
    and "r \<in> set (t_rows (table SCRAPES db))" "r \<notin> set (t_rows (table SCRAPES db'))"
  shows "\<exists>b. row_budget L d now (payload_of SCRAPES []) = Ok b \<and> clamp b < r_bytes r"
  using assms
proof (induction rule: spool_run.induct)
  case (run_snoc db es db1 e db')
  show ?case
  proof (cases "r \<in> set (t_rows (table SCRAPES db1))")
    case True
    have inv: "spool_inv db1" using spool_run_inv [OF run_snoc.hyps(1)] run_snoc.prems(1) by blast
    have e: "tick_event L d now e" "acked_counts [e] = []" using run_snoc.prems by auto
    have "r \<in> set (t_rows (table SCRAPES mid))" if "log_pushes db1 mid" for mid
      using True log_pushes_scrapes [OF that] by (simp only:)
    with row_leaves_step [OF inv run_snoc.hyps(2) True] run_snoc.prems(5) e show ?thesis
      by (cases e) (auto simp: tick_event_def simp del: table.simps)
  qed (use run_snoc in simp)
qed simp

lemma sorted_wrt_subseq: "subseq xs ys \<Longrightarrow> sorted_wrt P ys \<Longrightarrow> sorted_wrt P xs"
proof (induction rule: list_emb.induct)
  case (list_emb_Cons2 x y xs ys)
  then show ?case using list_emb_set [OF list_emb_Cons2(2)] by fastforce
qed auto

section \<open>Properties\<close>


text \<open>
  A tick is bounded and obeys every answer: it sends at most its allowance, everything before
  the last submission was accepted, a tick that could not acknowledge ends on an accepted one, and
  one that could not take a submission was refused nothing (it may have sent nothing at all).
\<close>

theorem tick_obeys_answers:
  assumes "\<forall>n. round_ok (rounds n)" and "upload_once L rounds now ag db = (ag', db', tick)"
  shows "length (ut_sent tick) \<le> max_submissions (ag_upload ag)
    \<and> list_all accepted (butlast (ut_sent tick))
    \<and> (case ut_failed tick of
         Some (AckAfterAccept _) \<Rightarrow> ut_sent tick \<noteq> [] \<and> accepted (last (ut_sent tick))
       | Some (NotAttempted _) \<Rightarrow> list_all accepted (ut_sent tick)
       | None \<Rightarrow> True)"
proof -
  obtain res where res: "ended_well (ut_sent tick) res" "length (ut_sent tick) \<le> max_submissions (ag_upload ag)"
      "ut_failed tick = (case res of None \<Rightarrow> None | Some failed \<Rightarrow> failed)"
    by (rule upload_once_drains [OF assms])
  have "list_all accepted xs \<Longrightarrow> list_all accepted (butlast xs)" for xs
    by (auto simp: list_all_iff dest: in_set_butlastD)
  with res show ?thesis
    by (cases "(ut_sent tick, res)" rule: ended_well.cases) (auto simp: list_all_iff)
qed

text \<open>
  A tick the server accepted nothing of loses no scrape: every row it held is still spooled,
  except one that alone is over the budget of a whole submission.
\<close>

theorem refused_tick_keeps_scrapes:
  assumes "\<forall>n. round_ok (rounds n)" and "upload_once L rounds now ag db = (ag', db', tick)"
    and "spool_inv db" and "list_all (\<lambda>u. \<not> accepted u) (ut_sent tick)"
    and "r \<in> set (t_rows (table SCRAPES db))" and "r \<notin> set (t_rows (table SCRAPES db'))"
  shows "\<exists>b. row_budget (al_delivery L) (ag_delivery ag) now (payload_of SCRAPES []) = Ok b \<and> clamp b < r_bytes r"
proof -
  obtain es where es: "drained_run (al_delivery L) (ag_delivery ag) now db es db' (ut_sent tick)"
    by (rule upload_once_drains [OF assms(1,2)])
  have "filter accepted (ut_sent tick) = []" using assms(4) by (simp add: list_all_iff filter_empty_conv)
  with es assms show ?thesis
    by (intro tick_run_scrape_row [of db es db']) (auto simp: drained_run_def)
qed

text \<open>
  No two submissions of a tick bear the same counter, and they were drawn in the order sent,
  later than every counter drawn before the tick.
\<close>

theorem tick_counters_increase:
  assumes "\<forall>n. round_ok (rounds n)" and "upload_once L rounds now ag db = (ag', db', tick)"
    and "spool_inv db" and "0 \<le> delivery_counter db" and "delivery_counter db' < 2 ^ 64"
  shows "sorted_wrt (<) (map up_counter (ut_sent tick))
    \<and> list_all (\<lambda>u. delivery_counter db < int (up_counter u)) (ut_sent tick)"
proof -
  obtain es where es: "drained_run (al_delivery L) (ag_delivery ag) now db es db' (ut_sent tick)"
    by (rule upload_once_drains [OF assms(1,2)])
  then have run: "spool_run db es db'" and sub: "subseq (map up_counter (ut_sent tick)) (map counter_of (drawn es))"
    by (auto simp: drained_run_def)
  note inv = spool_run_inv [OF run assms(3)]
  have in_range: "\<forall>c \<in> set (drawn es). delivery_counter db < c \<and> counter_of c = nat c"
    using inv assms(4,5) by (fastforce simp: counter_of_def)
  have "sorted_wrt (<) (map counter_of (drawn es))"
    unfolding sorted_wrt_map
    by (rule sorted_wrt_mono_rel [of "drawn es" "(<)"]) (use inv in_range assms(4) in auto)
  moreover have "\<forall>k \<in> set (map counter_of (drawn es)). delivery_counter db < int k"
    using in_range assms(4) by auto
  moreover have "set (map up_counter (ut_sent tick)) \<subseteq> set (map counter_of (drawn es))"
    using list_emb_set [OF sub] by blast
  ultimately show ?thesis using sorted_wrt_subseq [OF sub] by (auto simp: list_all_iff)
qed

section \<open>Witnesses\<close>

definition demo_answer :: transport where
  "demo_answer _ = Ok \<lparr>rs_status = 200, rs_body = Ok ''ok''\<rparr>"

definition demo_rounds :: "nat \<Rightarrow> round" where
  "demo_rounds _ = \<lparr>rd_take = quiet_world, rd_send = demo_answer, rd_during = (\<lambda>db. db), rd_ack = (\<lambda>_. None)\<rparr>"

definition demo_agent_libs :: agent_libs where
  "demo_agent_libs = \<lparr>al_delivery = demo_libs, al_bech32 = demo_bech32, al_ack = (\<lambda>t. Ok \<lparr>latest_version = t\<rparr>)\<rparr>"

definition demo_agent :: agent where
  "demo_agent = new_agent \<lparr>scr_scrape = \<lparr>sc_metrics_url = ''m'', sc_max_body_bytes = 9\<rparr>, scr_sntp_servers = []\<rparr>
     demo_delivery \<lparr>upload_url = ''u'', max_submissions = 1\<rparr> (PoolId (replicate 28 (CHR ''p'')))"

definition oversized_db :: spool_db where
  "oversized_db = demo_db\<lparr>scrapes_table := \<lparr>t_rows = [\<lparr>r_id = 1, r_text = ''aaaaaaaa'', r_bytes = 9\<rparr>],
     t_last_id = 1, t_total = 9\<rparr>\<rparr>"

lemma demo_rounds_ok: "\<forall>n. round_ok (demo_rounds n)"
  by (simp add: round_ok_def demo_rounds_def quiet_world_ok no_push)

lemmas demo_upload_simps = upload_once_def drain_loop.simps demo_agent_def new_agent_def demo_agent_libs_def
  demo_rounds_def demo_take_simps posted_def accepted_def upload_def demo_answer_def classify_def is_acked_def
  delivery_ack_def delete_rows_def more_waits_def

lemma demo_tick:
  obtains ag' db' tick where "upload_once demo_agent_libs demo_rounds 0 demo_agent demo_db = (ag', db', tick)"
    "map up_counter (ut_sent tick) = [6]" "list_all accepted (ut_sent tick)" "delivery_counter db' = 6"
  by (cases "upload_once demo_agent_libs demo_rounds 0 demo_agent demo_db")
    (auto simp: demo_upload_simps)

lemma demo_oversized_tick:
  obtains ag' db' tick where "upload_once demo_agent_libs demo_rounds 0 demo_agent oversized_db = (ag', db', tick)"
    "ut_sent tick = []" "t_rows (table SCRAPES db') = []"
  by (cases "upload_once demo_agent_libs demo_rounds 0 demo_agent oversized_db")
    (auto simp: demo_upload_simps oversized_db_def drop_oversized_def delete_id_def add_total_def empty_table_def)

lemma oversized_db_inv: "spool_inv oversized_db"
  by (simp add: spool_inv_def oversized_db_def demo_db_def table_inv_def empty_table_def row_wf_def
      wire_bytes_def clamp_def i64_max_def)


theorem tick_obeys_answers_witness:
  "\<exists>tick :: upload_tick. map up_counter (ut_sent tick) = [6] \<and> length (ut_sent tick) \<le> max_submissions (ag_upload demo_agent)"
proof -
  obtain ag' db' tick where tick: "upload_once demo_agent_libs demo_rounds 0 demo_agent demo_db = (ag', db', tick)"
    "map up_counter (ut_sent tick) = [6]"
    by (rule demo_tick)
  from tick_obeys_answers [OF demo_rounds_ok tick(1)] tick(2) show ?thesis
    by (intro exI [of _ tick]) (rule conjI, rule tick(2), rule conjunct1)
qed

theorem refused_tick_keeps_scrapes_witness:
  "\<exists>b. row_budget demo_libs demo_delivery 0 (payload_of SCRAPES []) = Ok b \<and> clamp b < 9"
proof -
  obtain ag' db' tick where tick: "upload_once demo_agent_libs demo_rounds 0 demo_agent oversized_db = (ag', db', tick)"
    "ut_sent tick = []" "t_rows (table SCRAPES db') = []"
    by (rule demo_oversized_tick)
  have "\<lparr>r_id = 1, r_text = ''aaaaaaaa'', r_bytes = 9\<rparr> \<in> set (t_rows (table SCRAPES oversized_db))"
    by (simp add: oversized_db_def)
  from refused_tick_keeps_scrapes [OF demo_rounds_ok tick(1) oversized_db_inv _ this] tick show ?thesis
    by (simp add: demo_agent_libs_def demo_agent_def new_agent_def)
qed

theorem tick_counters_increase_witness:
  "\<exists>tick :: upload_tick. map up_counter (ut_sent tick) = [6] \<and> list_all (\<lambda>u. 5 < int (up_counter u)) (ut_sent tick)"
proof -
  obtain ag' db' tick where tick: "upload_once demo_agent_libs demo_rounds 0 demo_agent demo_db = (ag', db', tick)"
    "map up_counter (ut_sent tick) = [6]" "delivery_counter db' = 6"
    by (rule demo_tick)
  have "delivery_counter demo_db = 5" by (simp add: demo_db_def)
  with tick_counters_increase [OF demo_rounds_ok tick(1) demo_db_inv] tick
  have "list_all (\<lambda>u. 5 < int (up_counter u)) (ut_sent tick)" by simp
  with tick(2) show ?thesis by (intro exI [of _ tick]) simp
qed

end
