(* ===== verification/Line_Source.thy ===== *)
theory Line_Source
  imports Http_Client Envelope
begin

text \<open>
  \<open>metsuke/src/logsource.rs\<close>, the reading half: bounded lines off a \<open>BufRead\<close>, and what is kept of one.
  A \<open>BufRead\<close> is the sequence of what its buffer fills come to; \<open>consume\<close> drops from the head of it.
  The parts that start, confirm and stop the \<open>journalctl\<close> child are process control and are not
  modelled.
\<close>

definition ERR :: string where "ERR = ''<3>''"
definition WARNING :: string where "WARNING = ''<4>''"
definition INFO :: string where "INFO = ''<6>''"

section \<open>Lossy UTF-8\<close>

text \<open>
  \<open>String::from_utf8_lossy\<close>: every maximal ill-formed run (a prefix of a character that is cut short,
  or one byte no character begins with) becomes U+FFFD.
\<close>

definition replacement :: string where
  "replacement = [CHR 0xEF, CHR 0xBF, CHR 0xBD]"

definition second3 :: "char \<Rightarrow> char \<Rightarrow> bool" where
  "second3 a b \<longleftrightarrow> cont b \<and> (code a = 224 \<longrightarrow> 160 \<le> code b) \<and> (code a = 237 \<longrightarrow> code b \<le> 159)"

definition second4 :: "char \<Rightarrow> char \<Rightarrow> bool" where
  "second4 a b \<longleftrightarrow> cont b \<and> (code a = 240 \<longrightarrow> 144 \<le> code b) \<and> (code a = 244 \<longrightarrow> code b \<le> 143)"

text \<open>How many bytes after \<open>a\<close> belong with it, and whether they complete a character.\<close>

definition lossy_take :: "char \<Rightarrow> bytes \<Rightarrow> nat \<times> bool" where
  "lossy_take a s =
     (if code a < 128 then (0, True)
      else if between 194 223 a then
        (case s of b # _ \<Rightarrow> if cont b then (1, True) else (0, False) | [] \<Rightarrow> (0, False))
      else if between 224 239 a then
        (case s of
           b # s1 \<Rightarrow>
             if second3 a b then (case s1 of c # _ \<Rightarrow> if cont c then (2, True) else (1, False) | [] \<Rightarrow> (1, False))
             else (0, False)
         | [] \<Rightarrow> (0, False))
      else if between 240 244 a then
        (case s of
           b # s1 \<Rightarrow>
             if second4 a b then
               (case s1 of
                  c # s2 \<Rightarrow>
                    if cont c then (case s2 of d # _ \<Rightarrow> if cont d then (3, True) else (2, False) | [] \<Rightarrow> (2, False))
                    else (1, False)
                | [] \<Rightarrow> (1, False))
             else (0, False)
         | [] \<Rightarrow> (0, False))
      else (0, False))"

function utf8_lossy :: "bytes \<Rightarrow> string" where
  "utf8_lossy [] = []"
| "utf8_lossy (a # s) =
     (case lossy_take a s of
        (k, ok) \<Rightarrow> (if ok then a # take k s else replacement) @ utf8_lossy (drop k s))"
  by pat_completeness auto
termination by (relation "measure length") auto

section \<open>One line\<close>

datatype fill = Filled bytes | FillInterrupted | FillFailed string

datatype line = Kept string | TooLong nat string | LineEnded

definition HEAD_BYTES :: nat where "HEAD_BYTES = 400"

definition head_of :: "bytes \<Rightarrow> string" where
  "head_of l = one_line (utf8_lossy (take (min (length l) HEAD_BYTES) l))"

abbreviation carriage_return :: char where "carriage_return \<equiv> CHR 0x0D"

definition is_terminator :: "char \<Rightarrow> bool" where
  "is_terminator c \<longleftrightarrow> c = newline \<or> c = carriage_return"

definition trim_terminators :: "bytes \<Rightarrow> bytes" where
  "trim_terminators l = rev (dropWhile is_terminator (rev l))"

definition bounded :: "bytes \<Rightarrow> nat \<Rightarrow> nat \<Rightarrow> line" where
  "bounded kept limit n =
     (let trimmed = trim_terminators kept
      in if limit < length trimmed then TooLong n (head_of trimmed) else Kept (utf8_lossy trimmed))"

text \<open>What is kept of a chunk: as much as there is room for.\<close>

definition keep_more :: "nat \<Rightarrow> bytes \<Rightarrow> bytes \<Rightarrow> bytes" where
  "keep_more room kept chunk =
     (if length kept < room then kept @ take (min (room - length kept) (length chunk)) chunk else kept)"

definition read_room :: "nat \<Rightarrow> nat" where
  "read_room limit = saturating_add limit 2"

text \<open>Up to and including the terminator, and whether it is there.\<close>

definition cut_line :: "bytes \<Rightarrow> bytes \<times> bool" where
  "cut_line available =
     (let body = takeWhile (\<lambda>c. c \<noteq> newline) available
      in if newline \<in> set available then (body @ [newline], True) else (available, False))"

text \<open>
  The loop: the line, what is left of the input and the chunks handed to \<open>through\<close>, in order.
\<close>

fun read_loop ::
  "nat \<Rightarrow> fill list \<Rightarrow> bytes \<Rightarrow> nat \<Rightarrow> bytes list \<Rightarrow> (string, line) result \<times> fill list \<times> bytes list" where
  "read_loop limit [] kept n out =
     (Ok (if n = 0 then LineEnded else bounded kept limit n), [], out)"
| "read_loop limit (FillInterrupted # input) kept n out = read_loop limit input kept n out"
| "read_loop limit (FillFailed e # input) kept n out = (Err e, input, out)"
| "read_loop limit (Filled available # input) kept n out =
     (if available = [] then (Ok (if n = 0 then LineEnded else bounded kept limit n), input, out)
      else case cut_line available of
             (chunk, ended) \<Rightarrow>
               (let n' = n + length chunk;
                    kept' = keep_more (read_room limit) kept chunk;
                    left = drop (length chunk) available;
                    input' = (if left = [] then input else Filled left # input)
                in if ended then (Ok (bounded kept' limit n'), input', out @ [chunk])
                   else read_loop limit input kept' n' (out @ [chunk])))"

definition read_bounded :: "nat \<Rightarrow> fill list \<Rightarrow> (string, line) result \<times> fill list \<times> bytes list" where
  "read_bounded limit input = read_loop limit input [] 0 []"

section \<open>Lossy decoding\<close>

lemma replacement_facts [simp]: "valid_utf8 (replacement @ s) = valid_utf8 s" "newline \<notin> set replacement"
  by (simp_all add: replacement_def between_def cont_def)

lemma lossy_take_valid: "lossy_take a s = (k, True) \<Longrightarrow> valid_utf8 (a # take k s @ t) = valid_utf8 t"
  unfolding lossy_take_def
  by (simp split: if_splits list.splits, simp_all add: second3_def second4_def, auto simp: between_def)

lemma valid_lossy_take:
  assumes "valid_utf8 (a # s)"
  shows "\<exists>k. lossy_take a s = (k, True) \<and> valid_utf8 (drop k s)"
proof -
  consider "code a < 128" | "\<not> code a < 128" "between 194 223 a"
    | "\<not> code a < 128" "\<not> between 194 223 a" "between 224 239 a"
    | "\<not> code a < 128" "\<not> between 194 223 a" "\<not> between 224 239 a" "between 240 244 a"
    using assms by (simp split: if_splits)
  then show ?thesis
  proof cases
    case 1
    with assms show ?thesis by (simp add: lossy_take_def)
  next
    case 2
    with assms show ?thesis by (cases s) (simp_all add: lossy_take_def)
  next
    case 3
    with assms show ?thesis by (cases s; cases "tl s") (simp_all add: lossy_take_def second3_def)
  next
    case 4
    with assms show ?thesis
      by (cases s; cases "tl s"; cases "tl (tl s)") (simp_all add: lossy_take_def second4_def)
  qed
qed

lemma lossy_valid: "valid_utf8 (utf8_lossy s)"
proof (induction s rule: utf8_lossy.induct)
  case (2 a s)
  obtain k ok where k: "lossy_take a s = (k, ok)" by fastforce
  show ?case
    using "2.IH" [OF k [symmetric]] lossy_take_valid [of a s k "utf8_lossy (drop k s)"] k by (cases ok) simp_all
qed simp

lemma lossy_id: "valid_utf8 s \<Longrightarrow> utf8_lossy s = s"
proof (induction s rule: utf8_lossy.induct)
  case (2 a s)
  then obtain k where "lossy_take a s = (k, True)" "valid_utf8 (drop k s)" using valid_lossy_take by blast
  with "2.IH" show ?case by simp
qed simp

lemma lossy_bytes: "set (utf8_lossy s) \<subseteq> set s \<union> set replacement"
  by (induction s rule: utf8_lossy.induct)
    (auto split: prod.splits if_splits dest!: in_set_takeD in_set_dropD subsetD)

lemma lossy_newline: "newline \<notin> set s \<Longrightarrow> newline \<notin> set (utf8_lossy s)"
  using lossy_bytes [of s] by auto

section \<open>Reading by content\<close>

text \<open>What an input holds before it ends or fails, and whether it fails.\<close>

fun contents :: "fill list \<Rightarrow> bytes \<times> string option" where
  "contents [] = ([], None)"
| "contents (FillInterrupted # input) = contents input"
| "contents (FillFailed e # input) = ([], Some e)"
| "contents (Filled b # input) =
     (if b = [] then ([], None) else (b @ fst (contents input), snd (contents input)))"

definition first_line :: "bytes \<Rightarrow> bytes" where
  "first_line c = fst (cut_line c)"

definition line_of :: "nat \<Rightarrow> bytes \<Rightarrow> line" where
  "line_of limit l = (if l = [] then LineEnded else bounded (take (read_room limit) l) limit (length l))"

lemma takeWhile_line: "newline \<notin> set p \<Longrightarrow> takeWhile (\<lambda>c. c \<noteq> newline) (p @ newline # q) = p"
  by (induction p) auto

lemma dropWhile_all: "\<forall>x \<in> set xs. P x \<Longrightarrow> dropWhile P (xs @ ys) = dropWhile P ys"
  by (induction xs) auto

lemma cut_line_none: "newline \<notin> set b \<Longrightarrow> cut_line b = (b, False)"
  by (simp add: cut_line_def)

lemma cut_line_some:
  "newline \<in> set b \<Longrightarrow> \<exists>p q. b = p @ newline # q \<and> newline \<notin> set p \<and> cut_line b = (p @ [newline], True)"
proof -
  assume "newline \<in> set b"
  then obtain p q where pq: "b = p @ newline # q" "newline \<notin> set p" by (metis split_list_first)
  then have "takeWhile (\<lambda>c. c \<noteq> newline) b = p" by (simp add: takeWhile_line)
  with pq show ?thesis by (intro exI [of _ p] exI [of _ q]) (simp add: cut_line_def)
qed

lemma keep_more_take: "keep_more room (take room l) chunk = take room (l @ chunk)"
  by (auto simp: keep_more_def min_def)

text \<open>What the loop answers once \<open>l\<close> is read and the rest of the input is \<open>ce\<close>.\<close>

definition loop_result :: "nat \<Rightarrow> bytes \<Rightarrow> bytes \<times> string option \<Rightarrow> (string, line) result" where
  "loop_result limit l ce =
     (case snd ce of
        Some e \<Rightarrow> if newline \<in> set (fst ce) then Ok (line_of limit (first_line (l @ fst ce))) else Err e
      | None \<Rightarrow> Ok (line_of limit (first_line (l @ fst ce))))"

lemma loop_result_more: "newline \<notin> set b \<Longrightarrow> loop_result limit (l @ b) (c, e) = loop_result limit l (b @ c, e)"
  by (simp add: loop_result_def split: option.split)

lemma loop_result_end: "newline \<notin> set l \<Longrightarrow> loop_result limit l ([], None) = Ok (line_of limit l)"
  by (simp add: loop_result_def first_line_def cut_line_none)

lemma first_line_found: "newline \<notin> set p \<Longrightarrow> first_line (p @ newline # q) = p @ [newline]"
  by (simp add: first_line_def cut_line_def takeWhile_line)

lemma loop_result_found:
  assumes "newline \<notin> set (l @ p)"
  shows "loop_result limit l (p @ newline # q, e) = Ok (line_of limit (l @ p @ [newline]))"
  using first_line_found [OF assms] by (simp add: loop_result_def split: option.split)

lemma read_loop_contents:
  assumes "newline \<notin> set l" "concat out = l"
  shows "\<exists>rest out'. read_loop limit input (take (read_room limit) l) (length l) out
      = (loop_result limit l (contents input), rest, out')
    \<and> concat out' = first_line (l @ fst (contents input))
    \<and> (newline \<in> set (fst (contents input)) \<longrightarrow>
         contents rest = (drop (length (concat out')) (l @ fst (contents input)), snd (contents input)))"
  using assms
proof (induction input arbitrary: l out)
  case Nil
  then show ?case by (simp add: first_line_def cut_line_none line_of_def loop_result_end)
next
  case (Cons ev input)
  show ?case
  proof (cases ev)
    case FillInterrupted
    show ?thesis
      using Cons.IH [OF Cons.prems] by (simp only: FillInterrupted contents.simps read_loop.simps)
  next
    case (FillFailed e)
    with Cons.prems show ?thesis by (simp add: first_line_def cut_line_none loop_result_def)
  next
    case (Filled b)
    show ?thesis
    proof (cases "b = []")
      case True
      with Filled Cons.prems show ?thesis by (simp add: first_line_def cut_line_none line_of_def loop_result_end)
    next
      case b: False
      let ?c = "fst (contents input)" and ?e = "snd (contents input)"
      have whole: "contents (ev # input) = (b @ ?c, ?e)" using Filled b by simp
      show ?thesis
      proof (cases "newline \<in> set b")
        case True
        then obtain p q where pq: "b = p @ newline # q" "newline \<notin> set p" "cut_line b = (p @ [newline], True)"
          using cut_line_some by blast
        have free: "newline \<notin> set (l @ p)" using Cons.prems(1) pq(2) by simp
        let ?L = "l @ p @ [newline]" and ?rest = "if q = [] then input else Filled q # input"
        have "read_loop limit (ev # input) (take (read_room limit) l) (length l) out
            = (Ok (line_of limit ?L), ?rest, out @ [p @ [newline]])"
          using Filled b pq keep_more_take [of "read_room limit" l "p @ [newline]"]
          by (simp add: line_of_def Let_def)
        moreover have "loop_result limit l (b @ ?c, ?e) = Ok (line_of limit ?L)"
          using loop_result_found [OF free] by (simp add: pq(1))
        moreover have "first_line (l @ b @ ?c) = ?L" using first_line_found [OF free] by (simp add: pq(1))
        moreover have "contents ?rest = (drop (length ?L) (l @ b @ ?c), ?e)"
          by (simp add: pq(1) prod_eq_iff)
        moreover have "concat (out @ [p @ [newline]]) = ?L" using Cons.prems(2) by simp
        ultimately show ?thesis unfolding whole fst_conv snd_conv by metis
      next
        case False
        have "read_loop limit (ev # input) (take (read_room limit) l) (length l) out
            = read_loop limit input (take (read_room limit) (l @ b)) (length (l @ b)) (out @ [b])"
          using Filled b False keep_more_take [of "read_room limit" l b] by (simp add: cut_line_none Let_def)
        moreover have "loop_result limit l (b @ ?c, ?e) = loop_result limit (l @ b) (contents input)"
          using loop_result_more [OF False, of limit l ?c ?e] by simp
        moreover have "newline \<notin> set (l @ b)" "concat (out @ [b]) = l @ b" using Cons.prems False by simp_all
        note IH = Cons.IH [OF this]
        ultimately show ?thesis using False unfolding whole fst_conv snd_conv append_assoc [symmetric] set_append Un_iff
          by (simp only: IH simp_thms)
      qed
    qed
  qed
qed

section \<open>The bound\<close>

lemma trim_terminators_split:
  "\<exists>t ts. l = t @ ts \<and> list_all is_terminator ts \<and> trim_terminators l = t \<and> (t \<noteq> [] \<longrightarrow> \<not> is_terminator (last t))"
proof -
  let ?t = "rev (dropWhile is_terminator (rev l))" and ?ts = "rev (takeWhile is_terminator (rev l))"
  have "l = ?t @ ?ts" by (metis rev_append rev_rev_ident takeWhile_dropWhile_id)
  moreover have "list_all is_terminator ?ts" by (auto simp: list_all_iff dest: set_takeWhileD)
  moreover have "?t \<noteq> [] \<longrightarrow> \<not> is_terminator (last ?t)"
    by (auto simp: last_rev hd_dropWhile)
  ultimately show ?thesis unfolding trim_terminators_def by blast
qed

lemma trim_terminators_append:
  assumes "list_all is_terminator ts" "t = [] \<or> \<not> is_terminator (last t)"
  shows "trim_terminators (t @ ts) = t"
proof -
  have "dropWhile is_terminator (rev ts @ rev t) = dropWhile is_terminator (rev t)"
    using assms(1) by (intro dropWhile_all) (simp add: list_all_iff)
  moreover have "dropWhile is_terminator (rev t) = rev t"
    using assms(2) by (cases t rule: rev_cases) auto
  ultimately show ?thesis by (simp add: trim_terminators_def)
qed

lemma kept_inside_bound:
  assumes "limit \<le> u64_max" "length (trim_terminators l) \<le> limit"
  shows "bounded (take (read_room limit) l) limit n = Kept (utf8_lossy (trim_terminators l))"
proof -
  obtain t ts where t: "l = t @ ts" "list_all is_terminator ts" "trim_terminators l = t"
      "t \<noteq> [] \<longrightarrow> \<not> is_terminator (last t)"
    using trim_terminators_split [of l] by blast
  have "length t \<le> read_room limit"
    using assms t(3) by (simp add: read_room_def saturating_add_def)
  then have "take (read_room limit) l = t @ take (read_room limit - length t) ts" by (simp add: t(1))
  moreover have "list_all is_terminator (take (read_room limit - length t) ts)"
    using t(2) by (auto simp: list_all_iff dest: in_set_takeD)
  ultimately have "trim_terminators (take (read_room limit) l) = t"
    using t(4) trim_terminators_append [of _ t] by metis
  with assms(2) t(3) show ?thesis by (simp add: bounded_def Let_def)
qed

lemma too_long_past_bound:
  assumes "limit + 2 \<le> u64_max" "carriage_return \<notin> set l" "newline \<notin> set (butlast l)"
    and "limit < length (trim_terminators l)"
  shows "\<exists>head. bounded (take (read_room limit) l) limit n = TooLong n head"
proof -
  obtain t ts where t: "l = t @ ts" "list_all is_terminator ts" "trim_terminators l = t"
      "t \<noteq> [] \<longrightarrow> \<not> is_terminator (last t)"
    using trim_terminators_split [of l] by blast
  have room: "read_room limit = limit + 2" using assms(1) by (simp add: read_room_def saturating_add_def)
  have "c = newline" if "c \<in> set ts" for c
    using that t(1,2) assms(2) by (auto simp: list_all_iff is_terminator_def)
  moreover have "newline \<notin> set t"
  proof (cases "ts = []")
    case True
    with t assms(3,4) show ?thesis
      by (cases t rule: rev_cases) (auto simp: is_terminator_def)
  next
    case False
    with t(1) assms(3) show ?thesis by (simp add: butlast_append)
  qed
  ultimately have tt: "\<forall>c \<in> set t. \<not> is_terminator c"
    using assms(2) t(1) by (auto simp: is_terminator_def)
  have "limit < length (trim_terminators (take (limit + 2) l))"
  proof -
    let ?p = "take (limit + 2) t" and ?q = "take (limit + 2 - length t) ts"
    have "take (limit + 2) l = ?p @ ?q" by (simp add: t(1))
    moreover have "list_all is_terminator ?q" using t(2) by (auto simp: list_all_iff dest: in_set_takeD)
    moreover have "?p = [] \<or> \<not> is_terminator (last ?p)" using tt by (meson in_set_takeD last_in_set)
    ultimately have "trim_terminators (take (limit + 2) l) = ?p" by (simp only: trim_terminators_append)
    then show ?thesis using assms(4) t(3) by simp
  qed
  then show ?thesis by (simp add: bounded_def room)
qed

section \<open>Properties\<close>

text \<open>
  C32: A line is read whole and in sync, however the bytes arrived. Whatever the sizes of the fills
  and the signals between them, \<open>read_bounded\<close> hands every byte of the first line through in order
  and no other, answers what that line alone determines, and leaves exactly the rest of the stream.
\<close>

theorem read_bounded_in_sync:
  assumes "contents input = (c, None)"
  shows "\<exists>rest chunks. read_bounded limit input = (Ok (line_of limit (first_line c)), rest, chunks)
    \<and> concat chunks = first_line c
    \<and> (newline \<in> set c \<longrightarrow> contents rest = (drop (length (first_line c)) c, None))"
  using read_loop_contents [of "[]" "[]" limit input] assms by (auto simp: read_bounded_def loop_result_def)

text \<open>
  The bound is the line's own: a line whose bytes without its terminator are within the limit is
  kept whole, and one without carriage returns that is past it is never kept, in part or whole.
\<close>

theorem bound_is_the_lines_own:
  assumes "limit + 2 \<le> u64_max" and "l \<noteq> []" and "newline \<notin> set (butlast l)" and "carriage_return \<notin> set l"
  shows "if length (trim_terminators l) \<le> limit then line_of limit l = Kept (utf8_lossy (trim_terminators l))
    else \<exists>head. line_of limit l = TooLong (length l) head"
  using assms kept_inside_bound [of limit l "length l"] too_long_past_bound [of limit l "length l"]
  by (auto simp: line_of_def)

text \<open>
  With carriage returns inside the line the cut may land on two of them, which then come off as a
  terminator: a line of nine bytes is handed back as the first three.
\<close>

lemma truncated_line_kept:
  "fst (read_bounded 3 [Filled [CHR ''a'', CHR ''b'', CHR ''c'', carriage_return, carriage_return,
      CHR ''d'', CHR ''e'', CHR ''f'', newline]]) = Ok (Kept ''abc'')"
  by (simp add: read_bounded_def cut_line_def keep_more_def read_room_def saturating_add_def u64_max_def
      bounded_def trim_terminators_def is_terminator_def lossy_take_def)

section \<open>Witnesses\<close>

theorem read_bounded_in_sync_witness:
  "\<exists>rest chunks. read_bounded 9 [Filled ''a'', FillInterrupted, Filled [CHR ''b'', newline, CHR ''c'']]
      = (Ok (line_of 9 [CHR ''a'', CHR ''b'', newline]), rest, chunks)
    \<and> contents rest = (''c'', None)"
  using read_bounded_in_sync [of "[Filled ''a'', FillInterrupted, Filled [CHR ''b'', newline, CHR ''c'']]"
      "[CHR ''a'', CHR ''b'', newline, CHR ''c'']" 9]
  by (auto simp: first_line_def cut_line_def)

theorem bound_is_the_lines_own_witness:
  "line_of 3 [CHR ''a'', newline] = Kept ''a''"
  using bound_is_the_lines_own [of 3 "[CHR ''a'', newline]"]
  by (simp add: u64_max_def trim_terminators_def is_terminator_def lossy_take_def)

end
