(* ===== verification/Log_Tee.thy ===== *)
theory Log_Tee
  imports Line_Source "HOL-Library.Sublist"
begin

text \<open>
  \<open>metsuke/src/logsource.rs\<close>, the two sources: the journal's (\<open>JournalSource::next_line\<close>) and the pipe's
  (\<open>PipeSource\<close>, fed by \<open>tee_through\<close>). What the writer, the flush and the bounded queue answer is an
  argument (\<open>tee_world\<close>), numbered in call order. What is said in the journal is not modelled.
\<close>

fun input_size :: "fill list \<Rightarrow> nat" where
  "input_size [] = 0"
| "input_size (Filled b # input) = Suc (length b + input_size input)"
| "input_size (_ # input) = Suc (input_size input)"

lemma bounded_not_ended [simp]: "bounded k limit n \<noteq> LineEnded"
  by (simp add: bounded_def Let_def)

lemma read_loop_size:
  "read_loop limit input kept n out = (r, rest, out') \<Longrightarrow> input_size rest \<le> input_size input - 1"
proof (induction limit input kept n out rule: read_loop.induct)
  case (4 limit available input kept n out)
  obtain chunk ended where cut: "cut_line available = (chunk, ended)" by fastforce
  have chunk: "available \<noteq> [] \<Longrightarrow> 0 < length chunk"
    using cut by (auto simp: cut_line_def Let_def split: if_splits)
  show ?case
  proof (cases "available = [] \<or> ended")
    case True
    show ?thesis
    proof (cases "available = []")
      case True
      with "4.prems" show ?thesis by auto
    next
      case False
      with chunk obtain c cs where "chunk = c # cs" by (cases chunk) auto
      moreover have "rest = (if drop (length chunk) available = [] then input else Filled (drop (length chunk) available) # input)"
        using "4.prems" cut False \<open>available = [] \<or> ended\<close> by (auto simp: Let_def)
      ultimately show ?thesis by (auto split: if_splits)
    qed
  next
    case False
    with "4.prems" cut "4.IH" [OF _ cut [symmetric] refl refl refl refl] show ?thesis by (auto simp: Let_def)
  qed
qed auto

lemma read_bounded_progress:
  assumes "read_bounded limit input = (Ok l, rest, chunks)" "l \<noteq> LineEnded"
  shows "input_size rest < input_size input"
proof (cases input)
  case (Cons ev input')
  have "0 < input_size input" by (cases ev) (simp_all add: Cons)
  with assms(1) read_loop_size [of limit input "[]" 0 "[]"] show ?thesis by (fastforce simp: read_bounded_def)
qed (use assms in \<open>auto simp: read_bounded_def\<close>)

section \<open>The journal\<close>

record journal_source =
  js_lines :: "fill list"
  js_path :: string
  js_max_line_bytes :: nat
  js_oversized :: nat

datatype line_source_error = LineSourceError (lse_path: string) (lse_source: string)

function journal_next_line :: "journal_source \<Rightarrow> journal_source \<times> (line_source_error, string option) result" where
  "journal_next_line js =
     (case read_bounded (js_max_line_bytes js) (js_lines js) of
        (Inl e, rest, _) \<Rightarrow> (js\<lparr>js_lines := rest\<rparr>, Err (LineSourceError (js_path js) e))
      | (Inr LineEnded, rest, _) \<Rightarrow> (js\<lparr>js_lines := rest\<rparr>, Ok None)
      | (Inr (Kept l), rest, _) \<Rightarrow> (js\<lparr>js_lines := rest\<rparr>, Ok (Some l))
      | (Inr (TooLong n head), rest, _) \<Rightarrow>
          journal_next_line (js\<lparr>js_lines := rest, js_oversized := js_oversized js + 1\<rparr>))"
  by pat_completeness auto
termination
  by (relation "measure (\<lambda>js. input_size (js_lines js))") (auto dest!: sym [of _ "read_bounded _ _"] read_bounded_progress)

declare journal_next_line.simps [simp del]

section \<open>The tee\<close>

datatype send_result = Queued | QueueFull | ReaderGone

record tee_world =
  tee_write :: "nat \<Rightarrow> (string \<times> nat) option"
  tee_flush :: "nat \<Rightarrow> string option"
  tee_send :: "nat \<Rightarrow> send_result"

record tee_state =
  te_written :: bytes
  te_writing :: bool
  te_failed_write :: "string option"
  te_writes :: nat
  te_flushes :: nat
  te_oversized :: nat
  te_offers :: nat
  te_queued :: "string list"
  te_dropped :: nat
  te_ended :: "string option"

definition tee_start :: tee_state where
  "tee_start = \<lparr>te_written = [], te_writing = True, te_failed_write = None, te_writes = 0, te_flushes = 0,
     te_oversized = 0, te_offers = 0, te_queued = [], te_dropped = 0, te_ended = None\<rparr>"

text \<open>The closure \<open>read_bounded\<close> is given: write a chunk through unless writing has failed.\<close>

definition write_chunk :: "tee_world \<Rightarrow> bytes \<Rightarrow> tee_state \<Rightarrow> tee_state" where
  "write_chunk w chunk st =
     (if te_writing st then
        (case tee_write w (te_writes st) of
           None \<Rightarrow> st\<lparr>te_written := te_written st @ chunk, te_writes := te_writes st + 1\<rparr>
         | Some (e, k) \<Rightarrow> st\<lparr>te_written := te_written st @ take k chunk, te_writes := te_writes st + 1,
             te_failed_write := Some e, te_writing := False\<rparr>)
      else st)"

definition flush_through :: "tee_world \<Rightarrow> tee_state \<Rightarrow> tee_state" where
  "flush_through w st =
     (if te_writing st then
        (case tee_flush w (te_flushes st) of
           None \<Rightarrow> st\<lparr>te_flushes := te_flushes st + 1\<rparr>
         | Some e \<Rightarrow> st\<lparr>te_flushes := te_flushes st + 1, te_writing := False\<rparr>)
      else st)"

definition offer :: "tee_world \<Rightarrow> string \<Rightarrow> tee_state \<Rightarrow> tee_state" where
  "offer w l st =
     (let st' = st\<lparr>te_offers := te_offers st + 1\<rparr>
      in case tee_send w (te_offers st) of
           Queued \<Rightarrow> st'\<lparr>te_queued := te_queued st @ [l]\<rparr>
         | QueueFull \<Rightarrow> st'\<lparr>te_dropped := te_dropped st + 1\<rparr>
         | ReaderGone \<Rightarrow> st')"

text \<open>The writes, the report of a failed one, and the flush that follow every read.\<close>

definition after_read :: "tee_world \<Rightarrow> bytes list \<Rightarrow> tee_state \<Rightarrow> tee_state" where
  "after_read w chunks st = flush_through w ((fold (write_chunk w) chunks st)\<lparr>te_failed_write := None\<rparr>)"

function tee_through :: "tee_world \<Rightarrow> nat \<Rightarrow> fill list \<Rightarrow> tee_state \<Rightarrow> tee_state" where
  "tee_through w limit input st =
     (case read_bounded limit input of
        (r, rest, chunks) \<Rightarrow>
          (let st' = after_read w chunks st
           in case r of
                Inl e \<Rightarrow> st'\<lparr>te_ended := Some e\<rparr>
              | Inr LineEnded \<Rightarrow> st'
              | Inr (Kept l) \<Rightarrow> tee_through w limit rest (offer w l st')
              | Inr (TooLong n head) \<Rightarrow> tee_through w limit rest (st'\<lparr>te_oversized := te_oversized st' + 1\<rparr>)))"
  by pat_completeness auto
termination
  by (relation "measure (\<lambda>(w, limit, input, st). input_size input)")
    (auto dest!: sym [of _ "read_bounded _ _"] read_bounded_progress)

declare tee_through.simps [simp del]

text \<open>The reader's end: what is queued, in order, then why the tee ended if it did not end at EOF.\<close>

record pipe_source =
  ps_lines :: "string list"
  ps_ended :: "string option"

definition STDIN :: string where "STDIN = ''the node's output on stdin''"

definition pipe_next_line :: "pipe_source \<Rightarrow> pipe_source \<times> (line_source_error, string option) result" where
  "pipe_next_line ps =
     (case ps_lines ps of
        l # ls \<Rightarrow> (ps\<lparr>ps_lines := ls\<rparr>, Ok (Some l))
      | [] \<Rightarrow> (case ps_ended ps of
          None \<Rightarrow> (ps, Ok None)
        | Some e \<Rightarrow> (ps\<lparr>ps_ended := None\<rparr>, Err (LineSourceError STDIN e))))"

definition pipe_of :: "tee_state \<Rightarrow> pipe_source" where
  "pipe_of st = \<lparr>ps_lines = te_queued st, ps_ended = te_ended st\<rparr>"

section \<open>What the tee passes on\<close>

lemma first_line_nonempty: "c \<noteq> [] \<Longrightarrow> first_line c \<noteq> []"
  by (auto simp: first_line_def cut_line_def Let_def)

function all_lines :: "bytes \<Rightarrow> bytes list" where
  "all_lines c = (if c = [] then [] else first_line c # all_lines (drop (length (first_line c)) c))"
  by pat_completeness auto
termination by (relation "measure length") (auto simp: first_line_nonempty)

declare all_lines.simps [simp del]

definition kept_lines :: "nat \<Rightarrow> bytes list \<Rightarrow> string list" where
  "kept_lines limit ls = List.map_filter (\<lambda>l. case line_of limit l of Kept s \<Rightarrow> Some s | _ \<Rightarrow> None) ls"

definition no_gaps :: "fill list \<Rightarrow> bool" where
  "no_gaps input \<longleftrightarrow> list_all (\<lambda>f. f \<noteq> Filled []) input"

lemma read_loop_no_gaps:
  "read_loop limit input kept n out = (r, rest, out') \<Longrightarrow> no_gaps input \<Longrightarrow> contents input = (c, None) \<Longrightarrow>
     no_gaps rest \<and> (newline \<notin> set c \<longrightarrow> rest = [])"
proof (induction limit input kept n out arbitrary: c rule: read_loop.induct)
  case (4 limit available input kept n out)
  then have ne: "available \<noteq> []" by (auto simp: no_gaps_def)
  with "4.prems"(3) obtain c' where c: "c = available @ c'" "contents input = (c', None)"
    by (cases "contents input") auto
  show ?case
  proof (cases "newline \<in> set available")
    case True
    then obtain p q where "cut_line available = (p @ [newline], True)" using cut_line_some by blast
    with "4.prems"(1,2) ne True c show ?thesis by (auto simp: Let_def no_gaps_def)
  next
    case False
    note cut = cut_line_none [OF False]
    show ?thesis
      using "4.IH" [OF ne cut [symmetric] refl refl refl refl _ _ _ c(2)] "4.prems"(1,2) ne cut False c(1)
      by (simp add: Let_def no_gaps_def)
  qed
qed (auto simp: no_gaps_def)

text \<open>\<open>d\<close> has been read: what is written is a prefix of it, and all of it while writing works.\<close>

definition written_of :: "tee_state \<Rightarrow> bytes \<Rightarrow> bool" where
  "written_of st d \<longleftrightarrow> prefix (te_written st) d \<and> (te_writing st \<longrightarrow> te_written st = d)"

lemma write_chunk_written: "written_of st d \<Longrightarrow> written_of (write_chunk w chunk st) (d @ chunk)"
  by (auto simp: written_of_def write_chunk_def take_is_prefix intro: prefix_prefix split: option.splits)

lemma after_read_written:
  assumes "written_of st d"
  shows "written_of (after_read w chunks st) (d @ concat chunks)"
proof -
  have "written_of (fold (write_chunk w) chunks st) (d @ concat chunks)"
    using assms
  proof (induction chunks arbitrary: st d)
    case (Cons a chunks)
    from Cons.IH [OF write_chunk_written [OF Cons.prems]] show ?case by simp
  qed simp
  then show ?thesis
    by (auto simp: after_read_def flush_through_def written_of_def split: option.splits)
qed

definition offers_same :: "tee_state \<Rightarrow> tee_state \<Rightarrow> bool" where
  "offers_same st st' \<longleftrightarrow> te_offers st' = te_offers st \<and> te_queued st' = te_queued st
     \<and> te_dropped st' = te_dropped st \<and> te_ended st' = te_ended st"

lemma after_read_offers: "offers_same st (after_read w chunks st)"
proof -
  have "offers_same st (fold (write_chunk w) chunks st)"
    by (induction chunks arbitrary: st) (auto simp: offers_same_def write_chunk_def split: option.splits)
  then show ?thesis
    by (auto simp: offers_same_def after_read_def flush_through_def split: option.splits)
qed

definition tee_works :: "tee_world \<Rightarrow> bool" where
  "tee_works w \<longleftrightarrow> (\<forall>k. tee_write w k = None \<and> tee_flush w k = None)"

lemma after_read_writing: "tee_works w \<Longrightarrow> te_writing st \<Longrightarrow> te_writing (after_read w chunks st)"
proof -
  assume w: "tee_works w" and st: "te_writing st"
  have "te_writing (fold (write_chunk w) chunks st)"
    using st by (induction chunks arbitrary: st) (use w in \<open>auto simp: write_chunk_def tee_works_def\<close>)
  with w show ?thesis by (simp add: after_read_def flush_through_def tee_works_def)
qed

text \<open>What offering \<open>ks\<close>, in order, does to the queue and to the count of lines it had no room for.\<close>

definition offered :: "tee_world \<Rightarrow> string list \<Rightarrow> tee_state \<Rightarrow> tee_state \<Rightarrow> bool" where
  "offered w ks st st' \<longleftrightarrow>
     te_offers st' = te_offers st + length ks
     \<and> te_queued st' = te_queued st @ map snd (filter (\<lambda>(k, _). tee_send w k = Queued) (enumerate (te_offers st) ks))
     \<and> te_dropped st' = te_dropped st + length (filter (\<lambda>(k, _). tee_send w k = QueueFull) (enumerate (te_offers st) ks))
     \<and> te_ended st' = te_ended st"

lemma offered_nil: "offers_same st st' \<Longrightarrow> offered w [] st st'"
  by (simp add: offered_def offers_same_def)

lemma offered_cons: "offered w ks (offer w l st) st' \<Longrightarrow> offered w (l # ks) st st'"
  by (auto simp: offered_def offer_def Let_def split: send_result.splits)

lemma offered_cong: "offers_same st st1 \<Longrightarrow> offered w ks st1 st' \<Longrightarrow> offered w ks st st'"
  by (simp add: offered_def offers_same_def)

lemma offer_view [simp]:
  "te_written (offer w l st) = te_written st" "te_writing (offer w l st) = te_writing st"
  by (simp_all add: offer_def Let_def split: send_result.splits)

lemma first_line_split: "first_line c @ drop (length (first_line c)) c = c"
proof (cases "newline \<in> set c")
  case True
  then obtain p q where "c = p @ newline # q" "cut_line c = (p @ [newline], True)" using cut_line_some by blast
  then show ?thesis by (simp add: first_line_def)
qed (simp add: first_line_def cut_line_none)

lemma read_bounded_step:
  assumes "no_gaps input" "contents input = (c, None)"
  obtains rest chunks where "read_bounded limit input = (Ok (line_of limit (first_line c)), rest, chunks)"
    "concat chunks = first_line c" "no_gaps rest" "contents rest = (drop (length (first_line c)) c, None)"
proof -
  obtain rest chunks where r: "read_bounded limit input = (Ok (line_of limit (first_line c)), rest, chunks)"
      "concat chunks = first_line c"
      "newline \<in> set c \<longrightarrow> contents rest = (drop (length (concat chunks)) c, None)"
    using read_loop_contents [of "[]" "[]" limit input] assms(2)
    by (auto simp: read_bounded_def loop_result_def)
  have g: "no_gaps rest" "newline \<notin> set c \<longrightarrow> rest = []"
    using read_loop_no_gaps [OF r(1) [unfolded read_bounded_def] assms] by auto
  have "contents rest = (drop (length (first_line c)) c, None)"
    using r(2,3) g(2) cut_line_none [of c] by (cases "newline \<in> set c") (auto simp: first_line_def)
  with that r(1,2) g(1) show ?thesis by blast
qed

lemma tee_content:
  "no_gaps input \<Longrightarrow> contents input = (c, None) \<Longrightarrow> written_of st d \<Longrightarrow>
     written_of (tee_through w limit input st) (d @ c)
     \<and> offered w (kept_lines limit (all_lines c)) st (tee_through w limit input st)
     \<and> (tee_works w \<and> te_writing st \<longrightarrow> te_writing (tee_through w limit input st))"
proof (induction w limit input st arbitrary: c d rule: tee_through.induct)
  case (1 w limit input st)
  obtain rest chunks where r: "read_bounded limit input = (Ok (line_of limit (first_line c)), rest, chunks)"
    "concat chunks = first_line c" "no_gaps rest" "contents rest = (drop (length (first_line c)) c, None)"
    using read_bounded_step [OF "1.prems"(1,2)] by blast
  let ?st = "after_read w chunks st"
  have w: "written_of ?st (d @ first_line c)" using after_read_written [OF "1.prems"(3), of w chunks] r(2) by simp
  have o: "offers_same st ?st" by (rule after_read_offers)
  show ?case
  proof (cases "c = []")
    case True
    then have "first_line c = []" by (simp add: first_line_def cut_line_def)
    with r have "tee_through w limit input st = ?st" by (subst tee_through.simps) (simp add: line_of_def Let_def)
    with True w o \<open>first_line c = []\<close> show ?thesis
      by (simp add: all_lines.simps kept_lines_def List.map_filter_simps offered_nil after_read_writing)
  next
    case c: False
    then have l: "first_line c \<noteq> []" by (rule first_line_nonempty)
    let ?c = "drop (length (first_line c)) c" and ?r = "line_of limit (first_line c)"
    have parts: "(d @ first_line c) @ ?c = d @ c" by (simp add: first_line_split)
    have lines: "all_lines c = first_line c # all_lines ?c" using c by (simp add: all_lines.simps [of c])
    show ?thesis
    proof (cases ?r)
      case (Kept k)
      have kept: "kept_lines limit (all_lines c) = k # kept_lines limit (all_lines ?c)"
        unfolding lines by (simp add: kept_lines_def List.map_filter_simps Kept)
      have step: "tee_through w limit input st = tee_through w limit rest (offer w k ?st)"
        using r(1) Kept by (subst tee_through.simps) (simp add: Let_def)
      have "written_of (offer w k ?st) (d @ first_line c)" using w by (simp add: written_of_def)
      from "1.IH"(1) [OF r(1) [symmetric] refl refl _ Kept r(3,4) this]
      show ?thesis
        unfolding step kept parts
        by (auto intro: offered_cong [OF o] offered_cons after_read_writing)
    next
      case (TooLong n head)
      let ?st2 = "?st\<lparr>te_oversized := te_oversized ?st + 1\<rparr>"
      have kept: "kept_lines limit (all_lines c) = kept_lines limit (all_lines ?c)"
        unfolding lines by (simp add: kept_lines_def List.map_filter_simps TooLong)
      have step: "tee_through w limit input st = tee_through w limit rest ?st2"
        using r(1) TooLong by (subst tee_through.simps) (simp add: Let_def)
      have "written_of ?st2 (d @ first_line c)" using w by (simp add: written_of_def)
      from "1.IH"(2) [OF r(1) [symmetric] refl refl _ TooLong r(3,4) this]
      have IH: "written_of (tee_through w limit rest ?st2) (d @ c)"
          "offered w (kept_lines limit (all_lines ?c)) ?st2 (tee_through w limit rest ?st2)"
          "tee_works w \<and> te_writing ?st2 \<longrightarrow> te_writing (tee_through w limit rest ?st2)"
        unfolding parts by auto
      have "offers_same st ?st2" using o by (simp add: offers_same_def)
      with IH show ?thesis
        unfolding step kept by (auto intro: offered_cong after_read_writing)
    next
      case LineEnded
      with l show ?thesis by (simp add: line_of_def)
    qed
  qed
qed

section \<open>Properties\<close>

text \<open>
  The node's output passes through untouched, and collection never decides that. Whatever lines
  are oversized and however full the queue is, what is written downstream is the node's bytes in
  order, all of them unless a write or a flush failed; and every line within the bound is offered
  exactly once, queued in order where the queue had room and counted where it did not.
\<close>

theorem tee_passes_everything:
  assumes "no_gaps input" and "contents input = (c, None)"
  shows "prefix (te_written (tee_through w limit input tee_start)) c
    \<and> (tee_works w \<longrightarrow> te_written (tee_through w limit input tee_start) = c)
    \<and> offered w (kept_lines limit (all_lines c)) tee_start (tee_through w limit input tee_start)"
proof -
  have "written_of tee_start []" "te_writing tee_start" by (simp_all add: written_of_def tee_start_def)
  with tee_content [OF assms this(1), of w limit] show ?thesis by (auto simp: written_of_def)
qed

section \<open>Witnesses\<close>

theorem tee_passes_everything_witness:
  "te_written (tee_through \<lparr>tee_write = (\<lambda>_. None), tee_flush = (\<lambda>_. None), tee_send = (\<lambda>_. QueueFull)\<rparr> 1
      [Filled [CHR ''a'', CHR ''b'', newline, CHR ''c'']] tee_start) = [CHR ''a'', CHR ''b'', newline, CHR ''c'']"
  using tee_passes_everything [of "[Filled [CHR ''a'', CHR ''b'', newline, CHR ''c'']]"
      "[CHR ''a'', CHR ''b'', newline, CHR ''c'']"
      "\<lparr>tee_write = (\<lambda>_. None), tee_flush = (\<lambda>_. None), tee_send = (\<lambda>_. QueueFull)\<rparr>" 1]
  by (simp add: no_gaps_def tee_works_def)

end
