(* ===== verification/Log_Select.thy ===== *)
theory Log_Select
  imports Json "HOL-Library.Sublist"
begin

text \<open>
  \<open>metsuke/src/logselect.rs\<close>: which trace lines the agent ships. A namespace prefix list less a
  namespace prefix list, both under the host's roots.
\<close>

record select_config =
  sel_namespaces :: "string list"
  sel_excludes :: "string list"

datatype outside_roots = OutsideRoots string string

definition is_under :: "string \<Rightarrow> string \<Rightarrow> bool" where
  "is_under candidate p =
     (case strip_prefix p candidate of
        None \<Rightarrow> False
      | Some rest \<Rightarrow> rest = [] \<or> starts_with ''.'' rest)"

fun check_roots :: "string list \<Rightarrow> string list \<Rightarrow> (outside_roots, unit) result" where
  "check_roots roots [] = Ok ()"
| "check_roots roots (n # ns) =
     (if \<not> list_ex (is_under n) roots then Err (OutsideRoots n (join_text '', '' roots))
      else check_roots roots ns)"

definition select_config_new ::
  "string list \<Rightarrow> string list \<Rightarrow> string list \<Rightarrow> (outside_roots, select_config) result" where
  "select_config_new roots namespaces excludes =
     and_then (check_roots roots namespaces) (\<lambda>_.
       Ok \<lparr>sel_namespaces = namespaces, sel_excludes = excludes\<rparr>)"

datatype selection = Ship trace_line | Skip | SelectedReservedKey

fun json_as_str :: "json \<Rightarrow> string option" where
  "json_as_str (JString s) = Some s"
| "json_as_str _ = None"

definition namespace_of :: "trace_line \<Rightarrow> string option" where
  "namespace_of l = Option.bind (trace_line_get l ''ns'') json_as_str"

definition keeps :: "select_config \<Rightarrow> string \<Rightarrow> bool" where
  "keeps cfg ns \<longleftrightarrow>
     list_ex (is_under ns) (sel_namespaces cfg) \<and> \<not> list_ex (is_under ns) (sel_excludes cfg)"

definition select :: "json_lib \<Rightarrow> select_config \<Rightarrow> string \<Rightarrow> selection" where
  "select J cfg line =
     (case trace_line_parse J line of
        Inl ReservedKey \<Rightarrow> SelectedReservedKey
      | Inl (NotAnObject _) \<Rightarrow> Skip
      | Inr l \<Rightarrow> (case namespace_of l of
          None \<Rightarrow> Skip
        | Some ns \<Rightarrow> if keeps cfg ns then Ship l else Skip))"

section \<open>Lemmas\<close>

lemma is_under_iff: "is_under c p \<longleftrightarrow> c = p \<or> (\<exists>t. c = p @ CHR ''.'' # t)"
  by (auto simp: is_under_def strip_prefix_iff starts_with_iff split: option.splits)
    (metis strip_prefix_append option.distinct(1) self_append_conv)+

abbreviation segments :: "string \<Rightarrow> string list" where
  "segments \<equiv> split_on (CHR ''.'')"

lemma segments_append: "segments (p @ CHR ''.'' # t) = segments p @ segments t"
  by (induction p) (auto split: list.splits)

text \<open>A rule reaches a namespace by segment: its segments are the first of the namespace's.\<close>

lemma is_under_segments: "is_under c p \<longleftrightarrow> prefix (segments p) (segments c)"
proof
  assume "is_under c p"
  then show "prefix (segments p) (segments c)"
    by (auto simp: is_under_iff segments_append)
next
  assume "prefix (segments p) (segments c)"
  then obtain rest where rest: "segments c = segments p @ rest" by (auto simp: prefix_def)
  have c: "c = join_with (CHR ''.'') (segments p @ rest)" using rest join_split by metis
  have p: "p = join_with (CHR ''.'') (segments p)" by simp
  have join: "join_with (CHR ''.'') (xs @ ys) = join_with (CHR ''.'') xs @ CHR ''.'' # join_with (CHR ''.'') ys"
    if "xs \<noteq> []" "ys \<noteq> []" for xs ys :: "string list"
    using that(1) by (induction xs rule: induct_list012) (use that(2) in \<open>auto simp: join_with_Cons\<close>)
  show "is_under c p"
    using c p join [of "segments p" rest] by (cases "rest = []") (auto simp: is_under_iff)
qed

lemma is_under_trans: "is_under a b \<Longrightarrow> is_under b c \<Longrightarrow> is_under a c"
  by (auto simp: is_under_segments intro: prefix_order.trans)

lemma check_roots_Ok: "check_roots roots ns = Ok u \<longleftrightarrow> list_all (\<lambda>n. list_ex (is_under n) roots) ns"
  by (induction ns) auto

section \<open>Properties\<close>

text \<open>
  C33: The host's ceiling holds: whatever rules a configuration was accepted with, a line it ships
  declares a namespace that sits, segment by segment, under one of this host's roots, matches a
  namespace rule and matches no exclusion, and carries no reserved key.
\<close>

theorem shipped_under_roots:
  assumes "select_config_new roots namespaces excludes = Ok cfg" and "select J cfg line = Ship l"
  shows "\<exists>ns. namespace_of l = Some ns \<and> list_ex (\<lambda>root. prefix (segments root) (segments ns)) roots
    \<and> list_ex (is_under ns) namespaces \<and> \<not> list_ex (is_under ns) excludes \<and> trace_line_wf l"
proof -
  have cfg: "sel_namespaces cfg = namespaces" "sel_excludes cfg = excludes"
    and rooted: "list_all (\<lambda>n. list_ex (is_under n) roots) namespaces"
    using assms(1) by (auto simp: select_config_new_def and_then_Ok_iff check_roots_Ok)
  have parsed: "trace_line_parse J line = Ok l"
    using assms(2) by (auto simp: select_def split: sum.splits trace_line_error.splits option.splits if_splits)
  obtain ns where ns: "namespace_of l = Some ns" "keeps cfg ns"
    using assms(2) by (auto simp: select_def parsed split: option.splits if_splits)
  then obtain rule where "rule \<in> set namespaces" "is_under ns rule" by (auto simp: keeps_def cfg list_ex_iff)
  moreover from this obtain root where "root \<in> set roots" "is_under rule root"
    using rooted by (auto simp: list_all_iff list_ex_iff)
  ultimately have "list_ex (\<lambda>root. prefix (segments root) (segments ns)) roots"
    using is_under_trans [of ns rule root] by (auto simp: list_ex_iff is_under_segments)
  with ns trace_line_parse_wf [OF parsed] show ?thesis by (auto simp: keeps_def cfg)
qed

text \<open>
  A rule selects by segment: a namespace under it ships unless excluded, an exclusion wins over
  the rule that selected the line, and a namespace no rule's segments begin is skipped.
\<close>

theorem select_by_segment:
  assumes "trace_line_parse J line = Ok l" and "namespace_of l = Some ns"
  shows "select J cfg line =
    (if list_ex (\<lambda>p. prefix (segments p) (segments ns)) (sel_namespaces cfg)
        \<and> \<not> list_ex (\<lambda>p. prefix (segments p) (segments ns)) (sel_excludes cfg)
     then Ship l else Skip)"
  using assms by (simp add: select_def keeps_def is_under_segments [abs_def])

section \<open>Witnesses\<close>

definition line_json :: json_lib where
  "line_json =
     \<lparr>header_to_vec = (\<lambda>h. Err ''no''), header_from_slice = (\<lambda>b. Err ''no''), schema_version_peek = (\<lambda>b. Err ''no''),
      stamp_peek = (\<lambda>t. Err ''no''), stamp_scrape = (\<lambda>s p. Err ''no''), stamp_object = (\<lambda>obj p. Ok ''o''),
      unstamp_scrape = (\<lambda>t. Err ''no''), unstamp_object = (\<lambda>t. Err ''no''),
      object_from_str = (\<lambda>t. Ok [(''ns'', JString t)]), object_to_string = (\<lambda>obj. [])\<rparr>"

lemmas demo_select_simps = select_config_new_def select_def keeps_def is_under_def starts_with_def line_json_def
  trace_line_parse_def trace_line_of_def PROVENANCE_KEY_def namespace_of_def trace_line_get_def

theorem shipped_under_roots_witness:
  "\<exists>l. select line_json \<lparr>sel_namespaces = [''a.b''], sel_excludes = [''a.b.c'']\<rparr> ''a.b.d'' = Ship l
     \<and> trace_line_wf l"
proof -
  have "select_config_new [''a''] [''a.b''] [''a.b.c''] = Ok \<lparr>sel_namespaces = [''a.b''], sel_excludes = [''a.b.c'']\<rparr>"
    by (simp add: demo_select_simps)
  moreover have "select line_json \<lparr>sel_namespaces = [''a.b''], sel_excludes = [''a.b.c'']\<rparr> ''a.b.d''
      = Ship (TraceLine [(''ns'', JString ''a.b.d'')])"
    by (simp add: demo_select_simps)
  ultimately show ?thesis using shipped_under_roots by blast
qed

theorem select_by_segment_witness:
  "select line_json \<lparr>sel_namespaces = [''a.b''], sel_excludes = []\<rparr> ''a.bc'' = Skip"
  using select_by_segment [of line_json "''a.bc''" "TraceLine [(''ns'', JString ''a.bc'')]" "''a.bc''"]
  by (simp add: demo_select_simps)

end
