(* ===== verification/Log_Tail.thy ===== *)
theory Log_Tail
  imports Log_Tee Log_Select Spool_Client
begin

text \<open>
  \<open>metsuke/src/logtail.rs\<close>: read lines, keep what the rules want, spool it. A line source is any
  \<open>next_line\<close>; the loop may not end, so \<open>drain\<close> is partial, and the locale says when it does. Which
  SQLite answers mean a busy file and which a row too big is an argument (\<open>push_world\<close>), as is what
  the upload loop does to the file between attempts. \<open>run\<close>, which sleeps and respawns, is in \<open>Log_Run\<close>.
\<close>

definition BUSY_RETRIES :: nat where "BUSY_RETRIES = 3"

record push_world =
  pw_busy :: "string \<Rightarrow> bool"
  pw_too_big :: "string \<Rightarrow> bool"
  pw_fault :: "nat \<Rightarrow> spool_faults"
  pw_before :: "nat \<Rightarrow> spool_db \<Rightarrow> spool_db"

definition is_busy :: "push_world \<Rightarrow> spool_error \<Rightarrow> bool" where
  "is_busy w e = (case e of SpoolSqlite m \<Rightarrow> pw_busy w m | Stamp _ \<Rightarrow> False)"

definition is_too_big :: "push_world \<Rightarrow> spool_error \<Rightarrow> bool" where
  "is_too_big w e = (case e of SpoolSqlite m \<Rightarrow> pw_too_big w m | Stamp _ \<Rightarrow> False)"

datatype drain_end = NodeExited | SourceFailed

text \<open>The retry loop: \<open>left\<close> retries remain, \<open>k\<close> pushes were attempted before.\<close>

fun push_waiting ::
  "json_lib \<Rightarrow> push_world \<Rightarrow> log_spool \<Rightarrow> trace_line \<Rightarrow> nat \<Rightarrow> nat \<Rightarrow> spool_db
    \<Rightarrow> spool_db \<times> nat \<times> (spool_error, nat) result" where
  "push_waiting J w sp l left k db =
     (case log_spool_push J (pw_fault w k) sp l (pw_before w k db) of
        (db', Inr dropped) \<Rightarrow> (db', Suc k, Ok dropped)
      | (db', Inl e) \<Rightarrow>
          (case left of
             0 \<Rightarrow> (db', Suc k, Err e)
           | Suc left' \<Rightarrow> if is_busy w e then push_waiting J w sp l left' (Suc k) db' else (db', Suc k, Err e)))"

declare push_waiting.simps [simp del]

definition push_waiting_out_contention ::
  "json_lib \<Rightarrow> push_world \<Rightarrow> log_spool \<Rightarrow> trace_line \<Rightarrow> nat \<Rightarrow> spool_db
    \<Rightarrow> spool_db \<times> nat \<times> (spool_error, nat) result" where
  "push_waiting_out_contention J w sp l k db = push_waiting J w sp l BUSY_RETRIES k db"

record drain_state =
  dr_db :: spool_db
  dr_attempts :: nat
  dr_dropped :: nat
  dr_reserved :: nat
  dr_too_big :: nat

definition drain_start :: "spool_db \<Rightarrow> drain_state" where
  "drain_start db = \<lparr>dr_db = db, dr_attempts = 0, dr_dropped = 0, dr_reserved = 0, dr_too_big = 0\<rparr>"

text \<open>What one line of the stream does; an error is one the loop returns on.\<close>

definition drain_line ::
  "json_lib \<Rightarrow> push_world \<Rightarrow> select_config \<Rightarrow> log_spool \<Rightarrow> string \<Rightarrow> drain_state \<Rightarrow> drain_state \<times> spool_error option" where
  "drain_line J w sel sp line st =
     (case select J sel line of
        SelectedReservedKey \<Rightarrow> (st\<lparr>dr_reserved := dr_reserved st + 1\<rparr>, None)
      | Skip \<Rightarrow> (st, None)
      | Ship l \<Rightarrow>
          (case push_waiting_out_contention J w sp l (dr_attempts st) (dr_db st) of
             (db, k, r) \<Rightarrow>
               (let st' = st\<lparr>dr_db := db, dr_attempts := k\<rparr>
                in case r of
                     Inr n \<Rightarrow> (st'\<lparr>dr_dropped := dr_dropped st + n\<rparr>, None)
                   | Inl e \<Rightarrow> if is_too_big w e then (st'\<lparr>dr_too_big := dr_too_big st + 1\<rparr>, None)
                             else (st', Some e))))"

type_synonym 's next_line = "'s \<Rightarrow> 's \<times> (line_source_error, string option) result"

partial_function (option) drain ::
  "'s next_line \<Rightarrow> json_lib \<Rightarrow> push_world \<Rightarrow> select_config \<Rightarrow> log_spool \<Rightarrow> 's \<Rightarrow> drain_state
    \<Rightarrow> ('s \<times> drain_state \<times> (spool_error, drain_end) result) option" where
  "drain next_line J w sel sp s st =
     (case next_line s of
        (s', Inl e) \<Rightarrow> Some (s', st, Ok SourceFailed)
      | (s', Inr None) \<Rightarrow> Some (s', st, Ok NodeExited)
      | (s', Inr (Some line)) \<Rightarrow>
          (case drain_line J w sel sp line st of
             (st', Some e) \<Rightarrow> Some (s', st', Err e)
           | (st', None) \<Rightarrow> drain next_line J w sel sp s' st'))"

section \<open>Line sources\<close>

text \<open>What a stream hands over, in order, and how it ends.\<close>

inductive streams :: "'s next_line \<Rightarrow> 's \<Rightarrow> string list \<Rightarrow> drain_end \<Rightarrow> bool" for next_line where
  stream_end: "next_line s = (s', Inr None) \<Longrightarrow> streams next_line s [] NodeExited"
| stream_failed: "next_line s = (s', Inl e) \<Longrightarrow> streams next_line s [] SourceFailed"
| stream_line: "next_line s = (s', Inr (Some l)) \<Longrightarrow> streams next_line s' ls e \<Longrightarrow> streams next_line s (l # ls) e"

text \<open>The lines of a list, one by one, until one of them fails the drain.\<close>

fun drain_lines ::
  "json_lib \<Rightarrow> push_world \<Rightarrow> select_config \<Rightarrow> log_spool \<Rightarrow> string list \<Rightarrow> drain_state \<Rightarrow> drain_state \<times> spool_error option" where
  "drain_lines J w sel sp [] st = (st, None)"
| "drain_lines J w sel sp (l # ls) st =
     (case drain_line J w sel sp l st of
        (st', None) \<Rightarrow> drain_lines J w sel sp ls st'
      | (st', Some e) \<Rightarrow> (st', Some e))"

text \<open>
  The contract the drain relies on: a source comes to an end of what it holds, and a line it hands
  over is one line of valid UTF-8.
\<close>

definition line_text :: "string \<Rightarrow> bool" where
  "line_text l \<longleftrightarrow> newline \<notin> set l \<and> valid_utf8 l"

locale line_source =
  fixes next_line :: "'s next_line" and ok :: "'s \<Rightarrow> bool" and remaining :: "'s \<Rightarrow> nat"
  assumes keeps_ok: "ok s \<Longrightarrow> next_line s = (s', r) \<Longrightarrow> ok s'"
    and progress: "ok s \<Longrightarrow> next_line s = (s', Inr (Some l)) \<Longrightarrow> remaining s' < remaining s"
    and one_line_of_text: "ok s \<Longrightarrow> next_line s = (s', Inr (Some l)) \<Longrightarrow> line_text l"
begin

lemma stream_exists: "ok s \<Longrightarrow> \<exists>ls e. streams next_line s ls e"
proof (induction "remaining s" arbitrary: s rule: less_induct)
  case less
  obtain s' r where s: "next_line s = (s', r)" by fastforce
  show ?case
  proof (cases r)
    case (Inl e)
    with s show ?thesis by (auto intro: stream_failed)
  next
    case (Inr opt)
    show ?thesis
    proof (cases opt)
      case None
      with s Inr show ?thesis by (auto intro: stream_end)
    next
      case (Some l)
      with s Inr have "next_line s = (s', Inr (Some l))" by simp
      with less.hyps [OF progress [OF less.prems this] keeps_ok [OF less.prems this]] show ?thesis by (auto intro: stream_line)
    qed
  qed
qed

lemma stream_lines: "streams next_line s ls e \<Longrightarrow> ok s \<Longrightarrow> list_all line_text ls"
  by (induction rule: streams.induct) (auto dest: one_line_of_text keeps_ok)

text \<open>The drain returns, with what the source's lines do to the spool one after the other.\<close>

lemma drain_is_lines:
  "streams next_line s ls e \<Longrightarrow>
     \<exists>s'. drain next_line J w sel sp s st
       = (case drain_lines J w sel sp ls st of
            (st', None) \<Rightarrow> Some (s', st', Ok e)
          | (st', Some err) \<Rightarrow> Some (s', st', Err err))"
proof (induction arbitrary: st rule: streams.induct)
  case (stream_line s s' l ls e)
  obtain st' r where "drain_line J w sel sp l st = (st', r)" by fastforce
  with stream_line show ?case
    by (subst drain.simps) (auto split: option.split)
qed (subst drain.simps, simp)+

lemma drain_returns:
  assumes "ok s"
  obtains ls e s' where "streams next_line s ls e" "list_all line_text ls"
    "drain next_line J w sel sp s st
       = (case drain_lines J w sel sp ls st of
            (st', None) \<Rightarrow> Some (s', st', Ok e)
          | (st', Some err) \<Rightarrow> Some (s', st', Err err))"
  using stream_exists [OF assms] drain_is_lines stream_lines [OF _ assms] by blast

end

section \<open>The two sources keep the contract\<close>

lemma first_line_butlast: "newline \<notin> set (butlast (first_line c))"
proof (cases "newline \<in> set c")
  case True
  then obtain p q where "newline \<notin> set p" "cut_line c = (p @ [newline], True)" using cut_line_some by blast
  then show ?thesis by (simp add: first_line_def)
next
  case False
  then show ?thesis by (auto simp: first_line_def cut_line_none dest: in_set_butlastD)
qed

lemma trim_no_newline:
  assumes "newline \<notin> set (butlast l)"
  shows "newline \<notin> set (trim_terminators l)"
proof -
  obtain t ts where t: "l = t @ ts" "trim_terminators l = t" "t \<noteq> [] \<longrightarrow> \<not> is_terminator (last t)"
    using trim_terminators_split [of l] by blast
  show ?thesis
  proof (cases "ts = []")
    case True
    with t assms show ?thesis by (cases t rule: rev_cases) (auto simp: is_terminator_def)
  next
    case False
    with t assms show ?thesis by (auto simp: butlast_append)
  qed
qed

lemma in_butlast_take: "x \<in> set (butlast (take n l)) \<Longrightarrow> x \<in> set (butlast l)"
proof (cases "n \<le> length l")
  case True
  then have "n - 1 \<le> length l - 1" by simp
  from set_take_subset_set_take [OF this, of l] True
  show "x \<in> set (butlast (take n l)) \<Longrightarrow> x \<in> set (butlast l)"
    by (auto simp: butlast_take butlast_conv_take [of l])
qed simp

lemma read_kept_text:
  assumes "read_bounded limit input = (Ok (Kept s), rest, chunks)"
  shows "line_text s"
proof -
  have "loop_result limit [] (contents input) = Ok (Kept s)"
    using read_loop_contents [of "[]" "[]" limit input] assms by (auto simp: read_bounded_def)
  then have "line_of limit (first_line (fst (contents input))) = Kept s"
    by (auto simp: loop_result_def split: option.splits if_splits)
  then obtain l where l: "l = first_line (fst (contents input))"
      "s = utf8_lossy (trim_terminators (take (read_room limit) l))"
    by (auto simp: line_of_def bounded_def Let_def split: if_splits)
  have "newline \<notin> set (butlast (take (read_room limit) l))"
    using first_line_butlast l(1) in_butlast_take by metis
  then show ?thesis
    by (simp add: line_text_def l(2) lossy_valid lossy_newline trim_no_newline)
qed

lemma journal_next_line_facts:
  "journal_next_line js = (js', Inr (Some l)) \<Longrightarrow> input_size (js_lines js') < input_size (js_lines js) \<and> line_text l"
proof (induction js rule: journal_next_line.induct)
  case (1 js)
  obtain r rest chunks where r: "read_bounded (js_max_line_bytes js) (js_lines js) = (r, rest, chunks)"
    by (metis prod_cases3)
  from "1.prems" r have "r \<noteq> Inr LineEnded" "\<nexists>e. r = Inl e"
    by (auto simp: journal_next_line.simps [of js])
  then consider (kept) k where "r = Inr (Kept k)" | (long) n head where "r = Inr (TooLong n head)"
    by (metis line.exhaust sum.exhaust)
  then show ?case
  proof cases
    case kept
    with "1.prems" r read_kept_text [of _ _ k] read_bounded_progress [of _ _ "Kept k"] show ?thesis
      by (auto simp: journal_next_line.simps [of js])
  next
    case long
    have "input_size rest < input_size (js_lines js)"
      using r long read_bounded_progress [of _ _ "TooLong n head"] by simp
    moreover have "journal_next_line (js\<lparr>js_lines := rest, js_oversized := js_oversized js + 1\<rparr>) = (js', Inr (Some l))"
      using "1.prems" r long by (simp add: journal_next_line.simps [of js])
    ultimately show ?thesis using "1.IH" [OF r [symmetric] long refl refl] by auto
  qed
qed

interpretation journal: line_source journal_next_line "\<lambda>_. True" "\<lambda>js. input_size (js_lines js)"
  by unfold_locales (auto dest: journal_next_line_facts)

interpretation pipe: line_source pipe_next_line "\<lambda>ps. list_all line_text (ps_lines ps)" "\<lambda>ps. length (ps_lines ps)"
  by unfold_locales (auto simp: pipe_next_line_def split: list.splits option.splits)

lemma tee_queues_text: "list_all line_text (te_queued st) \<Longrightarrow> list_all line_text (te_queued (tee_through w limit input st))"
proof (induction w limit input st rule: tee_through.induct)
  case (1 w limit input st)
  obtain r rest chunks where r: "read_bounded limit input = (r, rest, chunks)" by (metis prod_cases3)
  let ?st = "after_read w chunks st"
  have q: "list_all line_text (te_queued ?st)"
    using "1.prems" after_read_offers [of st w chunks] by (simp add: offers_same_def)
  have offer: "list_all line_text (te_queued (offer w k ?st))" if "line_text k" for k
    using q that by (simp add: offer_def Let_def split: send_result.split)
  consider (fail) e where "r = Inl e" | (ended) "r = Inr LineEnded"
    | (kept) k where "r = Inr (Kept k)" | (long) n head where "r = Inr (TooLong n head)"
    by (metis line.exhaust sum.exhaust)
  then show ?case
  proof cases
    case kept
    with "1.IH"(1) [OF r [symmetric] refl refl kept refl] read_kept_text [of limit input k] offer r show ?thesis
      by (subst tee_through.simps) (simp add: Let_def)
  next
    case long
    with "1.IH"(2) [OF r [symmetric] refl refl long refl] q r show ?thesis
      by (subst tee_through.simps) (simp add: Let_def)
  qed (subst tee_through.simps, simp add: r q Let_def)+
qed

section \<open>What a drain does to the spool\<close>

definition shipped :: "json_lib \<Rightarrow> select_config \<Rightarrow> string list \<Rightarrow> trace_line list" where
  "shipped J sel ls = List.map_filter (\<lambda>l. case select J sel l of Ship t \<Rightarrow> Some t | _ \<Rightarrow> None) ls"

text \<open>A file nothing fails on, with nobody else at it.\<close>

definition quiet_push :: "push_world \<Rightarrow> bool" where
  "quiet_push w \<longleftrightarrow> (\<forall>k. pw_fault w k = (\<lambda>_. None) \<and> pw_before w k = (\<lambda>db. db))"

lemma push_waiting_quiet:
  assumes "quiet_push w" "payload_line_trace J l (lsp_provenance sp) = Ok line"
  shows "push_waiting_out_contention J w sp l k db
    = (set_table LINES (fst (push_table line (lsp_max_bytes sp) (table LINES db))) db, Suc k,
       Ok (snd (push_table line (lsp_max_bytes sp) (table LINES db))))"
  using assms
  by (simp add: push_waiting_out_contention_def push_waiting.simps quiet_push_def log_spool_push_def
      push_capped_def split: prod.split)

lemma drain_lines_quiet:
  assumes "quiet_push w" "\<forall>l. payload_line_trace J l (lsp_provenance sp) = Ok (stamp l)"
  shows "\<exists>st'. drain_lines J w sel sp ls st = (st', None)
    \<and> table LINES (dr_db st') = fold (\<lambda>l t. fst (push_table (stamp l) (lsp_max_bytes sp) t)) (shipped J sel ls) (table LINES (dr_db st))
    \<and> table SCRAPES (dr_db st') = table SCRAPES (dr_db st)
    \<and> delivery_counter (dr_db st') = delivery_counter (dr_db st)"
proof (induction ls arbitrary: st)
  case (Cons l ls)
  show ?case
  proof (cases "select J sel l")
    case (Ship t)
    let ?st = "st\<lparr>dr_db := set_table LINES (fst (push_table (stamp t) (lsp_max_bytes sp) (table LINES (dr_db st)))) (dr_db st),
        dr_attempts := Suc (dr_attempts st),
        dr_dropped := dr_dropped st + snd (push_table (stamp t) (lsp_max_bytes sp) (table LINES (dr_db st)))\<rparr>"
    have "drain_line J w sel sp l st = (?st, None)"
      using assms(2) by (simp add: drain_line_def Ship push_waiting_quiet [OF assms(1), of J t sp "stamp t"] Let_def)
    with Cons.IH [of ?st] show ?thesis by (simp add: shipped_def Ship List.map_filter_simps table_set_other)
  next
    case Skip
    with Cons.IH [of st] show ?thesis by (simp add: drain_line_def shipped_def List.map_filter_simps)
  next
    case SelectedReservedKey
    with Cons.IH [of "st\<lparr>dr_reserved := dr_reserved st + 1\<rparr>"] show ?thesis
      by (simp add: drain_line_def shipped_def List.map_filter_simps)
  qed
qed (simp add: shipped_def List.map_filter_simps)

lemma streams_pipe: "streams pipe_next_line \<lparr>ps_lines = ls, ps_ended = None\<rparr> ls NodeExited"
  by (induction ls) (auto intro: streams.intros simp: pipe_next_line_def)

section \<open>Properties\<close>


text \<open>
  C36: From the node's stdout to the spool: where the queue keeps up and the file takes every write,
  the agent's pipe spools exactly the lines the rules select, in the order the node wrote them, each
  as its stamped line under the cap, and touches nothing else in the file.
\<close>

theorem pipe_spools_selected_lines:
  assumes "no_gaps input" and "contents input = (c, None)" and "\<forall>k. tee_send w k = Queued"
    and "quiet_push pw" and "\<forall>l. payload_line_trace J l (lsp_provenance sp) = Ok (stamp l)"
  shows "\<exists>ps' st'. drain pipe_next_line J pw sel sp (pipe_of (tee_through w limit input tee_start)) (drain_start db)
      = Some (ps', st', Ok NodeExited)
    \<and> table LINES (dr_db st') = fold (\<lambda>l t. fst (push_table (stamp l) (lsp_max_bytes sp) t))
        (shipped J sel (kept_lines limit (all_lines c))) (table LINES db)
    \<and> table SCRAPES (dr_db st') = table SCRAPES db"
proof -
  let ?ks = "kept_lines limit (all_lines c)"
  have "offered w ?ks tee_start (tee_through w limit input tee_start)"
    using tee_content [OF assms(1,2), of tee_start "[]" w limit] by (simp add: written_of_def tee_start_def)
  then have "pipe_of (tee_through w limit input tee_start) = \<lparr>ps_lines = ?ks, ps_ended = None\<rparr>"
    using assms(3) by (simp add: offered_def pipe_of_def tee_start_def case_prod_unfold)
  with pipe.drain_is_lines [OF streams_pipe [of ?ks], of J pw sel sp "drain_start db"]
    drain_lines_quiet [OF assms(4,5), of sel ?ks "drain_start db"]
  show ?thesis by (auto simp: drain_start_def)
qed

section \<open>Witnesses\<close>

definition demo_push :: push_world where
  "demo_push = \<lparr>pw_busy = (\<lambda>_. False), pw_too_big = (\<lambda>_. False), pw_fault = (\<lambda>_ _. None), pw_before = (\<lambda>_ db. db)\<rparr>"

theorem pipe_spools_selected_lines_witness:
  "\<exists>ps' st'. drain pipe_next_line line_json demo_push \<lparr>sel_namespaces = [''a''], sel_excludes = []\<rparr>
      \<lparr>lsp_max_bytes = 9, lsp_provenance = \<lparr>pv_pool = PoolId [], pv_agent = ''x''\<rparr>\<rparr>
      (pipe_of (tee_through \<lparr>tee_write = (\<lambda>_. None), tee_flush = (\<lambda>_. None), tee_send = (\<lambda>_. Queued)\<rparr> 5
         [Filled [CHR ''a'', newline]] tee_start)) (drain_start fresh_db) = Some (ps', st', Ok NodeExited)"
  using pipe_spools_selected_lines [of "[Filled [CHR ''a'', newline]]" "[CHR ''a'', newline]"
      "\<lparr>tee_write = (\<lambda>_. None), tee_flush = (\<lambda>_. None), tee_send = (\<lambda>_. Queued)\<rparr>" demo_push line_json
      "\<lparr>lsp_max_bytes = 9, lsp_provenance = \<lparr>pv_pool = PoolId [], pv_agent = ''x''\<rparr>\<rparr>" "\<lambda>_. PayloadLine ''o''"
      "\<lparr>sel_namespaces = [''a''], sel_excludes = []\<rparr>" 5 fresh_db]
  by (auto simp: no_gaps_def quiet_push_def demo_push_def payload_line_trace_def line_json_def)

end
