(* ===== verification/Rate_Limit.thy ===== *)
theory Rate_Limit
  imports Json
begin

text \<open>
  \<open>metsuke-server/src/ratelimit.rs\<close>: two budgets counted in fixed windows, one a pool's own and one all
  pools share. The clock is an argument. A duration is a number of nanoseconds; \<open>used\<close> never passes
  its bound, so the \<open>u32\<close> does not wrap.
\<close>

section \<open>The limiter\<close>

datatype charged = Allowed | PoolIsOver | ServerIsOver

record window =
  started_at :: instant
  used :: nat

record rate_limiter =
  rl_max_per_pool :: nat
  rl_max_total :: nat
  rl_window :: int
  rl_pools :: "pool_id \<Rightarrow> window option"
  rl_total :: window

text \<open>\<open>Window::at\<close>: the window as it stands now, restarted where now is past it.\<close>

definition window_at :: "instant \<Rightarrow> int \<Rightarrow> window \<Rightarrow> window" where
  "window_at now width w = (if width \<le> now - started_at w then \<lparr>started_at = now, used = 0\<rparr> else w)"

definition window_spend :: "nat \<Rightarrow> window \<Rightarrow> bool \<times> window" where
  "window_spend bound w = (if bound \<le> used w then (False, w) else (True, w\<lparr>used := used w + 1\<rparr>))"

definition new_rate_limiter :: "nat \<Rightarrow> nat \<Rightarrow> nat \<Rightarrow> rate_limiter" where
  "new_rate_limiter max_per_pool max_total window_secs =
     \<lparr>rl_max_per_pool = max_per_pool, rl_max_total = max_total,
      rl_window = int window_secs * 1000000000, rl_pools = (\<lambda>_. None),
      rl_total = \<lparr>started_at = 0, used = 0\<rparr>\<rparr>"

definition pool_window :: "rate_limiter \<Rightarrow> pool_id \<Rightarrow> instant \<Rightarrow> window" where
  "pool_window rl pool now =
     window_at now (rl_window rl) (case rl_pools rl pool of None \<Rightarrow> \<lparr>started_at = now, used = 0\<rparr> | Some w \<Rightarrow> w)"

definition charge :: "pool_id \<Rightarrow> instant \<Rightarrow> rate_limiter \<Rightarrow> rate_limiter \<times> charged" where
  "charge pool now rl =
     (case window_spend (rl_max_per_pool rl) (pool_window rl pool now) of
        (False, w) \<Rightarrow> (rl\<lparr>rl_pools := (rl_pools rl)(pool := Some w)\<rparr>, PoolIsOver)
      | (True, w) \<Rightarrow>
          (let rl1 = rl\<lparr>rl_pools := (rl_pools rl)(pool := Some w)\<rparr>
           in case window_spend (rl_max_total rl) (window_at now (rl_window rl) (rl_total rl)) of
                (False, t) \<Rightarrow> (rl1\<lparr>rl_total := t\<rparr>, ServerIsOver)
              | (True, t) \<Rightarrow> (rl1\<lparr>rl_total := t\<rparr>, Allowed)))"

text \<open>The answers to a sequence of uploads, each with its pool and the clock it met.\<close>

fun charges :: "rate_limiter \<Rightarrow> (pool_id \<times> instant) list \<Rightarrow> charged list" where
  "charges rl [] = []"
| "charges rl ((pool, now) # rest) = (case charge pool now rl of (rl', c) \<Rightarrow> c # charges rl' rest)"

section \<open>One window\<close>

text \<open>What one window answers to a sequence of clock readings.\<close>

fun spends :: "nat \<Rightarrow> int \<Rightarrow> window \<Rightarrow> instant list \<Rightarrow> bool list" where
  "spends bound width w [] = []"
| "spends bound width w (n # ns) =
     (case window_spend bound (window_at n width w) of (b, w') \<Rightarrow> b # spends bound width w' ns)"

definition spent_in :: "instant \<Rightarrow> int \<Rightarrow> instant list \<Rightarrow> bool list \<Rightarrow> nat" where
  "spent_in t width ns bs = length (filter (\<lambda>(n, b). b \<and> t \<le> n \<and> n < t + width) (zip ns bs))"

lemma spent_in_Nil [simp]: "spent_in t width [] bs = 0"
  by (simp add: spent_in_def)

lemma spent_in_Cons [simp]:
  "spent_in t width (n # ns) (b # bs)
    = (if b \<and> t \<le> n \<and> n < t + width then 1 else 0) + spent_in t width ns bs"
  by (simp add: spent_in_def)

lemmas window_simps = window_at_def window_spend_def

lemma spends_no_restart:
  assumes "\<forall>n \<in> set ns. t \<le> n \<and> n < t + width \<longrightarrow> n < started_at w + width"
    and "\<forall>n \<in> set ns. t \<le> n" and "sorted ns"
  shows "spent_in t width ns (spends bound width w ns) \<le> bound - used w"
  using assms
proof (induction ns arbitrary: w)
  case (Cons n ns)
  show ?case
  proof (cases "n < t + width")
    case True
    then have stay: "window_at n width w = w" using Cons.prems by (auto simp: window_at_def)
    have IH: "spent_in t width ns (spends bound width w' ns) \<le> bound - used w'"
      if "started_at w' = started_at w" for w'
      using Cons.IH [of w'] Cons.prems that by auto
    show ?thesis
      using IH [of w] IH [of "w\<lparr>used := used w + 1\<rparr>"] by (auto simp: stay window_spend_def)
  next
    case False
    then have late: "\<not> m < t + width" if "m \<in> set ns" for m using Cons.prems that by auto
    have "filter (\<lambda>(n, b). b \<and> t \<le> n \<and> n < t + width) (zip ns bs) = []" for bs
      using late by (auto simp: filter_empty_conv dest: set_zip_leftD)
    then have "spent_in t width ns bs = 0" for bs by (simp add: spent_in_def)
    with False show ?thesis by (auto split: prod.splits)
  qed
qed simp

lemma spends_from_start:
  assumes "\<forall>n \<in> set ns. t \<le> n" and "sorted ns" and "used w \<le> bound"
  shows "spent_in t width ns (spends bound width w ns) \<le> (bound - used w) + bound"
  using assms
proof (induction ns arbitrary: w)
  case (Cons n ns)
  have sorted: "\<forall>m \<in> set ns. n \<le> m" "\<forall>m \<in> set ns. t \<le> m" "sorted ns" and n: "t \<le> n"
    using Cons.prems by auto
  show ?case
  proof (cases "width \<le> n - started_at w")
    case True
    have "spent_in t width (n # ns) (spends bound width \<lparr>started_at = n, used = 0\<rparr> (n # ns)) \<le> bound"
    proof -
      have "spent_in t width (n # ns) (spends bound width \<lparr>started_at = n, used = 0\<rparr> (n # ns))
          \<le> bound - used \<lparr>started_at = n, used = 0\<rparr>"
        using sorted n by (intro spends_no_restart) auto
      then show ?thesis by simp
    qed
    moreover have "window_at n width w = window_at n width \<lparr>started_at = n, used = 0\<rparr>"
      using True by (simp add: window_at_def)
    ultimately show ?thesis by simp
  next
    case False
    with sorted n Cons.IH [of w] Cons.IH [of "w\<lparr>used := used w + 1\<rparr>"] Cons.prems show ?thesis
      by (auto simp: window_simps)
  qed
qed simp

lemma window_used_le: "used w \<le> bound \<Longrightarrow> used (snd (window_spend bound (window_at n width w))) \<le> bound"
  by (auto simp: window_simps)

lemma spends_bounded:
  assumes "sorted ns" and "used w \<le> bound"
  shows "spent_in t width ns (spends bound width w ns) \<le> 2 * bound"
  using assms
proof (induction ns arbitrary: w)
  case (Cons n ns)
  show ?case
  proof (cases "t \<le> n")
    case True
    have "\<forall>m \<in> set (n # ns). t \<le> m" using True Cons.prems(1) by auto
    then have "spent_in t width (n # ns) (spends bound width w (n # ns)) \<le> (bound - used w) + bound"
      using Cons.prems by (rule spends_from_start)
    then show ?thesis using Cons.prems(2) by linarith
  next
    case False
    obtain b w' where sp: "window_spend bound (window_at n width w) = (b, w')" by fastforce
    with Cons.prems(2) have "used w' \<le> bound" using window_used_le [of w bound n width] by simp
    with Cons.IH [of w'] Cons.prems(1) False sp show ?thesis by simp
  qed
qed simp

section \<open>The limiter is two windows\<close>

definition limiter_ok :: "rate_limiter \<Rightarrow> bool" where
  "limiter_ok rl \<longleftrightarrow> used (rl_total rl) \<le> rl_max_total rl
     \<and> (\<forall>p w. rl_pools rl p = Some w \<longrightarrow> used w \<le> rl_max_per_pool rl)"

lemma new_limiter_ok: "limiter_ok (new_rate_limiter a b s)"
  by (simp add: limiter_ok_def new_rate_limiter_def)

lemma charge_ok:
  assumes "limiter_ok rl" and "charge pool now rl = (rl', c)"
  shows "limiter_ok rl'"
  using assms
  by (auto simp: limiter_ok_def charge_def window_simps pool_window_def Let_def split: if_splits option.splits)

lemma charge_frame:
  assumes "charge pool now rl = (rl', c)"
  shows "rl_max_per_pool rl' = rl_max_per_pool rl" "rl_max_total rl' = rl_max_total rl"
    "rl_window rl' = rl_window rl" "p \<noteq> pool \<Longrightarrow> rl_pools rl' p = rl_pools rl p"
  using assms by (auto simp: charge_def Let_def split: prod.splits bool.splits)

text \<open>What of the answers is about one pool, and about the server.\<close>

fun asks_of :: "pool_id \<Rightarrow> (pool_id \<times> instant) list \<Rightarrow> charged list \<Rightarrow> (instant \<times> charged) list" where
  "asks_of pool ((p, n) # rs) (c # cs) = (if p = pool then [(n, c)] else []) @ asks_of pool rs cs"
| "asks_of pool _ _ = []"

fun asks_server :: "(pool_id \<times> instant) list \<Rightarrow> charged list \<Rightarrow> (instant \<times> charged) list" where
  "asks_server ((p, n) # rs) (c # cs) = (if c \<noteq> PoolIsOver then [(n, c)] else []) @ asks_server rs cs"
| "asks_server _ _ = []"

definition held_window :: "rate_limiter \<Rightarrow> pool_id \<Rightarrow> instant list \<Rightarrow> window" where
  "held_window rl pool ns =
     (case rl_pools rl pool of Some w \<Rightarrow> w | None \<Rightarrow> \<lparr>started_at = hd ns, used = 0\<rparr>)"

lemma pool_spends:
  "map (\<lambda>(n, c). c \<noteq> PoolIsOver) (asks_of pool rs (charges rl rs))
    = spends (rl_max_per_pool rl) (rl_window rl)
        (held_window rl pool (map fst (asks_of pool rs (charges rl rs))))
        (map fst (asks_of pool rs (charges rl rs)))"
proof (induction rs arbitrary: rl)
  case (Cons r rs)
  obtain p n where r: "r = (p, n)" by fastforce
  obtain rl' c where c: "charge p n rl = (rl', c)" by fastforce
  note frame = charge_frame [OF c]
  let ?asks = "asks_of pool rs (charges rl' rs)"
  show ?case
  proof (cases "p = pool")
    case True
    obtain b w where bw: "window_spend (rl_max_per_pool rl) (pool_window rl pool n) = (b, w)" by fastforce
    from c bw True have "rl_pools rl' pool = Some w" and b: "b \<longleftrightarrow> c \<noteq> PoolIsOver"
      by (auto simp: charge_def Let_def split: prod.splits bool.splits)
    then have "held_window rl' pool ns = w" for ns by (simp add: held_window_def)
    moreover have "pool_window rl pool n = window_at n (rl_window rl) (held_window rl pool (n # ns))" for ns
      by (cases "rl_pools rl pool") (simp_all add: pool_window_def held_window_def)
    ultimately show ?thesis using Cons.IH [of rl'] r c True bw b frame by simp
  next
    case False
    with frame(4) [of pool] have "held_window rl' pool ns = held_window rl pool ns" for ns
      by (simp add: held_window_def)
    with Cons.IH [of rl'] r c False frame show ?thesis by simp
  qed
qed simp

lemma server_spends:
  "map (\<lambda>(n, c). c = Allowed) (asks_server rs (charges rl rs))
    = spends (rl_max_total rl) (rl_window rl) (rl_total rl) (map fst (asks_server rs (charges rl rs)))"
proof (induction rs arbitrary: rl)
  case (Cons r rs)
  obtain p n where r: "r = (p, n)" by fastforce
  obtain rl' c where c: "charge p n rl = (rl', c)" by fastforce
  note frame = charge_frame [OF c]
  obtain b w where bw: "window_spend (rl_max_per_pool rl) (pool_window rl p n) = (b, w)" by fastforce
  obtain b2 t where t: "window_spend (rl_max_total rl) (window_at n (rl_window rl) (rl_total rl)) = (b2, t)"
    by fastforce
  show ?case
  proof (cases b)
    case True
    with c bw t have "rl_total rl' = t" "c = (if b2 then Allowed else ServerIsOver)"
      by (auto simp: charge_def Let_def split: bool.splits)
    with Cons.IH [of rl'] r c t frame show ?thesis by (simp split: if_splits)
  next
    case False
    with c bw have "rl_total rl' = rl_total rl" "c = PoolIsOver"
      by (auto simp: charge_def Let_def split: bool.splits)
    with Cons.IH [of rl'] r c frame show ?thesis by simp
  qed
qed simp

lemma asks_sorted:
  "sorted (map snd rs) \<Longrightarrow> sorted (map fst (asks_of pool rs cs))"
  "sorted (map snd rs) \<Longrightarrow> sorted (map fst (asks_server rs cs))"
proof -
  have "set (map fst (asks_of pool rs cs)) \<subseteq> set (map snd rs)" for rs cs
    by (induction pool rs cs rule: asks_of.induct) auto
  then show "sorted (map snd rs) \<Longrightarrow> sorted (map fst (asks_of pool rs cs))"
    by (induction pool rs cs rule: asks_of.induct) force+
  have "set (map fst (asks_server rs cs)) \<subseteq> set (map snd rs)" for rs cs
    by (induction rs cs rule: asks_server.induct) auto
  then show "sorted (map snd rs) \<Longrightarrow> sorted (map fst (asks_server rs cs))"
    by (induction rs cs rule: asks_server.induct) force+
qed

text \<open>How many of a pool's uploads, and of all, were let past their budget within one window's width.\<close>

definition pool_spent :: "pool_id \<Rightarrow> instant \<Rightarrow> int \<Rightarrow> (pool_id \<times> instant) list \<Rightarrow> charged list \<Rightarrow> nat" where
  "pool_spent pool t width rs cs =
     length (filter (\<lambda>(n, c). c \<noteq> PoolIsOver \<and> t \<le> n \<and> n < t + width) (asks_of pool rs cs))"

definition server_spent :: "instant \<Rightarrow> int \<Rightarrow> (pool_id \<times> instant) list \<Rightarrow> charged list \<Rightarrow> nat" where
  "server_spent t width rs cs =
     length (filter (\<lambda>((p, n), c). c = Allowed \<and> t \<le> n \<and> n < t + width) (zip rs cs))"

lemma spent_in_map:
  "length (filter (\<lambda>(n, c). P c \<and> t \<le> n \<and> n < t + width) xs)
    = spent_in t width (map fst xs) (map (\<lambda>(n, c). P c) xs)"
  by (induction xs) auto

lemma server_spent_asks:
  "server_spent t width rs cs = length (filter (\<lambda>(n, c). c = Allowed \<and> t \<le> n \<and> n < t + width) (asks_server rs cs))"
  by (induction rs cs rule: asks_server.induct) (auto simp: server_spent_def)

lemma held_window_ok: "limiter_ok rl \<Longrightarrow> used (held_window rl pool ns) \<le> rl_max_per_pool rl"
  by (auto simp: held_window_def limiter_ok_def split: option.splits)

section \<open>Properties\<close>

text \<open>
  C21: Both budgets hold: whatever uploads arrive, in any stretch of time as long as the window, at
  most twice a pool's bound of its uploads get past its own budget, and at most twice the server's
  bound are allowed in all (twice, because the stretch may straddle two fixed windows).
\<close>

theorem budgets_hold:
  assumes "sorted (map snd rs)" and "rl = new_rate_limiter per_pool overall secs"
  shows "pool_spent pool t (rl_window rl) rs (charges rl rs) \<le> 2 * per_pool
    \<and> server_spent t (rl_window rl) rs (charges rl rs) \<le> 2 * overall"
proof
  have ok: "limiter_ok rl" and maxes: "rl_max_per_pool rl = per_pool" "rl_max_total rl = overall"
    using assms(2) new_limiter_ok by (simp_all add: new_rate_limiter_def)
  have "pool_spent pool t (rl_window rl) rs (charges rl rs) \<le> 2 * rl_max_per_pool rl"
    unfolding pool_spent_def spent_in_map pool_spends
    by (intro spends_bounded asks_sorted assms(1) held_window_ok ok)
  then show "pool_spent pool t (rl_window rl) rs (charges rl rs) \<le> 2 * per_pool" by (simp add: maxes)
  have "server_spent t (rl_window rl) rs (charges rl rs) \<le> 2 * rl_max_total rl"
    unfolding server_spent_asks spent_in_map server_spends
    using ok by (intro spends_bounded asks_sorted assms(1)) (simp add: limiter_ok_def)
  then show "server_spent t (rl_window rl) rs (charges rl rs) \<le> 2 * overall" by (simp add: maxes)
qed

text \<open>
  A refusal ends: an upload that meets the clock one window after the start of its pool's window
  and of the server's is allowed, whatever was refused before, and starts both windows over.
\<close>

theorem refusal_ends:
  assumes "rl_pools rl pool = Some w" and "0 < rl_max_per_pool rl" "0 < rl_max_total rl"
    and "started_at w + rl_window rl \<le> now" "started_at (rl_total rl) + rl_window rl \<le> now"
  shows "snd (charge pool now rl) = Allowed
    \<and> rl_pools (fst (charge pool now rl)) pool = Some \<lparr>started_at = now, used = 1\<rparr>
    \<and> rl_total (fst (charge pool now rl)) = \<lparr>started_at = now, used = 1\<rparr>"
  using assms by (simp add: charge_def pool_window_def window_simps)

section \<open>Witnesses\<close>

abbreviation demo_pool :: pool_id where "demo_pool \<equiv> PoolId ''p''"

definition demo_asks :: "(pool_id \<times> instant) list" where
  "demo_asks = [(demo_pool, 5000000000), (demo_pool, 5000000001), (PoolId ''q'', 5000000002), (demo_pool, 6000000000)]"

lemma demo_charges: "charges (new_rate_limiter 1 2 1) demo_asks = [Allowed, PoolIsOver, Allowed, Allowed]"
  by (simp add: demo_asks_def new_rate_limiter_def charge_def pool_window_def window_simps)

theorem budgets_hold_witness:
  "pool_spent demo_pool 5000000000 1000000001 demo_asks (charges (new_rate_limiter 1 2 1) demo_asks) = 2
   \<and> pool_spent demo_pool 5000000000 1000000000 demo_asks (charges (new_rate_limiter 1 2 1) demo_asks) \<le> 2
   \<and> server_spent 5000000000 1000000000 demo_asks (charges (new_rate_limiter 1 2 1) demo_asks) \<le> 4"
proof -
  have "sorted (map snd demo_asks)" by (simp add: demo_asks_def)
  moreover have "rl_window (new_rate_limiter 1 2 1) = 1000000000" by (simp add: new_rate_limiter_def)
  ultimately have "pool_spent demo_pool 5000000000 1000000000 demo_asks (charges (new_rate_limiter 1 2 1) demo_asks) \<le> 2
      \<and> server_spent 5000000000 1000000000 demo_asks (charges (new_rate_limiter 1 2 1) demo_asks) \<le> 4"
    using budgets_hold [of demo_asks "new_rate_limiter 1 2 1" 1 2 1 demo_pool 5000000000] by simp
  moreover have "pool_spent demo_pool 5000000000 1000000001 demo_asks (charges (new_rate_limiter 1 2 1) demo_asks) = 2"
    unfolding demo_charges by (simp add: demo_asks_def pool_spent_def)
  ultimately show ?thesis by simp
qed

definition full_limiter :: rate_limiter where
  "full_limiter = (new_rate_limiter 1 1 1)\<lparr>rl_pools := [demo_pool \<mapsto> \<lparr>started_at = 7, used = 1\<rparr>],
     rl_total := \<lparr>started_at = 7, used = 1\<rparr>\<rparr>"

theorem refusal_ends_witness:
  "snd (charge demo_pool 8 full_limiter) = PoolIsOver
   \<and> snd (charge demo_pool 1000000007 full_limiter) = Allowed"
  using refusal_ends [of full_limiter demo_pool "\<lparr>started_at = 7, used = 1\<rparr>" 1000000007]
  by (simp add: full_limiter_def new_rate_limiter_def)
    (simp add: charge_def pool_window_def window_simps)

end
