(* ===== verification/Roster.thy ===== *)
theory Roster
  imports Pool_Id
begin

text \<open>
  \<open>metsuke-server/src/roster.rs\<close>: the key roster, a file the server reads and re-reads when its stamp
  says it is another one. Parsing the JSON and wording an error are arguments (\<open>roster_lib\<close>). What a
  lookup sees of the disk is its \<open>roster_disk\<close>: the stamp \<open>refresh\<close> takes, the one \<open>reread\<close> takes and
  the text, each of which a writer may have replaced since the one before. A \<open>HashMap\<close> being drained
  is the list of its entries in the order the map yields them.
\<close>

section \<open>The file\<close>

record roster_file =
  rf_epoch :: nat
  rf_slot :: nat
  rf_pools :: "(string \<times> string list) list"

datatype unreadable =
    RosterRead string
  | RosterParse string
  | NotAPoolId string pool_id_error
  | RosterNotHex pool_id nat hex_error
  | NotAKey pool_id nat leios_key_error
  | PoolTwice pool_id string string

record roster_error =
  re_path :: string
  re_kind :: unreadable

record file_stamp =
  st_device :: nat
  st_inode :: nat
  st_modified :: "int option"
  st_len :: nat

record loaded =
  ld_epoch :: nat
  ld_slot :: nat
  ld_pools :: "pool_id \<Rightarrow> leios_public_key list option"
  ld_read_from :: "file_stamp option"

record roster =
  ro_path :: string
  ro_loaded :: loaded
  ro_said :: "string option"

record roster_lib =
  rl_bls :: bls_lib
  roster_from_str :: "string \<Rightarrow> (string, roster_file) result"
  roster_error_text :: "roster_error \<Rightarrow> string"

record roster_disk =
  seen_first :: "file_stamp option"
  seen_again :: "file_stamp option"
  seen_text :: "(string, string) result"

definition read_key :: "roster_lib \<Rightarrow> pool_id \<Rightarrow> nat \<times> string \<Rightarrow> (unreadable, leios_public_key) result" where
  "read_key L pool entry =
     (case entry of (at, text) \<Rightarrow>
        and_then (map_err (RosterNotHex pool at) (decode PUBLIC_KEY_BYTES text)) (\<lambda>b.
          map_err (NotAKey pool at) (public_key_from_bytes (rl_bls L) b)))"

definition read_keys :: "roster_lib \<Rightarrow> pool_id \<Rightarrow> string list \<Rightarrow> (unreadable, leios_public_key list) result" where
  "read_keys L pool keys = collect (map (read_key L pool) (enumerate 0 keys))"

fun read_pools ::
  "roster_lib \<Rightarrow> (string \<times> string list) list \<Rightarrow> (pool_id \<Rightarrow> string option)
    \<Rightarrow> (pool_id \<Rightarrow> leios_public_key list option) \<Rightarrow> (unreadable, pool_id \<Rightarrow> leios_public_key list option) result" where
  "read_pools L [] spelled pools = Ok pools"
| "read_pools L ((hex, keys) # rest) spelled pools =
     and_then (map_err (NotAPoolId hex) (from_hex hex)) (\<lambda>pool.
       case spelled pool of
         Some first \<Rightarrow> Err (PoolTwice pool first hex)
       | None \<Rightarrow>
           and_then (read_keys L pool keys) (\<lambda>ks.
             read_pools L rest (spelled(pool := Some hex)) (pools(pool := Some ks))))"

definition read_file :: "roster_lib \<Rightarrow> (string, string) result \<Rightarrow> (unreadable, loaded) result" where
  "read_file L text =
     and_then (map_err RosterRead text) (\<lambda>t.
     and_then (map_err RosterParse (roster_from_str L t)) (\<lambda>f.
     and_then (read_pools L (rf_pools f) (\<lambda>_. None) (\<lambda>_. None)) (\<lambda>pools.
       Ok \<lparr>ld_epoch = rf_epoch f, ld_slot = rf_slot f, ld_pools = pools, ld_read_from = None\<rparr>)))"

section \<open>The roster\<close>

text \<open>The journal lines a lookup may write.\<close>

datatype roster_line = Reloaded nat nat | KeptLoaded string

definition roster_reread :: "roster_lib \<Rightarrow> roster_disk \<Rightarrow> roster \<Rightarrow> roster \<times> (roster_error, unit) result" where
  "roster_reread L d r =
     (case read_file L (seen_text d) of
        Inl kind \<Rightarrow> (r, Err \<lparr>re_path = ro_path r, re_kind = kind\<rparr>)
      | Inr l \<Rightarrow> (r\<lparr>ro_loaded := l\<lparr>ld_read_from := seen_again d\<rparr>\<rparr>, Ok ()))"

definition roster_load :: "roster_lib \<Rightarrow> roster_disk \<Rightarrow> string \<Rightarrow> (roster_error, roster) result" where
  "roster_load L d path =
     (case roster_reread L d
             \<lparr>ro_path = path,
              ro_loaded = \<lparr>ld_epoch = 0, ld_slot = 0, ld_pools = (\<lambda>_. None), ld_read_from = None\<rparr>,
              ro_said = None\<rparr> of
        (r, Inl e) \<Rightarrow> Err e
      | (r, Inr _) \<Rightarrow> Ok r)"

definition roster_position :: "roster \<Rightarrow> nat \<times> nat" where
  "roster_position r = (ld_epoch (ro_loaded r), ld_slot (ro_loaded r))"

definition say_once :: "roster_lib \<Rightarrow> roster_error \<Rightarrow> roster \<Rightarrow> roster \<times> roster_line list" where
  "say_once L e r =
     (let said = roster_error_text L e
      in if ro_said r = Some said then (r, []) else (r\<lparr>ro_said := Some said\<rparr>, [KeptLoaded said]))"

definition roster_refresh :: "roster_lib \<Rightarrow> roster_disk \<Rightarrow> roster \<Rightarrow> roster \<times> roster_line list" where
  "roster_refresh L d r =
     (if seen_first d \<noteq> None \<and> seen_first d = ld_read_from (ro_loaded r) then (r, [])
      else (case roster_reread L d r of
              (r', Inr _) \<Rightarrow>
                (r'\<lparr>ro_said := None\<rparr>, [case roster_position r' of (epoch, slot) \<Rightarrow> Reloaded epoch slot])
            | (r', Inl e) \<Rightarrow> say_once L e r'))"

definition lists_key :: "(pool_id \<Rightarrow> leios_public_key list option) \<Rightarrow> pool_id \<Rightarrow> leios_public_key \<Rightarrow> bool" where
  "lists_key pools pool key = (case pools pool of None \<Rightarrow> False | Some keys \<Rightarrow> key \<in> set keys)"

definition roster_registers ::
  "roster_lib \<Rightarrow> roster_disk \<Rightarrow> pool_id \<Rightarrow> leios_public_key \<Rightarrow> roster \<Rightarrow> roster \<times> roster_line list \<times> bool" where
  "roster_registers L d pool key r =
     (case roster_refresh L d r of
        (r', said) \<Rightarrow> (r', said, lists_key (ld_pools (ro_loaded r')) pool key))"

section \<open>What the file says\<close>

text \<open>
  Reading is all or nothing: every entry is a pool spelled once, with keys that all decode, and
  the map read holds exactly them.
\<close>

lemma read_pools_Ok:
  assumes "read_pools L es spelled pools = Ok m"
    and "\<forall>p. spelled p = None \<longleftrightarrow> pools p = None"
  shows "(\<forall>(hex, keys) \<in> set es. \<exists>p ks. from_hex hex = Ok p \<and> read_keys L p keys = Ok ks \<and> m p = Some ks)
    \<and> (\<forall>p ks. m p = Some ks \<longrightarrow> pools p = Some ks
         \<or> (\<exists>hex keys. (hex, keys) \<in> set es \<and> from_hex hex = Ok p \<and> read_keys L p keys = Ok ks))
    \<and> (\<forall>p ks. pools p = Some ks \<longrightarrow> m p = Some ks)
    \<and> distinct (map (from_hex \<circ> fst) es)
    \<and> (\<forall>(hex, keys) \<in> set es. \<forall>p. from_hex hex = Ok p \<longrightarrow> pools p = None)"
  using assms
proof (induction es arbitrary: spelled pools)
  case (Cons e es)
  obtain hex keys where e: "e = (hex, keys)" by fastforce
  with Cons.prems(1) obtain p ks where p: "from_hex hex = Ok p" "spelled p = None"
    and ks: "read_keys L p keys = Ok ks"
    and rest: "read_pools L es (spelled(p := Some hex)) (pools(p := Some ks)) = Ok m"
    by (auto simp: and_then_Ok_iff split: option.splits)
  have agree: "\<forall>q. (spelled(p := Some hex)) q = None \<longleftrightarrow> (pools(p := Some ks)) q = None"
    using Cons.prems(2) by simp
  from Cons.IH [OF rest agree] have
    IH1: "\<forall>(hex, keys) \<in> set es. \<exists>p ks. from_hex hex = Ok p \<and> read_keys L p keys = Ok ks \<and> m p = Some ks"
    and IH2: "\<And>q kq. m q = Some kq \<Longrightarrow> (pools(p := Some ks)) q = Some kq
         \<or> (\<exists>hex keys. (hex, keys) \<in> set es \<and> from_hex hex = Ok q \<and> read_keys L q keys = Ok kq)"
    and IH3: "\<And>q kq. (pools(p := Some ks)) q = Some kq \<Longrightarrow> m q = Some kq"
    and IH4: "distinct (map (from_hex \<circ> fst) es)"
    and IH5: "\<And>h k q. (h, k) \<in> set es \<Longrightarrow> from_hex h = Ok q \<Longrightarrow> (pools(p := Some ks)) q = None"
    by blast+
  have pools_p: "pools p = None" using Cons.prems(2) p by blast
  have new: "from_hex h \<noteq> Ok p" if "(h, k) \<in> set es" for h k using IH5 [OF that, of p] by auto
  have A: "\<forall>(hex, keys) \<in> set (e # es). \<exists>p ks. from_hex hex = Ok p \<and> read_keys L p keys = Ok ks \<and> m p = Some ks"
    using IH1 IH3 [of p ks] p ks e by auto
  have B: "pools q = Some kq \<or> (\<exists>hex keys. (hex, keys) \<in> set (e # es) \<and> from_hex hex = Ok q \<and> read_keys L q keys = Ok kq)"
    if "m q = Some kq" for q kq
    using IH2 [OF that] p ks e by (auto split: if_splits)
  have C: "m q = Some kq" if "pools q = Some kq" for q kq
    using IH3 [of q kq] that pools_p by (cases "q = p") auto
  have D: "distinct (map (from_hex \<circ> fst) (e # es))" using IH4 new p e by force
  have E: "\<forall>(hex, keys) \<in> set (e # es). \<forall>p. from_hex hex = Ok p \<longrightarrow> pools p = None"
  proof (clarify)
    fix h k q
    assume h: "(h, k) \<in> set (e # es)" and q: "from_hex h = Ok q"
    show "pools q = None"
    proof (cases "(h, k) = e")
      case True
      then show ?thesis using e p q pools_p by simp
    next
      case False
      with h have "(h, k) \<in> set es" by simp
      with IH5 q new show ?thesis by (metis fun_upd_other)
    qed
  qed
  show ?case using A B C D E by blast
qed simp

section \<open>The cache\<close>

text \<open>
  The file through time: \<open>disk v\<close> is the stamp and the text of its version \<open>v\<close>, and a lookup takes its
  three looks at versions that only go up.
\<close>

type_synonym versions = "nat \<Rightarrow> file_stamp option \<times> (string, string) result"

record look =
  at_first :: nat
  at_again :: nat
  at_text :: nat

definition look_at :: "versions \<Rightarrow> look \<Rightarrow> roster_disk" where
  "look_at disk l =
     \<lparr>seen_first = fst (disk (at_first l)), seen_again = fst (disk (at_again l)), seen_text = snd (disk (at_text l))\<rparr>"

fun in_order :: "nat \<Rightarrow> look list \<Rightarrow> bool" where
  "in_order v [] = True"
| "in_order v (l # ls) \<longleftrightarrow> v \<le> at_first l \<and> at_first l \<le> at_again l \<and> at_again l \<le> at_text l \<and> in_order (at_text l) ls"

text \<open>What the code says a stamp is for: one stamp is one version of the file.\<close>

definition stamps_separate :: "versions \<Rightarrow> bool" where
  "stamps_separate disk \<longleftrightarrow> (\<forall>v u. fst (disk v) \<noteq> None \<and> fst (disk v) = fst (disk u) \<longrightarrow> v = u)"

fun lookups :: "roster_lib \<Rightarrow> versions \<Rightarrow> look list \<Rightarrow> roster \<Rightarrow> roster \<times> roster_line list" where
  "lookups L disk [] r = (r, [])"
| "lookups L disk (l # ls) r =
     (case roster_refresh L (look_at disk l) r of
        (r', said) \<Rightarrow> (case lookups L disk ls r' of (r'', said') \<Rightarrow> (r'', said @ said')))"

text \<open>What is loaded is a version read between the stamp it is held under and now.\<close>

definition cached :: "roster_lib \<Rightarrow> versions \<Rightarrow> nat \<Rightarrow> loaded \<Rightarrow> bool" where
  "cached L disk now l \<longleftrightarrow>
     (\<exists>u w f. u \<le> w \<and> w \<le> now \<and> ld_read_from l = fst (disk u)
        \<and> read_file L (snd (disk w)) = Ok f \<and> l = f\<lparr>ld_read_from := fst (disk u)\<rparr>)"

lemma cached_mono: "cached L disk v l \<Longrightarrow> v \<le> v' \<Longrightarrow> cached L disk v' l"
  unfolding cached_def by (blast intro: le_trans)

lemma refresh_cached:
  assumes "cached L disk v (ro_loaded r)" and "in_order v [l]"
    and "roster_refresh L (look_at disk l) r = (r', said)"
  shows "cached L disk (at_text l) (ro_loaded r')"
proof -
  have mono: "v \<le> at_text l" and order: "at_again l \<le> at_text l" using assms(2) by auto
  have kept: "cached L disk (at_text l) (ro_loaded r)" using assms(1) mono by (rule cached_mono)
  show ?thesis
  proof (cases "read_file L (snd (disk (at_text l)))")
    case (Inl e)
    with assms(3) kept show ?thesis
      by (auto simp: roster_refresh_def roster_reread_def say_once_def look_at_def Let_def split: if_splits)
  next
    case (Inr f)
    have "cached L disk (at_text l) (f\<lparr>ld_read_from := fst (disk (at_again l))\<rparr>)"
      using Inr order unfolding cached_def by (intro exI [of _ "at_again l"] exI [of _ "at_text l"]) auto
    with Inr assms(3) kept show ?thesis
      by (auto simp: roster_refresh_def roster_reread_def look_at_def split: if_splits)
  qed
qed

lemma lookups_cached:
  assumes "cached L disk v (ro_loaded r)" and "in_order v ls" and "lookups L disk ls r = (r', said)"
  shows "\<exists>now \<ge> v. cached L disk now (ro_loaded r') \<and> (\<forall>l. in_order v (ls @ [l]) \<longrightarrow> now \<le> at_first l)"
  using assms
proof (induction ls arbitrary: v r said)
  case Nil
  then show ?case by auto
next
  case (Cons l ls)
  obtain r1 said1 where r1: "roster_refresh L (look_at disk l) r = (r1, said1)" by fastforce
  with Cons.prems(3) obtain said2 where rest: "lookups L disk ls r1 = (r', said2)"
    by (auto split: prod.splits)
  have "cached L disk (at_text l) (ro_loaded r1)"
    using refresh_cached [OF Cons.prems(1) _ r1] Cons.prems(2) by simp
  from Cons.IH [OF this _ rest] Cons.prems(2) obtain now where "now \<ge> at_text l"
      "cached L disk now (ro_loaded r')" "\<forall>l'. in_order (at_text l) (ls @ [l']) \<longrightarrow> now \<le> at_first l'"
    by auto
  with Cons.prems(2) show ?case by (intro exI [of _ now]) auto
qed

lemma load_cached:
  "roster_load L (look_at disk l) path = Ok r \<Longrightarrow> in_order 0 [l] \<Longrightarrow> cached L disk (at_text l) (ro_loaded r)"
  unfolding cached_def
  by (rule exI [of _ "at_again l"], rule exI [of _ "at_text l"])
    (auto simp: roster_load_def roster_reread_def look_at_def split: sum.splits)

lemma read_file_no_stamp: "read_file L t = Ok f \<Longrightarrow> ld_read_from f = None"
  by (auto simp: read_file_def and_then_Ok_iff)

text \<open>No failure is said twice running.\<close>

fun no_repeat :: "string option \<Rightarrow> roster_line list \<Rightarrow> bool" where
  "no_repeat said [] = True"
| "no_repeat said (Reloaded e s # ls) = no_repeat None ls"
| "no_repeat said (KeptLoaded t # ls) \<longleftrightarrow> said \<noteq> Some t \<and> no_repeat (Some t) ls"

lemma lookups_no_repeat: "lookups L disk ls r = (r', said) \<Longrightarrow> no_repeat (ro_said r) said"
proof (induction ls arbitrary: r said)
  case (Cons l ls)
  obtain r1 said1 where r1: "roster_refresh L (look_at disk l) r = (r1, said1)" by fastforce
  with Cons.prems obtain said2 where rest: "lookups L disk ls r1 = (r', said2)" "said = said1 @ said2"
    by (auto split: prod.splits)
  from r1 have "(said1 = [] \<and> ro_said r1 = ro_said r)
      \<or> (\<exists>e s. said1 = [Reloaded e s] \<and> ro_said r1 = None)
      \<or> (\<exists>t. said1 = [KeptLoaded t] \<and> ro_said r \<noteq> Some t \<and> ro_said r1 = Some t)"
    by (auto simp: roster_refresh_def roster_reread_def say_once_def Let_def split: if_splits sum.splits prod.splits)
  with Cons.IH [OF rest(1)] rest(2) show ?case by auto
qed simp

section \<open>Properties\<close>

text \<open>
  C37: The cache never shows. Whatever the writer did during every lookup before, a lookup that finds
  the file quiet and readable answers exactly what that file says, as if it were read every time.
\<close>

theorem roster_answers_the_file:
  assumes "stamps_separate disk"
    and "roster_load L (look_at disk l0) path = Ok r0" and "lookups L disk ls r0 = (r, said)"
    and "in_order 0 (l0 # ls @ [l])"
    and "at_first l = v" "at_text l = v" and "read_file L (snd (disk v)) = Ok f"
  shows "snd (snd (roster_registers L (look_at disk l) pool key r)) = lists_key (ld_pools f) pool key"
proof -
  have v: "at_again l = v"
  proof -
    have "in_order u (ls @ [l]) \<Longrightarrow> at_first l \<le> at_again l \<and> at_again l \<le> at_text l" for u
      by (induction ls arbitrary: u) auto
    from this [of "at_text l0"] assms(4,5,6) show ?thesis by simp
  qed
  have "cached L disk (at_text l0) (ro_loaded r0)" using load_cached [OF assms(2)] assms(4) by simp
  moreover have "in_order (at_text l0) ls"
  proof -
    have "in_order u (ls @ [l]) \<Longrightarrow> in_order u ls" for u by (induction ls arbitrary: u) auto
    with assms(4) show ?thesis by auto
  qed
  ultimately obtain now where "cached L disk now (ro_loaded r)" "now \<le> v"
    using lookups_cached [OF _ _ assms(3)] assms(4,5) by fastforce
  then obtain u w g where uw: "u \<le> w" "w \<le> v" and g: "read_file L (snd (disk w)) = Ok g"
      "ro_loaded r = g\<lparr>ld_read_from := fst (disk u)\<rparr>"
    unfolding cached_def by (meson le_trans)
  show ?thesis
  proof (cases "fst (disk v) \<noteq> None \<and> fst (disk v) = fst (disk u)")
    case True
    with assms(1) have "v = u" unfolding stamps_separate_def by blast
    with uw g(1) assms(7) have "g = f" by simp
    with True g(2) assms(5) show ?thesis
      by (auto simp: roster_registers_def roster_refresh_def look_at_def)
  next
    case False
    with g(2) assms(5,6,7) v show ?thesis
      by (auto simp: roster_registers_def roster_refresh_def roster_reread_def look_at_def)
  qed
qed

text \<open>
  A roster is the chain's answer or nothing: what a successful reading loads lists, for each pool,
  exactly the keys of the one entry that names it, every entry being a pool id spelled once and every
  key a valid one.
\<close>

theorem read_file_exact:
  assumes "read_file L (Ok text) = Ok l" and "roster_from_str L text = Ok f"
  shows "distinct (map (from_hex \<circ> fst) (rf_pools f))
    \<and> (\<forall>pool keys. ld_pools l pool = Some keys
         \<longleftrightarrow> (\<exists>hex texts. (hex, texts) \<in> set (rf_pools f) \<and> from_hex hex = Ok pool
               \<and> read_keys L pool texts = Ok keys))"
proof -
  from assms have ok: "read_pools L (rf_pools f) (\<lambda>_. None) (\<lambda>_. None) = Ok (ld_pools l)"
    by (auto simp: read_file_def and_then_Ok_iff)
  from read_pools_Ok [OF this] show ?thesis by (fastforce split: prod.splits)
qed

text \<open>
  A stranger cannot fill the journal: whatever lookups a roster meets, the lines they write never
  repeat a failure without a successful reload or another failure between.
\<close>

theorem failures_said_once:
  "case lookups L disk ls r of (r', said) \<Rightarrow> no_repeat (ro_said r) said"
  using lookups_no_repeat [of L disk ls r] by (cases "lookups L disk ls r") auto

section \<open>Witnesses\<close>

definition demo_bls_accepting :: bls_lib where
  "demo_bls_accepting = \<lparr>key_validate = (\<lambda>_. BLST_SUCCESS), sig_validate = (\<lambda>_ _. BLST_SUCCESS),
     bls_verify = (\<lambda>_ _ _ _ _ _ _. BLST_SUCCESS), secret_key_validate = (\<lambda>_. BLST_SUCCESS),
     sk_to_pk = (\<lambda>k. k), bls_sign = (\<lambda>k m d a. k)\<rparr>"

abbreviation zeros :: "nat \<Rightarrow> bytes" where "zeros n \<equiv> replicate n (CHR 0x00)"

definition demo_roster_file :: roster_file where
  "demo_roster_file = \<lparr>rf_epoch = 3, rf_slot = 9, rf_pools = [(encode (zeros 28), [encode (zeros 96)])]\<rparr>"

definition demo_roster_lib :: roster_lib where
  "demo_roster_lib = \<lparr>rl_bls = demo_bls_accepting,
     roster_from_str = (\<lambda>t. if t = ''new'' then Ok demo_roster_file
        else if t = ''old'' then Ok \<lparr>rf_epoch = 2, rf_slot = 8, rf_pools = []\<rparr> else Err ''eof''),
     roster_error_text = (\<lambda>_. ''unreadable'')\<rparr>"

definition demo_versions :: versions where
  "demo_versions v =
     (Some \<lparr>st_device = 1, st_inode = v, st_modified = None, st_len = 3\<rparr>,
      Ok (if v = 0 then ''old'' else if v = 1 then ''ne'' else ''new''))"

lemma demo_read_new:
  "read_file demo_roster_lib (Ok ''new'')
    = Ok \<lparr>ld_epoch = 3, ld_slot = 9, ld_pools = [PoolId (zeros 28) \<mapsto> [LeiosPublicKey (zeros 96)]],
         ld_read_from = None\<rparr>"
  using decode_encode [of "zeros 28"] decode_encode [of "zeros 96"]
  by (simp add: read_file_def demo_roster_lib_def demo_roster_file_def from_hex_def read_keys_def
      read_key_def PUBLIC_KEY_BYTES_def public_key_from_bytes_def demo_bls_accepting_def
      del: replicate.simps)

theorem read_file_exact_witness:
  "\<exists>hex texts. (hex, texts) \<in> set (rf_pools demo_roster_file) \<and> from_hex hex = Ok (PoolId (zeros 28))
     \<and> read_keys demo_roster_lib (PoolId (zeros 28)) texts = Ok [LeiosPublicKey (zeros 96)]"
proof -
  have "roster_from_str demo_roster_lib ''new'' = Ok demo_roster_file"
    by (simp add: demo_roster_lib_def)
  from read_file_exact [OF demo_read_new this, THEN conjunct2, rule_format, THEN iffD1] show ?thesis
    by (simp del: replicate.simps)
qed

definition demo_first :: look where "demo_first = \<lparr>at_first = 0, at_again = 0, at_text = 0\<rparr>"
definition demo_mid :: look where "demo_mid = \<lparr>at_first = 0, at_again = 1, at_text = 1\<rparr>"
definition demo_last :: look where "demo_last = \<lparr>at_first = 2, at_again = 2, at_text = 2\<rparr>"

theorem roster_answers_the_file_witness:
  "\<exists>r0 r said. roster_load demo_roster_lib (look_at demo_versions demo_first) ''r.json'' = Ok r0
     \<and> lookups demo_roster_lib demo_versions [demo_mid] r0 = (r, said)
     \<and> snd (snd (roster_registers demo_roster_lib (look_at demo_versions demo_last)
          (PoolId (zeros 28)) (LeiosPublicKey (zeros 96)) r))"
proof -
  obtain r0 where r0: "roster_load demo_roster_lib (look_at demo_versions demo_first) ''r.json'' = Ok r0"
    by (simp add: roster_load_def roster_reread_def look_at_def demo_versions_def demo_first_def
        demo_roster_lib_def read_file_def)
  obtain r said where r: "lookups demo_roster_lib demo_versions [demo_mid] r0 = (r, said)" by fastforce
  have "stamps_separate demo_versions" by (simp add: stamps_separate_def demo_versions_def)
  moreover have "in_order 0 (demo_first # [demo_mid] @ [demo_last])" "at_first demo_last = 2" "at_text demo_last = 2"
    by (simp_all add: demo_first_def demo_mid_def demo_last_def)
  moreover have "snd (demo_versions 2) = Ok ''new''" by (simp add: demo_versions_def)
  ultimately have "snd (snd (roster_registers demo_roster_lib (look_at demo_versions demo_last)
      (PoolId (zeros 28)) (LeiosPublicKey (zeros 96)) r))"
    using roster_answers_the_file [OF _ r0 r, of demo_last 2] demo_read_new
    by (simp add: lists_key_def del: replicate.simps)
  with r0 r show ?thesis by blast
qed

end
