(* ===== verification/Authority.thy ===== *)
theory Authority
  imports Roster Attestation
begin

text \<open>
  \<open>metsuke-server/src/authority.rs\<close>: who a submission is from. A cold key derives its pool, and a claim
  beside it has to agree; a Leios key derives none, and the claim stands where the roster lists the key
  for it. A lookup refreshes the roster, so \<open>authorised\<close> passes it on.
\<close>

record attributed =
  ad_attestation :: attestation
  ad_pool :: pool_id

datatype attribution_error =
    AttributionAttestation attestation_error
  | AttributionNotAPoolId pool_id_error
  | NotItsPool pool_id pool_id
  | Unnamed

text \<open>\<open>Option::transpose\<close> of the decoded pool header.\<close>

definition claimed_pool :: "bech32_lib \<Rightarrow> string option \<Rightarrow> (attribution_error, pool_id option) result" where
  "claimed_pool B pool =
     (case pool of
        None \<Rightarrow> Ok None
      | Some text \<Rightarrow> and_then (map_err AttributionNotAPoolId (from_bech32 B text)) (\<lambda>p. Ok (Some p)))"

definition attributed_pool :: "pool_id option \<Rightarrow> pool_id option \<Rightarrow> (attribution_error, pool_id) result" where
  "attributed_pool derived claimed =
     (case (derived, claimed) of
        (Some d, None) \<Rightarrow> Ok d
      | (Some d, Some c) \<Rightarrow> if d = c then Ok d else Err (NotItsPool c d)
      | (None, Some c) \<Rightarrow> Ok c
      | (None, None) \<Rightarrow> Err Unnamed)"

definition attributed_decode ::
  "crypto \<Rightarrow> bech32_lib \<Rightarrow> string option \<Rightarrow> string option \<Rightarrow> string option \<Rightarrow> (attribution_error, attributed) result" where
  "attributed_decode C B vkey signature pool =
     and_then (map_err AttributionAttestation (attestation_decode C vkey signature)) (\<lambda>a.
     and_then (claimed_pool B pool) (\<lambda>claimed.
     and_then (attributed_pool (attributes C a) claimed) (\<lambda>p.
       Ok \<lparr>ad_attestation = a, ad_pool = p\<rparr>)))"

definition filed :: "attestation \<Rightarrow> pool_id \<Rightarrow> attributed" where
  "filed a p = \<lparr>ad_attestation = a, ad_pool = p\<rparr>"

record signed =
  sg_attestation :: attestation
  sg_pool :: pool_id
  sg_wire :: bytes

definition over :: "attributed \<Rightarrow> bytes \<Rightarrow> signed" where
  "over a wire = \<lparr>sg_attestation = ad_attestation a, sg_pool = ad_pool a, sg_wire = wire\<rparr>"

datatype unauthorised = NoRoster | Unregistered pool_id

definition authorised ::
  "roster_lib \<Rightarrow> roster_disk \<Rightarrow> signed \<Rightarrow> roster option \<Rightarrow> roster option \<times> roster_line list \<times> (unauthorised, unit) result" where
  "authorised L d s r =
     (case sg_attestation s of
        ColdKey _ _ \<Rightarrow> (r, [], Ok ())
      | LeiosKey key _ \<Rightarrow>
          (case r of
             None \<Rightarrow> (None, [], Err NoRoster)
           | Some ro \<Rightarrow>
               (case roster_registers L d (sg_pool s) key ro of
                  (ro', said, ok) \<Rightarrow>
                    (Some ro', said, if ok then Ok () else Err (Unregistered (sg_pool s))))))"

definition signed_verifies :: "crypto \<Rightarrow> signed \<Rightarrow> bool" where
  "signed_verifies C s = verifies C (sg_attestation s) (sg_wire s)"

section \<open>What an attribution says\<close>

definition header_pool_agrees :: "crypto \<Rightarrow> attributed \<Rightarrow> bool" where
  "header_pool_agrees C a \<longleftrightarrow> (case attributes C (ad_attestation a) of None \<Rightarrow> True | Some d \<Rightarrow> ad_pool a = d)"

lemma attributed_decode_Ok:
  "attributed_decode C B v s p = Ok a \<longleftrightarrow>
     attestation_decode C v s = Ok (ad_attestation a) \<and> header_pool_agrees C a
     \<and> (case p of None \<Rightarrow> attributes C (ad_attestation a) \<noteq> None | Some t \<Rightarrow> from_bech32 B t = Ok (ad_pool a))"
  by (cases a; cases "attributes C (ad_attestation a)"; cases p)
    (auto simp: attributed_decode_def and_then_def map_err_def claimed_pool_def attributed_pool_def
      header_pool_agrees_def split: sum.splits option.splits if_splits)

lemma over_simps [simp]:
  "sg_attestation (over a w) = ad_attestation a" "sg_pool (over a w) = ad_pool a" "sg_wire (over a w) = w"
  by (simp_all add: over_def)

end
