(* ===== verification/Archive.thy ===== *)
theory Archive
  imports Object_Key Line_Source
begin

text \<open>
  \<open>metsuke-server/src/archive.rs\<close>: what an archive holds, and the archive that is a directory. The
  directory is a tree (\<open>fs_node\<close>) that says where reading it fails; where the disk fails a write is an
  argument (\<open>fs_fault\<close>). A directory lists its entries in the order they stand in the tree.
\<close>

section \<open>Objects and pages\<close>

record stored_submission =
  ss_name :: object_name
  ss_pair :: attestation
  ss_body :: bytes

definition object_key :: "key_lib \<Rightarrow> stored_submission \<Rightarrow> string" where
  "object_key L s = to_key L (ss_name s)"

record fetched_object =
  fo_name :: object_name
  fo_attestation :: attestation
  fo_wire_bytes :: bytes

datatype archive_error =
    ArchiveIo string string
  | NoSuchObject string
  | ArchiveFetch string string
  | EndpointUnusable string
  | ArchiveUpload string nat string
  | ArchiveList string

record page =
  pg_keys :: "string list"
  pg_truncated :: bool

text \<open>An object open for reading: reading it to its end comes to \<open>os_content\<close>.\<close>

record object_stream =
  os_key :: string
  os_length :: nat
  os_attestation :: "attestation option"
  os_content :: "(string, bytes) result"

definition page_bounded :: "string list \<Rightarrow> nat \<Rightarrow> page" where
  "page_bounded keys max_keys = \<lparr>pg_keys = take max_keys keys, pg_truncated = (max_keys < length keys)\<rparr>"

section \<open>The tree\<close>

text \<open>
  A directory whose listing breaks off has the reason beside its entries; \<open>FsUnreadable\<close> is a
  directory that does not open, \<open>FsNoType\<close> an entry whose kind cannot be told.
\<close>

datatype fs_node =
    FsFile bytes
  | FsDir "(string \<times> fs_node) list" "string option"
  | FsUnreadable string
  | FsNoType string

definition path_join :: "string \<Rightarrow> string \<Rightarrow> string" where
  "path_join rel name = (if rel = [] then name else rel @ ''/'' @ name)"

definition path_unreadable :: "string \<Rightarrow> string \<Rightarrow> archive_error" where
  "path_unreadable path reason = ArchiveList (utf8_lossy path @ '': '' @ reason)"

type_synonym ('s, 'e) visitor = "string \<Rightarrow> 's \<Rightarrow> 's \<times> ('e, unit) result"

text \<open>\<open>walk\<close>: a directory under the root, and its entries.\<close>

fun fs_walk ::
  "(archive_error \<Rightarrow> 'e) \<Rightarrow> ('s, 'e) visitor \<Rightarrow> string \<Rightarrow> string \<Rightarrow> fs_node \<Rightarrow> 's \<Rightarrow> 's \<times> ('e, unit) result"
and fs_walk_entries ::
  "(archive_error \<Rightarrow> 'e) \<Rightarrow> ('s, 'e) visitor \<Rightarrow> string \<Rightarrow> string \<Rightarrow> (string \<times> fs_node) list \<Rightarrow> 's
    \<Rightarrow> 's \<times> ('e, unit) result"
where
  "fs_walk conv visit root rel (FsDir es fin) s =
     (case fs_walk_entries conv visit root rel es s of
        (s', Inl e) \<Rightarrow> (s', Err e)
      | (s', Inr _) \<Rightarrow> (case fin of None \<Rightarrow> (s', Ok ()) | Some r \<Rightarrow> (s', Err (conv (path_unreadable (path_join root rel) r)))))"
| "fs_walk conv visit root rel (FsUnreadable r) s = (s, Err (conv (path_unreadable (path_join root rel) r)))"
| "fs_walk conv visit root rel (FsFile b) s = (s, Err (conv (path_unreadable (path_join root rel) ''Not a directory'')))"
| "fs_walk conv visit root rel (FsNoType r) s = (s, Err (conv (path_unreadable (path_join root rel) r)))"
| "fs_walk_entries conv visit root rel [] s = (s, Ok ())"
| "fs_walk_entries conv visit root rel ((name, node) # es) s =
     (let path = path_join rel name in
      case (case node of
              FsFile b \<Rightarrow>
                if valid_utf8 path then visit path s
                else (s, Err (conv (ArchiveList (utf8_lossy path @ '' is not a UTF-8 object key''))))
            | FsNoType r \<Rightarrow> (s, Err (conv (path_unreadable (path_join root path) r)))
            | dir \<Rightarrow> fs_walk conv visit root path dir s) of
        (s', Inl e) \<Rightarrow> (s', Err e)
      | (s', Inr _) \<Rightarrow> fs_walk_entries conv visit root rel es s')"

record fs_archive =
  fs_root :: string
  fs_tree :: "fs_node option"

definition fs_for_each_key ::
  "(archive_error \<Rightarrow> 'e) \<Rightarrow> ('s, 'e) visitor \<Rightarrow> fs_archive \<Rightarrow> 's \<Rightarrow> 's \<times> ('e, unit) result" where
  "fs_for_each_key conv visit a s =
     (case fs_tree a of
        None \<Rightarrow> (s, Ok ())
      | Some (FsDir es fin) \<Rightarrow> fs_walk conv visit (fs_root a) [] (FsDir es fin) s
      | Some (FsUnreadable r) \<Rightarrow> (s, Err (conv (path_unreadable (fs_root a) r)))
      | Some (FsNoType r) \<Rightarrow> (s, Err (conv (path_unreadable (fs_root a) r)))
      | Some (FsFile b) \<Rightarrow> (s, Err (conv (path_unreadable (fs_root a) ''Not a directory''))))"

text \<open>The visitors of \<open>keys\<close> and of \<open>page\<close>; neither fails.\<close>

definition collect_key :: "(string \<Rightarrow> bool) \<Rightarrow> (string list, archive_error) visitor" where
  "collect_key P key ks = (if P key then (ks @ [key], Ok ()) else (ks, Ok ()))"

definition fs_keys :: "fs_archive \<Rightarrow> (archive_error, string list) result" where
  "fs_keys a = (case fs_for_each_key (\<lambda>e. e) (collect_key (\<lambda>_. True)) a [] of
     (ks, Inl e) \<Rightarrow> Err e | (ks, Inr _) \<Rightarrow> Ok ks)"

definition fs_page :: "fs_archive \<Rightarrow> string \<Rightarrow> string \<Rightarrow> nat \<Rightarrow> (archive_error, page) result" where
  "fs_page a prefix after max_keys =
     (case fs_for_each_key (\<lambda>e. e) (collect_key (\<lambda>key. starts_with prefix key \<and> after < key)) a [] of
        (ks, Inl e) \<Rightarrow> Err e
      | (ks, Inr _) \<Rightarrow> Ok (page_bounded (sort ks) max_keys))"

section \<open>Storing and reading\<close>

text \<open>
  A change at a path, the directories above it made where they are missing; \<open>fs_open\<close> is the file at a
  path. (A directory in a file's place opens and then fails its first read; here it fails to open.)
\<close>

fun entry_update :: "string \<Rightarrow> 'a \<Rightarrow> (string \<times> 'a) list \<Rightarrow> (string \<times> 'a) list" where
  "entry_update c n [] = [(c, n)]"
| "entry_update c n ((k, v) # es) = (if k = c then (k, n) # es else (k, v) # entry_update c n es)"

fun fs_update ::
  "string list \<Rightarrow> (fs_node option \<Rightarrow> (string, fs_node) result) \<Rightarrow> fs_node option \<Rightarrow> (string, fs_node) result" where
  "fs_update [] f n = f n"
| "fs_update (c # cs) f None = and_then (fs_update cs f None) (\<lambda>n. Ok (FsDir [(c, n)] None))"
| "fs_update (c # cs) f (Some (FsDir es fin)) =
     and_then (fs_update cs f (map_of es c)) (\<lambda>n. Ok (FsDir (entry_update c n es) fin))"
| "fs_update (c # cs) f (Some (FsUnreadable r)) = Err r"
| "fs_update (c # cs) f (Some (FsNoType r)) = Err r"
| "fs_update (c # cs) f (Some (FsFile b)) = Err ''Not a directory''"

fun fs_open :: "string list \<Rightarrow> fs_node option \<Rightarrow> (io_error, bytes) result" where
  "fs_open cs None = Err NotFound"
| "fs_open [] (Some (FsFile b)) = Ok b"
| "fs_open [] (Some (FsDir es fin)) = Err (OtherIo ''Is a directory'')"
| "fs_open (c # cs) (Some (FsDir es fin)) = fs_open cs (map_of es c)"
| "fs_open (c # cs) (Some (FsFile b)) = Err (OtherIo ''Not a directory'')"
| "fs_open cs (Some (FsUnreadable r)) = Err (OtherIo r)"
| "fs_open cs (Some (FsNoType r)) = Err (OtherIo r)"

text \<open>A directory made; a file's content replaced.\<close>

fun make_dir :: "fs_node option \<Rightarrow> (string, fs_node) result" where
  "make_dir None = Ok (FsDir [] None)"
| "make_dir (Some (FsFile b)) = Err ''File exists''"
| "make_dir (Some d) = Ok d"

fun write_content :: "bytes \<Rightarrow> fs_node option \<Rightarrow> (string, fs_node) result" where
  "write_content b None = Ok (FsFile b)"
| "write_content b (Some (FsFile _)) = Ok (FsFile b)"
| "write_content b (Some (FsDir es fin)) = Err ''Is a directory''"
| "write_content b (Some (FsUnreadable r)) = Err r"
| "write_content b (Some (FsNoType r)) = Err r"

text \<open>
  Where the disk may fail a store: after making that many of the parent directories (all of them where
  the file itself is not created), or after writing that much of the file.
\<close>

datatype fs_fault = MkdirFails nat string | WriteFails nat string

definition path_components :: "string \<Rightarrow> string list" where
  "path_components key = split_on (CHR ''/'') key"

definition fs_write :: "fs_fault option \<Rightarrow> string list \<Rightarrow> bytes \<Rightarrow> fs_node option \<Rightarrow> fs_node option \<times> (string, unit) result" where
  "fs_write fault cs b root =
     (case fault of
        Some (MkdirFails k e) \<Rightarrow>
          (case fs_update (take k (butlast cs)) make_dir root of Inl e' \<Rightarrow> (root, Err e') | Inr n \<Rightarrow> (Some n, Err e))
      | Some (WriteFails k e) \<Rightarrow>
          (case fs_update cs (write_content (take k b)) root of Inl e' \<Rightarrow> (root, Err e') | Inr n \<Rightarrow> (Some n, Err e))
      | None \<Rightarrow>
          (case fs_update cs (write_content b) root of Inl e' \<Rightarrow> (root, Err e') | Inr n \<Rightarrow> (Some n, Ok ())))"

definition fs_store ::
  "key_lib \<Rightarrow> fs_fault option \<Rightarrow> stored_submission \<Rightarrow> fs_archive \<Rightarrow> fs_archive \<times> (archive_error, unit) result" where
  "fs_store L fault s a =
     (let key = object_key L s in
      case fs_write fault (path_components key) (ss_body s) (fs_tree a) of
        (tree, r) \<Rightarrow> (a\<lparr>fs_tree := tree\<rparr>, map_err (ArchiveIo key) r))"

definition fs_reader ::
  "key_lib \<Rightarrow> (object_name_error \<Rightarrow> string) \<Rightarrow> string option \<Rightarrow> fs_archive \<Rightarrow> string
    \<Rightarrow> (archive_error, object_stream) result" where
  "fs_reader L name_text stat_fault a key =
     and_then (map_err (\<lambda>e. ArchiveFetch key (name_text e)) (object_name_parse L key)) (\<lambda>name.
     and_then (map_err (\<lambda>e. case e of NotFound \<Rightarrow> NoSuchObject key | OtherIo r \<Rightarrow> ArchiveFetch key r)
         (fs_open (path_components (to_key L name)) (fs_tree a))) (\<lambda>b.
       case stat_fault of
         Some r \<Rightarrow> Err (ArchiveFetch key r)
       | None \<Rightarrow> Ok \<lparr>os_key = key, os_length = length b, os_attestation = None, os_content = Ok b\<rparr>))"

section \<open>What the walk lists\<close>

text \<open>The keys a walk meets, in order, and the failure it stops at.\<close>

fun listing_of :: "string \<Rightarrow> string \<Rightarrow> fs_node \<Rightarrow> string list \<times> archive_error option"
and listing_entries :: "string \<Rightarrow> string \<Rightarrow> (string \<times> fs_node) list \<Rightarrow> string list \<times> archive_error option"
where
  "listing_of root rel (FsDir es fin) =
     (case listing_entries root rel es of
        (ks, Some e) \<Rightarrow> (ks, Some e)
      | (ks, None) \<Rightarrow> (ks, map_option (path_unreadable (path_join root rel)) fin))"
| "listing_of root rel (FsUnreadable r) = ([], Some (path_unreadable (path_join root rel) r))"
| "listing_of root rel (FsFile b) = ([], Some (path_unreadable (path_join root rel) ''Not a directory''))"
| "listing_of root rel (FsNoType r) = ([], Some (path_unreadable (path_join root rel) r))"
| "listing_entries root rel [] = ([], None)"
| "listing_entries root rel ((name, node) # es) =
     (let path = path_join rel name in
      case (case node of
              FsFile b \<Rightarrow>
                if valid_utf8 path then ([path], None)
                else ([], Some (ArchiveList (utf8_lossy path @ '' is not a UTF-8 object key'')))
            | FsNoType r \<Rightarrow> ([], Some (path_unreadable (path_join root path) r))
            | dir \<Rightarrow> listing_of root path dir) of
        (ks, Some e) \<Rightarrow> (ks, Some e)
      | (ks, None) \<Rightarrow> (case listing_entries root rel es of (ks', r) \<Rightarrow> (ks @ ks', r)))"

definition visited :: "(archive_error \<Rightarrow> 'e) \<Rightarrow> (string \<Rightarrow> bool) \<Rightarrow> string list
    \<Rightarrow> string list \<times> archive_error option \<Rightarrow> string list \<times> ('e, unit) result" where
  "visited conv P acc l = (acc @ filter P (fst l), case snd l of None \<Rightarrow> Ok () | Some e \<Rightarrow> Err (conv e))"

text \<open>The visitor of a listing, for any error type: it keeps the keys it is asked for.\<close>

definition keep_key :: "(string \<Rightarrow> bool) \<Rightarrow> (string list, 'e) visitor" where
  "keep_key P key ks = ((if P key then ks @ [key] else ks), Ok ())"

lemma collect_is_keep: "collect_key = keep_key"
  by (intro ext) (simp add: collect_key_def keep_key_def)

lemma walk_visits:
  "fs_walk conv (keep_key P) root rel node acc = visited conv P acc (listing_of root rel node)"
  "fs_walk_entries conv (keep_key P) root rel es acc = visited conv P acc (listing_entries root rel es)"
proof (induction root rel node and root rel es arbitrary: acc and acc rule: listing_of_listing_entries.induct)
  case (1 root rel es fin)
  then show ?case
    by (cases "listing_entries root rel es"; cases "snd (listing_entries root rel es)"; cases fin)
      (auto simp: visited_def)
next
  case (6 root rel name node es)
  show ?case
  proof (cases node)
    case (FsFile b)
    then show ?thesis using 6(3) by (auto simp: visited_def keep_key_def Let_def split: prod.splits option.splits)
  next
    case (FsDir ds fin)
    then show ?thesis using 6(1) 6(3)
      by (auto simp: visited_def Let_def split: prod.splits option.splits)
  next
    case (FsUnreadable r)
    then show ?thesis by (simp add: visited_def)
  next
    case (FsNoType r)
    then show ?thesis by (simp add: visited_def)
  qed
qed (simp_all add: visited_def)

end
