(* ===== verification/Intake.thy ===== *)
theory Intake
  imports Rate_Limit Authority Archive
begin

text \<open>
  \<open>metsuke-server/src/intake.rs\<close>: the one path an upload takes. What an upload meets (the clock, the
  roster file, the bytes its object id draws, the archive's own trouble) is its \<open>submit_world\<close>; the
  archive is whatever the \<open>store\<close> argument writes to. The line an accepted submission writes to the
  journal is not modelled.
\<close>

section \<open>State and answers\<close>

record ingest_config =
  allowlist :: "pool_id \<Rightarrow> string option"
  ic_max_body_bytes :: nat
  ic_max_header_bytes :: nat
  max_timestamp_skew_secs :: nat
  rate_limit_uploads :: nat
  rate_limit_uploads_total :: nat
  rate_limit_window_secs :: nat

datatype rejection =
    OversizedBody nat nat
  | NotASubmission container_error
  | UnknownPool pool_id
  | RateLimited pool_id nat nat
  | ServerBusy nat nat
  | BadSignature
  | Unauthorised unauthorised
  | StaleTimestamp instant instant nat
  | UnreadableHeader header_error
  | NotItsProvenance pool_id pool_id
  | KeylessSchema nat

datatype ingest_error = Rejected rejection | IngestArchive archive_error

record intake =
  ik_config :: ingest_config
  ik_limiter :: rate_limiter
  ik_roster :: "roster option"

record server_libs =
  sl_crypto :: crypto
  sl_json :: json_lib
  sl_key :: key_lib
  sl_roster :: roster_lib
  sl_client_version :: string
  header_error_text :: "header_error \<Rightarrow> string"
  archive_error_text :: "archive_error \<Rightarrow> string"

record 'w submit_world =
  iw_now :: instant
  iw_roster :: roster_disk
  iw_entropy :: bytes
  iw_store :: 'w

type_synonym ('w, 'a) store = "'w \<Rightarrow> stored_submission \<Rightarrow> 'a \<Rightarrow> 'a \<times> (archive_error, unit) result"

definition new_intake :: "ingest_config \<Rightarrow> roster option \<Rightarrow> intake" where
  "new_intake cfg r =
     \<lparr>ik_config = cfg,
      ik_limiter = new_rate_limiter (rate_limit_uploads cfg) (rate_limit_uploads_total cfg) (rate_limit_window_secs cfg),
      ik_roster = r\<rparr>"

definition ack_latest :: "server_libs \<Rightarrow> string" where
  "ack_latest L = sl_client_version L"

text \<open>The post-signature half: what is stored, under which name.\<close>

definition accept ::
  "server_libs \<Rightarrow> ('w, 'a) store \<Rightarrow> 'w submit_world \<Rightarrow> signed \<Rightarrow> pool_id \<Rightarrow> header \<Rightarrow> 'a
    \<Rightarrow> 'a \<times> (ingest_error, string) result" where
  "accept L store w s pool h a =
     (case kind_of (h_schema_version h) of
        None \<Rightarrow> (a, Err (Rejected (KeylessSchema (h_schema_version h))))
      | Some kind \<Rightarrow>
          if pv_pool (h_provenance h) \<noteq> pool
          then (a, Err (Rejected (NotItsProvenance (pv_pool (h_provenance h)) pool)))
          else (case store (iw_store w)
                      \<lparr>ss_name = object_name_stamped (sl_key L) (iw_entropy w) (iw_now w) pool
                                   (pv_agent (h_provenance h)) kind,
                       ss_pair = sg_attestation s, ss_body = sg_wire s\<rparr> a of
                  (a', Inl e) \<Rightarrow> (a', Err (IngestArchive e))
                | (a', Inr _) \<Rightarrow> (a', Ok (ack_latest L))))"

definition stale :: "ingest_config \<Rightarrow> instant \<Rightarrow> header \<Rightarrow> bool" where
  "stale cfg now h \<longleftrightarrow> int (max_timestamp_skew_secs cfg) * 1000000000 < \<bar>now - h_timestamp h\<bar>"

text \<open>What the limiter's answer is to the client; \<open>Allowed\<close> goes on.\<close>

fun limited :: "ingest_config \<Rightarrow> pool_id \<Rightarrow> charged \<Rightarrow> rejection option" where
  "limited cfg pool Allowed = None"
| "limited cfg pool PoolIsOver = Some (RateLimited pool (rate_limit_uploads cfg) (rate_limit_window_secs cfg))"
| "limited cfg pool ServerIsOver = Some (ServerBusy (rate_limit_uploads_total cfg) (rate_limit_window_secs cfg))"

text \<open>The part of \<open>submit\<close> after the key is known to speak for the pool.\<close>

definition submit_proven ::
  "server_libs \<Rightarrow> ('w, 'a) store \<Rightarrow> 'w submit_world \<Rightarrow> signed \<Rightarrow> intake \<Rightarrow> 'a
    \<Rightarrow> intake \<times> 'a \<times> (ingest_error, string) result" where
  "submit_proven L store w s ik a =
     (let cfg = ik_config ik; pool = sg_pool s in
      if \<not> signed_verifies (sl_crypto L) s then (ik, a, Err (Rejected BadSignature))
      else case read_header (sl_json L) (sg_wire s) (ic_max_header_bytes cfg) of
        Inl e \<Rightarrow> (ik, a, Err (Rejected (UnreadableHeader e)))
      | Inr h \<Rightarrow>
          if stale cfg (iw_now w) h
          then (ik, a, Err (Rejected (StaleTimestamp (h_timestamp h) (iw_now w) (max_timestamp_skew_secs cfg))))
          else case charge pool (iw_now w) (ik_limiter ik) of
            (rl, c) \<Rightarrow>
              (case limited cfg pool c of
                 Some r \<Rightarrow> (ik\<lparr>ik_limiter := rl\<rparr>, a, Err (Rejected r))
               | None \<Rightarrow>
                   (case accept L store w s pool h a of (a', r) \<Rightarrow> (ik\<lparr>ik_limiter := rl\<rparr>, a', r))))"

definition submit ::
  "server_libs \<Rightarrow> ('w, 'a) store \<Rightarrow> 'w submit_world \<Rightarrow> signed \<Rightarrow> intake \<Rightarrow> 'a
    \<Rightarrow> intake \<times> 'a \<times> (ingest_error, string) result" where
  "submit L store w s ik a =
     (let cfg = ik_config ik; pool = sg_pool s in
      if ic_max_body_bytes cfg < length (sg_wire s)
      then (ik, a, Err (Rejected (OversizedBody (length (sg_wire s)) (ic_max_body_bytes cfg))))
      else (case split (sg_wire s) (ic_max_header_bytes cfg) of
        Inl e \<Rightarrow> (ik, a, Err (Rejected (NotASubmission e)))
      | Inr _ \<Rightarrow>
          if allowlist cfg pool = None then (ik, a, Err (Rejected (UnknownPool pool)))
          else (case authorised (sl_roster L) (iw_roster w) s (ik_roster ik) of
            (ro, _, Inl u) \<Rightarrow> (ik\<lparr>ik_roster := ro\<rparr>, a, Err (Rejected (Unauthorised u)))
          | (ro, _, Inr _) \<Rightarrow> submit_proven L store w s (ik\<lparr>ik_roster := ro\<rparr>) a)))"

section \<open>What an acceptance says\<close>

text \<open>The object an accepted submission becomes.\<close>

definition stored_for :: "server_libs \<Rightarrow> 'w submit_world \<Rightarrow> signed \<Rightarrow> header \<Rightarrow> kind \<Rightarrow> stored_submission" where
  "stored_for L w s h k =
     \<lparr>ss_name = object_name_stamped (sl_key L) (iw_entropy w) (iw_now w) (sg_pool s) (pv_agent (h_provenance h)) k,
      ss_pair = sg_attestation s, ss_body = sg_wire s\<rparr>"

definition key_authorised :: "server_libs \<Rightarrow> 'w submit_world \<Rightarrow> signed \<Rightarrow> intake \<Rightarrow> bool" where
  "key_authorised L w s ik \<longleftrightarrow> snd (snd (authorised (sl_roster L) (iw_roster w) s (ik_roster ik))) = Ok ()"

definition fresh_header :: "server_libs \<Rightarrow> 'w submit_world \<Rightarrow> signed \<Rightarrow> intake \<Rightarrow> header option" where
  "fresh_header L w s ik =
     (case read_header (sl_json L) (sg_wire s) (ic_max_header_bytes (ik_config ik)) of
        Inl _ \<Rightarrow> None
      | Inr h \<Rightarrow> if stale (ik_config ik) (iw_now w) h then None else Some h)"

text \<open>Everything a submission has to be before anything is charged for it.\<close>

definition proven :: "server_libs \<Rightarrow> 'w submit_world \<Rightarrow> signed \<Rightarrow> intake \<Rightarrow> bool" where
  "proven L w s ik \<longleftrightarrow>
     length (sg_wire s) \<le> ic_max_body_bytes (ik_config ik)
     \<and> allowlist (ik_config ik) (sg_pool s) \<noteq> None
     \<and> key_authorised L w s ik
     \<and> signed_verifies (sl_crypto L) s
     \<and> fresh_header L w s ik \<noteq> None"

lemma read_header_split: "read_header J b cap = Ok h \<Longrightarrow> \<exists>f. split b cap = Ok f"
  by (auto simp: read_header_def and_then_Ok_iff)

definition after_roster :: "server_libs \<Rightarrow> 'w submit_world \<Rightarrow> signed \<Rightarrow> intake \<Rightarrow> intake" where
  "after_roster L w s ik = ik\<lparr>ik_roster := fst (authorised (sl_roster L) (iw_roster w) s (ik_roster ik))\<rparr>"

text \<open>Nothing proven, nothing charged and nothing written.\<close>

lemma submit_unproven:
  assumes "\<not> proven L w s ik" and "submit L store w s ik a = (ik', a', r)"
  shows "ik_limiter ik' = ik_limiter ik \<and> a' = a \<and> (\<exists>e. r = Err (Rejected e) \<and> e \<noteq> RateLimited p m n \<and> e \<noteq> ServerBusy m n)"
  using assms
  by (auto simp: submit_def submit_proven_def proven_def key_authorised_def fresh_header_def Let_def
      split: if_splits sum.splits prod.splits)

lemma submit_of_proven:
  assumes "proven L w s ik" and "fresh_header L w s ik = Some h"
  shows "submit L store w s ik a =
    (case charge (sg_pool s) (iw_now w) (ik_limiter ik) of
       (rl, c) \<Rightarrow>
         (case limited (ik_config ik) (sg_pool s) c of
            Some r \<Rightarrow> ((after_roster L w s ik)\<lparr>ik_limiter := rl\<rparr>, a, Err (Rejected r))
          | None \<Rightarrow>
              (case accept L store w s (sg_pool s) h a of
                 (a', r) \<Rightarrow> ((after_roster L w s ik)\<lparr>ik_limiter := rl\<rparr>, a', r))))"
proof -
  obtain ro said where auth: "authorised (sl_roster L) (iw_roster w) s (ik_roster ik) = (ro, said, Inr ())"
    using assms(1) by (cases "authorised (sl_roster L) (iw_roster w) s (ik_roster ik)")
      (auto simp: proven_def key_authorised_def)
  from assms(2) have h: "read_header (sl_json L) (sg_wire s) (ic_max_header_bytes (ik_config ik)) = Ok h"
      "\<not> stale (ik_config ik) (iw_now w) h"
    by (auto simp: fresh_header_def split: sum.splits if_splits)
  from read_header_split [OF h(1)] obtain f where "split (sg_wire s) (ic_max_header_bytes (ik_config ik)) = Ok f" ..
  moreover have "after_roster L w s ik = ik\<lparr>ik_roster := ro\<rparr>" by (simp add: after_roster_def auth)
  moreover obtain rl c where "charge (sg_pool s) (iw_now w) (ik_limiter ik) = (rl, c)" by fastforce
  moreover obtain a1 r1 where "accept L store w s (sg_pool s) h a = (a1, r1)" by fastforce
  ultimately show ?thesis using assms(1) auth h
    by (cases "limited (ik_config ik) (sg_pool s) c")
      (auto simp: submit_def submit_proven_def proven_def Let_def)
qed

lemma accept_Ok:
  "accept L store w s (sg_pool s) h a = (a', Ok v) \<longleftrightarrow>
     (\<exists>k. kind_of (h_schema_version h) = Some k \<and> pv_pool (h_provenance h) = sg_pool s
        \<and> store (iw_store w) (stored_for L w s h k) a = (a', Ok ())) \<and> v = ack_latest L"
  by (auto simp: accept_def stored_for_def split: option.splits prod.splits sum.splits)

lemma limited_None: "limited cfg pool c = None \<longleftrightarrow> c = Allowed"
  by (cases c) auto

lemma charge_pair: "charge p n rl = (fst (charge p n rl), snd (charge p n rl))"
  by simp

lemma submit_Ok:
  "(\<exists>ik' v. submit L store w s ik a = (ik', a', Ok v)) \<longleftrightarrow>
     proven L w s ik \<and> snd (charge (sg_pool s) (iw_now w) (ik_limiter ik)) = Allowed
     \<and> (\<exists>h k. fresh_header L w s ik = Some h \<and> kind_of (h_schema_version h) = Some k
          \<and> pv_pool (h_provenance h) = sg_pool s
          \<and> store (iw_store w) (stored_for L w s h k) a = (a', Ok ()))"
proof (cases "proven L w s ik")
  case True
  then obtain h where h: "fresh_header L w s ik = Some h" by (auto simp: proven_def)
  obtain rl c where c: "charge (sg_pool s) (iw_now w) (ik_limiter ik) = (rl, c)" by fastforce
  obtain a1 r1 where a1: "accept L store w s (sg_pool s) h a = (a1, r1)" by fastforce
  have "(\<exists>ik' v. submit L store w s ik a = (ik', a', Ok v)) \<longleftrightarrow> c = Allowed \<and> (\<exists>v. (a1, r1) = (a', Ok v))"
    by (cases c) (auto simp: submit_of_proven [OF True h] c a1)
  also have "\<dots> \<longleftrightarrow> c = Allowed \<and> (\<exists>v. accept L store w s (sg_pool s) h a = (a', Ok v))"
    by (simp add: a1)
  finally show ?thesis using True h c by (auto simp: accept_Ok)
next
  case False
  have "\<not> (\<exists>ik' v. submit L store w s ik a = (ik', a', Ok v))"
    using submit_unproven [OF False, of store a] by fastforce
  with False show ?thesis by blast
qed

lemmas acknowledged_parts = submit_Ok [THEN iffD1]

section \<open>Properties\<close>

text \<open>
  C5: What an acknowledgement means. An upload is acknowledged exactly when all of it holds: the body
  is within its limit, the pool is on the allowlist, the key may speak for it, the signature stands
  over the body as received, the header frame reads, was sealed near this clock, names a kind and
  names the same pool, the limiter allows it, and the archive stored exactly those bytes, with that
  key and signature, under the pool, the agent and the kind the header says.
\<close>

theorem acknowledged_iff:
  "(\<exists>ik' v. submit L store w s ik a = (ik', a', Ok v)) \<longleftrightarrow>
     proven L w s ik \<and> snd (charge (sg_pool s) (iw_now w) (ik_limiter ik)) = Allowed
     \<and> (\<exists>h k. fresh_header L w s ik = Some h \<and> kind_of (h_schema_version h) = Some k
          \<and> pv_pool (h_provenance h) = sg_pool s
          \<and> store (iw_store w) (stored_for L w s h k) a = (a', Ok ()))"
  by (rule submit_Ok)

text \<open>
  C24: Forgery is free of charge to its victim: an upload that is not proven, whoever's key and pool
  it presents, is refused with the limiter and the archive untouched, so no stranger can spend a
  pool's window; and no refusal of any kind writes to the archive.
\<close>

theorem forgery_spends_nothing:
  "case submit L store w s ik a of
     (ik', a', r) \<Rightarrow> (proven L w s ik \<or> ik_limiter ik' = ik_limiter ik \<and> a' = a \<and> (\<exists>e. r = Err (Rejected e)))
       \<and> (case r of Inl (Rejected _) \<Rightarrow> a' = a | _ \<Rightarrow> True)
       \<and> ik_config ik' = ik_config ik"
proof -
  obtain ik' a' r where r: "submit L store w s ik a = (ik', a', r)" by (cases "submit L store w s ik a") auto
  have cfg: "ik_config ik' = ik_config ik"
    using r by (auto simp: submit_def submit_proven_def Let_def split: if_splits sum.splits prod.splits option.splits)
  show ?thesis
  proof (cases "proven L w s ik")
    case False
    from submit_unproven [OF this r] show ?thesis using cfg
      by (auto simp: r split: sum.splits ingest_error.splits)
  next
    case True
    then obtain h where h: "fresh_header L w s ik = Some h" by (auto simp: proven_def)
    have "a' = a" if "r = Err (Rejected e)" for e
      using r that unfolding submit_of_proven [OF True h]
      by (auto simp: accept_def split: prod.splits option.splits if_splits sum.splits)
    then show ?thesis using True cfg r by (auto split: sum.splits ingest_error.splits)
  qed
qed

end
