(* ===== verification/Verify.thy ===== *)
theory Verify
  imports Intake Sealing
begin

text \<open>
  \<open>metsuke-server/src/verify.rs\<close>: a stored object re-verified from nothing but itself, and the audit of
  a whole archive. The archive is its two operations, \<open>keys\<close> and \<open>fetch\<close>.
\<close>

section \<open>One object\<close>

datatype verify_error =
    VerifyBadSignature string
  | VerifyUnreadableHeader string string
  | UnnameableKind string nat
  | Misfiled string string
  | NotItsKey string pool_id

definition verify :: "server_libs \<Rightarrow> fetched_object \<Rightarrow> nat \<Rightarrow> (verify_error, header) result" where
  "verify L object cap =
     (let key = to_key (sl_key L) (fo_name object);
          s = over (filed (fo_attestation object) (on_pool (fo_name object))) (fo_wire_bytes object)
      in if \<not> signed_verifies (sl_crypto L) s then Err (VerifyBadSignature key)
         else
           and_then (map_err (\<lambda>e. VerifyUnreadableHeader key (header_error_text L e))
               (read_header (sl_json L) (fo_wire_bytes object) cap)) (\<lambda>h.
           and_then (ok_or (UnnameableKind key (h_schema_version h)) (kind_of (h_schema_version h))) (\<lambda>k.
           let expected = to_key (sl_key L)
                 \<lparr>on_id = on_id (fo_name object), on_pool = pv_pool (h_provenance h),
                  on_agent = pv_agent (h_provenance h), on_kind = k\<rparr>
           in if expected \<noteq> key then Err (Misfiled key expected)
              else (case attributes (sl_crypto L) (fo_attestation object) of
                      Some derived \<Rightarrow>
                        if derived \<noteq> on_pool (fo_name object) then Err (NotItsKey key derived) else Ok h
                    | None \<Rightarrow> Ok h))))"

section \<open>The audit\<close>

datatype audit_failure = AuditUnreadable string string | AuditFailed verify_error

record audit =
  au_verified :: nat
  au_unattributed :: nat
  au_failures :: "audit_failure list"

fun is_unreadable :: "audit_failure \<Rightarrow> bool" where
  "is_unreadable (AuditUnreadable key reason) = True"
| "is_unreadable (AuditFailed e) = False"

definition audit_unreadable :: "audit \<Rightarrow> nat" where
  "audit_unreadable a = length (filter is_unreadable (au_failures a))"

definition audit_failed :: "audit \<Rightarrow> nat" where
  "audit_failed a = length (au_failures a) - audit_unreadable a"

definition audit_object ::
  "server_libs \<Rightarrow> nat \<Rightarrow> (string \<Rightarrow> (archive_error, fetched_object) result) \<Rightarrow> string \<Rightarrow> audit \<Rightarrow> audit" where
  "audit_object L cap fetch key a =
     (case fetch key of
        Inl e \<Rightarrow> a\<lparr>au_failures := au_failures a @ [AuditUnreadable key (archive_error_text L e)]\<rparr>
      | Inr object \<Rightarrow>
          (case verify L object cap of
             Inl e \<Rightarrow> a\<lparr>au_failures := au_failures a @ [AuditFailed e]\<rparr>
           | Inr _ \<Rightarrow>
               (case attributes (sl_crypto L) (fo_attestation object) of
                  Some _ \<Rightarrow> a\<lparr>au_verified := au_verified a + 1\<rparr>
                | None \<Rightarrow> a\<lparr>au_unattributed := au_unattributed a + 1\<rparr>)))"

definition audit_archive ::
  "server_libs \<Rightarrow> nat \<Rightarrow> (archive_error, string list) result \<Rightarrow> (string \<Rightarrow> (archive_error, fetched_object) result)
    \<Rightarrow> (archive_error, audit) result" where
  "audit_archive L cap keys fetch =
     and_then keys (\<lambda>ks.
       Ok (fold (audit_object L cap fetch) ks \<lparr>au_verified = 0, au_unattributed = 0, au_failures = []\<rparr>))"

section \<open>What a verdict says\<close>

text \<open>An object that is what its key says: signed, filed where its header says, by a key of that pool.\<close>

definition sound_object :: "server_libs \<Rightarrow> nat \<Rightarrow> fetched_object \<Rightarrow> header \<Rightarrow> bool" where
  "sound_object L cap object h \<longleftrightarrow>
     verifies (sl_crypto L) (fo_attestation object) (fo_wire_bytes object)
     \<and> read_header (sl_json L) (fo_wire_bytes object) cap = Ok h
     \<and> pv_pool (h_provenance h) = on_pool (fo_name object)
     \<and> pv_agent (h_provenance h) = on_agent (fo_name object)
     \<and> kind_of (h_schema_version h) = Some (on_kind (fo_name object))
     \<and> (case attributes (sl_crypto L) (fo_attestation object) of
          None \<Rightarrow> True | Some derived \<Rightarrow> derived = on_pool (fo_name object))"

text \<open>serde reads a provenance through the two ids' own parsers, so what it reads is well formed.\<close>

definition json_typed :: "json_lib \<Rightarrow> bool" where
  "json_typed J \<longleftrightarrow>
     (\<forall>b h. header_from_slice J b = Ok h \<longrightarrow>
        pool_id_wf (pv_pool (h_provenance h)) \<and> is_slug (pv_agent (h_provenance h)))"

lemma read_header_typed:
  "json_typed J \<Longrightarrow> read_header J b cap = Ok h \<Longrightarrow> pool_id_wf (pv_pool (h_provenance h)) \<and> is_slug (pv_agent (h_provenance h))"
  by (auto simp: json_typed_def read_header_def and_then_Ok_iff)

lemma to_key_inj:
  "key_lib_ok L \<Longrightarrow> object_name_wf L a \<Longrightarrow> object_name_wf L b \<Longrightarrow> to_key L a = to_key L b \<longleftrightarrow> a = b"
  by (metis parse_to_key sum.inject(2))

lemma verify_Ok:
  assumes "key_lib_ok (sl_key L)" "json_typed (sl_json L)" "object_name_wf (sl_key L) (fo_name object)"
  shows "verify L object cap = Ok h \<longleftrightarrow> sound_object L cap object h"
proof -
  let ?n = "fo_name object"
  have same: "to_key (sl_key L) \<lparr>on_id = on_id ?n, on_pool = pv_pool (h_provenance h'),
        on_agent = pv_agent (h_provenance h'), on_kind = k\<rparr> = to_key (sl_key L) ?n
      \<longleftrightarrow> pv_pool (h_provenance h') = on_pool ?n \<and> pv_agent (h_provenance h') = on_agent ?n \<and> k = on_kind ?n"
    if "read_header (sl_json L) (fo_wire_bytes object) cap = Ok h'" for h' k
  proof -
    from read_header_typed [OF assms(2) that] assms(3)
    have "object_name_wf (sl_key L) \<lparr>on_id = on_id ?n, on_pool = pv_pool (h_provenance h'),
        on_agent = pv_agent (h_provenance h'), on_kind = k\<rparr>"
      by (simp add: object_name_wf_def)
    from to_key_inj [OF assms(1) this assms(3)] show ?thesis
      by (cases ?n) auto
  qed
  show ?thesis
    by (cases "read_header (sl_json L) (fo_wire_bytes object) cap")
      (auto simp: verify_def sound_object_def Let_def signed_verifies_def filed_def same and_then_Ok_iff
        split: if_splits option.splits)
qed

lemma audit_object_counts:
  "au_verified (audit_object L cap fetch key a) + au_unattributed (audit_object L cap fetch key a)
      + length (au_failures (audit_object L cap fetch key a))
    = au_verified a + au_unattributed a + length (au_failures a) + 1"
  "length (au_failures (audit_object L cap fetch key a)) = length (au_failures a)
    \<longleftrightarrow> (\<exists>ob h. fetch key = Ok ob \<and> verify L ob cap = Ok h)"
  "length (au_failures a) \<le> length (au_failures (audit_object L cap fetch key a))"
  by (auto simp: audit_object_def split: sum.splits option.splits)

lemma fold_audit:
  "au_verified (fold (audit_object L cap fetch) ks a) + au_unattributed (fold (audit_object L cap fetch) ks a)
      + length (au_failures (fold (audit_object L cap fetch) ks a))
    = au_verified a + au_unattributed a + length (au_failures a) + length ks
   \<and> (length (au_failures (fold (audit_object L cap fetch) ks a)) = length (au_failures a)
      \<longleftrightarrow> (\<forall>k \<in> set ks. \<exists>ob h. fetch k = Ok ob \<and> verify L ob cap = Ok h))
   \<and> length (au_failures a) \<le> length (au_failures (fold (audit_object L cap fetch) ks a))"
proof (induction ks arbitrary: a)
  case (Cons k ks)
  let ?a = "audit_object L cap fetch k a"
  have "length (au_failures (fold (audit_object L cap fetch) (k # ks) a)) = length (au_failures a)
      \<longleftrightarrow> length (au_failures (fold (audit_object L cap fetch) ks ?a)) = length (au_failures ?a)
        \<and> length (au_failures ?a) = length (au_failures a)"
    using Cons.IH [of ?a] audit_object_counts(3) [of a L cap fetch k] by auto
  with Cons.IH [of ?a] audit_object_counts(1,2) [of L cap fetch k a] audit_object_counts(3) [of a L cap fetch k]
  show ?case by auto
qed simp

section \<open>Properties\<close>

text \<open>
  C23: A verdict is exact: an object verifies exactly when its signature stands over its bytes, its
  header frame reads, the header names the pool, the agent and the kind of the key it is filed under,
  and a cold key that signed it hashes to that pool.
\<close>

theorem verify_exact:
  assumes "key_lib_ok (sl_key L)" "json_typed (sl_json L)" and "object_name_wf (sl_key L) (fo_name object)"
  shows "verify L object cap = Ok h \<longleftrightarrow> sound_object L cap object h"
  using assms by (rule verify_Ok)

text \<open>
  An audit accounts for every key: each is counted once, as verified, as unattributed or as a
  failure of one of two kinds, and it finds no failure exactly when every object is read and verifies.
\<close>

theorem audit_accounts:
  "case audit_archive L cap (Ok ks) fetch of
     Inl _ \<Rightarrow> False
   | Inr a \<Rightarrow>
       au_verified a + au_unattributed a + audit_failed a + audit_unreadable a = length ks
       \<and> (au_failures a = [] \<longleftrightarrow> list_all (\<lambda>k. \<exists>ob h. fetch k = Ok ob \<and> verify L ob cap = Ok h) ks)"
proof -
  let ?a = "fold (audit_object L cap fetch) ks \<lparr>au_verified = 0, au_unattributed = 0, au_failures = []\<rparr>"
  have "audit_unreadable ?a \<le> length (au_failures ?a)" by (simp add: audit_unreadable_def)
  with fold_audit [of L cap fetch ks "\<lparr>au_verified = 0, au_unattributed = 0, au_failures = []\<rparr>"] show ?thesis
    by (simp add: audit_archive_def audit_failed_def list_all_iff)
qed

section \<open>Witnesses\<close>

definition demo_verifier :: server_libs where
  "demo_verifier = \<lparr>sl_crypto = demo_crypto, sl_json = demo_json, sl_key = demo_key_lib, sl_roster = demo_roster_lib,
     sl_client_version = ''0.1.0'', header_error_text = (\<lambda>_. ''header''), archive_error_text = (\<lambda>_. ''archive'')\<rparr>"

text \<open>An object of pool \<open>p...p\<close> that its own cold key signed, and the same one filed as logs.\<close>

definition demo_object :: "kind \<Rightarrow> fetched_object" where
  "demo_object k =
     (let wire = frame ''h'' ''data'' in
      \<lparr>fo_name = demo_name\<lparr>on_kind := k\<rparr>,
       fo_attestation = attest demo_crypto (ColdSigningKey (SigningKey (replicate 32 (CHR ''p'')))) wire,
       fo_wire_bytes = wire\<rparr>)"

lemma demo_json_typed: "json_typed demo_json"
  by (auto simp: json_typed_def demo_json_def header_of_def demo_envelope_def new_envelope_def demo_provenance_def
    pool_id_wf_def is_slug_def is_slug_char_def is_digit_def is_lower_def split: if_splits)

lemma demo_object_sound: "sound_object demo_verifier 16 (demo_object k) h \<longleftrightarrow> k = Metrics \<and> h = header_of demo_envelope"
proof -
  have "verifies demo_crypto (fo_attestation (demo_object k)) (fo_wire_bytes (demo_object k))"
    unfolding demo_object_def Let_def
    by (simp only: fetched_object.simps, rule attest_verifies) (simp_all add: demo_crypto_ok)
  moreover have "read_header demo_json (fo_wire_bytes (demo_object k)) 16 = Ok (header_of demo_envelope)"
    by (simp add: demo_object_def read_header_def split_frame demo_json_def Let_def)
  ultimately show ?thesis
    by (cases k) (auto simp: sound_object_def demo_verifier_def header_of_def demo_envelope_def new_envelope_def
        demo_provenance_def kind_of_def scrapes_payload_def schema_versions demo_object_def demo_name_def Let_def
        from_cold_key_def demo_crypto_def)
qed

theorem verify_exact_witness:
  "verify demo_verifier (demo_object Metrics) 16 = Ok (header_of demo_envelope)
   \<and> verify demo_verifier (demo_object Logs) 16 \<noteq> Ok (header_of demo_envelope)"
proof -
  have "key_lib_ok (sl_key demo_verifier)" "json_typed (sl_json demo_verifier)"
    by (simp_all add: demo_verifier_def demo_key_lib_ok demo_json_typed)
  moreover have "object_name_wf (sl_key demo_verifier) (fo_name (demo_object k))" for k
    using demo_name_wf by (simp add: demo_verifier_def demo_object_def Let_def object_name_wf_def)
  ultimately show ?thesis by (simp add: verify_exact demo_object_sound)
qed

end
