(* ===== verification/Archive_Laws.thy ===== *)
theory Archive_Laws
  imports Archive
begin

text \<open>
  The two contracts the rest of the server relies on, \<open>Store\<close> beside \<open>Bytes\<close> and \<open>List::page\<close> of
  \<open>metsuke-server/src/archive.rs\<close>, and the proof that the directory archive keeps both.
\<close>

lemma header_to_str_encode [simp]: "header_to_str (encode b) = Some (encode b)"
  using encode_visible by (force simp: header_to_str_def list_all_iff)

section \<open>The contracts\<close>

locale object_store =
  fixes store :: "'w \<Rightarrow> stored_submission \<Rightarrow> 'a \<Rightarrow> 'a \<times> (archive_error, unit) result"
    and stored :: "'a \<Rightarrow> string \<Rightarrow> (archive_error, 'c) result"
    and content_of :: "stored_submission \<Rightarrow> 'c"
    and key_of :: "stored_submission \<Rightarrow> string"
    and good :: "stored_submission \<Rightarrow> bool"
  assumes reads_back: "good s \<Longrightarrow> store w s a = (a', Ok ()) \<Longrightarrow> stored a' (key_of s) = Ok (content_of s)"
    and leaves_others: "good s \<Longrightarrow> store w s a = (a', r) \<Longrightarrow> key \<noteq> key_of s \<Longrightarrow> stored a' key = stored a key"
begin

fun store_all :: "('w \<times> stored_submission) list \<Rightarrow> 'a \<Rightarrow> 'a \<times> (archive_error, unit) result list" where
  "store_all [] a = (a, [])"
| "store_all ((w, s) # ss) a =
     (case store w s a of (a', r) \<Rightarrow> (case store_all ss a' of (a'', rs) \<Rightarrow> (a'', r # rs)))"

lemma store_all_leaves:
  "\<forall>s \<in> snd ` set ss. good s \<Longrightarrow> key \<notin> key_of ` snd ` set ss \<Longrightarrow> store_all ss a = (a', rs)
    \<Longrightarrow> stored a' key = stored a key"
proof (induction ss arbitrary: a rs)
  case (Cons x ss)
  obtain w s where x: "x = (w, s)" by fastforce
  obtain a1 r where a1: "store w s a = (a1, r)" by fastforce
  with Cons.prems(3) x obtain rs' where rest: "store_all ss a1 = (a', rs')" by (auto split: prod.splits)
  from Cons.prems x have "good s" "key \<noteq> key_of s" by auto
  with a1 have "stored a1 key = stored a key" by (blast intro: leaves_others)
  with Cons.IH [OF _ _ rest] Cons.prems show ?case by simp
qed simp

text \<open>Objects under distinct keys: every one whose store answered is read back as it was given.\<close>

lemma store_all_kept:
  "\<forall>s \<in> snd ` set ss. good s \<Longrightarrow> distinct (map (key_of \<circ> snd) ss) \<Longrightarrow> store_all ss a = (a', rs)
    \<Longrightarrow> ((w, s), Ok ()) \<in> set (zip ss rs) \<Longrightarrow> stored a' (key_of s) = Ok (content_of s)"
proof (induction ss arbitrary: a rs)
  case (Cons x ss)
  obtain w1 s1 where x: "x = (w1, s1)" by fastforce
  obtain a1 r where a1: "store w1 s1 a = (a1, r)" by fastforce
  with Cons.prems(3) x obtain rs' where rest: "store_all ss a1 = (a', rs')" and rs: "rs = r # rs'"
    by (auto split: prod.splits)
  from Cons.prems x have good: "\<forall>s \<in> snd ` set ss. good s" "good s1"
    and dist: "distinct (map (key_of \<circ> snd) ss)" and new: "key_of s1 \<notin> key_of ` snd ` set ss"
    by (auto simp: image_comp comp_def)
  show ?case
  proof (cases "(w, s) = x \<and> r = Ok ()")
    case True
    with x a1 good have "stored a1 (key_of s) = Ok (content_of s)" by (auto intro: reads_back)
    moreover have "stored a' (key_of s) = stored a1 (key_of s)"
      using store_all_leaves [OF good(1) _ rest] new True x by auto
    ultimately show ?thesis by simp
  next
    case False
    with Cons.prems(4) x rs have "((w, s), Ok ()) \<in> set (zip ss rs')" by auto
    from Cons.IH [OF good(1) dist rest this] show ?thesis .
  qed
qed simp

end

text \<open>The keys a listing asks for: those of a prefix, after a key, in order.\<close>

definition key_matches :: "string list \<Rightarrow> string \<Rightarrow> string \<Rightarrow> string list" where
  "key_matches held p aft = sort (filter (\<lambda>k. starts_with p k \<and> aft < k) held)"

lemma key_matches_set: "set (key_matches held p aft) = {k \<in> set held. starts_with p k \<and> aft < k}"
  by (auto simp: key_matches_def)

lemma key_matches_strict: "distinct held \<Longrightarrow> sorted_wrt (<) (key_matches held p aft)"
  by (simp add: key_matches_def strict_sorted_iff)

text \<open>The matches after the last of the first few are the others.\<close>

lemma key_matches_after:
  assumes dist: "distinct held" and n: "0 < n" "n < length (key_matches held p aft)"
  shows "key_matches held p (last (take n (key_matches held p aft))) = drop n (key_matches held p aft)"
proof -
  let ?m = "key_matches held p aft" and ?k = "last (take n (key_matches held p aft))"
  note strict = key_matches_strict [OF dist]
  have "?k \<in> set (take n ?m)" using n by (intro last_in_set) auto
  then have in_m: "?k \<in> set ?m" by (rule in_set_takeD)
  then have "set (key_matches held p ?k) = set (filter (\<lambda>x. ?k < x) ?m)" by (auto simp: key_matches_set)
  also have "\<dots> = set (drop n ?m)" using filter_after_take [OF strict n(1), of p aft] n(2) by simp
  finally have same: "set (key_matches held p ?k) = set (drop n ?m)" .
  have "sorted_wrt (<) (drop n ?m)" using strict by (rule sorted_wrt_drop)
  with same key_matches_strict [OF dist, of p ?k] show ?thesis
    by (intro sorted_distinct_set_unique) (auto simp: strict_sorted_iff)
qed

locale paged_listing =
  fixes readable :: "'a \<Rightarrow> bool"
    and held :: "'a \<Rightarrow> string list"
    and rows :: "nat \<Rightarrow> bool"
    and page_of :: "'a \<Rightarrow> string \<Rightarrow> string \<Rightarrow> nat \<Rightarrow> (archive_error, page) result"
  assumes distinct_held: "readable a \<Longrightarrow> distinct (held a)"
    and page_of: "readable a \<Longrightarrow> rows n \<Longrightarrow> page_of a p aft n = Ok (page_bounded (key_matches (held a) p aft) n)"
begin

definition matching :: "'a \<Rightarrow> string \<Rightarrow> string \<Rightarrow> string list" where
  "matching a p aft = key_matches (held a) p aft"

lemma matching_strict: "readable a \<Longrightarrow> sorted_wrt (<) (matching a p aft)"
  by (simp add: matching_def key_matches_strict distinct_held)

text \<open>A page is cut from the matches in order, and the page after its last key goes on where it stopped.\<close>

lemma page_is_prefix:
  "readable a \<Longrightarrow> rows n \<Longrightarrow> page_of a p aft n = Ok \<lparr>pg_keys = take n (matching a p aft), pg_truncated = (n < length (matching a p aft))\<rparr>"
  by (simp add: page_of matching_def page_bounded_def)

lemma next_page:
  "readable a \<Longrightarrow> 0 < n \<Longrightarrow> n < length (matching a p aft) \<Longrightarrow>
    matching a p (last (take n (matching a p aft))) = drop n (matching a p aft)"
  unfolding matching_def by (intro key_matches_after distinct_held)

end

section \<open>The directory archive keeps them\<close>

lemma fs_open_update:
  assumes "fs_update cs f root = Ok n" and "length ds = length cs" "ds \<noteq> cs"
  shows "fs_open ds (Some n) = fs_open ds root"
  using assms
proof (induction cs f root arbitrary: ds n rule: fs_update.induct)
  case (2 c cs f)
  then obtain m where m: "fs_update cs f None = Ok m" "n = FsDir [(c, m)] None" by (auto simp: and_then_Ok_iff)
  with 2 show ?case by (cases ds) auto
next
  case (3 c cs f es fin)
  then obtain m where m: "fs_update cs f (map_of es c) = Ok m" "n = FsDir (entry_update c m es) fin"
    by (auto simp: and_then_Ok_iff)
  have upd: "map_of (entry_update c m es) d = (if d = c then Some m else map_of es d)" for d
    by (induction es) auto
  from 3 m show ?case by (cases ds) (auto simp: upd)
qed (auto split: prod.splits)

lemma fs_open_make_dirs:
  assumes "fs_update cs make_dir root = Ok n" and "length cs < length ds"
  shows "fs_open ds (Some n) = fs_open ds root"
  using assms
proof (induction cs "make_dir" root arbitrary: ds n rule: fs_update.induct)
  case (1 node)
  then show ?case by (cases ds; cases node rule: make_dir.cases) auto
next
  case (2 c cs)
  then obtain m where m: "fs_update cs make_dir None = Ok m" "n = FsDir [(c, m)] None" by (auto simp: and_then_Ok_iff)
  with 2 show ?case by (cases ds) auto
next
  case (3 c cs es fin)
  then obtain m where m: "fs_update cs make_dir (map_of es c) = Ok m" "n = FsDir (entry_update c m es) fin"
    by (auto simp: and_then_Ok_iff)
  have upd: "map_of (entry_update c m es) d = (if d = c then Some m else map_of es d)" for d
    by (induction es) auto
  from 3 m show ?case by (cases ds) (auto simp: upd)
qed auto

lemma fs_open_written:
  "fs_update cs (write_content b) root = Ok n \<Longrightarrow> fs_open cs (Some n) = Ok b"
proof (induction cs "write_content b" root arbitrary: n rule: fs_update.induct)
  case (1 node)
  then show ?case by (cases "(b, node)" rule: write_content.cases) auto
next
  case (2 c cs)
  then show ?case by (auto simp: and_then_Ok_iff)
next
  case (3 c cs es fin)
  then obtain m where m: "fs_update cs (write_content b) (map_of es c) = Ok m" "n = FsDir (entry_update c m es) fin"
    by (auto simp: and_then_Ok_iff)
  have "map_of (entry_update c m es) c = Some m" by (induction es) auto
  with 3 m show ?case by auto
qed auto

lemma key_components:
  assumes "object_name_parse L key = Ok n"
  shows "length (path_components key) = 3 \<and> to_key L n = key"
  using assms
  by (auto simp: object_name_parse_def and_then_Ok_iff key_stem_def path_components_def numeral_3_eq_3
      split: list.splits if_splits)

lemma components_inj: "path_components k = path_components k' \<longleftrightarrow> k = k'"
  unfolding path_components_def by (metis join_split)

definition fs_bytes :: "key_lib \<Rightarrow> (object_name_error \<Rightarrow> string) \<Rightarrow> fs_archive \<Rightarrow> string \<Rightarrow> (archive_error, bytes) result" where
  "fs_bytes L name_text a key =
     and_then (fs_reader L name_text None a key) (\<lambda>st. map_err (ArchiveFetch key) (os_content st))"

definition good_name :: "key_lib \<Rightarrow> stored_submission \<Rightarrow> bool" where
  "good_name L s \<longleftrightarrow> key_lib_ok L \<and> object_name_wf L (ss_name s)"

lemma fs_bytes_eq:
  "fs_bytes L nt a key =
     and_then (map_err (\<lambda>e. ArchiveFetch key (nt e)) (object_name_parse L key)) (\<lambda>name.
       map_err (\<lambda>e. case e of NotFound \<Rightarrow> NoSuchObject key | OtherIo r \<Rightarrow> ArchiveFetch key r)
         (fs_open (path_components key) (fs_tree a)))"
  using key_components [of L key]
  by (cases "object_name_parse L key")
    (auto simp: fs_bytes_def fs_reader_def and_then_def map_err_def split: sum.splits)

lemma fs_write_leaves:
  assumes "fs_write fault cs b root = (root', r)" and "length ds = length cs" "ds \<noteq> cs" "cs \<noteq> []"
  shows "fs_open ds root' = fs_open ds root"
proof -
  have "length (take k (butlast cs)) < length ds" for k using assms by (cases cs) auto
  with assms show ?thesis
    by (auto simp: fs_write_def fs_open_update fs_open_make_dirs split: option.splits sum.splits fs_fault.splits)
qed

interpretation fs: object_store "fs_store L" "fs_bytes L nt" ss_body "object_key L" "good_name L" for L nt
proof unfold_locales
  fix s w a a'
  assume good: "good_name L s" and done1: "fs_store L w s a = (a', Ok ())"
  then have parse: "object_name_parse L (object_key L s) = Ok (ss_name s)"
    by (simp add: good_name_def object_key_def parse_to_key)
  from done1 have "fs_open (path_components (object_key L s)) (fs_tree a') = Ok (ss_body s)"
    by (auto simp: fs_store_def fs_write_def Let_def fs_open_written split: prod.splits option.splits sum.splits fs_fault.splits)
  with parse show "fs_bytes L nt a' (object_key L s) = Ok (ss_body s)"
    by (simp add: fs_bytes_eq)
next
  fix s w a a' r key
  assume good: "good_name L s" and done1: "fs_store L w s a = (a', r)" and other: "key \<noteq> object_key L s"
  from good have "object_name_parse L (object_key L s) = Ok (ss_name s)"
    by (simp add: good_name_def object_key_def parse_to_key)
  then have three: "length (path_components (object_key L s)) = 3" by (simp add: key_components)
  obtain tree e where w: "fs_write w (path_components (object_key L s)) (ss_body s) (fs_tree a) = (tree, e)"
      "fs_tree a' = tree"
    using done1 by (auto simp: fs_store_def Let_def split: prod.splits)
  show "fs_bytes L nt a' key = fs_bytes L nt a key"
  proof (cases "object_name_parse L key")
    case (Inr n)
    then have "length (path_components key) = 3" by (simp add: key_components)
    moreover have "path_components key \<noteq> path_components (object_key L s)" using other by (simp add: components_inj)
    ultimately have "fs_open (path_components key) tree = fs_open (path_components key) (fs_tree a)"
      using fs_write_leaves [OF w(1)] three by (metis length_greater_0_conv)
    with w(2) show ?thesis by (simp add: fs_bytes_eq)
  qed (simp add: fs_bytes_eq)
qed

text \<open>A directory that reads to its end, with every name in it once.\<close>

definition fs_held :: "fs_archive \<Rightarrow> string list" where
  "fs_held a = (case fs_keys a of Inl _ \<Rightarrow> [] | Inr ks \<Rightarrow> ks)"

definition fs_readable :: "fs_archive \<Rightarrow> bool" where
  "fs_readable a \<longleftrightarrow> (case fs_keys a of Inl _ \<Rightarrow> False | Inr ks \<Rightarrow> distinct ks)"

lemma for_each_visits:
  "fs_for_each_key conv (keep_key P) a acc
    = visited conv P acc (case fs_tree a of
        None \<Rightarrow> ([], None)
      | Some (FsDir es fin) \<Rightarrow> listing_of (fs_root a) [] (FsDir es fin)
      | Some (FsUnreadable r) \<Rightarrow> ([], Some (path_unreadable (fs_root a) r))
      | Some (FsNoType r) \<Rightarrow> ([], Some (path_unreadable (fs_root a) r))
      | Some (FsFile b) \<Rightarrow> ([], Some (path_unreadable (fs_root a) ''Not a directory'')))"
  unfolding fs_for_each_key_def
  by (auto simp only: walk_visits split: option.splits fs_node.splits) (simp_all add: visited_def)

lemma fs_page_keys:
  "fs_page a p aft n = and_then (fs_keys a) (\<lambda>ks. Ok (page_bounded (sort (filter (\<lambda>k. starts_with p k \<and> aft < k) ks)) n))"
  by (auto simp: fs_page_def fs_keys_def collect_is_keep for_each_visits visited_def split: option.splits)

interpretation fs: paged_listing fs_readable fs_held "\<lambda>_. True" fs_page
  by unfold_locales (auto simp: fs_readable_def fs_held_def fs_page_keys key_matches_def split: sum.splits)

end
