(* ===== verification/Intake_Laws.thy ===== *)
theory Intake_Laws
  imports Verify Archive_Laws Uploader
begin

text \<open>
  What the intake promises to the parties on either side of it: to the agent, that what it seals is
  accepted (\<open>metsuke/src/uploader.rs\<close> against \<open>metsuke-server/src/intake.rs\<close>), and to whoever reads the
  archive, that what was acknowledged stays there and verifies (\<open>verify.rs\<close>, \<open>archive.rs\<close>).
\<close>

section \<open>What an acknowledged submission leaves in the archive\<close>

text \<open>The \<open>uuid\<close> crate's \<open>new_v7\<close> makes a version 7 id.\<close>

definition new_ids_ok :: "key_lib \<Rightarrow> bool" where
  "new_ids_ok L \<longleftrightarrow> (\<forall>secs nanos entropy. uuid_is_v7 L (uuid_new_v7 L secs nanos entropy))"

definition server_libs_ok :: "server_libs \<Rightarrow> bool" where
  "server_libs_ok L \<longleftrightarrow> key_lib_ok (sl_key L) \<and> new_ids_ok (sl_key L) \<and> json_typed (sl_json L)"

lemma read_header_wider: "read_header J b cap = Ok h \<Longrightarrow> cap \<le> cap' \<Longrightarrow> read_header J b cap' = Ok h"
proof -
  assume "read_header J b cap = Ok h" and "cap \<le> cap'"
  then obtain f where "split b cap = Ok f" "header_from_slice J (fr_header f) = Ok h"
    by (auto simp: read_header_def and_then_Ok_iff)
  moreover from this(1) \<open>cap \<le> cap'\<close> have "split b cap' = Ok f" by (auto simp: split_Ok_iff)
  ultimately show ?thesis by (simp add: read_header_def)
qed

lemma fresh_header_reads:
  "fresh_header L w s ik = Some h \<Longrightarrow> read_header (sl_json L) (sg_wire s) (ic_max_header_bytes (ik_config ik)) = Ok h"
  by (auto simp: fresh_header_def split: sum.splits if_splits)

lemma stored_name_wf:
  assumes "server_libs_ok L" and "fresh_header L w s ik = Some h" and "pv_pool (h_provenance h) = sg_pool s"
  shows "object_name_wf (sl_key L) (ss_name (stored_for L w s h k))"
  using assms(1,3) read_header_typed [OF _ fresh_header_reads [OF assms(2)]]
  by (simp add: server_libs_ok_def stored_for_def object_name_stamped_def object_name_wf_def new_ids_ok_def)

text \<open>One submission is at most one store.\<close>

lemma submit_archive:
  assumes "submit L store w s ik a = (ik', a', r)"
  shows "a' = a \<or> (\<exists>h k x. fresh_header L w s ik = Some h \<and> pv_pool (h_provenance h) = sg_pool s
    \<and> store (iw_store w) (stored_for L w s h k) a = (a', x))"
proof (cases "proven L w s ik")
  case False
  from submit_unproven [OF this assms] show ?thesis by blast
next
  case True
  then obtain h where h: "fresh_header L w s ik = Some h" by (auto simp: proven_def)
  with assms show ?thesis
    by (auto simp: submit_of_proven [OF True h] accept_def stored_for_def
        split: prod.splits option.splits if_splits sum.splits)
qed

lemma submit_config: "submit L store w s ik a = (ik', a', r) \<Longrightarrow> ik_config ik' = ik_config ik"
  by (auto simp: submit_def submit_proven_def Let_def split: if_splits sum.splits prod.splits option.splits)

lemma fresh_header_config: "ik_config ik' = ik_config ik \<Longrightarrow> fresh_header L w s ik' = fresh_header L w s ik"
  by (auto simp: fresh_header_def stale_def split: sum.splits)

fun submits ::
  "server_libs \<Rightarrow> ('w, 'a) store \<Rightarrow> ('w submit_world \<times> signed) list \<Rightarrow> intake \<Rightarrow> 'a \<Rightarrow> intake \<times> 'a" where
  "submits L store [] ik a = (ik, a)"
| "submits L store ((w, s) # rest) ik a =
     (case submit L store w s ik a of (ik', a', _) \<Rightarrow> submits L store rest ik' a')"

text \<open>The object key a submission is filed under, if it gets that far.\<close>

definition filed_under :: "server_libs \<Rightarrow> 'w submit_world \<Rightarrow> signed \<Rightarrow> intake \<Rightarrow> string \<Rightarrow> bool" where
  "filed_under L w s ik key \<longleftrightarrow>
     (\<exists>h k. fresh_header L w s ik = Some h \<and> object_key (sl_key L) (stored_for L w s h k) = key)"

context object_store
begin

lemma submits_keep:
  assumes "\<And>(w :: 'w submit_world) s h k. fresh_header L w s ik = Some h \<Longrightarrow> pv_pool (h_provenance h) = sg_pool s
      \<Longrightarrow> good (stored_for L w s h k)"
    and "\<And>x. key_of x = object_key (sl_key L) x"
    and "\<forall>(w, s) \<in> set ws. \<not> filed_under L w s ik key"
    and "ik_config ik1 = ik_config ik" and "submits L store ws ik1 a = (ik', a')"
  shows "stored a' key = stored a key"
  using assms(3,4,5)
proof (induction ws arbitrary: ik1 a)
  case (Cons x ws)
  obtain w s where x: "x = (w, s)" by fastforce
  obtain ik2 a2 r where r: "submit L store w s ik1 a = (ik2, a2, r)" by (cases "submit L store w s ik1 a") auto
  have same: "fresh_header L w s ik1 = fresh_header L w s ik" using Cons.prems(2) by (rule fresh_header_config)
  have "stored a2 key = stored a key"
  proof (rule disjE [OF submit_archive [OF r]])
    assume "\<exists>h k x. fresh_header L w s ik1 = Some h \<and> pv_pool (h_provenance h) = sg_pool s
      \<and> store (iw_store w) (stored_for L w s h k) a = (a2, x)"
    then obtain h k x where h: "fresh_header L w s ik = Some h" "pv_pool (h_provenance h) = sg_pool s"
      and st: "store (iw_store w) (stored_for L w s h k) a = (a2, x)"
      by (auto simp: same)
    have "key \<noteq> key_of (stored_for L w s h k)"
      using Cons.prems(1) h(1) x by (auto simp: filed_under_def assms(2))
    from leaves_others [OF assms(1) [OF h] st this] show ?thesis .
  qed simp
  moreover have "ik_config ik2 = ik_config ik" using submit_config [OF r] Cons.prems(2) by simp
  ultimately show ?case using Cons.IH [of ik2 a2] Cons.prems x r by simp
qed simp

text \<open>An acknowledged submission is read back as it was received, whatever is submitted after it.\<close>

lemma acknowledged_kept:
  assumes good: "\<And>(w :: 'w submit_world) s h k. fresh_header L w s ik = Some h \<Longrightarrow> pv_pool (h_provenance h) = sg_pool s
      \<Longrightarrow> good (stored_for L w s h k)"
    and key: "\<And>x. key_of x = object_key (sl_key L) x"
    and acked: "submit L store w s ik a = (ik1, a1, Ok v)"
    and later: "submits L store ws ik1 a1 = (ik2, a2)"
  shows "\<exists>h k. fresh_header L w s ik = Some h \<and> kind_of (h_schema_version h) = Some k
    \<and> pv_pool (h_provenance h) = sg_pool s
    \<and> ((\<exists>(w', s') \<in> set ws. filed_under L w' s' ik (object_key (sl_key L) (stored_for L w s h k)))
       \<or> stored a2 (object_key (sl_key L) (stored_for L w s h k)) = Ok (content_of (stored_for L w s h k)))"
proof -
  have "\<exists>ik' v. submit L store w s ik a = (ik', a1, Ok v)" using acked by blast
  from acknowledged_parts [OF this] obtain h k where h: "fresh_header L w s ik = Some h" "kind_of (h_schema_version h) = Some k"
      "pv_pool (h_provenance h) = sg_pool s"
    and st: "store (iw_store w) (stored_for L w s h k) a = (a1, Ok ())"
    by blast
  let ?key = "object_key (sl_key L) (stored_for L w s h k)"
  have "stored a1 ?key = Ok (content_of (stored_for L w s h k))"
    using reads_back [OF good [OF h(1,3)] st] by (simp add: key)
  moreover have "stored a2 ?key = stored a1 ?key"
    if "\<forall>(w', s') \<in> set ws. \<not> filed_under L w' s' ik ?key"
    using submits_keep [OF good key that submit_config [OF acked] later] .
  ultimately show ?thesis using h by fastforce
qed

end

lemma good_stored:
  "server_libs_ok L \<Longrightarrow> fresh_header L w s ik = Some h \<Longrightarrow> pv_pool (h_provenance h) = sg_pool s
    \<Longrightarrow> good_name (sl_key L) (stored_for L w s h k)"
  by (simp add: good_name_def stored_name_wf, simp add: server_libs_ok_def)

definition fetched_of :: "stored_submission \<Rightarrow> fetched_object" where
  "fetched_of x = \<lparr>fo_name = ss_name x, fo_attestation = ss_pair x, fo_wire_bytes = ss_body x\<rparr>"

lemma stored_verifies:
  assumes libs: "server_libs_ok L" and agrees: "header_pool_agrees (sl_crypto L) a"
    and proven: "proven L w (over a wire) ik" and h: "fresh_header L w (over a wire) ik = Some h"
    and k: "kind_of (h_schema_version h) = Some k" and pool: "pv_pool (h_provenance h) = sg_pool (over a wire)"
    and cap: "ic_max_header_bytes (ik_config ik) \<le> cap"
  shows "verify L (fetched_of (stored_for L w (over a wire) h k)) cap = Ok h"
proof -
  let ?o = "fetched_of (stored_for L w (over a wire) h k)"
  have "object_name_wf (sl_key L) (fo_name ?o)"
    using stored_name_wf [OF libs h pool] by (simp add: fetched_of_def)
  moreover have "read_header (sl_json L) wire cap = Ok h"
    using read_header_wider [OF fresh_header_reads [OF h] cap] by simp
  then have "sound_object L cap ?o h"
    using proven agrees k pool
    by (auto simp: sound_object_def fetched_of_def stored_for_def object_name_stamped_def proven_def
        signed_verifies_def header_pool_agrees_def split: option.splits)
  ultimately show ?thesis using libs by (simp add: verify_Ok server_libs_ok_def)
qed

section \<open>What an honest agent sends\<close>

lemma upload_request_read:
  assumes "crypto_ok C" "bech32_ok B" "submission_key_wf C key" "pool_id_wf pool"
    and "key_attributes C key = None \<or> key_attributes C key = Some pool"
    and "ss_attestation sub = attest C key (ss_wire_bytes sub)"
  shows "attributed_decode C B
      (map_of (rq_headers (upload_request B cfg pool sub)) HEADER_VKEY)
      (map_of (rq_headers (upload_request B cfg pool sub)) HEADER_SIGNATURE)
      (map_of (rq_headers (upload_request B cfg pool sub)) HEADER_POOL)
    = Ok (filed (ss_attestation sub) pool)"
  using assms attest_wf [OF assms(1,3)] from_bech32_to_bech32 [OF assms(2,4)]
  by (auto simp: attributed_decode_Ok attestation_decode_Ok upload_request_def headers_def filed_def
      HEADER_VKEY_def HEADER_SIGNATURE_def HEADER_POOL_def header_pool_agrees_def attest_attributes)


lemma sealed_header_reads:
  assumes "json_ok J" and "seal C J Z key e level = Ok (wire, a)" and "header_json J e = Ok hdr"
  shows "read_header J wire cap = Ok h \<longleftrightarrow> length hdr \<le> cap \<and> h = header_of e"
proof -
  from assms(3) have hv: "header_to_vec J (header_of e) = Ok hdr" by (simp add: header_json_def)
  with assms(1) have reads: "header_from_slice J hdr = Ok (header_of e)" by (simp add: json_ok_def)
  from assms(2) hv obtain data where wire: "wire = frame hdr data" "length hdr < 2 ^ 32"
    by (auto simp: seal_Ok_iff u32_max_def)
  have "split wire cap = Ok f \<longleftrightarrow> length hdr \<le> cap \<and> f = \<lparr>fr_header = hdr, fr_data = data\<rparr>" for f
  proof
    assume "split wire cap = Ok f"
    then have "split wire (max (length hdr) cap) = Ok f" "length (fr_header f) \<le> cap"
      by (auto simp: split_Ok_iff)
    with wire split_frame [of hdr "max (length hdr) cap" data]
    show "length hdr \<le> cap \<and> f = \<lparr>fr_header = hdr, fr_data = data\<rparr>" by auto
  qed (use wire in \<open>auto simp: split_frame\<close>)
  then show ?thesis using reads
    by (auto simp: read_header_def and_then_Ok_iff)
qed

lemma sealed_fresh_header:
  assumes "json_ok (sl_json L)" and "seal C (sl_json L) Z key e level = Ok (wire, a)"
    and "header_json (sl_json L) e = Ok hdr"
  shows "fresh_header L w (over ad wire) ik = Some h \<longleftrightarrow>
    length hdr \<le> ic_max_header_bytes (ik_config ik) \<and> \<not> stale (ik_config ik) (iw_now w) (header_of e)
    \<and> h = header_of e"
proof (cases "length hdr \<le> ic_max_header_bytes (ik_config ik)")
  case True
  with sealed_header_reads [OF assms]
  have "read_header (sl_json L) wire (ic_max_header_bytes (ik_config ik)) = Ok (header_of e)" by simp
  with True show ?thesis by (auto simp: fresh_header_def)
next
  case False
  with sealed_header_reads [OF assms, of "ic_max_header_bytes (ik_config ik)"]
  show ?thesis by (auto simp: fresh_header_def split: sum.splits)
qed

text \<open>What the server itself decides, once a submission is what the agent makes.\<close>

definition server_takes ::
  "server_libs \<Rightarrow> ('w, 'a) store \<Rightarrow> 'w submit_world \<Rightarrow> attributed \<Rightarrow> bytes \<Rightarrow> header \<Rightarrow> nat \<Rightarrow> intake \<Rightarrow> 'a \<Rightarrow> 'a \<Rightarrow> bool"
where
  "server_takes L store w ad wire h header_bytes ik a a' \<longleftrightarrow>
     length wire \<le> ic_max_body_bytes (ik_config ik) \<and> header_bytes \<le> ic_max_header_bytes (ik_config ik)
     \<and> allowlist (ik_config ik) (ad_pool ad) \<noteq> None \<and> key_authorised L w (over ad wire) ik
     \<and> \<not> stale (ik_config ik) (iw_now w) h
     \<and> snd (charge (ad_pool ad) (iw_now w) (ik_limiter ik)) = Allowed
     \<and> (\<exists>k. kind_of (h_schema_version h) = Some k
          \<and> store (iw_store w) (stored_for L w (over ad wire) h k) a = (a', Ok ()))"

lemma sealed_submit:
  assumes libs: "crypto_ok (sl_crypto L)" "json_ok (sl_json L)" and key: "submission_key_wf (sl_crypto L) key"
    and sealed: "seal (sl_crypto L) (sl_json L) Z key e level = Ok (wire, a)"
    and hdr: "header_json (sl_json L) e = Ok hdr"
  shows "(\<exists>ik' v. submit L store w (over (filed a (pv_pool (e_provenance e))) wire) ik ar = (ik', ar', Ok v))
    \<longleftrightarrow> server_takes L store w (filed a (pv_pool (e_provenance e))) wire (header_of e) (length hdr) ik ar ar'"
proof -
  let ?s = "over (filed a (pv_pool (e_provenance e))) wire"
  have "verifies (sl_crypto L) a wire"
    using sealed attest_verifies [OF libs(1) key] by (auto simp: seal_Ok_iff)
  then have "signed_verifies (sl_crypto L) ?s" by (simp add: signed_verifies_def filed_def)
  moreover have "pv_pool (h_provenance (header_of e)) = sg_pool ?s" by (simp add: header_of_def filed_def)
  ultimately show ?thesis
    unfolding submit_Ok server_takes_def proven_def
    by (auto simp: sealed_fresh_header [OF libs(2) sealed hdr] filed_def)
qed

section \<open>Properties\<close>

text \<open>
  An honest agent is refused only for policy. Whatever the agent seals, under a cold key of its
  pool or a Leios key, the headers of its upload name exactly the key, the signature and the pool, and
  the server acknowledges it exactly when its own limits say so: body and header size, allowlist,
  roster, clock skew, rate limits, a schema it has a kind for, and the store itself; the signature,
  the framing, the header's reading and its provenance cannot refuse it.
\<close>

theorem honest_upload_taken:
  assumes libs: "crypto_ok (sl_crypto L)" "json_ok (sl_json L)" "bech32_ok (kl_bech32 (sl_key L))"
    and key: "submission_key_wf (sl_crypto L) key" and pool: "pool_id_wf (pv_pool (e_provenance e))"
    and owner: "key_attributes (sl_crypto L) key \<in> {None, Some (pv_pool (e_provenance e))}"
    and sealed: "seal (sl_crypto L) (sl_json L) Z key e level = Ok (ss_wire_bytes sub, ss_attestation sub)"
    and hdr: "header_json (sl_json L) e = Ok hdr"
    and rq: "rq = upload_request (kl_bech32 (sl_key L)) cfg (pv_pool (e_provenance e)) sub"
    and ad: "ad = filed (ss_attestation sub) (pv_pool (e_provenance e))"
  shows "attributed_decode (sl_crypto L) (kl_bech32 (sl_key L)) (map_of (rq_headers rq) HEADER_VKEY)
      (map_of (rq_headers rq) HEADER_SIGNATURE) (map_of (rq_headers rq) HEADER_POOL) = Ok ad
    \<and> ((\<exists>ik' v. submit L store w (over ad (rq_body rq)) ik ar = (ik', ar', Ok v))
        \<longleftrightarrow> server_takes L store w ad (rq_body rq) (header_of e) (length hdr) ik ar ar')"
proof -
  have body: "rq_body rq = ss_wire_bytes sub" by (simp add: rq upload_request_def)
  have "ss_attestation sub = attest (sl_crypto L) key (ss_wire_bytes sub)" using sealed by (auto simp: seal_Ok_iff)
  with owner show ?thesis
    unfolding body unfolding rq ad
    by (intro conjI upload_request_read [OF libs(1,3) key pool] sealed_submit [OF libs(1,2) key sealed hdr]) auto
qed

text \<open>
  C38: What is acknowledged verifies. An upload attributed by its headers and acknowledged is stored as
  an object that passes verification from nothing but itself, under any header limit at least the
  intake's, and its verdict is the header that was submitted.
\<close>

theorem acknowledged_verifies:
  assumes "server_libs_ok L" and "attributed_decode (sl_crypto L) B vkey sig claim = Ok a"
    and "submit L store w (over a wire) ik ar = (ik', ar', Ok v)"
    and "ic_max_header_bytes (ik_config ik) \<le> cap"
  shows "\<exists>h k. read_header (sl_json L) wire cap = Ok h
    \<and> store (iw_store w) (stored_for L w (over a wire) h k) ar = (ar', Ok ())
    \<and> verify L (fetched_of (stored_for L w (over a wire) h k)) cap = Ok h"
proof -
  have "\<exists>ik' v. submit L store w (over a wire) ik ar = (ik', ar', Ok v)" using assms(3) by blast
  from acknowledged_parts [OF this] obtain h k where
    p: "proven L w (over a wire) ik" and h: "fresh_header L w (over a wire) ik = Some h"
      "kind_of (h_schema_version h) = Some k" "pv_pool (h_provenance h) = sg_pool (over a wire)"
    and st: "store (iw_store w) (stored_for L w (over a wire) h k) ar = (ar', Ok ())"
    by blast
  have "header_pool_agrees (sl_crypto L) a" using assms(2) by (simp add: attributed_decode_Ok)
  from stored_verifies [OF assms(1) this p h assms(4)] st read_header_wider [OF fresh_header_reads [OF h(1)] assms(4)]
  show ?thesis by auto
qed

text \<open>
  C2: An acknowledged submission stays. In the directory archive, whatever is submitted afterwards by
  anyone, accepted or not, and wherever the disk fails, reading the object's key answers exactly the
  bytes the client sent, unless a later upload is itself filed under the same key, id and all.
\<close>

theorem acknowledged_stays:
  assumes libs: "server_libs_ok L"
    and acked: "submit L (fs_store (sl_key L)) w s ik a = (ik1, a1, Ok v)"
    and later: "submits L (fs_store (sl_key L)) ws ik1 a1 = (ik2, a2)"
  shows "\<exists>h k. fresh_header L w s ik = Some h \<and> kind_of (h_schema_version h) = Some k
    \<and> pv_pool (h_provenance h) = sg_pool s
    \<and> ((\<exists>(w', s') \<in> set ws. filed_under L w' s' ik (object_key (sl_key L) (stored_for L w s h k)))
       \<or> fs_bytes (sl_key L) name_text a2 (object_key (sl_key L) (stored_for L w s h k)) = Ok (sg_wire s))"
proof -
  have good: "good_name (sl_key L) (stored_for L w s h k)"
    if "fresh_header L w s ik = Some h" "pv_pool (h_provenance h) = sg_pool s" for w :: "fs_fault option submit_world" and s h k
    using good_stored [OF libs that] .
  from fs.acknowledged_kept [OF good refl acked later] show ?thesis by (simp add: stored_for_def)
qed

section \<open>Witnesses\<close>

definition demo_ingest :: ingest_config where
  "demo_ingest = \<lparr>allowlist = (\<lambda>_. Some ''pool''), ic_max_body_bytes = 1000, ic_max_header_bytes = 16,
     max_timestamp_skew_secs = 60, rate_limit_uploads = 2, rate_limit_uploads_total = 5, rate_limit_window_secs = 3600\<rparr>"

definition demo_world :: "fs_fault option submit_world" where
  "demo_world = \<lparr>iw_now = 1000000000, iw_roster = \<lparr>seen_first = None, seen_again = None, seen_text = Err ''none''\<rparr>,
     iw_entropy = ''r'', iw_store = None\<rparr>"

definition demo_signer :: submission_key where
  "demo_signer = ColdSigningKey (SigningKey (replicate 32 (CHR ''p'')))"

definition demo_intake :: intake where
  "demo_intake = new_intake demo_ingest None"

lemma demo_verifier_ok: "server_libs_ok demo_verifier"
proof -
  have "new_ids_ok demo_key_lib" by (auto simp: new_ids_ok_def demo_key_lib_def min_def)
  then show ?thesis by (simp add: server_libs_ok_def demo_verifier_def demo_key_lib_ok demo_json_typed)
qed

lemma fs_write_fresh: "\<exists>n. fs_write None cs b None = (Some n, Ok ())"
proof -
  have "\<exists>n. fs_update cs (write_content b) None = Ok n" by (induction cs) auto
  then show ?thesis by (auto simp: fs_write_def)
qed

lemma fs_store_fresh: "\<exists>a'. fs_store L None x \<lparr>fs_root = r, fs_tree = None\<rparr> = (a', Ok ())"
  using fs_write_fresh [of "path_components (object_key L x)" "ss_body x"]
  by (auto simp: fs_store_def Let_def)

definition demo_wire :: bytes where
  "demo_wire = frame ''h'' (payload_lines demo_envelope)"

definition demo_sub :: sealed_submission where
  "demo_sub = \<lparr>ss_wire_bytes = demo_wire, ss_attestation = attest demo_crypto demo_signer demo_wire, ss_counter = 7,
     ss_payload_digest = [], ss_rows = ScrapeRows [], ss_more = False\<rparr>"

definition demo_filed :: attributed where
  "demo_filed = filed (ss_attestation demo_sub) (pv_pool demo_provenance)"

abbreviation demo_empty :: fs_archive where
  "demo_empty \<equiv> \<lparr>fs_root = ''/archive'', fs_tree = None\<rparr>"

lemma demo_sealed:
  "seal demo_crypto demo_json demo_zstd demo_signer demo_envelope 0 = Ok (ss_wire_bytes demo_sub, ss_attestation demo_sub)"
  by (simp add: seal_Ok_iff demo_sub_def demo_wire_def demo_json_def demo_zstd_def u32_max_def)

lemma demo_header_json: "header_json demo_json demo_envelope = Ok ''h''"
  by (simp add: header_json_def demo_json_def)

lemma demo_signer_owner:
  "submission_key_wf demo_crypto demo_signer"
  "key_attributes demo_crypto demo_signer = Some (pv_pool (e_provenance demo_envelope))"
  by (simp_all add: demo_signer_def demo_crypto_def from_cold_key_def demo_envelope_def new_envelope_def demo_provenance_def)

lemma demo_pool_wf: "pool_id_wf (pv_pool (e_provenance demo_envelope))"
  by (simp add: pool_id_wf_def demo_envelope_def new_envelope_def demo_provenance_def)

lemma demo_taken:
  assumes w: "iw_now w = 1000000000" "iw_roster w = \<lparr>seen_first = None, seen_again = None, seen_text = Err ''none''\<rparr>"
    and st: "store (iw_store w) (stored_for demo_verifier w (over demo_filed demo_wire) (header_of demo_envelope) Metrics) a = (a', Ok ())"
  shows "server_takes demo_verifier store w demo_filed demo_wire (header_of demo_envelope) 1 demo_intake a a'"
proof -
  have wire: "length demo_wire \<le> 1000"
    by (simp add: demo_wire_def frame_def payload_lines_concat demo_envelope_def new_envelope_def scrapes_payload_def)
  have auth: "key_authorised demo_verifier w (over demo_filed demo_wire) demo_intake"
    by (simp add: key_authorised_def authorised_def demo_filed_def filed_def demo_sub_def demo_signer_def)
  have fresh: "\<not> stale demo_ingest 1000000000 (header_of demo_envelope)"
    by (simp add: stale_def demo_ingest_def header_of_def demo_envelope_def new_envelope_def)
  have rate: "snd (charge p 1000000000 (ik_limiter demo_intake)) = Allowed" for p
    by (simp add: charge_def demo_intake_def new_intake_def new_rate_limiter_def demo_ingest_def pool_window_def window_simps)
  have kind: "kind_of (h_schema_version (header_of demo_envelope)) = Some Metrics"
    by (simp add: kind_of_def header_of_def demo_envelope_def new_envelope_def scrapes_payload_def)
  have "ik_config demo_intake = demo_ingest" by (simp add: demo_intake_def new_intake_def)
  with wire auth fresh rate kind w st show ?thesis by (auto simp: server_takes_def demo_ingest_def)
qed

lemma demo_takes:
  "\<exists>a'. server_takes demo_verifier (fs_store demo_key_lib) demo_world demo_filed demo_wire (header_of demo_envelope) 1
    demo_intake demo_empty a'"
proof -
  have w: "iw_now demo_world = 1000000000" "iw_roster demo_world = \<lparr>seen_first = None, seen_again = None, seen_text = Err ''none''\<rparr>"
    "iw_store demo_world = None"
    by (simp_all add: demo_world_def)
  from fs_store_fresh [of demo_key_lib "stored_for demo_verifier demo_world (over demo_filed demo_wire) (header_of demo_envelope) Metrics" "''/archive''"]
  show ?thesis using demo_taken [OF w(1,2), of "fs_store demo_key_lib"] by (auto simp: w(3))
qed

lemma demo_libs:
  "crypto_ok (sl_crypto demo_verifier)" "json_ok (sl_json demo_verifier)" "bech32_ok (kl_bech32 (sl_key demo_verifier))"
  "sl_crypto demo_verifier = demo_crypto" "sl_json demo_verifier = demo_json" "sl_key demo_verifier = demo_key_lib"
  by (simp_all add: demo_verifier_def demo_crypto_ok demo_json_ok demo_key_lib_def demo_bech32_ok)

lemma demo_filed_eq: "demo_filed = filed (ss_attestation demo_sub) (pv_pool (e_provenance demo_envelope))"
  by (simp add: demo_filed_def demo_envelope_def new_envelope_def)

lemma demo_acked_when:
  assumes "server_takes demo_verifier store w demo_filed demo_wire (header_of demo_envelope) 1 demo_intake a a'"
  shows "\<exists>ik' v. submit demo_verifier store w (over demo_filed demo_wire) demo_intake a = (ik', a', Ok v)"
  unfolding demo_filed_eq
  by (rule sealed_submit [where hdr = "''h''", THEN iffD2, OF demo_libs(1,2)])
    (use assms demo_sealed in \<open>simp_all add: demo_libs demo_signer_owner demo_header_json demo_filed_eq demo_sub_def\<close>)

lemma demo_acked:
  "\<exists>ik' a' v. submit demo_verifier (fs_store demo_key_lib) demo_world (over demo_filed demo_wire) demo_intake demo_empty
    = (ik', a', Ok v)"
proof -
  obtain a' where "server_takes demo_verifier (fs_store demo_key_lib) demo_world demo_filed demo_wire
      (header_of demo_envelope) 1 demo_intake demo_empty a'"
    using demo_takes ..
  from demo_acked_when [OF this] show ?thesis by auto
qed

lemma demo_attributed: "\<exists>vkey sig text. attributed_decode demo_crypto demo_bech32 vkey sig text = Ok demo_filed"
proof -
  have "ss_attestation demo_sub = attest demo_crypto demo_signer (ss_wire_bytes demo_sub)" by (simp add: demo_sub_def)
  from upload_request_read [OF demo_crypto_ok demo_bech32_ok demo_signer_owner(1) _ _ this,
      of "pv_pool (e_provenance demo_envelope)"]
  show ?thesis by (auto simp: demo_signer_owner demo_filed_eq demo_pool_wf)
qed

theorem honest_upload_taken_witness:
  "\<exists>ik' a' v. submit demo_verifier (fs_store demo_key_lib) demo_world (over demo_filed demo_wire) demo_intake demo_empty
    = (ik', a', Ok v)"
proof -
  obtain a' where takes: "server_takes demo_verifier (fs_store demo_key_lib) demo_world demo_filed demo_wire
      (header_of demo_envelope) 1 demo_intake demo_empty a'"
    using demo_takes by blast
  have "\<exists>ik' v. submit demo_verifier (fs_store demo_key_lib) demo_world
      (over demo_filed (rq_body (upload_request (kl_bech32 (sl_key demo_verifier)) cfg
        (pv_pool (e_provenance demo_envelope)) demo_sub))) demo_intake demo_empty = (ik', a', Ok v)" for cfg
    by (rule honest_upload_taken [where hdr = "''h''", THEN conjunct2, THEN iffD2, OF demo_libs(1-3) _ _ _ _ _ refl demo_filed_eq])
      (use takes demo_sealed in \<open>simp_all add: demo_libs demo_signer_owner demo_header_json upload_request_def demo_sub_def demo_pool_wf\<close>)
  then show ?thesis by (auto simp: upload_request_def demo_sub_def)
qed

theorem acknowledged_verifies_witness:
  "\<exists>h k. verify demo_verifier (fetched_of (stored_for demo_verifier demo_world (over demo_filed demo_wire) h k)) 16 = Ok h"
proof -
  obtain ik' a' v where acked: "submit demo_verifier (fs_store demo_key_lib) demo_world (over demo_filed demo_wire)
      demo_intake demo_empty = (ik', a', Ok v)"
    using demo_acked by blast
  obtain vkey sig claim where "attributed_decode demo_crypto demo_bech32 vkey sig claim = Ok demo_filed"
    using demo_attributed by blast
  with acknowledged_verifies [OF demo_verifier_ok _ acked, of demo_bech32 vkey sig claim 16] show ?thesis
    by (auto simp: demo_libs demo_intake_def new_intake_def demo_ingest_def)
qed

theorem acknowledged_stays_witness:
  "\<exists>key a2. fs_bytes demo_key_lib (\<lambda>_. ''name'') a2 key = Ok demo_wire"
proof -
  obtain ik' a' v where acked: "submit demo_verifier (fs_store (sl_key demo_verifier)) demo_world (over demo_filed demo_wire)
      demo_intake demo_empty = (ik', a', Ok v)"
    using demo_acked by (auto simp: demo_libs)
  have "submits demo_verifier (fs_store (sl_key demo_verifier)) [] ik' a' = (ik', a')" by simp
  from acknowledged_stays [OF demo_verifier_ok acked this, of "\<lambda>_. ''name''"] show ?thesis by (auto simp: demo_libs)
qed

end
