(* ===== verification/S3_Archive.thy ===== *)
theory S3_Archive
  imports Archive
begin

text \<open>
  \<open>metsuke-server/src/s3.rs\<close>: the production archive, a bucket behind an S3 endpoint. \<open>rusty_s3\<close> (a bucket's
  address, the signed form of an action, the reading of a listing) and \<open>ureq\<close> (the transport) are outside the
  model: an action is a value (\<open>s3_action\<close>), a signed request carries it with the headers and the body that
  are sent, and the endpoint is a function \<open>s3_send\<close> of what happens to the request on the way, the
  request and the endpoint's state. \<open>put_retries\<close> is below \<open>u32::MAX\<close>, so the attempts are counted in
  \<^typ>\<open>nat\<close>; the sleep between two attempts has no effect here.
\<close>

definition META_SIGNATURE :: string where "META_SIGNATURE = ''x-amz-meta-signature''"
definition META_VKEY :: string where "META_VKEY = ''x-amz-meta-vkey''"

section \<open>Requests and answers\<close>

text \<open>The variants of \<open>ureq::Error\<close> the code names, and every other one.\<close>

datatype ureq_error =
    BadUri string
  | HttpError string
  | HostNotFound
  | InvalidProxyUrl
  | TlsError string
  | PemError string
  | RustlsError string
  | BodyExceedsLimit nat
  | OtherUreq string

record bucket =
  bk_name :: string
  bk_base_url :: string

datatype url_style = VirtualHost | PathStyle

datatype s3_action =
    PutObject string "(string \<times> string) list"
  | GetObject string
  | ListObjects string "string option" "string option" "nat option"

text \<open>An action signed: the headers of a \<open>PutObject\<close> are the signed ones, \<open>sq_headers\<close> those that are sent.\<close>

record s3_request =
  sq_bucket :: bucket
  sq_credentials :: "string \<times> string"
  sq_valid_secs :: nat
  sq_action :: s3_action
  sq_headers :: "(string \<times> string) list"
  sq_body :: bytes

text \<open>
  An answer: its head, and what reading the body comes to as bounded text, as bounded bytes
  (\<open>read_to_string\<close>, \<open>read_to_vec\<close>) and as a stream.
\<close>

record s3_answer =
  sa_status :: nat
  sa_header :: "string \<Rightarrow> bytes option"
  sa_length :: "nat option"
  sa_text :: "(ureq_error, string) result"
  sa_vec :: "(ureq_error, bytes) result"
  sa_stream :: "(string, bytes) result"

type_synonym ('m, 'b) s3_send = "'m \<Rightarrow> s3_request \<Rightarrow> 'b \<Rightarrow> 'b \<times> (ureq_error, s3_answer) result"

record s3_listing =
  li_contents :: "string list"
  li_next_token :: "string option"

text \<open>The libraries: \<open>Bucket::new\<close>, the listing's parser, and the texts of errors and of a string's \<open>Debug\<close>.\<close>

record s3_libs =
  s3l_crypto :: crypto
  s3l_key :: key_lib
  bucket_new :: "string \<Rightarrow> url_style \<Rightarrow> string \<Rightarrow> string \<Rightarrow> (string, bucket) result"
  list_parse_response :: "string \<Rightarrow> (string, s3_listing) result"
  ureq_text :: "ureq_error \<Rightarrow> string"
  name_error_text :: "object_name_error \<Rightarrow> string"
  pair_error_text :: "attestation_error \<Rightarrow> string"
  debug_text :: "string \<Rightarrow> string"

record s3_config =
  s3c_bucket :: string
  s3c_region :: string
  s3c_endpoint :: string
  s3c_request_timeout_ms :: nat
  s3c_signature_validity_secs :: nat
  s3c_put_retries :: nat
  s3c_put_retry_backoff_ms :: nat
  s3c_list_max_pages :: nat

text \<open>The durations are in milliseconds.\<close>

record s3_archive =
  s3_bucket :: bucket
  s3_credentials :: "string \<times> string"
  s3_timeout_ms :: nat
  s3_signature_validity_ms :: nat
  s3_put_retries :: nat
  s3_put_retry_backoff_ms :: nat
  s3_list_max_pages :: nat

datatype s3_error = S3Endpoint string string

definition s3_new :: "s3_libs \<Rightarrow> s3_config \<Rightarrow> string \<times> string \<Rightarrow> (s3_error, s3_archive) result" where
  "s3_new L cfg credentials =
     and_then (map_err (S3Endpoint (s3c_endpoint cfg))
         (bucket_new L (s3c_endpoint cfg) PathStyle (s3c_bucket cfg) (s3c_region cfg))) (\<lambda>bucket.
       Ok \<lparr>s3_bucket = bucket, s3_credentials = credentials,
           s3_timeout_ms = s3c_request_timeout_ms cfg,
           s3_signature_validity_ms = s3c_signature_validity_secs cfg * 1000,
           s3_put_retries = s3c_put_retries cfg,
           s3_put_retry_backoff_ms = s3c_put_retry_backoff_ms cfg,
           s3_list_max_pages = s3c_list_max_pages cfg\<rparr>)"

definition s3_signed :: "s3_archive \<Rightarrow> s3_action \<Rightarrow> (string \<times> string) list \<Rightarrow> bytes \<Rightarrow> s3_request" where
  "s3_signed A action hs body =
     \<lparr>sq_bucket = s3_bucket A, sq_credentials = s3_credentials A,
      sq_valid_secs = s3_signature_validity_ms A div 1000,
      sq_action = action, sq_headers = hs, sq_body = body\<rparr>"

section \<open>One attempt\<close>

record s3_failure =
  sf_reason :: string
  sf_retryable :: bool
  sf_status :: "nat option"

fun transient :: "ureq_error \<Rightarrow> bool" where
  "transient (BadUri _) = False"
| "transient (HttpError _) = False"
| "transient HostNotFound = False"
| "transient InvalidProxyUrl = False"
| "transient (TlsError _) = False"
| "transient (PemError _) = False"
| "transient (RustlsError _) = False"
| "transient (BodyExceedsLimit _) = False"
| "transient (OtherUreq _) = True"

definition s3_answered :: "s3_libs \<Rightarrow> (ureq_error, s3_answer) result \<Rightarrow> (s3_failure, s3_answer) result" where
  "s3_answered L sent =
     (case sent of
        Inl e \<Rightarrow> Err \<lparr>sf_reason = ureq_text L e, sf_retryable = transient e, sf_status = None\<rparr>
      | Inr response \<Rightarrow>
          (case classify \<lparr>rs_status = sa_status response, rs_body = map_err (ureq_text L) (sa_text response)\<rparr> of
             Inr _ \<Rightarrow> Ok response
           | Inl refusal \<Rightarrow>
               Err \<lparr>sf_reason = ''the endpoint answered '' @ decimal (rf_status refusal) @ '': '' @ rf_reason refusal,
                    sf_retryable = rf_retryable refusal, sf_status = Some (rf_status refusal)\<rparr>))"

definition s3_put ::
  "s3_libs \<Rightarrow> s3_archive \<Rightarrow> ('m, 'b) s3_send \<Rightarrow> 'm \<Rightarrow> string \<Rightarrow> (string \<times> string) list \<Rightarrow> bytes \<Rightarrow> 'b
    \<Rightarrow> 'b \<times> (s3_failure, unit) result" where
  "s3_put L A send m key metadata body b =
     (case send m (s3_signed A (PutObject key metadata) metadata body) b of
        (b', sent) \<Rightarrow> (b', and_then (s3_answered L sent) (\<lambda>_. Ok ())))"

text \<open>\<open>get\<close>: a listing's text.\<close>

definition s3_get ::
  "s3_libs \<Rightarrow> s3_archive \<Rightarrow> ('m, 'b) s3_send \<Rightarrow> 'm \<Rightarrow> s3_action \<Rightarrow> 'b \<Rightarrow> 'b \<times> (s3_failure, string) result" where
  "s3_get L A send m action b =
     (case send m (s3_signed A action [] []) b of
        (b', sent) \<Rightarrow> (b',
          and_then (s3_answered L sent) (\<lambda>response.
            map_err (\<lambda>e. \<lparr>sf_reason = ''unreadable answer: '' @ ureq_text L e,
                          sf_retryable = transient e, sf_status = None\<rparr>)
              (sa_text response))))"

section \<open>Storing\<close>

definition s3_metadata :: "attestation \<Rightarrow> (string \<times> string) list" where
  "s3_metadata a = [(META_SIGNATURE, encode (signature_bytes a)), (META_VKEY, encode (key_bytes a))]"

text \<open>
  The loop of \<open>store\<close>, \<open>attempts\<close> made so far; attempt \<open>n\<close> meets \<open>ms n\<close>. Beside the result stand the
  lines written to the journal.
\<close>

function s3_store_loop ::
  "s3_libs \<Rightarrow> s3_archive \<Rightarrow> ('m, 'b) s3_send \<Rightarrow> (nat \<Rightarrow> 'm) \<Rightarrow> string \<Rightarrow> (string \<times> string) list \<Rightarrow> bytes \<Rightarrow> nat \<Rightarrow> 'b
    \<Rightarrow> 'b \<times> string list \<times> (archive_error, unit) result" where
  "s3_store_loop L A send ms key metadata body made b =
     (let attempts = made + 1 in
      case s3_put L A send (ms attempts) key metadata body b of
        (b', Inr _) \<Rightarrow> (b', [], Ok ())
      | (b', Inl failure) \<Rightarrow>
          if sf_retryable failure \<and> attempts \<le> s3_put_retries A
          then (case s3_store_loop L A send ms key metadata body attempts b' of
                  (b'', log, r) \<Rightarrow>
                    (b'', (WARNING @ ''retrying the PUT of '' @ key @ '': '' @ sf_reason failure) # log, r))
          else (b', [], Err (ArchiveUpload key attempts (sf_reason failure))))"
  by pat_completeness auto
termination
  by (relation "measure (\<lambda>(L, A, send, ms, key, metadata, body, made, b). s3_put_retries A + 1 - made)") auto

declare s3_store_loop.simps [simp del]

definition s3_store ::
  "s3_libs \<Rightarrow> s3_archive \<Rightarrow> ('m, 'b) s3_send \<Rightarrow> (nat \<Rightarrow> 'm) \<Rightarrow> stored_submission \<Rightarrow> 'b
    \<Rightarrow> 'b \<times> string list \<times> (archive_error, unit) result" where
  "s3_store L A send ms s b =
     s3_store_loop L A send ms (object_key (s3l_key L) s) (s3_metadata (ss_pair s)) (ss_body s) 0 b"

section \<open>Listing\<close>

definition s3_location :: "s3_archive \<Rightarrow> string" where
  "s3_location A = bk_name (s3_bucket A) @ '' at '' @ bk_base_url (s3_bucket A)"

fun visit_keys :: "('s, 'e) visitor \<Rightarrow> string list \<Rightarrow> 's \<Rightarrow> 's \<times> ('e, unit) result" where
  "visit_keys visit [] s = (s, Ok ())"
| "visit_keys visit (key # keys) s =
     (case visit key s of
        (s', Inl e) \<Rightarrow> (s', Err e)
      | (s', Inr _) \<Rightarrow> visit_keys visit keys s')"

definition s3_list ::
  "s3_libs \<Rightarrow> s3_archive \<Rightarrow> ('m, 'b) s3_send \<Rightarrow> 'm \<Rightarrow> s3_action \<Rightarrow> 'b \<Rightarrow> 'b \<times> (archive_error, s3_listing) result" where
  "s3_list L A send m action b =
     (case s3_get L A send m action b of
        (b', got) \<Rightarrow> (b',
          and_then (map_err (\<lambda>f. ArchiveList (sf_reason f)) got) (\<lambda>text.
            map_err (\<lambda>e. ArchiveList (''the listing does not parse: '' @ e)) (list_parse_response L text))))"

text \<open>The pages from \<open>page_number\<close> on, \<open>left\<close> of them still allowed.\<close>

fun s3_pages ::
  "s3_libs \<Rightarrow> s3_archive \<Rightarrow> ('m, 'b) s3_send \<Rightarrow> (nat \<Rightarrow> 'm) \<Rightarrow> (archive_error \<Rightarrow> 'e) \<Rightarrow> ('s, 'e) visitor
    \<Rightarrow> nat \<Rightarrow> nat \<Rightarrow> string option \<Rightarrow> 'b \<Rightarrow> 's \<Rightarrow> 'b \<times> 's \<times> ('e, unit) result" where
  "s3_pages L A send ms conv visit 0 page_number token b s =
     (b, s, Err (conv (ArchiveList (''the listing is still truncated after '' @ decimal (s3_list_max_pages A)
        @ '' pages (list_max_pages)''))))"
| "s3_pages L A send ms conv visit (Suc left) page_number token b s =
     (case s3_list L A send (ms page_number) (ListObjects KEY_PREFIX token None None) b of
        (b', Inl e) \<Rightarrow> (b', s, Err (conv e))
      | (b', Inr page) \<Rightarrow>
          (case visit_keys visit (li_contents page) s of
             (s', Inl e) \<Rightarrow> (b', s', Err e)
           | (s', Inr _) \<Rightarrow>
               (case li_next_token page of
                  None \<Rightarrow> (b', s', Ok ())
                | Some next_token \<Rightarrow>
                    if token = Some next_token
                    then (b', s', Err (conv (ArchiveList (''page '' @ decimal page_number
                       @ '' handed back its own continuation token '' @ debug_text L next_token))))
                    else s3_pages L A send ms conv visit left (page_number + 1) (Some next_token) b' s')))"

definition s3_for_each_key ::
  "s3_libs \<Rightarrow> s3_archive \<Rightarrow> ('m, 'b) s3_send \<Rightarrow> (nat \<Rightarrow> 'm) \<Rightarrow> (archive_error \<Rightarrow> 'e) \<Rightarrow> ('s, 'e) visitor
    \<Rightarrow> 'b \<Rightarrow> 's \<Rightarrow> 'b \<times> 's \<times> ('e, unit) result" where
  "s3_for_each_key L A send ms conv visit b s =
     s3_pages L A send ms conv visit (s3_list_max_pages A) 1 None b s"

definition s3_page ::
  "s3_libs \<Rightarrow> s3_archive \<Rightarrow> ('m, 'b) s3_send \<Rightarrow> 'm \<Rightarrow> string \<Rightarrow> string \<Rightarrow> nat \<Rightarrow> 'b
    \<Rightarrow> 'b \<times> (archive_error, page) result" where
  "s3_page L A send m prefix aft max_keys b =
     (case s3_list L A send m (ListObjects prefix None (if aft = [] then None else Some aft) (Some max_keys)) b of
        (b', r) \<Rightarrow> (b', and_then r (\<lambda>listing.
          Ok \<lparr>pg_keys = li_contents listing, pg_truncated = (li_next_token listing \<noteq> None)\<rparr>)))"

section \<open>Reading\<close>

definition s3_header_text :: "string \<Rightarrow> bytes \<Rightarrow> (string, string) result" where
  "s3_header_text header value = ok_or (header @ '' is not text'') (header_to_str value)"

definition s3_attestation :: "s3_libs \<Rightarrow> s3_answer \<Rightarrow> (string, attestation option) result" where
  "s3_attestation L response =
     (case (sa_header response META_VKEY, sa_header response META_SIGNATURE) of
        (None, None) \<Rightarrow> Ok None
      | (Some _, None) \<Rightarrow> Err (''only '' @ META_VKEY @ '' of the two metadata headers is set'')
      | (None, Some _) \<Rightarrow> Err (''only '' @ META_SIGNATURE @ '' of the two metadata headers is set'')
      | (Some raw_vkey, Some raw_signature) \<Rightarrow>
          and_then (s3_header_text META_VKEY raw_vkey) (\<lambda>vkey.
          and_then (s3_header_text META_SIGNATURE raw_signature) (\<lambda>signature.
          and_then (map_err (\<lambda>e. META_VKEY @ ''/'' @ META_SIGNATURE @ '': '' @ pair_error_text L e)
              (attestation_decode (s3l_crypto L) (Some vkey) (Some signature))) (\<lambda>pair.
            Ok (Some pair)))))"

text \<open>\<open>reader\<close>: beside the stream, the warning an unusable attestation writes.\<close>

definition s3_reader ::
  "s3_libs \<Rightarrow> s3_archive \<Rightarrow> ('m, 'b) s3_send \<Rightarrow> 'm \<Rightarrow> 'b \<Rightarrow> string
    \<Rightarrow> 'b \<times> string list \<times> (archive_error, object_stream) result" where
  "s3_reader L A send m b key =
     (case object_name_parse (s3l_key L) key of
        Inl e \<Rightarrow> (b, [], Err (ArchiveFetch key (name_error_text L e)))
      | Inr _ \<Rightarrow>
          (case send m (s3_signed A (GetObject key) [] []) b of
             (b', sent) \<Rightarrow>
               (case s3_answered L sent of
                  Inl failure \<Rightarrow>
                    (b', [], Err (if sf_status failure = Some 404 then NoSuchObject key
                                  else ArchiveFetch key (sf_reason failure)))
                | Inr response \<Rightarrow>
                    (let (log, pair) =
                       (case s3_attestation L response of
                          Inr pair \<Rightarrow> ([], pair)
                        | Inl reason \<Rightarrow> ([WARNING @ ''unusable attestation on '' @ key @ '': '' @ reason], None))
                     in (b', log,
                         and_then (ok_or (EndpointUnusable (bk_base_url (s3_bucket A))) (sa_length response)) (\<lambda>n.
                           Ok \<lparr>os_key = key, os_length = n, os_attestation = pair,
                               os_content = sa_stream response\<rparr>))))))"

definition s3_fetch ::
  "s3_libs \<Rightarrow> s3_archive \<Rightarrow> ('m, 'b) s3_send \<Rightarrow> 'm \<Rightarrow> 'b \<Rightarrow> string \<Rightarrow> 'b \<times> (archive_error, fetched_object) result" where
  "s3_fetch L A send m b key =
     (case object_name_parse (s3l_key L) key of
        Inl e \<Rightarrow> (b, Err (ArchiveFetch key (name_error_text L e)))
      | Inr name \<Rightarrow>
          (case send m (s3_signed A (GetObject key) [] []) b of
             (b', sent) \<Rightarrow> (b',
               and_then (map_err (\<lambda>f. ArchiveFetch key (sf_reason f)) (s3_answered L sent)) (\<lambda>response.
               and_then (map_err (ArchiveFetch key) (s3_attestation L response)) (\<lambda>found.
               and_then (ok_or (ArchiveFetch key (''neither '' @ META_VKEY @ '' nor '' @ META_SIGNATURE
                   @ '' is on the object'')) found) (\<lambda>pair.
               and_then (map_err (\<lambda>e. ArchiveFetch key (''unreadable body: '' @ ureq_text L e)) (sa_vec response)) (\<lambda>wire.
                 Ok \<lparr>fo_name = name, fo_attestation = pair, fo_wire_bytes = wire\<rparr>)))))))"

end
