(* ===== verification/S3_Laws.thy ===== *)
theory S3_Laws
  imports S3_Archive Intake_Laws
begin

text \<open>
  What the production archive promises over an endpoint that does what S3 documents: the contracts
  \<open>object_store\<close> and \<open>paged_listing\<close> of the storage seam, a listing that is never short, and an attestation
  that comes back with its object. What is assumed of the endpoint is stated here, action by action; \<open>objs\<close>
  is what its state holds.
\<close>

section \<open>What S3 documents\<close>

type_synonym s3_object = "(string \<times> string) list \<times> bytes"
type_synonym 'b s3_holds = "'b \<Rightarrow> (string \<times> s3_object) list"

definition keys_after :: "(string \<times> s3_object) list \<Rightarrow> string \<Rightarrow> string \<Rightarrow> string list" where
  "keys_after os p aft = key_matches (map fst os) p aft"

definition succeeded :: "s3_answer \<Rightarrow> bool" where
  "succeeded ans \<longleftrightarrow> 200 \<le> sa_status ans \<and> sa_status ans < 300"

text \<open>
  PutObject: whatever happens to the request, at most the object of its key changes, and a success means
  that the object is the body and the metadata headers that were sent.
\<close>

definition put_documented :: "('m, 'b) s3_send \<Rightarrow> 'b s3_holds \<Rightarrow> bool" where
  "put_documented send objs \<longleftrightarrow>
     (\<forall>m rq key hs b b' x. sq_action rq = PutObject key hs \<longrightarrow> send m rq b = (b', x) \<longrightarrow>
        (distinct (map fst (objs b)) \<longrightarrow> distinct (map fst (objs b')))
        \<and> (\<forall>k. k \<noteq> key \<longrightarrow> map_of (objs b') k = map_of (objs b) k)
        \<and> (\<forall>ans. x = Ok ans \<longrightarrow> succeeded ans \<longrightarrow> map_of (objs b') key = Some (sq_headers rq, sq_body rq)))"

text \<open>GetObject, on an undisturbed request: 404, or the object with its metadata and its length.\<close>

definition get_documented :: "('m, 'b) s3_send \<Rightarrow> 'm \<Rightarrow> 'b s3_holds \<Rightarrow> bool" where
  "get_documented send calm objs \<longleftrightarrow>
     (\<forall>rq key b. sq_action rq = GetObject key \<longrightarrow>
        (\<exists>b' ans. send calm rq b = (b', Ok ans) \<and> objs b' = objs b \<and>
          (case map_of (objs b) key of
             None \<Rightarrow> sa_status ans = 404
           | Some (md, body) \<Rightarrow> sa_status ans = 200
               \<and> sa_header ans META_VKEY = map_of md META_VKEY
               \<and> sa_header ans META_SIGNATURE = map_of md META_SIGNATURE
               \<and> sa_length ans = Some (length body) \<and> sa_stream ans = Ok body)))"

text \<open>
  ListObjectsV2: a listing that arrives is a run of the keys in order from where it was asked to start,
  and hands back a token, resuming after its last key, exactly when there are more.
\<close>

definition list_start :: "(string \<Rightarrow> string) \<Rightarrow> string option \<Rightarrow> string option \<Rightarrow> string" where
  "list_start resume token aft =
     (case token of Some t \<Rightarrow> resume t | None \<Rightarrow> (case aft of Some a \<Rightarrow> a | None \<Rightarrow> []))"

definition run_of_keys :: "(string \<Rightarrow> string) \<Rightarrow> string list \<Rightarrow> s3_listing \<Rightarrow> bool" where
  "run_of_keys resume rest l \<longleftrightarrow>
     (\<exists>c. li_contents l = take c rest
        \<and> (case li_next_token l of
             None \<Rightarrow> length rest \<le> c
           | Some t \<Rightarrow> 0 < c \<and> c < length rest \<and> resume t = last (take c rest)))"

definition list_documented :: "s3_libs \<Rightarrow> ('m, 'b) s3_send \<Rightarrow> (string \<Rightarrow> string) \<Rightarrow> 'b s3_holds \<Rightarrow> bool" where
  "list_documented L send resume objs \<longleftrightarrow>
     (\<forall>m rq p token aft n b b' x. sq_action rq = ListObjects p token aft n \<longrightarrow> n \<noteq> Some 0 \<longrightarrow> send m rq b = (b', x) \<longrightarrow>
        objs b' = objs b
        \<and> (\<forall>ans t l. x = Ok ans \<longrightarrow> succeeded ans \<longrightarrow> sa_text ans = Ok t \<longrightarrow> list_parse_response L t = Ok l \<longrightarrow>
             run_of_keys resume (keys_after (objs b) p (list_start resume token aft)) l))"

text \<open>An undisturbed listing of at most a thousand keys fills its page.\<close>

definition page_documented :: "s3_libs \<Rightarrow> ('m, 'b) s3_send \<Rightarrow> 'm \<Rightarrow> 'b s3_holds \<Rightarrow> bool" where
  "page_documented L send calm objs \<longleftrightarrow>
     (\<forall>rq p aft n b. sq_action rq = ListObjects p None aft (Some n) \<longrightarrow> 0 < n \<longrightarrow> n \<le> 1000 \<longrightarrow>
        (\<exists>b' ans t l. send calm rq b = (b', Ok ans) \<and> objs b' = objs b
           \<and> succeeded ans \<and> sa_text ans = Ok t \<and> list_parse_response L t = Ok l
           \<and> li_contents l = take n (keys_after (objs b) p (case aft of Some a \<Rightarrow> a | None \<Rightarrow> []))
           \<and> (li_next_token l \<noteq> None \<longleftrightarrow>
                n < length (keys_after (objs b) p (case aft of Some a \<Rightarrow> a | None \<Rightarrow> [])))))"

section \<open>One request\<close>

lemma s3_answered_Ok: "s3_answered L sent = Ok ans \<longleftrightarrow> sent = Ok ans \<and> succeeded ans"
  by (auto simp: s3_answered_def classify_def succeeded_def Let_def split: sum.splits if_splits)

lemma s3_answered_404:
  "sa_status ans = 404 \<Longrightarrow> \<exists>f. s3_answered L (Ok ans) = Err f \<and> sf_status f = Some 404"
  by (simp add: s3_answered_def classify_def Let_def)

lemma s3_signed_simps [simp]:
  "sq_action (s3_signed A act hs body) = act" "sq_headers (s3_signed A act hs body) = hs"
  "sq_body (s3_signed A act hs body) = body"
  by (simp_all add: s3_signed_def)

lemma s3_put_held:
  assumes "put_documented send objs" and "s3_put L A send m key md body b = (b', r)"
  shows "(distinct (map fst (objs b)) \<longrightarrow> distinct (map fst (objs b')))
    \<and> (\<forall>k. k \<noteq> key \<longrightarrow> map_of (objs b') k = map_of (objs b) k)
    \<and> (r = Ok () \<longrightarrow> map_of (objs b') key = Some (md, body))"
proof -
  obtain x where x: "send m (s3_signed A (PutObject key md) md body) b = (b', x)"
      "r = and_then (s3_answered L x) (\<lambda>_. Ok ())"
    using assms(2) by (auto simp: s3_put_def split: prod.splits)
  moreover have "sq_action (s3_signed A (PutObject key md) md body) = PutObject key md" by simp
  ultimately show ?thesis
    using assms(1) unfolding put_documented_def by (fastforce simp: and_then_Ok_iff s3_answered_Ok)
qed

lemma s3_loop_held:
  "put_documented send objs \<Longrightarrow> s3_store_loop L A send ms key md body made b = (b', log, r) \<Longrightarrow>
    (distinct (map fst (objs b)) \<longrightarrow> distinct (map fst (objs b')))
    \<and> (\<forall>k. k \<noteq> key \<longrightarrow> map_of (objs b') k = map_of (objs b) k)
    \<and> (r = Ok () \<longrightarrow> map_of (objs b') key = Some (md, body))"
proof (induction L A send ms key md body made b arbitrary: b' log r rule: s3_store_loop.induct)
  case (1 L A send ms key md body made b)
  obtain b1 r1 where put: "s3_put L A send (ms (made + 1)) key md body b = (b1, r1)" by fastforce
  note held = s3_put_held [OF 1(2) put]
  show ?case
  proof (cases r1)
    case (Inr u)
    with put held 1(3) show ?thesis by (auto simp: s3_store_loop.simps)
  next
    case (Inl f)
    show ?thesis
    proof (cases "sf_retryable f \<and> made + 1 \<le> s3_put_retries A")
      case True
      obtain b2 log2 r2 where rest: "s3_store_loop L A send ms key md body (made + 1) b1 = (b2, log2, r2)"
        by (metis prod_cases3)
      from 1(1) [OF refl put [symmetric] Inl True 1(2) rest] held put Inl True rest 1(3) show ?thesis
        by (auto simp: s3_store_loop.simps [of L A send ms key md body made b])
    next
      case False
      with put held Inl 1(3) show ?thesis by (auto simp: s3_store_loop.simps)
    qed
  qed
qed

text \<open>The endpoint after so many attempts of an upload, and what the next one comes to.\<close>

fun put_run ::
  "s3_libs \<Rightarrow> s3_archive \<Rightarrow> ('m, 'b) s3_send \<Rightarrow> (nat \<Rightarrow> 'm) \<Rightarrow> string \<Rightarrow> (string \<times> string) list \<Rightarrow> bytes \<Rightarrow> 'b \<Rightarrow> nat \<Rightarrow> 'b" where
  "put_run L A send ms key md body b 0 = b"
| "put_run L A send ms key md body b (Suc n) = fst (s3_put L A send (ms (n + 1)) key md body (put_run L A send ms key md body b n))"

definition put_outcome ::
  "s3_libs \<Rightarrow> s3_archive \<Rightarrow> ('m, 'b) s3_send \<Rightarrow> (nat \<Rightarrow> 'm) \<Rightarrow> string \<Rightarrow> (string \<times> string) list \<Rightarrow> bytes \<Rightarrow> 'b \<Rightarrow> nat
    \<Rightarrow> (s3_failure, unit) result" where
  "put_outcome L A send ms key md body b n =
     snd (s3_put L A send (ms (n + 1)) key md body (put_run L A send ms key md body b n))"

definition retries_go_on :: "(s3_failure, unit) result \<Rightarrow> bool" where
  "retries_go_on r \<longleftrightarrow> (case r of Inl f \<Rightarrow> sf_retryable f | Inr _ \<Rightarrow> False)"

text \<open>The outcome of attempt \<open>n + 1\<close> being the first that no retry follows, the answer is that outcome's.\<close>

definition decided ::
  "s3_archive \<Rightarrow> string \<Rightarrow> (nat \<Rightarrow> (s3_failure, unit) result) \<Rightarrow> nat \<Rightarrow> (archive_error, unit) result \<Rightarrow> bool" where
  "decided A key outcome n r \<longleftrightarrow> n \<le> s3_put_retries A \<and> list_all (\<lambda>i. retries_go_on (outcome i)) [0..<n]
     \<and> (case outcome n of
          Inr _ \<Rightarrow> r = Ok ()
        | Inl f \<Rightarrow> r = Err (ArchiveUpload key (n + 1) (sf_reason f)) \<and> (sf_retryable f \<longrightarrow> n = s3_put_retries A))"

lemma s3_loop_decided:
  assumes "s3_store_loop L A send ms key md body made b = (b', log, r)"
    and "b = put_run L A send ms key md body b0 made"
    and "made \<le> s3_put_retries A" "list_all (\<lambda>i. retries_go_on (put_outcome L A send ms key md body b0 i)) [0..<made]"
  shows "decided A key (put_outcome L A send ms key md body b0) (made + length log) r
    \<and> b' = put_run L A send ms key md body b0 (made + length log + 1)"
  using assms
proof (induction L A send ms key md body made b arbitrary: b' log r rule: s3_store_loop.induct)
  case (1 L A send ms key md body made b)
  obtain b1 r1 where put: "s3_put L A send (ms (made + 1)) key md body b = (b1, r1)" by fastforce
  with 1(3) have run: "b1 = put_run L A send ms key md body b0 (made + 1)" and out: "put_outcome L A send ms key md body b0 made = r1"
    by (auto simp: put_outcome_def)
  show ?case
  proof (cases r1)
    case (Inr u)
    with put 1(2) have "b' = b1" "log = []" "r = Ok ()" by (auto simp: s3_store_loop.simps)
    with Inr 1(4,5) run out show ?thesis by (simp add: decided_def)
  next
    case (Inl f)
    show ?thesis
    proof (cases "sf_retryable f \<and> made + 1 \<le> s3_put_retries A")
      case True
      obtain b2 log2 r2 where rest: "s3_store_loop L A send ms key md body (made + 1) b1 = (b2, log2, r2)"
        by (metis prod_cases3)
      have eq: "length log = length log2 + 1" "r = r2" "b' = b2"
        using 1(2) put Inl True rest by (auto simp: s3_store_loop.simps [of L A send ms key md body made b])
      have "list_all (\<lambda>i. retries_go_on (put_outcome L A send ms key md body b0 i)) [0..<made + 1]"
        using 1(5) out Inl True by (simp add: retries_go_on_def)
      from 1(1) [OF refl put [symmetric] Inl True rest run _ this] True eq show ?thesis by simp
    next
      case False
      with put Inl 1(2) have "b' = b1" "log = []" "r = Err (ArchiveUpload key (made + 1) (sf_reason f))"
        by (auto simp: s3_store_loop.simps)
      moreover have "sf_retryable f \<longrightarrow> made = s3_put_retries A" using False 1(4) by auto
      ultimately show ?thesis using 1(4,5) run out Inl by (simp add: decided_def)
    qed
  qed
qed

section \<open>Reading back\<close>

definition s3_op_store ::
  "s3_libs \<Rightarrow> s3_archive \<Rightarrow> ('m, 'b) s3_send \<Rightarrow> (nat \<Rightarrow> 'm) \<Rightarrow> stored_submission \<Rightarrow> 'b \<Rightarrow> 'b \<times> (archive_error, unit) result" where
  "s3_op_store L A send ms s b = (case s3_store L A send ms s b of (b', log, r) \<Rightarrow> (b', r))"

definition s3_op_reader ::
  "s3_libs \<Rightarrow> s3_archive \<Rightarrow> ('m, 'b) s3_send \<Rightarrow> 'm \<Rightarrow> 'b \<Rightarrow> string \<Rightarrow> (archive_error, object_stream) result" where
  "s3_op_reader L A send m b key = snd (snd (s3_reader L A send m b key))"

definition s3_op_page ::
  "s3_libs \<Rightarrow> s3_archive \<Rightarrow> ('m, 'b) s3_send \<Rightarrow> 'm \<Rightarrow> 'b \<Rightarrow> string \<Rightarrow> string \<Rightarrow> nat \<Rightarrow> (archive_error, page) result" where
  "s3_op_page L A send m b prefix aft max_keys = snd (s3_page L A send m prefix aft max_keys b)"

text \<open>The pair an object's metadata is read as.\<close>

definition metadata_pair :: "s3_libs \<Rightarrow> (string \<times> string) list \<Rightarrow> (string, attestation option) result" where
  "metadata_pair L md =
     s3_attestation L \<lparr>sa_status = 200, sa_header = map_of md, sa_length = None, sa_text = Ok [], sa_vec = Ok [],
       sa_stream = Ok []\<rparr>"

lemma s3_reader_documented:
  assumes "get_documented send calm objs" and "object_name_parse (s3l_key L) key = Ok name"
  shows "s3_op_reader L A send calm b key =
     (case map_of (objs b) key of
        None \<Rightarrow> Err (NoSuchObject key)
      | Some (md, body) \<Rightarrow>
          Ok \<lparr>os_key = key, os_length = length body,
              os_attestation = (case metadata_pair L md of Inr p \<Rightarrow> p | Inl _ \<Rightarrow> None), os_content = Ok body\<rparr>)"
proof -
  let ?rq = "s3_signed A (GetObject key) [] []"
  have act: "sq_action ?rq = GetObject key" by simp
  from assms(1) [unfolded get_documented_def, rule_format, OF act, of b] obtain b' ans where
    ans: "send calm ?rq b = (b', Ok ans)" "case map_of (objs b) key of
             None \<Rightarrow> sa_status ans = 404
           | Some (md, body) \<Rightarrow> sa_status ans = 200
               \<and> sa_header ans META_VKEY = map_of md META_VKEY
               \<and> sa_header ans META_SIGNATURE = map_of md META_SIGNATURE
               \<and> sa_length ans = Some (length body) \<and> sa_stream ans = Ok body"
    by blast
  show ?thesis
  proof (cases "map_of (objs b) key")
    case None
    with ans(2) s3_answered_404 [of ans L] obtain f where "s3_answered L (Ok ans) = Err f" "sf_status f = Some 404" by auto
    with assms(2) ans(1) None show ?thesis by (simp add: s3_op_reader_def s3_reader_def)
  next
    case (Some o1)
    obtain md body where o1: "o1 = (md, body)" by fastforce
    with Some ans(2) have h: "sa_status ans = 200" "sa_header ans META_VKEY = map_of md META_VKEY"
      "sa_header ans META_SIGNATURE = map_of md META_SIGNATURE" "sa_length ans = Some (length body)" "sa_stream ans = Ok body"
      by auto
    then have "s3_answered L (Ok ans) = Ok ans" by (simp add: s3_answered_Ok succeeded_def)
    moreover have "s3_attestation L ans = metadata_pair L md"
      using h by (simp add: metadata_pair_def s3_attestation_def)
    ultimately show ?thesis using assms(2) ans(1) Some o1 h
      by (cases "metadata_pair L md") (simp_all add: s3_op_reader_def s3_reader_def)
  qed
qed

text \<open>What a key reads as: the bytes, and the attestation that travels with them.\<close>

definition s3_stored ::
  "s3_libs \<Rightarrow> s3_archive \<Rightarrow> ('m, 'b) s3_send \<Rightarrow> 'm \<Rightarrow> 'b \<Rightarrow> string \<Rightarrow> (archive_error, bytes \<times> attestation option) result" where
  "s3_stored L A send m b key =
     and_then (s3_op_reader L A send m b key) (\<lambda>st.
     and_then (map_err (ArchiveFetch key) (os_content st)) (\<lambda>body. Ok (body, os_attestation st)))"

definition usable_pair :: "s3_libs \<Rightarrow> (string \<times> string) list \<Rightarrow> attestation option" where
  "usable_pair L md = (case metadata_pair L md of Inr p \<Rightarrow> p | Inl _ \<Rightarrow> None)"

definition s3_content :: "s3_libs \<Rightarrow> stored_submission \<Rightarrow> bytes \<times> attestation option" where
  "s3_content L s = (ss_body s, usable_pair L (s3_metadata (ss_pair s)))"

lemma s3_stored_documented:
  assumes "get_documented send calm objs"
  shows "s3_stored L A send calm b key =
     and_then (map_err (\<lambda>e. ArchiveFetch key (name_error_text L e)) (object_name_parse (s3l_key L) key)) (\<lambda>name.
     and_then (ok_or (NoSuchObject key) (map_of (objs b) key)) (\<lambda>(md, body). Ok (body, usable_pair L md)))"
proof (cases "object_name_parse (s3l_key L) key")
  case (Inl e)
  then show ?thesis by (simp add: s3_stored_def s3_op_reader_def s3_reader_def)
next
  case (Inr n)
  with s3_reader_documented [OF assms Inr, of A b] show ?thesis
    by (cases "map_of (objs b) key") (auto simp: s3_stored_def usable_pair_def)
qed

section \<open>The contracts\<close>

definition s3_good ::
  "s3_libs \<Rightarrow> ('m, 'b) s3_send \<Rightarrow> 'm \<Rightarrow> 'b s3_holds \<Rightarrow> stored_submission \<Rightarrow> bool" where
  "s3_good L send calm objs s \<longleftrightarrow>
     put_documented send objs \<and> get_documented send calm objs
     \<and> key_lib_ok (s3l_key L) \<and> object_name_wf (s3l_key L) (ss_name s)"

lemma s3_store_held:
  assumes "put_documented send objs" and "s3_op_store L A send ms s b = (b', r)"
  shows "(distinct (map fst (objs b)) \<longrightarrow> distinct (map fst (objs b')))
    \<and> (\<forall>k. k \<noteq> object_key (s3l_key L) s \<longrightarrow> map_of (objs b') k = map_of (objs b) k)
    \<and> (r = Ok () \<longrightarrow> map_of (objs b') (object_key (s3l_key L) s) = Some (s3_metadata (ss_pair s), ss_body s))"
proof -
  obtain log where "s3_store_loop L A send ms (object_key (s3l_key L) s) (s3_metadata (ss_pair s)) (ss_body s) 0 b = (b', log, r)"
    using assms(2) by (auto simp: s3_op_store_def s3_store_def split: prod.splits)
  from s3_loop_held [OF assms(1) this] show ?thesis .
qed

interpretation s3: object_store "s3_op_store L A send" "s3_stored L A send calm" "s3_content L" "object_key (s3l_key L)"
    "s3_good L send calm objs"
  for L A send calm objs
proof unfold_locales
  fix s ms b b'
  assume good: "s3_good L send calm objs s" and ok: "s3_op_store L A send ms s b = (b', Ok ())"
  from s3_store_held [OF _ ok, of objs] good
  have "map_of (objs b') (object_key (s3l_key L) s) = Some (s3_metadata (ss_pair s), ss_body s)" by (simp add: s3_good_def)
  moreover from good have "object_name_parse (s3l_key L) (object_key (s3l_key L) s) = Ok (ss_name s)"
    by (simp add: s3_good_def object_key_def parse_to_key)
  ultimately show "s3_stored L A send calm b' (object_key (s3l_key L) s) = Ok (s3_content L s)"
    using good by (simp add: s3_good_def s3_stored_documented [of send calm objs] s3_content_def)
next
  fix s ms b b' r key
  assume good: "s3_good L send calm objs s" and "s3_op_store L A send ms s b = (b', r)" "key \<noteq> object_key (s3l_key L) s"
  with s3_store_held [of send objs L A ms s b b' r] have "map_of (objs b') key = map_of (objs b) key"
    by (simp add: s3_good_def)
  with good show "s3_stored L A send calm b' key = s3_stored L A send calm b key"
    by (simp add: s3_good_def s3_stored_documented [of send calm objs])
qed

definition s3_readable :: "s3_libs \<Rightarrow> ('m, 'b) s3_send \<Rightarrow> 'm \<Rightarrow> 'b s3_holds \<Rightarrow> 'b \<Rightarrow> bool" where
  "s3_readable L send calm objs b \<longleftrightarrow> page_documented L send calm objs \<and> distinct (map fst (objs b))"

lemma s3_page_documented:
  assumes doc: "page_documented L send calm objs" and n: "0 < n" "n \<le> 1000"
  shows "s3_op_page L A send calm b p aft n = Ok (page_bounded (keys_after (objs b) p aft) n)"
proof -
  let ?aft = "if aft = [] then None else Some aft"
  let ?rq = "s3_signed A (ListObjects p None ?aft (Some n)) [] []"
  have act: "sq_action ?rq = ListObjects p None ?aft (Some n)" by simp
  have start: "(case ?aft of Some a \<Rightarrow> a | None \<Rightarrow> []) = aft" by simp
  from doc [unfolded page_documented_def, rule_format, OF act n, of b, unfolded start] obtain b' ans t l where
    sent: "send calm ?rq b = (b', Ok ans)" "succeeded ans" "sa_text ans = Ok t" "list_parse_response L t = Ok l"
    and l: "li_contents l = take n (keys_after (objs b) p aft)"
      "(li_next_token l \<noteq> None) = (n < length (keys_after (objs b) p aft))"
    by blast
  from sent have "s3_answered L (Ok ans) = Ok ans" by (simp add: s3_answered_Ok)
  with sent l show ?thesis
    by (simp add: s3_op_page_def s3_page_def s3_list_def s3_get_def page_bounded_def)
qed

interpretation s3: paged_listing "s3_readable L send calm objs" "\<lambda>b. map fst (objs b)" "\<lambda>n. 0 < n \<and> n \<le> 1000" "s3_op_page L A send calm"
  for L A send calm objs
  by unfold_locales (auto simp: s3_readable_def dest: s3_page_documented [unfolded keys_after_def])

section \<open>The whole listing\<close>

lemma visit_keep: "visit_keys (keep_key P) ks s = (s @ filter P ks, Ok ())"
  by (induction ks arbitrary: s) (auto simp: keep_key_def)

lemma s3_list_run:
  assumes "list_documented L send resume objs" and n: "n \<noteq> Some 0"
    and "s3_list L A send m (ListObjects p token aft n) b = (b', r)"
  shows "objs b' = objs b
    \<and> (\<forall>l. r = Ok l \<longrightarrow> run_of_keys resume (keys_after (objs b) p (list_start resume token aft)) l)"
proof -
  let ?rq = "s3_signed A (ListObjects p token aft n) [] []"
  obtain x where x: "send m ?rq b = (b', x)"
      "r = and_then (map_err (\<lambda>f. ArchiveList (sf_reason f)) (and_then (s3_answered L x) (\<lambda>response.
            map_err (\<lambda>e. \<lparr>sf_reason = ''unreadable answer: '' @ ureq_text L e,
                          sf_retryable = transient e, sf_status = None\<rparr>) (sa_text response)))) (\<lambda>text.
            map_err (\<lambda>e. ArchiveList (''the listing does not parse: '' @ e)) (list_parse_response L text))"
    using assms(3) by (auto simp: s3_list_def s3_get_def split: prod.splits)
  have act: "sq_action ?rq = ListObjects p token aft n" by simp
  from assms(1) [unfolded list_documented_def, rule_format, OF act n x(1)] x(2) show ?thesis
    by (fastforce simp: and_then_Ok_iff s3_answered_Ok)
qed

lemma s3_pages_complete:
  assumes doc: "list_documented L send resume objs"
  shows "distinct (map fst (objs b)) \<Longrightarrow>
    s3_pages L A send ms conv (keep_key P) left pn token b s = (b', s', Ok ()) \<Longrightarrow>
    objs b' = objs b \<and> s' = s @ filter P (keys_after (objs b) KEY_PREFIX (list_start resume token None))"
proof (induction left arbitrary: pn token b s)
  case (Suc left)
  let ?rest = "keys_after (objs b) KEY_PREFIX (list_start resume token None)"
  obtain b1 r1 where listed: "s3_list L A send (ms pn) (ListObjects KEY_PREFIX token None None) b = (b1, r1)" by fastforce
  note run = s3_list_run [OF doc _ listed, simplified]
  from Suc.prems(2) listed obtain l where l: "r1 = Ok l" by (cases r1) auto
  with run obtain c where objs: "objs b1 = objs b" and c: "li_contents l = take c ?rest"
      "case li_next_token l of None \<Rightarrow> length ?rest \<le> c
       | Some t \<Rightarrow> 0 < c \<and> c < length ?rest \<and> resume t = last (take c ?rest)"
    by (auto simp: run_of_keys_def)
  show ?case
  proof (cases "li_next_token l")
    case None
    with Suc.prems(2) listed l c objs show ?thesis by (auto simp: visit_keep)
  next
    case (Some t)
    with c have t: "0 < c" "c < length ?rest" "resume t = last (take c ?rest)" by auto
    from Suc.prems(2) listed l c Some have rest:
      "s3_pages L A send ms conv (keep_key P) left (pn + 1) (Some t) b1 (s @ filter P (take c ?rest)) = (b', s', Ok ())"
      by (auto simp: visit_keep split: if_splits)
    have "keys_after (objs b) KEY_PREFIX (list_start resume (Some t) None) = drop c ?rest"
      using key_matches_after [OF Suc.prems(1), of c] t by (simp add: keys_after_def list_start_def)
    with Suc.IH [OF _ rest] Suc.prems(1) objs have
      "objs b' = objs b" "s' = (s @ filter P (take c ?rest)) @ filter P (drop c ?rest)"
      by auto
    then show ?thesis by (metis append.assoc append_take_drop_id filter_append)
  qed
qed simp


section \<open>The attestation beside the object\<close>

lemma metadata_roundtrip:
  "attestation_wf (s3l_crypto L) a \<Longrightarrow> usable_pair L (s3_metadata a) = Some a"
  by (simp add: usable_pair_def metadata_pair_def s3_attestation_def s3_metadata_def META_VKEY_def META_SIGNATURE_def
      s3_header_text_def attestation_decode_Ok [THEN iffD2])

section \<open>Properties\<close>

text \<open>
  C19: A store decides by its attempts and by nothing else. Whatever the endpoint answers, the loop ends, after at
  most \<open>put_retries + 1\<close> PUTs; every attempt but the last failed in a way a retry may cure and wrote one
  line to the journal; and the answer is the last attempt's, a failure naming the key, how many
  attempts were made and the last reason, given up early only where retrying cannot help.
\<close>

theorem s3_store_decided:
  assumes "s3_store L A send ms s b = (b', log, r)"
  shows "decided A (object_key (s3l_key L) s)
      (put_outcome L A send ms (object_key (s3l_key L) s) (s3_metadata (ss_pair s)) (ss_body s) b) (length log) r
    \<and> b' = put_run L A send ms (object_key (s3l_key L) s) (s3_metadata (ss_pair s)) (ss_body s) b (length log + 1)"
  using s3_loop_decided [OF assms [unfolded s3_store_def], of b] by simp

text \<open>
  C20: A listing is never short. Over an endpoint that pages as S3 documents, whatever page size it chooses and
  whichever requests fail, a listing that answers has visited every key of the archive, each once and in
  order, and changed nothing; where it cannot it answers an error, so that no rebuild starts from part of the archive.
\<close>

theorem s3_listing_complete:
  assumes "list_documented L send resume objs" and "distinct (map fst (objs b))"
    and "s3_for_each_key L A send ms conv (keep_key P) b s = (b', s', Ok ())"
  shows "objs b' = objs b \<and> s' = s @ filter P (keys_after (objs b) KEY_PREFIX [])"
  using s3_pages_complete [OF assms(1,2) assms(3) [unfolded s3_for_each_key_def]] by (simp add: list_start_def)

end
