(* ===== verification/Staged.thy ===== *)
theory Staged
  imports Line_Source
begin

text \<open>
  \<open>metsuke-fetch/src/staged.rs\<close>: a file written by writing another one and renaming it over the top. A
  disk is its files by path, a path its components; every read and every write takes the next fault
  the disk has in store, if there is one. A process killed at a step leaves what a failure at that step
  leaves where the staging file is not removed.
\<close>

type_synonym path = "string list"

datatype stage_step = AtDirs | AtCreate | AtWrite nat | AtSync | AtRename | AtDirSync

record disk_fault =
  fa_step :: stage_step
  fa_reason :: string
  fa_left :: bool

record disk =
  dk_files :: "path \<Rightarrow> bytes option"
  dk_faults :: "disk_fault option list"

definition next_fault :: "disk \<Rightarrow> disk_fault option \<times> disk" where
  "next_fault d = (case dk_faults d of [] \<Rightarrow> (None, d) | f # fs \<Rightarrow> (f, d\<lparr>dk_faults := fs\<rparr>))"

text \<open>\<open>fs::read_to_string\<close>.\<close>

definition read_to_string :: "path \<Rightarrow> disk \<Rightarrow> disk \<times> (io_error, string) result" where
  "read_to_string path d =
     (case next_fault d of
        (Some f, d') \<Rightarrow> (d', Err (OtherIo (fa_reason f)))
      | (None, d') \<Rightarrow>
          (d', case dk_files d path of
                 None \<Rightarrow> Err NotFound
               | Some b \<Rightarrow> if valid_utf8 b then Ok b else Err (OtherIo ''stream did not contain valid UTF-8'')))"

definition staging :: "path \<Rightarrow> path option" where
  "staging path = (if path = [] then None else Some (butlast path @ [utf8_lossy (last path) @ ''.staged'']))"

text \<open>The files after the staged write of \<open>content\<close> got as far as \<open>step\<close>; the last step is the rename's own.\<close>

fun staged_until :: "stage_step \<Rightarrow> path \<Rightarrow> path \<Rightarrow> bytes \<Rightarrow> (path \<Rightarrow> bytes option) \<Rightarrow> path \<Rightarrow> bytes option" where
  "staged_until AtDirs path st content f = f"
| "staged_until AtCreate path st content f = f"
| "staged_until (AtWrite n) path st content f = f(st := Some (take n content))"
| "staged_until AtSync path st content f = f(st := Some content)"
| "staged_until AtRename path st content f = f(st := Some content)"
| "staged_until AtDirSync path st content f = f(st := None, path := Some content)"

definition replacing :: "path \<Rightarrow> bytes \<Rightarrow> disk \<Rightarrow> disk \<times> (string, unit) result" where
  "replacing path content d =
     (case staging path of
        None \<Rightarrow> (d, Err ''names no file to write'')
      | Some st \<Rightarrow>
          (case next_fault d of
             (None, d') \<Rightarrow> (d'\<lparr>dk_files := staged_until AtDirSync path st content (dk_files d)\<rparr>, Ok ())
           | (Some f, d') \<Rightarrow>
               (let files = staged_until (fa_step f) path st content (dk_files d) in
                (d'\<lparr>dk_files := if fa_step f = AtDirs \<or> fa_left f then files else files(st := None)\<rparr>,
                 Err (fa_reason f)))))"

section \<open>What a write leaves\<close>

lemma next_fault_files: "dk_files (snd (next_fault d)) = dk_files d"
  by (simp add: next_fault_def split: list.splits)

lemma read_to_string_files: "read_to_string path d = (d', r) \<Longrightarrow> dk_files d' = dk_files d"
  using next_fault_files [of d]
  by (cases "next_fault d"; cases "fst (next_fault d)") (auto simp: read_to_string_def)

lemma read_to_string_cases:
  assumes "read_to_string path d = (d', q)"
  shows "(\<exists>e. q = Err (OtherIo e)) \<or> dk_files d path = None \<and> q = Err NotFound
    \<or> (\<exists>b. dk_files d path = Some b \<and> q = Ok b)"
proof -
  obtain f d1 where f: "next_fault d = (f, d1)" by fastforce
  have d1: "dk_files d1 = dk_files d" using next_fault_files [of d] by (simp add: f)
  show ?thesis
  proof (cases f)
    case None
    with assms f d1 show ?thesis
      by (cases "dk_files d path") (auto simp: read_to_string_def split: if_splits)
  next
    case (Some x)
    with assms f have "q = Err (OtherIo (fa_reason x))" by (simp add: read_to_string_def)
    then show ?thesis by blast
  qed
qed

text \<open>Whole or as it was, and nothing else touched but the staging file.\<close>

lemma replacing_files:
  assumes "replacing path content d = (d', r)" and "staging path = Some st"
  shows "(\<forall>p. p \<noteq> path \<longrightarrow> p \<noteq> st \<longrightarrow> dk_files d' p = dk_files d p)"
    and "st \<noteq> path \<Longrightarrow> dk_files d' path = dk_files d path \<or> dk_files d' path = Some content"
    and "st \<noteq> path \<Longrightarrow> r = Ok () \<Longrightarrow> dk_files d' path = Some content"
proof -
  obtain f d1 where f: "next_fault d = (f, d1)" by fastforce
  show "(\<forall>p. p \<noteq> path \<longrightarrow> p \<noteq> st \<longrightarrow> dk_files d' p = dk_files d p)"
    "st \<noteq> path \<Longrightarrow> dk_files d' path = dk_files d path \<or> dk_files d' path = Some content"
    "st \<noteq> path \<Longrightarrow> r = Ok () \<Longrightarrow> dk_files d' path = Some content"
    using assms f
    by (cases f; cases "fa_step (the f)"; auto simp: replacing_def Let_def split: if_splits)+
qed

end
