(* ===== verification/Percent.thy ===== *)
theory Percent
  imports Hex Http_Client
begin

text \<open>
  The query values the two archive-pull routes carry: what \<open>metsuke-fetch/src/pull.rs\<close> escapes
  (\<open>escaped\<close>), what \<open>metsuke-server/src/developer.rs\<close> reads back (\<open>percent_decoded\<close>, \<open>query_value\<close>),
  and that the second undoes the first.
\<close>

section \<open>Escaping\<close>

definition is_unreserved :: "char \<Rightarrow> bool" where
  "is_unreserved c \<longleftrightarrow>
     is_upper c \<or> is_lower c \<or> is_digit c \<or> c \<in> {CHR ''-'', CHR ''.'', CHR ''_'', CHR 0x7E}"

definition upper_hex_digit :: "nat \<Rightarrow> char" where
  "upper_hex_digit d = (if d < 10 then char_of (48 + d) else char_of (55 + d))"

definition escaped_byte :: "char \<Rightarrow> string" where
  "escaped_byte b =
     (if is_unreserved b then [b]
      else [CHR ''%'', upper_hex_digit (code b div 16), upper_hex_digit (code b mod 16)])"

definition escaped :: "string \<Rightarrow> string" where
  "escaped v = concat (map escaped_byte v)"

section \<open>Decoding\<close>

text \<open>\<open>u8::from_str_radix(_, 16)\<close> of two characters: a leading \<open>+\<close> is a sign, not a digit.\<close>

definition radix_16 :: "string \<Rightarrow> nat option" where
  "radix_16 s =
     (let ds = (case s of [] \<Rightarrow> [] | c # cs \<Rightarrow> if c = CHR ''+'' then cs else s)
      in if ds \<noteq> [] \<and> list_all is_ascii_hexdigit ds
         then Some (fold (\<lambda>c n. 16 * n + hex_value c) ds 0) else None)"

definition escape_at :: "string \<Rightarrow> char option" where
  "escape_at bs =
     (case bs of
        p # h # l # _ \<Rightarrow>
          if p = CHR ''%'' \<and> valid_utf8 [h, l] then map_option char_of (radix_16 [h, l]) else None
      | _ \<Rightarrow> None)"

function percent_bytes :: "string \<Rightarrow> string" where
  "percent_bytes [] = []"
| "percent_bytes (b # bs) =
     (case escape_at (b # bs) of
        Some c \<Rightarrow> c # percent_bytes (drop 2 bs)
      | None \<Rightarrow> b # percent_bytes bs)"
  by pat_completeness auto
termination by (relation "measure length") auto

definition percent_decoded :: "string \<Rightarrow> string option" where
  "percent_decoded v = (let d = percent_bytes v in if valid_utf8 d then Some d else None)"

section \<open>A query field\<close>

datatype bad_query = QueryNotUtf8 string

text \<open>The first pair of that name; a pair is a piece with an \<open>=\<close> in it.\<close>

definition query_pairs :: "string \<Rightarrow> (string \<times> string) list" where
  "query_pairs url =
     List.map_filter (split_once (CHR ''='')) (split_on (CHR ''&'')
       (case split_once (CHR ''?'') url of Some (_, query) \<Rightarrow> query | None \<Rightarrow> []))"

definition query_value :: "string \<Rightarrow> string \<Rightarrow> (bad_query, string) result" where
  "query_value url field =
     (case find (\<lambda>(name, _). name = field) (query_pairs url) of
        None \<Rightarrow> Ok []
      | Some (_, raw) \<Rightarrow> ok_or (QueryNotUtf8 field) (percent_decoded raw))"

section \<open>Decoding undoes escaping\<close>

lemma upper_digit [simp]:
  "d < 16 \<Longrightarrow> is_ascii_hexdigit (upper_hex_digit d)"
  "d < 16 \<Longrightarrow> hex_value (upper_hex_digit d) = d"
  "d < 16 \<Longrightarrow> code (upper_hex_digit d) < 128"
  by (auto simp: upper_hex_digit_def is_ascii_hexdigit_def is_digit_def hex_value_def)

lemma upper_digit_plain [simp]:
  assumes "d < 16"
  shows "upper_hex_digit d \<noteq> CHR ''+''" "upper_hex_digit d \<noteq> CHR ''&''" "upper_hex_digit d \<noteq> CHR ''=''"
    "upper_hex_digit d \<noteq> CHR ''?''"
  using upper_digit(1) [OF assms] by (auto simp: is_ascii_hexdigit_def is_digit_def)

lemma escape_at_escaped:
  "escape_at (CHR ''%'' # upper_hex_digit (code b div 16) # upper_hex_digit (code b mod 16) # rest) = Some b"
proof -
  have "valid_utf8 [upper_hex_digit (code b div 16), upper_hex_digit (code b mod 16)]"
    by (rule valid_utf8_ascii) auto
  moreover have "char_of (16 * (code b div 16) + code b mod 16) = b"
    by simp
  ultimately show ?thesis
    by (simp add: escape_at_def radix_16_def mult.commute)
qed

lemma escape_at_other: "b \<noteq> CHR ''%'' \<Longrightarrow> escape_at (b # bs) = None"
  by (simp add: escape_at_def split: list.splits)

lemma percent_bytes_escaped: "percent_bytes (escaped v @ rest) = v @ percent_bytes rest"
proof (induction v)
  case (Cons b v)
  have "b \<noteq> CHR ''%''" if "is_unreserved b"
    using that by (auto simp: is_unreserved_def is_upper_def is_lower_def is_digit_def)
  with Cons show ?case
    by (auto simp: escaped_def escaped_byte_def escape_at_escaped escape_at_other)
qed (simp add: escaped_def)

lemma percent_decoded_escaped: "valid_utf8 v \<Longrightarrow> percent_decoded (escaped v) = Some v"
  using percent_bytes_escaped [of v "[]"] by (simp add: percent_decoded_def Let_def)

lemma escaped_plain: "c \<in> set (escaped v) \<Longrightarrow> c \<noteq> CHR ''&'' \<and> c \<noteq> CHR ''='' \<and> c \<noteq> CHR ''?''"
proof -
  have "c \<noteq> CHR ''&'' \<and> c \<noteq> CHR ''='' \<and> c \<noteq> CHR ''?''" if "c \<in> set (escaped_byte b)" for b
    using that upper_digit_plain [of "code b div 16"] upper_digit_plain [of "code b mod 16"]
    by (auto simp: escaped_byte_def is_unreserved_def is_upper_def is_lower_def is_digit_def split: if_splits)
  then show "c \<in> set (escaped v) \<Longrightarrow> c \<noteq> CHR ''&'' \<and> c \<noteq> CHR ''='' \<and> c \<noteq> CHR ''?''"
    by (auto simp: escaped_def)
qed

lemma query_value_one:
  assumes "CHR ''?'' \<notin> set path" "CHR ''='' \<notin> set field" "CHR ''&'' \<notin> set field" "valid_utf8 v"
  shows "query_value (path @ ''?'' @ field @ ''='' @ escaped v) field = Ok v"
proof -
  have "split_once (CHR ''?'') (path @ CHR ''?'' # field @ CHR ''='' # escaped v) = Some (path, field @ CHR ''='' # escaped v)"
    using assms(1) by (rule split_once_append)
  moreover have "split_on (CHR ''&'') (field @ CHR ''='' # escaped v) = [field @ CHR ''='' # escaped v]"
    by (rule split_on_free) (use assms(3) escaped_plain in auto)
  ultimately have "query_pairs (path @ ''?'' @ field @ ''='' @ escaped v) = [(field, escaped v)]"
    using split_once_append [OF assms(2), of "escaped v"] by (simp add: query_pairs_def List.map_filter_simps)
  then show ?thesis using percent_decoded_escaped [OF assms(4)] by (simp add: query_value_def)
qed

lemma query_value_two:
  assumes "CHR ''?'' \<notin> set path" and plain: "\<forall>f \<in> {f1, f2}. CHR ''='' \<notin> set f \<and> CHR ''&'' \<notin> set f"
    and "f1 \<noteq> f2" "valid_utf8 v1" "valid_utf8 v2"
  shows "query_value (path @ ''?'' @ f1 @ ''='' @ escaped v1 @ ''&'' @ f2 @ ''='' @ escaped v2) f1 = Ok v1"
    and "query_value (path @ ''?'' @ f1 @ ''='' @ escaped v1 @ ''&'' @ f2 @ ''='' @ escaped v2) f2 = Ok v2"
proof -
  let ?p1 = "f1 @ CHR ''='' # escaped v1" and ?p2 = "f2 @ CHR ''='' # escaped v2"
  have "split_once (CHR ''?'') (path @ CHR ''?'' # ?p1 @ CHR ''&'' # ?p2) = Some (path, ?p1 @ CHR ''&'' # ?p2)"
    using assms(1) by (rule split_once_append)
  moreover have "split_on (CHR ''&'') (?p1 @ CHR ''&'' # ?p2) = ?p1 # split_on (CHR ''&'') ?p2"
    by (rule split_on_append) (use plain escaped_plain in auto)
  moreover have "split_on (CHR ''&'') ?p2 = [?p2]"
    by (rule split_on_free) (use plain escaped_plain in auto)
  ultimately have "query_pairs (path @ ''?'' @ f1 @ ''='' @ escaped v1 @ ''&'' @ f2 @ ''='' @ escaped v2)
      = [(f1, escaped v1), (f2, escaped v2)]"
    using split_once_append [of "CHR ''=''" f1 "escaped v1"] split_once_append [of "CHR ''=''" f2 "escaped v2"] plain
    by (simp add: query_pairs_def List.map_filter_simps)
  then show "query_value (path @ ''?'' @ f1 @ ''='' @ escaped v1 @ ''&'' @ f2 @ ''='' @ escaped v2) f1 = Ok v1"
    and "query_value (path @ ''?'' @ f1 @ ''='' @ escaped v1 @ ''&'' @ f2 @ ''='' @ escaped v2) f2 = Ok v2"
    using assms(3) percent_decoded_escaped [OF assms(4)] percent_decoded_escaped [OF assms(5)]
    by (simp_all add: query_value_def)
qed

text \<open>An escape \<open>from_str_radix\<close> reads as signed is decoded although it is not two hex digits.\<close>

lemma signed_escape_decoded: "percent_decoded ''%+5'' = Some [CHR 0x05]"
  by (simp add: percent_decoded_def escape_at_def radix_16_def is_ascii_hexdigit_def is_digit_def hex_value_def char_of_def bit_0 Let_def)

end
