(* ===== verification/Select.thy ===== *)
theory Select
  imports Object_Key
begin

text \<open>
  \<open>metsuke-fetch/src/select.rs\<close>: which of the listed keys a run is about. Strings compare byte by byte,
  as Rust's do.
\<close>

record days =
  d_from :: "string option"
  d_until :: "string option"

definition days_after :: "days \<Rightarrow> string \<Rightarrow> string" where
  "days_after d resuming =
     (case d_from d of
        Some f \<Rightarrow> if resuming < f then f else resuming
      | None \<Rightarrow> resuming)"

definition days_past :: "days \<Rightarrow> string \<Rightarrow> bool" where
  "days_past d key = (case d_until d of None \<Rightarrow> False | Some u \<Rightarrow> u \<le> key)"

record selection =
  se_pool :: "pool_id option"
  se_agent :: "agent_id option"
  se_kind :: "kind option"

record filters =
  f_prefix :: string
  f_selection :: selection
  f_days :: days

definition selection_text :: "bech32_lib \<Rightarrow> selection \<Rightarrow> string" where
  "selection_text B s =
     (let named = List.map_filter (\<lambda>x. x)
            [map_option (\<lambda>p. ''pool '' @ to_bech32 B p) (se_pool s),
             map_option (\<lambda>a. ''agent '' @ a) (se_agent s),
             map_option (\<lambda>k. ''kind '' @ kind_as_str k) (se_kind s)]
      in if named = [] then ''every pool, agent and kind''
         else join_text '', '' named)"

datatype selected = SelYes | SelNo | SelUnnameable

definition wants :: "'a option \<Rightarrow> 'a \<Rightarrow> bool" where
  "wants filter_on x = (case filter_on of None \<Rightarrow> True | Some y \<Rightarrow> y = x)"

definition selects :: "key_lib \<Rightarrow> selection \<Rightarrow> string \<Rightarrow> selected" where
  "selects L s key =
     (case object_name_parse L key of
        Inl _ \<Rightarrow> SelUnnameable
      | Inr name \<Rightarrow>
          if wants (se_pool s) (on_pool name) \<and> wants (se_agent s) (on_agent name) \<and> wants (se_kind s) (on_kind name)
          then SelYes else SelNo)"

lemma selects_Yes:
  "selects L s key = SelYes \<longleftrightarrow> (\<exists>n. object_name_parse L key = Ok n
     \<and> wants (se_pool s) (on_pool n) \<and> wants (se_agent s) (on_agent n) \<and> wants (se_kind s) (on_kind n))"
  by (auto simp: selects_def split: sum.splits)

lemma days_after_utf8: "valid_utf8 (days_after d []) \<Longrightarrow> valid_utf8 r \<Longrightarrow> valid_utf8 (days_after d r)"
proof -
  have "r < x \<Longrightarrow> ([] :: string) < x" for x by (cases x) auto
  then show "valid_utf8 (days_after d []) \<Longrightarrow> valid_utf8 r \<Longrightarrow> valid_utf8 (days_after d r)"
    by (auto simp: days_after_def split: option.splits if_splits)
qed

lemma days_after_ge: "resuming \<le> days_after d resuming"
  by (auto simp: days_after_def split: option.splits)

text \<open>Past a day stays past it: keys in order, the first one past the bound ends the run.\<close>

lemma days_past_mono: "days_past d k \<Longrightarrow> k \<le> k' \<Longrightarrow> days_past d k'"
  by (auto simp: days_past_def split: option.splits)

lemma takeWhile_past: "sorted ks \<Longrightarrow> takeWhile (\<lambda>k. \<not> days_past d k) ks = filter (\<lambda>k. \<not> days_past d k) ks"
proof (induction ks)
  case (Cons k ks)
  then show ?case
    using days_past_mono [of d k] by (auto simp: filter_empty_conv)
qed simp

end
