(* ===== verification/Pull.thy ===== *)
theory Pull
  imports Percent Select Attestation
begin

text \<open>
  \<open>metsuke-fetch/src/pull.rs\<close>: the archive-pull routes as a client. The network is a parameter
  (\<open>network\<close>): a state that a GET of a URL under an \<open>authorization\<close> header turns into another state and
  an answer, or the text of why there was none. \<open>serde_json\<close>'s reading of a listing, base64 and the
  texts of the other modules' errors are \<open>pull_libs\<close>.
\<close>

section \<open>Answers\<close>

text \<open>
  An answer's head, its length where the framing states one, and what reading its body comes to, as
  text and as bytes; \<open>Inl\<close> is the read error. A header's value is its bytes.
\<close>

record pull_answer = http_response +
  pa_header :: "string \<Rightarrow> bytes option"
  pa_length :: "nat option"
  pa_content :: "(string, bytes) result"

type_synonym 'w network = "'w \<Rightarrow> string \<Rightarrow> string \<Rightarrow> 'w \<times> (string, pull_answer) result"

record pull_libs =
  pl_crypto :: crypto
  pl_key :: key_lib
  listing_from_str :: "string \<Rightarrow> (string, listing) result"
  base64_encode :: "bytes \<Rightarrow> string"

record object =
  ob_bytes :: bytes
  ob_attestation :: attested

text \<open>\<open>HeaderValue::to_str\<close>: visible ASCII and tabs.\<close>

definition header_text :: "bytes \<Rightarrow> string" where
  "header_text v = (if list_all (\<lambda>c. 32 \<le> code c \<and> code c < 127 \<or> code c = 9) v then v else [])"

definition answer_attestation :: "crypto \<Rightarrow> pull_answer \<Rightarrow> attested" where
  "answer_attestation C r =
     from_headers C (map_option header_text (pa_header r HEADER_VKEY))
       (map_option header_text (pa_header r HEADER_SIGNATURE))"

record archive_client =
  ac_server :: string
  ac_authorization :: string

definition trim_slashes :: "string \<Rightarrow> string" where
  "trim_slashes s = rev (dropWhile (\<lambda>c. c = CHR ''/'') (rev s))"

definition new_client :: "pull_libs \<Rightarrow> string \<Rightarrow> string \<Rightarrow> string \<Rightarrow> archive_client" where
  "new_client L server user password =
     \<lparr>ac_server = trim_slashes server,
      ac_authorization = ''Basic '' @ base64_encode L (user @ '':'' @ password)\<rparr>"

datatype pull_error =
    Unreachable string string
  | Refused string nat string
  | UnreadableListing string string
  | NoLength string
  | Short string nat nat
  | Oversized string nat nat
  | Unread string string

definition GONE :: "nat list" where "GONE = [404, 410]"

fun is_one_objects_problem :: "pull_error \<Rightarrow> bool" where
  "is_one_objects_problem (Refused url status reason) = (status \<in> set GONE)"
| "is_one_objects_problem (Oversized key len most) = True"
| "is_one_objects_problem (NoLength key) = False"
| "is_one_objects_problem (Unreachable url reason) = False"
| "is_one_objects_problem (UnreadableListing url reason) = False"
| "is_one_objects_problem (Short key got len) = False"
| "is_one_objects_problem (Unread key reason) = False"

section \<open>Requests\<close>

definition answered :: "'w network \<Rightarrow> archive_client \<Rightarrow> string \<Rightarrow> 'w \<Rightarrow> 'w \<times> (pull_error, pull_answer) result" where
  "answered send ac url w =
     (case send w url (ac_authorization ac) of
        (w', Inl reason) \<Rightarrow> (w', Err (Unreachable url reason))
      | (w', Inr r) \<Rightarrow>
          (case classify (http_response.truncate r) of
             Inr _ \<Rightarrow> (w', Ok r)
           | Inl refusal \<Rightarrow> (w', Err (Refused url (rf_status refusal) (rf_reason refusal)))))"

definition page_url :: "archive_client \<Rightarrow> string \<Rightarrow> string \<Rightarrow> string" where
  "page_url ac prefix after =
     ac_server ac @ SUBMISSIONS_PATH @ ''?'' @ PREFIX_FIELD @ ''='' @ escaped prefix
       @ ''&'' @ AFTER_FIELD @ ''='' @ escaped after"

definition pull_page ::
  "pull_libs \<Rightarrow> 'w network \<Rightarrow> archive_client \<Rightarrow> string \<Rightarrow> string \<Rightarrow> 'w \<Rightarrow> 'w \<times> (pull_error, listing) result" where
  "pull_page L send ac prefix after w =
     (let url = page_url ac prefix after in
      case answered send ac url w of
        (w', Inl e) \<Rightarrow> (w', Err e)
      | (w', Inr r) \<Rightarrow> (w', map_err (UnreadableListing url) (and_then (rs_body r) (listing_from_str L))))"

definition object_url :: "archive_client \<Rightarrow> string \<Rightarrow> string" where
  "object_url ac key = ac_server ac @ OBJECT_PATH @ ''?'' @ KEY_FIELD @ ''='' @ escaped key"

definition object_of :: "crypto \<Rightarrow> string \<Rightarrow> nat \<Rightarrow> pull_answer \<Rightarrow> (pull_error, object) result" where
  "object_of C key max_object_bytes r =
     and_then (ok_or (NoLength key) (pa_length r)) (\<lambda>len.
     if max_object_bytes < len then Err (Oversized key len max_object_bytes)
     else and_then (map_err (Unread key) (pa_content r)) (\<lambda>bs.
       if length bs = len then Ok \<lparr>ob_bytes = bs, ob_attestation = answer_attestation C r\<rparr>
       else Err (Short key (length bs) len)))"

definition pull_object ::
  "pull_libs \<Rightarrow> 'w network \<Rightarrow> archive_client \<Rightarrow> string \<Rightarrow> nat \<Rightarrow> 'w \<Rightarrow> 'w \<times> (pull_error, object) result" where
  "pull_object L send ac key max_object_bytes w =
     (case answered send ac (object_url ac key) w of
        (w', Inl e) \<Rightarrow> (w', Err e)
      | (w', Inr r) \<Rightarrow> (w', object_of (pl_crypto L) key max_object_bytes r))"

section \<open>What an object that arrived is\<close>

lemma pull_object_Ok:
  "pull_object L send ac key cap w = (w', Ok ob) \<longleftrightarrow>
     (\<exists>r. send w (object_url ac key) (ac_authorization ac) = (w', Ok r)
        \<and> 200 \<le> rs_status r \<and> rs_status r < 300 \<and> pa_length r = Some (length (ob_bytes ob))
        \<and> length (ob_bytes ob) \<le> cap \<and> pa_content r = Ok (ob_bytes ob)
        \<and> ob_attestation ob = answer_attestation (pl_crypto L) r)"
  by (cases ob)
    (auto simp: pull_object_def answered_def object_of_def classify_def http_response.truncate_def Let_def
      and_then_Ok_iff not_less split: prod.splits sum.splits if_splits)

end
