(* ===== verification/Cursor.thy ===== *)
theory Cursor
  imports Staged Pull
begin

text \<open>
  What a sync writes down about itself: how much it insists on (\<open>Insist\<close> and \<open>Verification\<close> of
  \<open>metsuke-fetch/src/sync.rs\<close>), the bar a download directory is held to (\<open>provenance.rs\<close>) and where a
  run got to (\<open>cursor.rs\<close>). \<open>serde_json\<close> and Rust's quoting of a string are \<open>fetch_libs\<close>.
\<close>

section \<open>The bar\<close>

datatype insist = InsistNothing | InsistAttested | InsistColdSigned

fun insist_text :: "insist \<Rightarrow> string" where
  "insist_text InsistNothing = ''no --require flag''"
| "insist_text InsistAttested = ''--require-attested''"
| "insist_text InsistColdSigned = ''--require-cold-signed''"

record verification =
  vf_max_object_bytes :: nat
  vf_insist :: insist

record verified =
  ve_insist :: insist
  ve_max_object_bytes :: nat

record cursor =
  cu_prefix :: string
  cu_selection :: selection
  cu_insist :: insist
  cu_max_object_bytes :: "nat option"
  cu_from :: "string option"
  cu_after :: string
  cu_unverified :: "string list"

record fetch_libs =
  fl_pull :: pull_libs
  verified_to_vec :: "verified \<Rightarrow> bytes"
  verified_from_str :: "string \<Rightarrow> (string, verified) result"
  cursor_to_vec :: "cursor \<Rightarrow> bytes"
  cursor_from_str :: "string \<Rightarrow> (string, cursor) result"
  debug_quoted :: "string \<Rightarrow> string"
  pull_error_text :: "pull_error \<Rightarrow> string"
  object_name_error_text :: "object_name_error \<Rightarrow> string"
  attestation_error_text :: "attestation_error \<Rightarrow> string"

section \<open>The directory's bar\<close>

definition PROVENANCE_FILE :: string where "PROVENANCE_FILE = ''.metsuke-verification.json''"

definition verified_of :: "verification \<Rightarrow> verified" where
  "verified_of v = \<lparr>ve_insist = vf_insist v, ve_max_object_bytes = vf_max_object_bytes v\<rparr>"

definition verified_text :: "verified \<Rightarrow> string" where
  "verified_text v = ''max-object-bytes '' @ decimal (ve_max_object_bytes v) @ '', '' @ insist_text (ve_insist v)"

datatype provenance_error =
    ProvRead path string
  | ProvUnreadable path string
  | OtherBar path string string
  | ProvWrite path string

definition write_verified :: "fetch_libs \<Rightarrow> path \<Rightarrow> verified \<Rightarrow> disk \<Rightarrow> disk \<times> (provenance_error, unit) result" where
  "write_verified L path v d =
     (case replacing path (verified_to_vec L v) d of (d', r) \<Rightarrow> (d', map_err (ProvWrite path) r))"

definition claim :: "fetch_libs \<Rightarrow> path \<Rightarrow> verification \<Rightarrow> disk \<Rightarrow> disk \<times> (provenance_error, unit) result" where
  "claim L into v d =
     (let path = into @ [PROVENANCE_FILE]; asked = verified_of v in
      case read_to_string path d of
        (d', Inl NotFound) \<Rightarrow> write_verified L path asked d'
      | (d', Inl (OtherIo e)) \<Rightarrow> (d', Err (ProvRead path e))
      | (d', Inr text) \<Rightarrow>
          (d', and_then (map_err (ProvUnreadable path) (verified_from_str L text)) (\<lambda>held.
             if held = asked then Ok ()
             else Err (OtherBar path (verified_text held) (verified_text asked)))))"

section \<open>The cursor\<close>

datatype cursor_error =
    CursorRead path string
  | CursorUnreadable path string
  | NoSizeBound path string
  | OtherFilters path string string
  | CursorWrite path string

definition describe_run :: "fetch_libs \<Rightarrow> string \<Rightarrow> selection \<Rightarrow> insist \<Rightarrow> nat \<Rightarrow> string option \<Rightarrow> string" where
  "describe_run L prefix sel ins most first =
     (let day = (case first of Some f \<Rightarrow> '', from '' @ debug_quoted L f | None \<Rightarrow> [])
      in ''prefix '' @ debug_quoted L prefix @ '', '' @ selection_text (kl_bech32 (pl_key (fl_pull L))) sel
         @ '', max-object-bytes '' @ decimal most @ '', '' @ insist_text ins @ day)"

definition fresh_cursor :: "filters \<Rightarrow> verification \<Rightarrow> cursor" where
  "fresh_cursor f v =
     \<lparr>cu_prefix = f_prefix f, cu_selection = f_selection f, cu_insist = vf_insist v,
      cu_max_object_bytes = Some (vf_max_object_bytes v), cu_from = d_from (f_days f), cu_after = [],
      cu_unverified = []\<rparr>"

text \<open>A cursor that was read, against what the run was asked for.\<close>

definition cursor_fits :: "fetch_libs \<Rightarrow> path \<Rightarrow> filters \<Rightarrow> verification \<Rightarrow> cursor \<Rightarrow> (cursor_error, cursor) result" where
  "cursor_fits L path f v held =
     (let asked = describe_run L (f_prefix f) (f_selection f) (vf_insist v) (vf_max_object_bytes v) (d_from (f_days f)) in
      case cu_max_object_bytes held of
        None \<Rightarrow> Err (NoSizeBound path asked)
      | Some bound \<Rightarrow>
          if cu_prefix held = f_prefix f \<and> cu_selection held = f_selection f \<and> cu_insist held = vf_insist v
             \<and> bound = vf_max_object_bytes v \<and> cu_from held = d_from (f_days f)
          then Ok held
          else Err (OtherFilters path
                 (describe_run L (cu_prefix held) (cu_selection held) (cu_insist held) bound (cu_from held)) asked))"

definition cursor_read ::
  "fetch_libs \<Rightarrow> path \<Rightarrow> filters \<Rightarrow> verification \<Rightarrow> disk \<Rightarrow> disk \<times> (cursor_error, cursor) result" where
  "cursor_read L path f v d =
     (case read_to_string path d of
        (d', Inl NotFound) \<Rightarrow> (d', Ok (fresh_cursor f v))
      | (d', Inl (OtherIo e)) \<Rightarrow> (d', Err (CursorRead path e))
      | (d', Inr text) \<Rightarrow>
          (d', and_then (map_err (CursorUnreadable path) (cursor_from_str L text)) (cursor_fits L path f v)))"

definition cursor_write :: "fetch_libs \<Rightarrow> path \<Rightarrow> cursor \<Rightarrow> disk \<Rightarrow> disk \<times> (cursor_error, unit) result" where
  "cursor_write L path c d =
     (case replacing path (cursor_to_vec L c) d of (d', r) \<Rightarrow> (d', map_err (CursorWrite path) r))"

definition advance ::
  "fetch_libs \<Rightarrow> path \<Rightarrow> string \<Rightarrow> cursor \<Rightarrow> disk \<Rightarrow> cursor \<times> disk \<times> (cursor_error, unit) result" where
  "advance L path key c d = (let c' = c\<lparr>cu_after := key\<rparr> in (c', cursor_write L path c' d))"

definition advance_unverified ::
  "fetch_libs \<Rightarrow> path \<Rightarrow> string \<Rightarrow> cursor \<Rightarrow> disk \<Rightarrow> cursor \<times> disk \<times> (cursor_error, unit) result" where
  "advance_unverified L path key c d =
     advance L path key (c\<lparr>cu_unverified := insort_insert key (cu_unverified c)\<rparr>) d"

definition cursor_forget ::
  "fetch_libs \<Rightarrow> path \<Rightarrow> cursor \<Rightarrow> disk \<Rightarrow> cursor \<times> disk \<times> (cursor_error, nat) result" where
  "cursor_forget L path c d =
     (let c' = c\<lparr>cu_unverified := []\<rparr> in
      case cursor_write L path c' d of
        (d', r) \<Rightarrow> (c', d', and_then r (\<lambda>_. Ok (length (cu_unverified c)))))"

end
