(* ===== verification/Sync.thy ===== *)
theory Sync
  imports Cursor
begin

text \<open>
  \<open>metsuke-fetch/src/sync.rs\<close>: page the listing from the cursor, write each object down under the key it
  is filed as, advance the cursor behind it. A run threads the network's state, the disk, its cursor
  and its report; what it hands to \<open>landed\<close> is the list of those keys. The pages are asked for one by
  one and a server may go on forever: \<open>None\<close> is a walk that has not ended within its fuel, one unit a page.
\<close>

section \<open>Reports and refusals\<close>

datatype fault = Verdict | NotTaken

record rejected =
  rj_key :: string
  rj_reason :: string
  rj_fault :: fault

record report =
  rp_objects :: nat
  rp_bytes :: nat
  rp_passed :: nat
  rp_unnameable :: nat
  rp_cold_signed :: nat
  rp_leios_signed :: nat
  rp_unattested :: nat
  rp_rejected :: "rejected list"
  rp_unverified :: "string list"

definition new_report :: report where
  "new_report =
     \<lparr>rp_objects = 0, rp_bytes = 0, rp_passed = 0, rp_unnameable = 0, rp_cold_signed = 0, rp_leios_signed = 0,
      rp_unattested = 0, rp_rejected = [], rp_unverified = []\<rparr>"

definition report_selected :: "report \<Rightarrow> nat" where
  "report_selected r = rp_objects r + length (rp_rejected r)"

definition report_listed :: "report \<Rightarrow> nat" where
  "report_listed r = report_selected r + rp_passed r + rp_unnameable r"

datatype sync_error =
    SyncPull pull_error
  | SyncCursor cursor_error
  | SyncProvenance provenance_error
  | NotAKey string
  | Stuck string
  | SyncMalformed string string
  | SyncWrite path string

record destination =
  ds_into :: path
  ds_state :: path

section \<open>Where a key lands\<close>

text \<open>\<open>Path::components\<close>.\<close>

datatype component = RootDir | CurDir | ParentDir | Normal string

fun piece_component :: "nat \<times> string \<Rightarrow> component list" where
  "piece_component (i, p) =
     (if p = [] then []
      else if p = ''.'' then (if i = 0 then [CurDir] else [])
      else if p = ''..'' then [ParentDir]
      else [Normal p])"

definition components :: "string \<Rightarrow> component list" where
  "components p =
     (if starts_with ''/'' p then [RootDir] else [])
       @ concat (map piece_component (enumerate 0 (split_on (CHR ''/'') p)))"

fun normal_name :: "component \<Rightarrow> string option" where
  "normal_name (Normal p) = Some p"
| "normal_name _ = None"

definition destination_of :: "path \<Rightarrow> string \<Rightarrow> path option" where
  "destination_of into key =
     (let cs = components key in
      if list_all (\<lambda>c. normal_name c \<noteq> None) cs \<and> cs \<noteq> []
      then Some (into @ List.map_filter normal_name cs) else None)"

section \<open>Whether an object may be written\<close>

datatype landing = ColdSigned | LeiosSigned | Unattested

datatype landed = Landed landing nat | LandRejected string fault

datatype not_checked = UncheckedRejected string fault | UncheckedMalformed string

definition checked :: "fetch_libs \<Rightarrow> string \<Rightarrow> object \<Rightarrow> insist \<Rightarrow> (not_checked, landing) result" where
  "checked L key ob ins =
     (let C = pl_crypto (fl_pull L); K = pl_key (fl_pull L) in
      case ob_attestation ob of
        AttestedNone \<Rightarrow>
          if ins = InsistNothing then Ok Unattested
          else Err (UncheckedRejected ''unattested: no key and signature to check it with'' NotTaken)
      | Malformed e \<Rightarrow> Err (UncheckedMalformed (attestation_error_text L e))
      | Pair a \<Rightarrow>
          if \<not> verifies C a (ob_bytes ob)
          then Err (UncheckedRejected ''the signature does not stand over the bytes as downloaded'' Verdict)
          else
            and_then (map_err (\<lambda>e. UncheckedRejected (object_name_error_text L e) NotTaken) (object_name_parse K key))
              (\<lambda>name.
            case attributes C a of
              None \<Rightarrow>
                if ins = InsistColdSigned
                then Err (UncheckedRejected ''Leios signature verified, not cold-signed'' NotTaken)
                else Ok LeiosSigned
            | Some signer \<Rightarrow>
                if signer \<noteq> on_pool name
                then Err (UncheckedRejected (''signed by '' @ to_bech32 (kl_bech32 K) signer @ '', and filed under ''
                       @ to_bech32 (kl_bech32 K) (on_pool name)) Verdict)
                else Ok ColdSigned))"

section \<open>A run\<close>

record 'w sync_state =
  sy_net :: 'w
  sy_disk :: disk
  sy_cursor :: cursor
  sy_report :: report
  sy_landed :: "string list"

text \<open>What a run is given.\<close>

record 'w run_env =
  re_libs :: fetch_libs
  re_send :: "'w network"
  re_client :: archive_client
  re_filters :: filters
  re_dest :: destination
  re_ver :: verification

definition download ::
  "'w run_env \<Rightarrow> string \<Rightarrow> 'w \<Rightarrow> disk \<Rightarrow> 'w \<times> disk \<times> (sync_error, landed) result" where
  "download E key w d =
     (case destination_of (ds_into (re_dest E)) key of
        None \<Rightarrow> (w, d, Err (NotAKey key))
      | Some path \<Rightarrow>
          (case pull_object (fl_pull (re_libs E)) (re_send E) (re_client E) key (vf_max_object_bytes (re_ver E)) w of
             (w', Inl e) \<Rightarrow>
               (w', d, if is_one_objects_problem e then Ok (LandRejected (pull_error_text (re_libs E) e) NotTaken)
                       else Err (SyncPull e))
           | (w', Inr ob) \<Rightarrow>
               (case checked (re_libs E) key ob (vf_insist (re_ver E)) of
                  Inl (UncheckedRejected reason f) \<Rightarrow> (w', d, Ok (LandRejected reason f))
                | Inl (UncheckedMalformed reason) \<Rightarrow> (w', d, Err (SyncMalformed key reason))
                | Inr how \<Rightarrow>
                    (case replacing path (ob_bytes ob) d of
                       (d', Inl e) \<Rightarrow> (w', d', Err (SyncWrite path e))
                     | (d', Inr _) \<Rightarrow> (w', d', Ok (Landed how (length (ob_bytes ob))))))))"

fun count_landing :: "landing \<Rightarrow> report \<Rightarrow> report" where
  "count_landing ColdSigned r = r\<lparr>rp_cold_signed := rp_cold_signed r + 1\<rparr>"
| "count_landing LeiosSigned r = r\<lparr>rp_leios_signed := rp_leios_signed r + 1\<rparr>"
| "count_landing Unattested r = r\<lparr>rp_unattested := rp_unattested r + 1\<rparr>"

fun count_landed :: "string \<Rightarrow> landed \<Rightarrow> report \<Rightarrow> report" where
  "count_landed key (Landed how n) r =
     count_landing how (r\<lparr>rp_bytes := rp_bytes r + n, rp_objects := rp_objects r + 1\<rparr>)"
| "count_landed key (LandRejected reason f) r =
     r\<lparr>rp_rejected := rp_rejected r @ [\<lparr>rj_key = key, rj_reason = reason, rj_fault = f\<rparr>]\<rparr>"

text \<open>The cursor moved behind a key, its verdict recorded in the same write.\<close>

definition pass_key :: "'w run_env \<Rightarrow> bool \<Rightarrow> string \<Rightarrow> 'w sync_state \<Rightarrow> 'w sync_state \<times> (sync_error, unit) result" where
  "pass_key E verdict key s =
     (case (if verdict then advance_unverified else advance)
             (re_libs E) (ds_state (re_dest E)) key (sy_cursor s) (sy_disk s) of
        (c, d, r) \<Rightarrow> (s\<lparr>sy_cursor := c, sy_disk := d\<rparr>, map_err SyncCursor r))"

definition sync_key :: "'w run_env \<Rightarrow> string \<Rightarrow> 'w sync_state \<Rightarrow> 'w sync_state \<times> (sync_error, unit) result" where
  "sync_key E key s =
     (case selects (pl_key (fl_pull (re_libs E))) (f_selection (re_filters E)) key of
        SelYes \<Rightarrow>
          (case download E key (sy_net s) (sy_disk s) of
             (w, d, Inl e) \<Rightarrow> (s\<lparr>sy_net := w, sy_disk := d\<rparr>, Err e)
           | (w, d, Inr l) \<Rightarrow>
               pass_key E (case l of LandRejected _ Verdict \<Rightarrow> True | _ \<Rightarrow> False) key
                 (s\<lparr>sy_net := w, sy_disk := d, sy_report := count_landed key l (sy_report s),
                    sy_landed := (case l of Landed _ _ \<Rightarrow> sy_landed s @ [key] | _ \<Rightarrow> sy_landed s)\<rparr>))
      | SelNo \<Rightarrow> pass_key E False key (s\<lparr>sy_report := (sy_report s)\<lparr>rp_passed := rp_passed (sy_report s) + 1\<rparr>\<rparr>)
      | SelUnnameable \<Rightarrow>
          pass_key E False key (s\<lparr>sy_report := (sy_report s)\<lparr>rp_unnameable := rp_unnameable (sy_report s) + 1\<rparr>\<rparr>))"

fun sync_keys :: "'w run_env \<Rightarrow> string list \<Rightarrow> 'w sync_state \<Rightarrow> 'w sync_state \<times> (sync_error, unit) result" where
  "sync_keys E [] s = (s, Ok ())"
| "sync_keys E (key # ks) s =
     (case sync_key E key s of
        (s', Inl e) \<Rightarrow> (s', Err e)
      | (s', Inr _) \<Rightarrow> sync_keys E ks s')"

section \<open>The walk\<close>

record pages =
  wk_after :: string
  wk_done :: bool

definition pages_next :: "'w run_env \<Rightarrow> pages \<Rightarrow> 'w \<Rightarrow> 'w \<times> pages \<times> (sync_error, string list) result option" where
  "pages_next E wk w =
     (if wk_done wk then (w, wk, None)
      else (case pull_page (fl_pull (re_libs E)) (re_send E) (re_client E) (f_prefix (re_filters E)) (wk_after wk) w of
        (w', Inl e) \<Rightarrow> (w', wk\<lparr>wk_done := True\<rparr>, Some (Err (SyncPull e)))
      | (w', Inr p) \<Rightarrow>
          if l_keys p \<noteq> [] \<and> wk_after wk < last (l_keys p)
          then (let keys = takeWhile (\<lambda>k. \<not> days_past (f_days (re_filters E)) k) (l_keys p) in
                (w', \<lparr>wk_after = last (l_keys p),
                      wk_done = (\<not> l_truncated p \<or> length keys < length (l_keys p))\<rparr>,
                 if keys = [] then None else Some (Ok keys)))
          else if l_keys p = [] \<and> \<not> l_truncated p then (w', wk\<lparr>wk_done := True\<rparr>, None)
          else (w', \<lparr>wk_after = [], wk_done = True\<rparr>, Some (Err (Stuck (wk_after wk))))))"

fun sync_pages :: "nat \<Rightarrow> 'w run_env \<Rightarrow> pages \<Rightarrow> 'w sync_state \<Rightarrow> ('w sync_state \<times> (sync_error, unit) result) option" where
  "sync_pages 0 E wk s = None"
| "sync_pages (Suc fuel) E wk s =
     (case pages_next E wk (sy_net s) of
        (w, wk', None) \<Rightarrow> Some (s\<lparr>sy_net := w\<rparr>, Ok ())
      | (w, wk', Some (Inl e)) \<Rightarrow> Some (s\<lparr>sy_net := w\<rparr>, Err e)
      | (w, wk', Some (Inr keys)) \<Rightarrow>
          (case sync_keys E keys (s\<lparr>sy_net := w\<rparr>) of
             (s', Inl e) \<Rightarrow> Some (s', Err e)
           | (s', Inr _) \<Rightarrow> sync_pages fuel E wk' s'))"

text \<open>A run: what it leaves of the network and the disk, what it handed on, and its report.\<close>

record 'w run_end =
  en_net :: 'w
  en_disk :: disk
  en_landed :: "string list"
  en_result :: "(sync_error, report) result"

definition stopped :: "'w \<Rightarrow> disk \<Rightarrow> sync_error \<Rightarrow> 'w run_end" where
  "stopped w d e = \<lparr>en_net = w, en_disk = d, en_landed = [], en_result = Err e\<rparr>"

definition ended :: "'w sync_state \<times> (sync_error, unit) result \<Rightarrow> 'w run_end" where
  "ended sr =
     (case sr of (s, r) \<Rightarrow>
       \<lparr>en_net = sy_net s, en_disk = sy_disk s, en_landed = sy_landed s,
        en_result = and_then r (\<lambda>_. Ok ((sy_report s)\<lparr>rp_unverified := cu_unverified (sy_cursor s)\<rparr>))\<rparr>)"

definition run :: "nat \<Rightarrow> 'w run_env \<Rightarrow> 'w \<Rightarrow> disk \<Rightarrow> 'w run_end option" where
  "run fuel E w d =
     (case claim (re_libs E) (ds_into (re_dest E)) (re_ver E) d of
        (d1, Inl e) \<Rightarrow> Some (stopped w d1 (SyncProvenance e))
      | (d1, Inr _) \<Rightarrow>
          (case cursor_read (re_libs E) (ds_state (re_dest E)) (re_filters E) (re_ver E) d1 of
             (d2, Inl e) \<Rightarrow> Some (stopped w d2 (SyncCursor e))
           | (d2, Inr c) \<Rightarrow>
               map_option ended
                 (sync_pages fuel E \<lparr>wk_after = days_after (f_days (re_filters E)) (cu_after c), wk_done = False\<rparr>
                   \<lparr>sy_net = w, sy_disk = d2, sy_cursor = c, sy_report = new_report, sy_landed = []\<rparr>)))"

definition forget_unverified :: "'w run_env \<Rightarrow> disk \<Rightarrow> disk \<times> (sync_error, nat) result" where
  "forget_unverified E d =
     (case claim (re_libs E) (ds_into (re_dest E)) (re_ver E) d of
        (d1, Inl e) \<Rightarrow> (d1, Err (SyncProvenance e))
      | (d1, Inr _) \<Rightarrow>
          (case cursor_read (re_libs E) (ds_state (re_dest E)) (re_filters E) (re_ver E) d1 of
             (d2, Inl e) \<Rightarrow> (d2, Err (SyncCursor e))
           | (d2, Inr c) \<Rightarrow>
               (case cursor_forget (re_libs E) (ds_state (re_dest E)) c d2 of
                  (_, d3, r) \<Rightarrow> (d3, map_err SyncCursor r))))"

section \<open>Listing alone\<close>

definition list_key :: "'w run_env \<Rightarrow> string \<Rightarrow> report \<times> string list \<Rightarrow> report \<times> string list" where
  "list_key E key acc =
     (case acc of (r, found) \<Rightarrow>
       (case selects (pl_key (fl_pull (re_libs E))) (f_selection (re_filters E)) key of
          SelYes \<Rightarrow> (r\<lparr>rp_objects := rp_objects r + 1\<rparr>, found @ [key])
        | SelNo \<Rightarrow> (r\<lparr>rp_passed := rp_passed r + 1\<rparr>, found)
        | SelUnnameable \<Rightarrow> (r\<lparr>rp_unnameable := rp_unnameable r + 1\<rparr>, found)))"

fun list_pages ::
  "nat \<Rightarrow> 'w run_env \<Rightarrow> pages \<Rightarrow> 'w \<Rightarrow> report \<times> string list \<Rightarrow> ('w \<times> string list \<times> (sync_error, report) result) option" where
  "list_pages 0 E wk w acc = None"
| "list_pages (Suc fuel) E wk w acc =
     (case pages_next E wk w of
        (w', wk', None) \<Rightarrow> Some (w', snd acc, Ok (fst acc))
      | (w', wk', Some (Inl e)) \<Rightarrow> Some (w', snd acc, Err e)
      | (w', wk', Some (Inr keys)) \<Rightarrow> list_pages fuel E wk' w' (fold (list_key E) keys acc))"

definition list_run :: "nat \<Rightarrow> 'w run_env \<Rightarrow> 'w \<Rightarrow> ('w \<times> string list \<times> (sync_error, report) result) option" where
  "list_run fuel E w =
     list_pages fuel E \<lparr>wk_after = days_after (f_days (re_filters E)) [], wk_done = False\<rparr> w (new_report, [])"

end
