(* ===== verification/Sync_Walk.thy ===== *)
theory Sync_Walk
  imports Sync
begin

text \<open>
  The walk of \<open>sync.rs\<close> against an archive that stands still behind a network that may fail at any
  request (\<open>steady_archive\<close>): its pages, put together, are exactly the keys past the cursor up to the last
  day, in order, however the server cuts them, and it ends.
\<close>

section \<open>Keys dealt with one after another\<close>

definition keys_past :: "'w run_env \<Rightarrow> string list \<Rightarrow> string \<Rightarrow> string list" where
  "keys_past E ks aft = takeWhile (\<lambda>k. \<not> days_past (f_days (re_filters E)) k) (filter (\<lambda>k. aft < k) ks)"

text \<open>Every key of the list dealt with, whatever the network did in between.\<close>

inductive passes :: "'w run_env \<Rightarrow> string list \<Rightarrow> 'w sync_state \<Rightarrow> 'w sync_state \<Rightarrow> bool" for E where
  nothing: "passes E [] s (s\<lparr>sy_net := w\<rparr>)"
| key: "sync_key E k (s\<lparr>sy_net := w\<rparr>) = (s1, Ok ()) \<Longrightarrow> passes E ks s1 s2 \<Longrightarrow> passes E (k # ks) s s2"

inductive_simps passes_Nil: "passes E [] s s'"
inductive_simps passes_Cons: "passes E (k # ks) s s'"

lemma passes_refl [simp, intro]: "passes E [] s s"
  using passes.nothing [of E s "sy_net s"] by simp

lemma passes_net: "passes E ks (s\<lparr>sy_net := w\<rparr>) s' \<longleftrightarrow> passes E ks s s'"
  by (cases ks) (auto simp: passes_Nil passes_Cons)

lemma passes_append: "passes E (xs @ ys) s s' \<longleftrightarrow> (\<exists>s1. passes E xs s s1 \<and> passes E ys s1 s')"
proof (induction xs arbitrary: s)
  case Nil
  then show ?case by (auto simp: passes_Nil passes_net)
next
  case (Cons x xs)
  then show ?case by (auto simp: passes_Cons)
qed

text \<open>A key at which a run stops, after the ones before it.\<close>

definition breaks :: "'w run_env \<Rightarrow> string list \<Rightarrow> 'w sync_state \<Rightarrow> 'w sync_state \<Rightarrow> bool" where
  "breaks E ks s s' \<longleftrightarrow> (\<exists>pre post s1 w. ks = pre @ post \<and> passes E pre s s1
     \<and> (s' = s1\<lparr>sy_net := w\<rparr> \<or> (\<exists>k rest e. post = k # rest \<and> sync_key E k (s1\<lparr>sy_net := w\<rparr>) = (s', Err e))))"

lemma breaks_now: "breaks E ks s (s\<lparr>sy_net := w\<rparr>)"
  unfolding breaks_def by (rule exI [of _ "[]"]) auto

lemma breaks_later: "passes E xs s s1 \<Longrightarrow> breaks E ys s1 s' \<Longrightarrow> breaks E (xs @ ys) s s'"
proof -
  assume xs: "passes E xs s s1" and "breaks E ys s1 s'"
  then obtain pre post s2 w where ys: "ys = pre @ post" "passes E pre s1 s2"
      "s' = s2\<lparr>sy_net := w\<rparr> \<or> (\<exists>k rest e. post = k # rest \<and> sync_key E k (s2\<lparr>sy_net := w\<rparr>) = (s', Err e))"
    unfolding breaks_def by blast
  with xs have "xs @ ys = (xs @ pre) @ post" "passes E (xs @ pre) s s2" by (auto simp: passes_append)
  with ys(3) show "breaks E (xs @ ys) s s'" unfolding breaks_def by blast
qed

lemma breaks_append: "breaks E xs s s' \<Longrightarrow> breaks E (xs @ ys) s s'"
proof -
  assume "breaks E xs s s'"
  then obtain pre post s2 w where xs: "xs = pre @ post" "passes E pre s s2"
      "s' = s2\<lparr>sy_net := w\<rparr> \<or> (\<exists>k rest e. post = k # rest \<and> sync_key E k (s2\<lparr>sy_net := w\<rparr>) = (s', Err e))"
    unfolding breaks_def by blast
  then have "xs @ ys = pre @ (post @ ys)"
    "s' = s2\<lparr>sy_net := w\<rparr> \<or> (\<exists>k rest e. post @ ys = k # rest \<and> sync_key E k (s2\<lparr>sy_net := w\<rparr>) = (s', Err e))"
    by auto
  with xs(2) show "breaks E (xs @ ys) s s'" unfolding breaks_def by blast
qed

lemma sync_keys_passes:
  "sync_keys E ks s = (s', r) \<Longrightarrow> (case r of Inr _ \<Rightarrow> passes E ks s s' | Inl e \<Rightarrow> breaks E ks s s')"
proof (induction ks arbitrary: s)
  case (Cons k ks)
  obtain s1 r1 where k: "sync_key E k s = (s1, r1)" by fastforce
  then have k': "sync_key E k (s\<lparr>sy_net := sy_net s\<rparr>) = (s1, r1)" by simp
  show ?case
  proof (cases r1)
    case (Inl e)
    with Cons.prems k have "s' = s1" "r = Err e" by auto
    moreover from k' Inl have "breaks E (k # ks) s s1"
      unfolding breaks_def by (intro exI [of _ "[]"] exI [of _ "k # ks"]) blast
    ultimately show ?thesis by simp
  next
    case (Inr u)
    with Cons.prems k have rest: "sync_keys E ks s1 = (s', r)" by simp
    from k' Inr have "passes E [k] s s1" using passes.key [of E k "sy_net s" s s1 "[]" s1] by simp
    with Cons.IH [OF rest] breaks_later [of E "[k]" s s1 ks s'] show ?thesis
      using passes.key [of E k "sy_net s" s s1 ks s'] k Inr by (cases r) auto
  qed
qed auto

section \<open>A steady archive\<close>

locale steady_archive =
  fixes serves :: "'w run_env \<Rightarrow> string list \<Rightarrow> nat \<Rightarrow> (string \<Rightarrow> (pull_error, object) result) \<Rightarrow> bool"
  assumes listed: "serves E ks n obj \<Longrightarrow> sorted_wrt (<) ks \<and> list_all valid_utf8 ks \<and> 0 < n"
    and pages: "serves E ks n obj \<Longrightarrow> valid_utf8 aft
      \<Longrightarrow> pull_page (fl_pull (re_libs E)) (re_send E) (re_client E) (f_prefix (re_filters E)) aft w = (w', r)
      \<Longrightarrow> r = Ok \<lparr>l_keys = take n (filter (\<lambda>k. aft < k) ks), l_truncated = (n < length (filter (\<lambda>k. aft < k) ks))\<rparr>
        \<or> (\<exists>e. r = Err e)"
    and objects: "serves E ks n obj \<Longrightarrow> k \<in> set ks
      \<Longrightarrow> pull_object (fl_pull (re_libs E)) (re_send E) (re_client E) k (vf_max_object_bytes (re_ver E)) w = (w', q)
      \<Longrightarrow> q = obj k \<or> (\<exists>e. q = Err e \<and> (is_one_objects_problem e \<longrightarrow> (\<exists>e'. obj k = Err e')))"
begin

text \<open>What one page hands out, and where the walk stands after it.\<close>

lemma one_page:
  assumes "serves E ks n obj" and "valid_utf8 aft"
    and "pages_next E \<lparr>wk_after = aft, wk_done = False\<rparr> w = (w', wk', r)"
  shows "(\<exists>e. r = Some (Err e))
    \<or> (r = None \<and> keys_past E ks aft = [])
    \<or> (\<exists>p. r = Some (Ok p) \<and> p \<noteq> [] \<and> wk_done wk' \<and> keys_past E ks aft = p)
    \<or> (\<exists>p. r = Some (Ok p) \<and> p \<noteq> [] \<and> \<not> wk_done wk' \<and> valid_utf8 (wk_after wk')
         \<and> keys_past E ks aft = p @ keys_past E ks (wk_after wk')
         \<and> length (filter (\<lambda>k. wk_after wk' < k) ks) < length (filter (\<lambda>k. aft < k) ks))"
proof -
  let ?P = "\<lambda>k. \<not> days_past (f_days (re_filters E)) k"
  let ?m = "filter (\<lambda>k. aft < k) ks"
  let ?p = "take n ?m"
  from listed [OF assms(1)] have ks: "sorted_wrt (<) ks" "list_all valid_utf8 ks" "0 < n" by auto
  then have m: "sorted_wrt (<) ?m" by (simp add: sorted_wrt_filter)
  obtain w1 r1 where page: "pull_page (fl_pull (re_libs E)) (re_send E) (re_client E) (f_prefix (re_filters E)) aft w = (w1, r1)"
    by fastforce
  show ?thesis
  proof (cases r1)
    case (Inl e)
    with page assms(3) show ?thesis by (auto simp: pages_next_def)
  next
    case (Inr l)
    with pages [OF assms(1,2) page] have l: "l_keys l = ?p" "l_truncated l = (n < length ?m)" by auto
    show ?thesis
    proof (cases "?m = []")
      case True
      with page Inr l assms(3) show ?thesis by (auto simp: pages_next_def keys_past_def)
    next
      case False
      with ks(3) have p: "?p \<noteq> []" by simp
      have in_m: "last ?p \<in> set ?m" using p by (meson in_set_takeD last_in_set)
      then have last: "aft < last ?p" "last ?p \<in> set ks" by auto
      let ?keys = "takeWhile ?P ?p"
      let ?wk = "\<lparr>wk_after = last ?p, wk_done = (\<not> n < length ?m \<or> length ?keys < length ?p)\<rparr>"
      from page Inr l p last(1) assms(3)
      have r: "wk' = ?wk" "r = (if ?keys = [] then None else Some (Ok ?keys))"
        by (auto simp: pages_next_def Let_def)
      have flag: "wk_done wk' \<longleftrightarrow> \<not> n < length ?m \<or> length ?keys < length ?p"
        unfolding r(1) by (rule pages.select_convs(2))
      show ?thesis
      proof (cases "wk_done wk'")
        case True
        have "keys_past E ks aft = ?keys"
        proof (cases "length ?keys < length ?p")
          case True
          then have "\<exists>x \<in> set ?p. \<not> ?P x"
            by (metis less_irrefl takeWhile_eq_all_conv)
          then obtain x where "x \<in> set ?p" "\<not> ?P x" by blast
          from takeWhile_append1 [of x ?p ?P "drop n ?m", OF this] show ?thesis
            by (simp add: keys_past_def)
        next
          case False
          with \<open>wk_done wk'\<close> flag have "\<not> n < length ?m" by blast
          then have "?p = ?m" by simp
          then show ?thesis by (simp add: keys_past_def)
        qed
        with r True show ?thesis by auto
      next
        case False
        with flag have n: "n < length ?m" and "length ?p \<le> length ?keys" by auto
        then have all: "?keys = ?p" by (metis takeWhile_eq_take take_all)
        have "filter (\<lambda>k. last ?p < k) ks = filter (\<lambda>k. last ?p < k) ?m"
          using last(1) by (auto simp: filter_filter intro!: filter_cong)
        also have "\<dots> = drop n ?m" using filter_after_take [OF m ks(3)] n by simp
        finally have rest: "filter (\<lambda>k. last ?p < k) ks = drop n ?m" .
        have "keys_past E ks aft = ?p @ keys_past E ks (last ?p)"
        proof -
          have "takeWhile ?P (?p @ drop n ?m) = ?p @ takeWhile ?P (drop n ?m)"
            using all by (intro takeWhile_append2) (metis takeWhile_eq_all_conv)
          then show ?thesis by (simp add: keys_past_def rest)
        qed
        moreover have "valid_utf8 (last ?p)" using last(2) ks(2) by (auto simp: list_all_iff)
        moreover have "length (drop n ?m) < length ?m" using ks(3) n by simp
        moreover have "r = Some (Ok ?p)" using r(2) p unfolding all by simp
        moreover have "wk_after wk' = last ?p" unfolding r(1) by (rule pages.select_convs(1))
        ultimately show ?thesis using p False rest by metis
      qed
    qed
  qed
qed

text \<open>The pages one after another are the keys past the cursor, and the walk over them ends.\<close>

lemma walk:
  assumes "serves E ks n obj"
  shows "valid_utf8 aft \<Longrightarrow> length (filter (\<lambda>k. aft < k) ks) < fuel
    \<Longrightarrow> \<exists>s' r. sync_pages fuel E \<lparr>wk_after = aft, wk_done = False\<rparr> s = Some (s', r)
       \<and> (case r of Inr _ \<Rightarrow> passes E (keys_past E ks aft) s s' | Inl _ \<Rightarrow> breaks E (keys_past E ks aft) s s')"
proof (induction fuel arbitrary: aft s)
  case (Suc fuel)
  obtain w wk r where page: "pages_next E \<lparr>wk_after = aft, wk_done = False\<rparr> (sy_net s) = (w, wk, r)"
    by (metis prod_cases3)
  let ?all = "keys_past E ks aft"
  from one_page [OF assms Suc.prems(1) page] consider
      (err) e where "r = Some (Err e)" | (none) "r = None" "?all = []"
    | (final) p where "r = Some (Ok p)" "p \<noteq> []" "wk_done wk" "?all = p"
    | (more) p where "r = Some (Ok p)" "p \<noteq> []" "\<not> wk_done wk" "valid_utf8 (wk_after wk)"
        "?all = p @ keys_past E ks (wk_after wk)"
        "length (filter (\<lambda>k. wk_after wk < k) ks) < length (filter (\<lambda>k. aft < k) ks)"
    by blast
  then show ?case
  proof cases
    case err
    with page show ?thesis using breaks_now by fastforce
  next
    case none
    with page show ?thesis by (auto simp: passes_Nil)
  next
    case final
    obtain s1 r1 where s1: "sync_keys E p (s\<lparr>sy_net := w\<rparr>) = (s1, r1)" by fastforce
    from Suc.prems(2) final(2,4) have "filter (\<lambda>k. aft < k) ks \<noteq> []" by (auto simp: keys_past_def)
    with Suc.prems(2) obtain fuel' where fuel: "fuel = Suc fuel'" by (cases fuel) auto
    have done_now: "pages_next E wk (sy_net s1) = (sy_net s1, wk, None)" using final(3) by (simp add: pages_next_def)
    from sync_keys_passes [OF s1] page final s1 fuel done_now show ?thesis
      by (cases r1) (auto simp: passes_net breaks_def)
  next
    case more
    obtain s1 r1 where s1: "sync_keys E p (s\<lparr>sy_net := w\<rparr>) = (s1, r1)" by fastforce
    show ?thesis
    proof (cases r1)
      case (Inl e)
      with sync_keys_passes [OF s1] have "breaks E p s s1" by (auto simp: passes_net breaks_def)
      with breaks_append page more(1,5) s1 Inl show ?thesis by fastforce
    next
      case (Inr u)
      with sync_keys_passes [OF s1] have p: "passes E p s s1" by (simp add: passes_net)
      have wk: "wk = \<lparr>wk_after = wk_after wk, wk_done = False\<rparr>" using more(3) by simp
      from Suc.IH [OF more(4), of s1] more(6) Suc.prems(2) obtain s' r' where
        rest: "sync_pages fuel E wk s1 = Some (s', r')"
          "case r' of Inr _ \<Rightarrow> passes E (keys_past E ks (wk_after wk)) s1 s'
            | Inl _ \<Rightarrow> breaks E (keys_past E ks (wk_after wk)) s1 s'"
        using wk by (metis Suc_lessD less_trans_Suc not_less_eq)
      with page more(1) s1 Inr have "sync_pages (Suc fuel) E \<lparr>wk_after = aft, wk_done = False\<rparr> s = Some (s', r')"
        by simp
      with rest(2) p more(5) show ?thesis
        by (cases r') (auto simp: passes_append intro: breaks_later)
    qed
  qed
qed simp

end

end
