(* ===== verification/Sync_Laws.thy ===== *)
theory Sync_Laws
  imports Sync_Walk
begin

text \<open>
  What a sync leaves on the disk, over any number of runs of which each may break off at any request or
  any write. \<open>standing\<close> is the invariant: the keys of the run are cut in two by the cursor in the state
  file, those before it are settled, and an object behind it is at most already there.
\<close>

section \<open>Where objects land\<close>

text \<open>A key that names an object names a file of three plain components under the download directory.\<close>

lemma nameable_pieces:
  assumes "object_name_parse K key = Ok n"
  shows "\<exists>day stem. split_on (CHR ''/'') key = [''v1'', day, stem @ KEY_SUFFIX] \<and> day \<noteq> [] \<and> CHR ''-'' \<in> set day"
proof -
  from assms obtain day stem where pieces: "split_on (CHR ''/'') key = [''v1'', day, stem @ KEY_SUFFIX]"
    and key: "to_key K n = key"
    by (auto simp: object_name_parse_def and_then_Ok_iff key_stem_def strip_suffix_iff split: list.splits if_splits)
  let ?rest = "uuid_text K (on_id n) @ ''-'' @ to_bech32 (kl_bech32 K) (on_pool n) @ ''-'' @ on_agent n
     @ ''-'' @ kind_as_str (on_kind n) @ KEY_SUFFIX"
  have "key = ''v1'' @ CHR ''/'' # date_folder (object_date K n) @ CHR ''/'' # ?rest"
    using key by (simp add: to_key_def KEY_PREFIX_def)
  then have "split_on (CHR ''/'') key = ''v1'' # date_folder (object_date K n) # split_on (CHR ''/'') ?rest"
    using date_folder_no_slash
    by (simp only:) (subst split_on_append, simp, subst split_on_append, auto)
  with pieces have "day = date_folder (object_date K n)" by simp
  then have "CHR ''-'' \<in> set day" by (auto simp: date_folder_def split: prod.splits)
  with pieces show ?thesis by auto
qed

definition key_path :: "'w run_env \<Rightarrow> string \<Rightarrow> path" where
  "key_path E key = ds_into (re_dest E) @ split_on (CHR ''/'') key"

lemma suffix_last: "last (stem @ KEY_SUFFIX) = CHR ''t''" "stem @ KEY_SUFFIX \<noteq> []"
  by (simp_all add: KEY_SUFFIX_def)

lemma destination_nameable:
  assumes "object_name_parse K key = Ok n"
  shows "destination_of (ds_into (re_dest E)) key = Some (key_path E key)"
proof -
  from nameable_pieces [OF assms] obtain day stem where
    p: "split_on (CHR ''/'') key = [''v1'', day, stem @ KEY_SUFFIX]" "day \<noteq> []" "CHR ''-'' \<in> set day" by blast
  have "key = join_with (CHR ''/'') (split_on (CHR ''/'') key)" by simp
  then have "key = ''v1'' @ CHR ''/'' # day @ CHR ''/'' # stem @ KEY_SUFFIX" by (simp add: p(1))
  then have "\<not> starts_with ''/'' key" by (simp add: starts_with_def)
  moreover have "stem @ KEY_SUFFIX \<notin> {[], ''.'', ''..''}" by (auto simp: KEY_SUFFIX_def append_eq_Cons_conv)
  moreover have "day \<notin> {[], ''.'', ''..''}" using p(2,3) by auto
  ultimately have "components key = [Normal ''v1'', Normal day, Normal (stem @ KEY_SUFFIX)]"
    by (auto simp: components_def p(1) enumerate_simps)
  then show ?thesis by (simp add: destination_of_def key_path_def p(1) List.map_filter_simps)
qed

text \<open>No object's file is another's, nor another's staging file.\<close>

lemma key_path_inj: "key_path E k = key_path E k' \<longleftrightarrow> k = k'"
  by (metis key_path_def same_append_eq join_split)

lemma staging_key_path:
  assumes "object_name_parse K k = Ok n"
  shows "\<exists>st. staging (key_path E k) = Some st \<and> take (length (ds_into (re_dest E))) st = ds_into (re_dest E)
    \<and> length st = length (ds_into (re_dest E)) + 3 \<and> last (last st) = CHR ''d''"
proof -
  from nameable_pieces [OF assms] obtain day stem where
    p: "split_on (CHR ''/'') k = [''v1'', day, stem @ KEY_SUFFIX]" by blast
  then show ?thesis by (simp add: staging_def key_path_def butlast_append)
qed

lemma staging_apart:
  assumes "object_name_parse K k = Ok n" "object_name_parse K k' = Ok n'" and "staging (key_path E k) = Some st"
  shows "st \<noteq> key_path E k'"
proof -
  from nameable_pieces [OF assms(2)] obtain day stem where
    p: "split_on (CHR ''/'') k' = [''v1'', day, stem @ KEY_SUFFIX]" by blast
  then have "last (last (key_path E k')) = CHR ''t''" by (simp add: key_path_def KEY_SUFFIX_def)
  with staging_key_path [OF assms(1), of E] assms(3) show ?thesis by auto
qed

section \<open>The invariant\<close>

abbreviation key_selected :: "'w run_env \<Rightarrow> string \<Rightarrow> bool" where
  "key_selected E k \<equiv> selects (pl_key (fl_pull (re_libs E))) (f_selection (re_filters E)) k = SelYes"

text \<open>What the archive's answer for a key comes to: the bytes that land, or a verdict against them.\<close>

definition lands :: "'w run_env \<Rightarrow> (string \<Rightarrow> (pull_error, object) result) \<Rightarrow> string \<Rightarrow> bytes option" where
  "lands E obj k =
     (if key_selected E k then
        (case obj k of
           Inl _ \<Rightarrow> None
         | Inr ob \<Rightarrow> (case checked (re_libs E) k ob (vf_insist (re_ver E)) of Inr _ \<Rightarrow> Some (ob_bytes ob) | Inl _ \<Rightarrow> None))
      else None)"

definition doubted :: "'w run_env \<Rightarrow> (string \<Rightarrow> (pull_error, object) result) \<Rightarrow> string \<Rightarrow> bool" where
  "doubted E obj k \<longleftrightarrow> key_selected E k
     \<and> (\<exists>ob reason. obj k = Ok ob \<and> checked (re_libs E) k ob (vf_insist (re_ver E)) = Err (UncheckedRejected reason Verdict))"

text \<open>The cursor behind the keys \<open>pre\<close>.\<close>

definition cursor_behind :: "'w run_env \<Rightarrow> (string \<Rightarrow> (pull_error, object) result) \<Rightarrow> string list \<Rightarrow> cursor" where
  "cursor_behind E obj pre =
     (fresh_cursor (re_filters E) (re_ver E))
       \<lparr>cu_after := (if pre = [] then [] else last pre), cu_unverified := filter (doubted E obj) pre\<rparr>"

type_synonym files = "path \<Rightarrow> bytes option"

definition settled :: "'w run_env \<Rightarrow> (string \<Rightarrow> (pull_error, object) result) \<Rightarrow> files \<Rightarrow> files \<Rightarrow> string \<Rightarrow> bool" where
  "settled E obj f0 f k \<longleftrightarrow> (key_selected E k \<longrightarrow>
     f (key_path E k) = (case lands E obj k of Some b \<Rightarrow> Some b | None \<Rightarrow> f0 (key_path E k)))"

definition pending :: "'w run_env \<Rightarrow> (string \<Rightarrow> (pull_error, object) result) \<Rightarrow> files \<Rightarrow> files \<Rightarrow> string \<Rightarrow> bool" where
  "pending E obj f0 f k \<longleftrightarrow> (key_selected E k \<longrightarrow>
     f (key_path E k) = f0 (key_path E k) \<or> (\<exists>b. lands E obj k = Some b \<and> f (key_path E k) = Some b))"

definition standing ::
  "'w run_env \<Rightarrow> (string \<Rightarrow> (pull_error, object) result) \<Rightarrow> files \<Rightarrow> string list \<Rightarrow> string list \<Rightarrow> files \<Rightarrow> bool" where
  "standing E obj f0 pre post f \<longleftrightarrow>
     (f (ds_state (re_dest E)) = Some (cursor_to_vec (re_libs E) (cursor_behind E obj pre))
        \<or> pre = [] \<and> f (ds_state (re_dest E)) = None)
     \<and> (\<forall>k \<in> set pre. settled E obj f0 f k) \<and> (\<forall>k \<in> set post. pending E obj f0 f k)"

text \<open>The state file is outside the download directory, and so is its staging file.\<close>

definition outside :: "'w run_env \<Rightarrow> path \<Rightarrow> bool" where
  "outside E p \<longleftrightarrow> take (length (ds_into (re_dest E))) p \<noteq> ds_into (re_dest E)"

definition state_apart :: "'w run_env \<Rightarrow> bool" where
  "state_apart E \<longleftrightarrow> outside E (ds_state (re_dest E))
     \<and> (\<exists>st. staging (ds_state (re_dest E)) = Some st \<and> st \<noteq> ds_state (re_dest E) \<and> outside E st)"

text \<open>What \<open>serde_json\<close> writes of a run's own records it reads back.\<close>

definition codecs_ok :: "'w run_env \<Rightarrow> bool" where
  "codecs_ok E \<longleftrightarrow>
     (\<forall>aft u. let c = (fresh_cursor (re_filters E) (re_ver E))\<lparr>cu_after := aft, cu_unverified := u\<rparr>; b = cursor_to_vec (re_libs E) c
        in valid_utf8 b \<and> cursor_from_str (re_libs E) b = Ok c)
     \<and> (let v = verified_of (re_ver E); b = verified_to_vec (re_libs E) v
        in valid_utf8 b \<and> verified_from_str (re_libs E) b = Ok v)"

lemma key_path_inside: "take (length (ds_into (re_dest E))) (key_path E k) = ds_into (re_dest E)"
  by (simp add: key_path_def)

lemma selected_nameable:
  "key_selected E k \<Longrightarrow> \<exists>n. object_name_parse (pl_key (fl_pull (re_libs E))) k = Ok n"
  by (auto simp: selects_Yes)

text \<open>A write of the state file leaves the objects alone, and a write of an object everything else.\<close>

lemma state_write:
  assumes "state_apart E" and "replacing (ds_state (re_dest E)) b d = (d', r)"
  shows "dk_files d' (key_path E k) = dk_files d (key_path E k)"
    and "dk_files d' (ds_state (re_dest E)) = dk_files d (ds_state (re_dest E)) \<or> dk_files d' (ds_state (re_dest E)) = Some b"
    and "r = Ok () \<Longrightarrow> dk_files d' (ds_state (re_dest E)) = Some b"
proof -
  from assms(1) obtain st where st: "staging (ds_state (re_dest E)) = Some st" "st \<noteq> ds_state (re_dest E)"
      "outside E st" "outside E (ds_state (re_dest E))"
    by (auto simp: state_apart_def)
  then have "key_path E k \<noteq> ds_state (re_dest E)" "key_path E k \<noteq> st"
    using key_path_inside [of E k] by (auto simp: outside_def)
  with replacing_files [OF assms(2) st(1)] st(2)
  show "dk_files d' (key_path E k) = dk_files d (key_path E k)"
    "dk_files d' (ds_state (re_dest E)) = dk_files d (ds_state (re_dest E)) \<or> dk_files d' (ds_state (re_dest E)) = Some b"
    "r = Ok () \<Longrightarrow> dk_files d' (ds_state (re_dest E)) = Some b"
    by blast+
qed

lemma object_write:
  assumes "state_apart E" and "key_selected E k" and "replacing (key_path E k) b d = (d', r)"
  shows "key_selected E k' \<Longrightarrow> k' \<noteq> k \<Longrightarrow> dk_files d' (key_path E k') = dk_files d (key_path E k')"
    and "dk_files d' (ds_state (re_dest E)) = dk_files d (ds_state (re_dest E))"
    and "dk_files d' (key_path E k) = dk_files d (key_path E k) \<or> dk_files d' (key_path E k) = Some b"
    and "r = Ok () \<Longrightarrow> dk_files d' (key_path E k) = Some b"
proof -
  from selected_nameable [OF assms(2)] obtain n where n: "object_name_parse (pl_key (fl_pull (re_libs E))) k = Ok n" ..
  from staging_key_path [OF n, of E] obtain st where st: "staging (key_path E k) = Some st"
      "take (length (ds_into (re_dest E))) st = ds_into (re_dest E)" by blast
  have apart: "st \<noteq> key_path E k'" if k': "key_selected E k'" for k'
  proof -
    from selected_nameable [OF k'] obtain n' where "object_name_parse (pl_key (fl_pull (re_libs E))) k' = Ok n'" ..
    from staging_apart [OF n this st(1)] show ?thesis .
  qed
  from assms(1) have "ds_state (re_dest E) \<noteq> st" "ds_state (re_dest E) \<noteq> key_path E k"
    using st(2) key_path_inside [of E k] by (auto simp: state_apart_def outside_def)
  with replacing_files [OF assms(3) st(1)] apart [OF assms(2)] apart key_path_inj [of E]
  show "key_selected E k' \<Longrightarrow> k' \<noteq> k \<Longrightarrow> dk_files d' (key_path E k') = dk_files d (key_path E k')"
    "dk_files d' (ds_state (re_dest E)) = dk_files d (ds_state (re_dest E))"
    "dk_files d' (key_path E k) = dk_files d (key_path E k) \<or> dk_files d' (key_path E k) = Some b"
    "r = Ok () \<Longrightarrow> dk_files d' (key_path E k) = Some b"
    by metis+
qed

text \<open>The record of a verdict against a key past every key recorded so far goes at the end.\<close>

lemma insort_insert_last: "\<forall>x \<in> set xs. x < (k :: 'a :: linorder) \<Longrightarrow> insort_insert k xs = xs @ [k]"
proof -
  assume less: "\<forall>x \<in> set xs. x < k"
  then have "insort k xs = xs @ [k]" by (induction xs) auto
  with less show ?thesis by (auto simp: insort_insert_key_def)
qed

lemma pass_key_standing:
  assumes apart: "state_apart E" and stand: "standing E obj f0 pre (k # post) (dk_files (sy_disk s))"
    and settled_k: "settled E obj f0 (dk_files (sy_disk s)) k"
    and cursor: "sy_cursor s = cursor_behind E obj pre" and order: "\<forall>x \<in> set pre. x < k"
    and verdict: "verdict \<longleftrightarrow> doubted E obj k"
    and passed: "pass_key E verdict k s = (s', r)"
  shows "r = Ok () \<Longrightarrow> standing E obj f0 (pre @ [k]) post (dk_files (sy_disk s'))
      \<and> sy_cursor s' = cursor_behind E obj (pre @ [k])"
    and "standing E obj f0 pre (k # post) (dk_files (sy_disk s')) \<or> standing E obj f0 (pre @ [k]) post (dk_files (sy_disk s'))"
proof -
  let ?c = "cursor_behind E obj (pre @ [k])"
  have "insort_insert k (filter (doubted E obj) pre) = filter (doubted E obj) pre @ [k]"
    by (rule insort_insert_last) (use order in auto)
  then have c: "(if verdict then advance_unverified else advance) L p k (cursor_behind E obj pre) d
      = (?c, cursor_write L p ?c d)" for L p d
    by (simp add: advance_unverified_def advance_def Let_def cursor_behind_def fresh_cursor_def verdict)
  obtain d r1 where w: "replacing (ds_state (re_dest E)) (cursor_to_vec (re_libs E) ?c) (sy_disk s) = (d, r1)"
    by fastforce
  have s': "sy_disk s' = d" "sy_cursor s' = ?c" "r = Ok () \<longleftrightarrow> r1 = Ok ()"
    using passed w by (auto simp: pass_key_def cursor c cursor_write_def map_err_def split: sum.splits)
  note wrote = state_write [OF apart w]
  have same: "settled E obj f0 (dk_files d) x \<longleftrightarrow> settled E obj f0 (dk_files (sy_disk s)) x"
    "pending E obj f0 (dk_files d) x \<longleftrightarrow> pending E obj f0 (dk_files (sy_disk s)) x" for x
    by (simp_all add: settled_def pending_def wrote(1))
  have objects: "\<forall>x \<in> set (pre @ [k]). settled E obj f0 (dk_files d) x" "\<forall>x \<in> set (k # post). pending E obj f0 (dk_files d) x"
    using stand settled_k by (auto simp: standing_def same)
  show "standing E obj f0 (pre @ [k]) post (dk_files (sy_disk s')) \<and> sy_cursor s' = ?c" if "r = Ok ()"
    using wrote(3) that s' objects by (simp add: standing_def)
  show "standing E obj f0 pre (k # post) (dk_files (sy_disk s')) \<or> standing E obj f0 (pre @ [k]) post (dk_files (sy_disk s'))"
    using wrote(2) s' objects stand by (auto simp: standing_def)
qed

text \<open>The keys a resumed run walks are the ones its cursor is not yet behind.\<close>

definition run_keys :: "'w run_env \<Rightarrow> string list \<Rightarrow> string list" where
  "run_keys E all = keys_past E all (days_after (f_days (re_filters E)) [])"

context steady_archive
begin

lemma sync_key_standing:
  assumes serves: "serves E all n obj" and apart: "state_apart E" and k: "k \<in> set all"
    and stand: "standing E obj f0 pre (k # post) (dk_files (sy_disk s))"
    and cursor: "sy_cursor s = cursor_behind E obj pre" and order: "\<forall>x \<in> set pre. x < k" "k \<notin> set post"
    and step: "sync_key E k s = (s', r)"
  shows "(r = Ok () \<longrightarrow> standing E obj f0 (pre @ [k]) post (dk_files (sy_disk s'))
      \<and> sy_cursor s' = cursor_behind E obj (pre @ [k]))
    \<and> (standing E obj f0 pre (k # post) (dk_files (sy_disk s')) \<or> standing E obj f0 (pre @ [k]) post (dk_files (sy_disk s')))"
proof (cases "key_selected E k")
  case False
  then have "settled E obj f0 (dk_files (sy_disk s)) k" "\<not> doubted E obj k"
    by (simp_all add: settled_def doubted_def)
  moreover have "\<exists>rp. pass_key E False k (s\<lparr>sy_report := rp\<rparr>) = (s', r)"
    using step False by (auto simp: sync_key_def split: selected.splits)
  ultimately show ?thesis
    using pass_key_standing [OF apart _ _ _ order(1), of obj f0 post "s\<lparr>sy_report := rp\<rparr>" False s' r for rp] stand cursor
    by auto
next
  case True
  from selected_nameable [OF True] obtain nm where nm: "object_name_parse (pl_key (fl_pull (re_libs E))) k = Ok nm" ..
  note dest = destination_nameable [OF nm, of E]
  obtain w q where pull: "pull_object (fl_pull (re_libs E)) (re_send E) (re_client E) k (vf_max_object_bytes (re_ver E)) (sy_net s)
      = (w, q)" by fastforce
  note obj = objects [OF serves k pull]
  have rest: "?thesis"
    if pass: "\<exists>rp. pass_key E v k (s\<lparr>sy_net := w, sy_disk := d, sy_report := rp, sy_landed := ld\<rparr>) = (s', r)"
      and d: "standing E obj f0 pre (k # post) (dk_files d)" "settled E obj f0 (dk_files d) k"
      and v: "v \<longleftrightarrow> doubted E obj k" for v d ld
  proof -
    from pass obtain rp where
      "pass_key E v k (s\<lparr>sy_net := w, sy_disk := d, sy_report := rp, sy_landed := ld\<rparr>) = (s', r)" by blast
    from pass_key_standing [OF apart _ _ _ order(1) v this] d cursor show ?thesis by simp
  qed
  have still: "?thesis" if "dk_files (sy_disk s') = dk_files (sy_disk s)" "r \<noteq> Ok ()" using that stand by simp
  show ?thesis
  proof (cases q)
    case (Inl e)
    show ?thesis
    proof (cases "is_one_objects_problem e")
      case True
      with obj Inl obtain e' where "obj k = Err e'" by (metis sum.inject(1))
      then have "settled E obj f0 (dk_files (sy_disk s)) k" "\<not> doubted E obj k"
        using stand by (auto simp: standing_def settled_def pending_def lands_def doubted_def)
      with stand show ?thesis
        using step True Inl pull dest \<open>key_selected E k\<close>
        by (intro rest [of False "sy_landed s" "sy_disk s"]) (auto simp: sync_key_def download_def)
    next
      case False
      then show ?thesis using step Inl pull dest \<open>key_selected E k\<close> by (intro still) (auto simp: sync_key_def download_def)
    qed
  next
    case (Inr ob)
    with obj have ob: "obj k = Ok ob" by auto
    show ?thesis
    proof (cases "checked (re_libs E) k ob (vf_insist (re_ver E))")
      case (Inl u)
      show ?thesis
      proof (cases u)
        case (UncheckedRejected reason f)
        with ob Inl True have "settled E obj f0 (dk_files (sy_disk s)) k" "doubted E obj k \<longleftrightarrow> f = Verdict"
          using stand by (auto simp: standing_def settled_def pending_def lands_def doubted_def)
        with stand show ?thesis
          using step True Inl UncheckedRejected Inr pull dest
          by (intro rest [of "f = Verdict" "sy_landed s" "sy_disk s"]; cases f) (auto simp: sync_key_def download_def)
      next
        case (UncheckedMalformed reason)
        then show ?thesis using step Inl Inr pull dest True by (intro still) (auto simp: sync_key_def download_def)
      qed
    next
      case (Inr how)
      have lands: "lands E obj k = Some (ob_bytes ob)" "\<not> doubted E obj k"
        using True ob Inr by (simp_all add: lands_def doubted_def)
      obtain d wr where wrote: "replacing (key_path E k) (ob_bytes ob) (sy_disk s) = (d, wr)" by fastforce
      note ow = object_write [OF apart True wrote]
      have post: "x \<noteq> k" if "x \<in> set pre \<or> x \<in> set post" for x using that order by auto
      have standing': "standing E obj f0 pre (k # post) (dk_files d)"
      proof -
        have "settled E obj f0 (dk_files d) x" if "x \<in> set pre" for x
          using that stand ow(1) [of x] post [of x] by (auto simp: standing_def settled_def)
        moreover have "pending E obj f0 (dk_files d) x" if "x \<in> set post" for x
          using that stand ow(1) [of x] post [of x] by (auto simp: standing_def pending_def)
        moreover have "pending E obj f0 (dk_files d) k"
          using stand ow(3) lands by (auto simp: standing_def pending_def)
        ultimately show ?thesis using stand ow(2) by (auto simp: standing_def)
      qed
      show ?thesis
      proof (cases wr)
        case (Inl e)
        then show ?thesis
          using step \<open>q = Inr ob\<close> Inr wrote pull dest True standing' by (auto simp: sync_key_def download_def)
      next
        case (Inr u)
        then have "settled E obj f0 (dk_files d) k" using ow(4) lands by (simp add: settled_def)
        with standing' lands(2) show ?thesis
          using step \<open>q = Inr ob\<close> \<open>checked _ _ _ _ = Inr how\<close> Inr wrote pull dest True
          by (intro rest [of False "sy_landed s @ [k]" d]) (auto simp: sync_key_def download_def)
      qed
    qed
  qed
qed

lemma passes_standing:
  assumes serves: "serves E all n obj" and apart: "state_apart E"
  shows "passes E ys s s' \<Longrightarrow> standing E obj f0 pre (ys @ post) (dk_files (sy_disk s))
    \<Longrightarrow> sy_cursor s = cursor_behind E obj pre \<Longrightarrow> sorted_wrt (<) (pre @ ys @ post) \<Longrightarrow> set ys \<subseteq> set all
    \<Longrightarrow> standing E obj f0 (pre @ ys) post (dk_files (sy_disk s')) \<and> sy_cursor s' = cursor_behind E obj (pre @ ys)"
proof (induction ys s s' arbitrary: pre rule: passes.induct)
  case (key k w s s1 ks s2)
  from key.prems(3) have order: "\<forall>x \<in> set pre. x < k" "k \<notin> set (ks @ post)"
    by (auto simp: sorted_wrt_append)
  have "standing E obj f0 pre (k # ks @ post) (dk_files (sy_disk (s\<lparr>sy_net := w\<rparr>)))" using key.prems(1) by simp
  from sync_key_standing [OF serves apart _ this _ order key.hyps(1)] key.prems(2,4)
  have step: "standing E obj f0 (pre @ [k]) (ks @ post) (dk_files (sy_disk s1))"
    "sy_cursor s1 = cursor_behind E obj (pre @ [k])"
    by auto
  from key.IH [OF step] key.prems(3,4) show ?case by simp
qed simp

lemma breaks_standing:
  assumes serves: "serves E all n obj" and apart: "state_apart E"
    and "breaks E ys s s'" and stand: "standing E obj f0 pre ys (dk_files (sy_disk s))"
    and cursor: "sy_cursor s = cursor_behind E obj pre" and order: "sorted_wrt (<) (pre @ ys)" and sub: "set ys \<subseteq> set all"
  shows "\<exists>pre' post'. pre @ ys = pre' @ post' \<and> standing E obj f0 pre' post' (dk_files (sy_disk s'))"
proof -
  from assms(3) obtain ys1 ys2 s1 w where ys: "ys = ys1 @ ys2" and p: "passes E ys1 s s1"
    and s': "s' = s1\<lparr>sy_net := w\<rparr> \<or> (\<exists>k rest e. ys2 = k # rest \<and> sync_key E k (s1\<lparr>sy_net := w\<rparr>) = (s', Err e))"
    unfolding breaks_def by blast
  from passes_standing [OF serves apart p, of f0 pre ys2] stand cursor order sub ys
  have s1: "standing E obj f0 (pre @ ys1) ys2 (dk_files (sy_disk s1))" "sy_cursor s1 = cursor_behind E obj (pre @ ys1)"
    by auto
  from s' show ?thesis
  proof
    assume "s' = s1\<lparr>sy_net := w\<rparr>"
    with s1(1) ys have "pre @ ys = (pre @ ys1) @ ys2 \<and> standing E obj f0 (pre @ ys1) ys2 (dk_files (sy_disk s'))" by simp
    then show ?thesis by blast
  next
    assume "\<exists>k rest e. ys2 = k # rest \<and> sync_key E k (s1\<lparr>sy_net := w\<rparr>) = (s', Err e)"
    then obtain k rest e where k: "ys2 = k # rest" "sync_key E k (s1\<lparr>sy_net := w\<rparr>) = (s', Err e)" by blast
    have "standing E obj f0 (pre @ ys1) (k # rest) (dk_files (sy_disk (s1\<lparr>sy_net := w\<rparr>)))" using s1(1) k(1) by simp
    moreover have "\<forall>x \<in> set (pre @ ys1). x < k" "k \<notin> set rest" "k \<in> set all"
      using order sub ys k(1) by (auto simp: sorted_wrt_append)
    ultimately have "standing E obj f0 (pre @ ys1) (k # rest) (dk_files (sy_disk s'))
        \<or> standing E obj f0 ((pre @ ys1) @ [k]) rest (dk_files (sy_disk s'))"
      using sync_key_standing [OF serves apart, of k f0 "pre @ ys1" rest "s1\<lparr>sy_net := w\<rparr>" s' "Err e"] k(2) s1(2)
      by auto
    moreover have "pre @ ys = (pre @ ys1) @ (k # rest)" "pre @ ys = ((pre @ ys1) @ [k]) @ rest" by (simp_all add: ys k(1))
    ultimately show ?thesis by blast
  qed
qed

lemma resumed_keys:
  assumes "sorted_wrt (<) all" and "run_keys E all = pre @ post"
  shows "keys_past E all (days_after (f_days (re_filters E)) (cu_after (cursor_behind E obj pre))) = post"
proof (cases "pre = []")
  case True
  with assms(2) show ?thesis by (simp add: run_keys_def cursor_behind_def)
next
  case False
  let ?d = "f_days (re_filters E)" and ?P = "\<lambda>k. \<not> days_past (f_days (re_filters E)) k"
  let ?m = "filter (\<lambda>k. days_after ?d [] < k) all"
  have m: "sorted_wrt (<) ?m" using assms(1) by (simp add: sorted_wrt_filter)
  have tw: "takeWhile ?P ?m = pre @ post" using assms(2) by (simp add: run_keys_def keys_past_def)
  then have "?m = pre @ post @ dropWhile ?P ?m" by (metis append.assoc takeWhile_dropWhile_id)
  then have pre: "take (length pre) ?m = pre" "drop (length pre) ?m = post @ dropWhile ?P ?m" "length pre \<le> length ?m"
    by (metis append_eq_conv_conj, metis append_eq_conv_conj, metis le_add1 length_append)
  have "last pre \<in> set ?m" using False pre(1) by (metis in_set_takeD last_in_set)
  then have last: "days_after ?d [] < last pre" "[] < last pre"
    by (auto simp: days_after_def not_less split: option.splits if_splits)
  then have "days_after ?d (last pre) = last pre"
    by (auto simp: days_after_def split: option.splits if_splits)
  moreover have "filter (\<lambda>k. last pre < k) all = filter (\<lambda>k. last pre < k) ?m"
    using last(1) by (auto simp: filter_filter intro!: filter_cong)
  moreover have "filter (\<lambda>k. last pre < k) ?m = post @ dropWhile ?P ?m"
    using filter_after_take [OF m, of "length pre"] False pre by simp
  moreover have "takeWhile ?P (post @ dropWhile ?P ?m) = post"
  proof -
    have "\<forall>x \<in> set post. ?P x" using tw by (metis Un_iff set_append set_takeWhileD)
    moreover have "takeWhile ?P (dropWhile ?P ?m) = []"
      by (metis takeWhile_dropWhile_id append_self_conv takeWhile_append2 set_takeWhileD)
    ultimately show ?thesis by (simp add: takeWhile_append2)
  qed
  ultimately show ?thesis using False by (simp add: keys_past_def cursor_behind_def)
qed

end

section \<open>Runs\<close>

lemma sync_pages_more: "sync_pages fuel E wk s = Some x \<Longrightarrow> sync_pages (fuel + n) E wk s = Some x"
  by (induction fuel E wk s rule: sync_pages.induct) (auto split: prod.splits option.splits sum.splits)

lemma run_more: "run fuel E w d = Some en \<Longrightarrow> run (fuel + n) E w d = Some en"
  by (auto simp: run_def sync_pages_more split: prod.splits sum.splits)

lemma claim_leaves:
  assumes "state_apart E" and "claim (re_libs E) (ds_into (re_dest E)) v d = (d', r)"
  shows "key_selected E k \<Longrightarrow> dk_files d' (key_path E k) = dk_files d (key_path E k)"
    and "dk_files d' (ds_state (re_dest E)) = dk_files d (ds_state (re_dest E))"
proof -
  let ?bar = "ds_into (re_dest E) @ [PROVENANCE_FILE]"
  obtain st where st: "staging ?bar = Some st" "length st = length ?bar" "take (length (ds_into (re_dest E))) st = ds_into (re_dest E)"
    by (simp add: staging_def)
  have other: "dk_files d' p = dk_files d p" if "p \<noteq> ?bar" "p \<noteq> st" for p
  proof -
    obtain d1 q where q: "read_to_string ?bar d = (d1, q)" by fastforce
    with assms(2) that read_to_string_files [OF q] show ?thesis
      by (auto simp: claim_def write_verified_def Let_def replacing_files(1) [OF _ st(1)] split: sum.splits io_error.splits prod.splits)
  qed
  show "dk_files d' (ds_state (re_dest E)) = dk_files d (ds_state (re_dest E))"
    using assms(1) st(3) by (intro other) (auto simp: state_apart_def outside_def)
  show "dk_files d' (key_path E k) = dk_files d (key_path E k)" if "key_selected E k"
  proof -
    from selected_nameable [OF that] nameable_pieces obtain day stem where
      "split_on (CHR ''/'') k = [''v1'', day, stem @ KEY_SUFFIX]" by blast
    then have "length (key_path E k) \<noteq> length ?bar" by (simp add: key_path_def)
    with st(2) show ?thesis by (intro other) auto
  qed
qed

lemma standing_cong:
  assumes "\<And>k. key_selected E k \<Longrightarrow> f' (key_path E k) = f (key_path E k)"
    and "f' (ds_state (re_dest E)) = f (ds_state (re_dest E))"
  shows "standing E obj f0 pre post f' \<longleftrightarrow> standing E obj f0 pre post f"
  using assms by (auto simp: standing_def settled_def pending_def)

text \<open>The cursor a run resumes from is the one the invariant names.\<close>

lemma cursor_resumes:
  assumes "codecs_ok E" and "standing E obj f0 pre post (dk_files d)"
    and "cursor_read (re_libs E) (ds_state (re_dest E)) (re_filters E) (re_ver E) d = (d', r)"
  shows "dk_files d' = dk_files d" and "r = Ok c \<Longrightarrow> c = cursor_behind E obj pre"
proof -
  obtain q where q: "read_to_string (ds_state (re_dest E)) d = (d', q)"
    using assms(3) by (cases "read_to_string (ds_state (re_dest E)) d")
      (auto simp: cursor_read_def split: sum.splits io_error.splits)
  then show "dk_files d' = dk_files d" by (rule read_to_string_files)
  let ?c = "cursor_behind E obj pre"
  have codec: "valid_utf8 (cursor_to_vec (re_libs E) ?c)" "cursor_from_str (re_libs E) (cursor_to_vec (re_libs E) ?c) = Ok ?c"
    using assms(1) unfolding codecs_ok_def cursor_behind_def Let_def by blast+
  have fits: "cursor_fits (re_libs E) p (re_filters E) (re_ver E) ?c = Ok ?c" for p
    by (simp add: cursor_fits_def cursor_behind_def fresh_cursor_def Let_def)
  have new: "cursor_behind E obj [] = fresh_cursor (re_filters E) (re_ver E)"
    by (simp add: cursor_behind_def fresh_cursor_def)
  show "c = ?c" if "r = Ok c"
  proof -
    have res: "r = (case q of
          Inl NotFound \<Rightarrow> Ok (fresh_cursor (re_filters E) (re_ver E))
        | Inl (OtherIo e) \<Rightarrow> Err (CursorRead (ds_state (re_dest E)) e)
        | Inr t \<Rightarrow> and_then (map_err (CursorUnreadable (ds_state (re_dest E))) (cursor_from_str (re_libs E) t))
            (cursor_fits (re_libs E) (ds_state (re_dest E)) (re_filters E) (re_ver E)))"
    proof (cases q)
      case (Inl e)
      with assms(3) q show ?thesis by (cases e) (simp_all add: cursor_read_def)
    next
      case (Inr t)
      from assms(3) show ?thesis unfolding cursor_read_def q Inr by simp
    qed
    note looked = read_to_string_cases [OF q]
    from assms(2) consider (old) "dk_files d (ds_state (re_dest E)) = Some (cursor_to_vec (re_libs E) ?c)"
      | (none) "pre = []" "dk_files d (ds_state (re_dest E)) = None"
      by (auto simp: standing_def)
    then show ?thesis
    proof cases
      case old
      with looked codec(1) have "q = Ok (cursor_to_vec (re_libs E) ?c) \<or> (\<exists>e. q = Err (OtherIo e))" by auto
      then show ?thesis
      proof
        assume "q = Ok (cursor_to_vec (re_libs E) ?c)"
        with res codec(2) fits have "r = Ok ?c" by simp
        with that show ?thesis by simp
      qed (use res that in auto)
    next
      case none
      with looked have "q = Err NotFound \<or> (\<exists>e. q = Err (OtherIo e))" by auto
      then show ?thesis
      proof
        assume "q = Err NotFound"
        with res that new none(1) show ?thesis by simp
      qed (use res that in auto)
    qed
  qed
qed

text \<open>Any number of runs, each on what the one before left, under its own faults and its own network.\<close>

inductive left_by :: "'w run_env \<Rightarrow> files \<Rightarrow> files \<Rightarrow> bool" for E f0 where
  start: "left_by E f0 f0"
| again: "left_by E f0 (dk_files d) \<Longrightarrow> run fuel E w d = Some en \<Longrightarrow> left_by E f0 (dk_files (en_disk en))"

context steady_archive
begin

lemma run_ends:
  assumes serves: "serves E all n obj" and apart: "state_apart E" and codecs: "codecs_ok E"
    and days: "valid_utf8 (days_after (f_days (re_filters E)) [])"
    and keys: "run_keys E all = pre @ post" and stand: "standing E obj f0 pre post (dk_files d)"
  shows "\<exists>en. run (Suc (length all)) E w d = Some en
    \<and> (\<exists>pre' post'. run_keys E all = pre' @ post' \<and> standing E obj f0 pre' post' (dk_files (en_disk en)))
    \<and> (\<forall>rep. en_result en = Ok rep \<longrightarrow> standing E obj f0 (run_keys E all) [] (dk_files (en_disk en))
        \<and> rp_unverified rep = filter (doubted E obj) (run_keys E all)
        \<and> (\<exists>s s'. passes E post s s' \<and> rp_rejected rep = rp_rejected (sy_report s')))"
proof -
  note all = listed [OF serves]
  obtain d1 r1 where claim: "claim (re_libs E) (ds_into (re_dest E)) (re_ver E) d = (d1, r1)" by fastforce
  have stand1: "standing E obj f0 pre post (dk_files d1)"
    using stand standing_cong [of E "dk_files d1" "dk_files d"] claim_leaves [OF apart claim] by auto
  show ?thesis
  proof (cases r1)
    case (Inl e)
    have "\<exists>pre' post'. run_keys E all = pre' @ post' \<and> standing E obj f0 pre' post' (dk_files d1)"
      using keys stand1 by blast
    moreover have "run (Suc (length all)) E w d = Some (stopped w d1 (SyncProvenance e))"
      using Inl claim by (simp add: run_def)
    ultimately show ?thesis by (simp add: stopped_def)
  next
    case (Inr u)
    obtain d2 r2 where reads: "cursor_read (re_libs E) (ds_state (re_dest E)) (re_filters E) (re_ver E) d1 = (d2, r2)"
      by fastforce
    note resume = cursor_resumes [OF codecs stand1 reads]
    show ?thesis
    proof (cases r2)
      case (Inl e)
      have "\<exists>pre' post'. run_keys E all = pre' @ post' \<and> standing E obj f0 pre' post' (dk_files d2)"
        using keys stand1 resume(1) by auto
      moreover have "run (Suc (length all)) E w d = Some (stopped w d2 (SyncCursor e))"
        using Inl claim \<open>r1 = Inr u\<close> reads by (simp add: run_def)
      ultimately show ?thesis by (simp add: stopped_def)
    next
      case (Inr c)
      with resume(2) have c: "c = cursor_behind E obj pre" by simp
      let ?aft = "days_after (f_days (re_filters E)) (cu_after c)"
      let ?s = "\<lparr>sy_net = w, sy_disk = d2, sy_cursor = c, sy_report = new_report, sy_landed = []\<rparr>"
      have past: "keys_past E all ?aft = post" unfolding c using resumed_keys [OF _ keys] all by blast
      have "set (pre @ post) \<subseteq> set all" unfolding keys [symmetric]
        by (auto simp: run_keys_def keys_past_def dest: set_takeWhileD)
      then have sub: "set pre \<subseteq> set all" "set post \<subseteq> set all" by auto
      have order: "sorted_wrt (<) (pre @ post)" unfolding keys [symmetric] run_keys_def keys_past_def
        using all by (simp add: sorted_wrt_filter sorted_wrt_takeWhile)
      have utf8: "valid_utf8 ?aft"
      proof (cases "pre = []")
        case True
        with days show ?thesis by (simp add: c cursor_behind_def)
      next
        case False
        then have "last pre \<in> set all" using sub by auto
        with all have "valid_utf8 (last pre)" by (auto simp: list_all_iff)
        then show ?thesis using False days by (simp add: c cursor_behind_def days_after_utf8)
      qed
      have "length (filter (\<lambda>k. ?aft < k) all) < Suc (length all)"
        by (metis le_imp_less_Suc length_filter_le)
      from walk [OF serves utf8 this, of ?s] obtain s' r where
        pages: "sync_pages (Suc (length all)) E \<lparr>wk_after = ?aft, wk_done = False\<rparr> ?s = Some (s', r)"
        and r: "case r of Inr _ \<Rightarrow> passes E post ?s s' | Inl _ \<Rightarrow> breaks E post ?s s'"
        unfolding past by blast
      have ran: "run (Suc (length all)) E w d = Some (ended (s', r))"
        unfolding run_def claim \<open>r1 = Inr u\<close> by (simp only: prod.case sum.case reads Inr pages option.map)
      have start: "standing E obj f0 pre post (dk_files (sy_disk ?s))" "sy_cursor ?s = cursor_behind E obj pre"
        using stand1 resume(1) c by simp_all
      show ?thesis
      proof (cases r)
        case (Inl e)
        with r breaks_standing [OF serves apart _ start order sub(2), of s'] have
          "\<exists>pre' post'. run_keys E all = pre' @ post' \<and> standing E obj f0 pre' post' (dk_files (sy_disk s'))"
          by (simp add: keys)
        with Inl ran show ?thesis by (simp add: ended_def)
      next
        case (Inr u)
        with r have "passes E post ?s s'" by simp
        from passes_standing [OF serves apart this, of f0 pre "[]"] start order sub(2)
        have fin: "standing E obj f0 (run_keys E all) [] (dk_files (sy_disk s'))"
            "sy_cursor s' = cursor_behind E obj (run_keys E all)"
          by (simp_all add: keys)
        then have "\<exists>pre' post'. run_keys E all = pre' @ post' \<and> standing E obj f0 pre' post' (dk_files (sy_disk s'))"
          by (intro exI [of _ "run_keys E all"] exI [of _ "[]"]) simp
        with Inr ran fin \<open>passes E post ?s s'\<close> show ?thesis by (auto simp: ended_def cursor_behind_def)
      qed
    qed
  qed
qed

lemma run_standing:
  assumes "serves E all n obj" "state_apart E" "codecs_ok E" "valid_utf8 (days_after (f_days (re_filters E)) [])"
    and "run_keys E all = pre @ post" "standing E obj f0 pre post (dk_files d)" and "run fuel E w d = Some en"
  shows "(\<exists>pre' post'. run_keys E all = pre' @ post' \<and> standing E obj f0 pre' post' (dk_files (en_disk en)))
    \<and> (\<forall>rep. en_result en = Ok rep \<longrightarrow> standing E obj f0 (run_keys E all) [] (dk_files (en_disk en))
        \<and> rp_unverified rep = filter (doubted E obj) (run_keys E all))"
proof -
  from run_ends [OF assms(1-6), of w] obtain en' where en': "run (Suc (length all)) E w d = Some en'"
    "(\<exists>pre' post'. run_keys E all = pre' @ post' \<and> standing E obj f0 pre' post' (dk_files (en_disk en')))
    \<and> (\<forall>rep. en_result en' = Ok rep \<longrightarrow> standing E obj f0 (run_keys E all) [] (dk_files (en_disk en'))
        \<and> rp_unverified rep = filter (doubted E obj) (run_keys E all))"
    by blast
  from run_more [OF en'(1), of fuel] run_more [OF assms(7), of "Suc (length all)"] have "en' = en"
    by (simp add: add.commute)
  with en'(2) show ?thesis by simp
qed

lemma left_standing:
  assumes serves: "serves E all n obj" and apart: "state_apart E" and codecs: "codecs_ok E"
    and days: "valid_utf8 (days_after (f_days (re_filters E)) [])" and new: "f0 (ds_state (re_dest E)) = None"
  shows "left_by E f0 f \<Longrightarrow> \<exists>pre post. run_keys E all = pre @ post \<and> standing E obj f0 pre post f"
proof (induction rule: left_by.induct)
  case start
  have "standing E obj f0 [] (run_keys E all) f0" using new by (simp add: standing_def pending_def)
  then show ?case by (metis append_Nil)
next
  case (again d fuel w en)
  then obtain pre post where "run_keys E all = pre @ post" "standing E obj f0 pre post (dk_files d)" by blast
  from run_standing [OF serves apart codecs days this again.hyps(2)] show ?case by blast
qed

text \<open>
  Once a run over such a disk reports: every key of the run is settled, and the report names every key
  with a verdict against it, whichever run found it.
\<close>

lemma runs_settle:
  assumes serves: "serves E all n obj" and apart: "state_apart E" and codecs: "codecs_ok E"
    and days: "valid_utf8 (days_after (f_days (re_filters E)) [])" and new: "f0 (ds_state (re_dest E)) = None"
    and left: "left_by E f0 (dk_files d)"
  shows "\<exists>en. run (Suc (length all)) E w d = Some en
    \<and> (\<forall>rep. en_result en = Ok rep \<longrightarrow>
         (\<forall>k \<in> set (run_keys E all). settled E obj f0 (dk_files (en_disk en)) k)
         \<and> rp_unverified rep = filter (doubted E obj) (run_keys E all))"
proof -
  from left_standing [OF serves apart codecs days new left] obtain pre post where
    "run_keys E all = pre @ post" "standing E obj f0 pre post (dk_files d)" by blast
  from run_ends [OF serves apart codecs days this, of w] show ?thesis by (auto simp only: standing_def)
qed

text \<open>And wherever runs stop, what is on the disk is what was there or what landed, whole.\<close>

lemma runs_leave:
  assumes "serves E all n obj" "state_apart E" "codecs_ok E" "valid_utf8 (days_after (f_days (re_filters E)) [])"
    and "f0 (ds_state (re_dest E)) = None" and "left_by E f0 f" and "k \<in> set (run_keys E all)"
  shows "pending E obj f0 f k"
proof -
  from left_standing [OF assms(1-6)] obtain pre post where
    "run_keys E all = pre @ post" "standing E obj f0 pre post f" by blast
  with assms(7) show ?thesis
    by (auto simp: standing_def settled_def pending_def split: option.splits)
qed

end

end
