(* ===== verification/Developer.thy ===== *)
theory Developer
  imports Percent Archive "HOL-Library.AList"
begin

text \<open>
  \<open>metsuke-server/src/developer.rs\<close>: who may pull the archive, and what a listing request asks. The TOML
  parser, base64, blake2b and the JSON printer are \<open>developer_libs\<close>; the parser's answer to a table is its
  entries in key order, its error where the span starts.
\<close>

section \<open>Usernames\<close>

definition REALM :: string where "REALM = ''metsuke archive''"
definition LIST_MAX_ROWS_CAP :: nat where "LIST_MAX_ROWS_CAP = 1000"
definition USERNAME_MAX_CHARS :: nat where "USERNAME_MAX_CHARS = 64"

type_synonym username = string

datatype username_error = UsernameEmpty | NotAUsername string | UsernameTooLong nat

definition is_name_char :: "uchar \<Rightarrow> bool" where
  "is_name_char g \<longleftrightarrow>
     (case g of
        [c] \<Rightarrow> is_upper c \<or> is_lower c \<or> is_digit c \<or> c = CHR ''-'' \<or> c = CHR ''_''
      | _ \<Rightarrow> False)"

definition username_parse :: "string \<Rightarrow> (username_error, username) result" where
  "username_parse text =
     (if text = [] then Err UsernameEmpty
      else if USERNAME_MAX_CHARS < length (chars_of text) then Err (UsernameTooLong (length (chars_of text)))
      else if list_all is_name_char (chars_of text) then Ok text
      else Err (NotAUsername text))"

section \<open>Accounts\<close>

record developer_libs =
  blake2b_256 :: "bytes \<Rightarrow> bytes"
  base64_decode :: "string \<Rightarrow> bytes option"
  toml_passwords :: "string \<Rightarrow> (nat option, (string \<times> string) list) result"
  listing_to_string :: "listing \<Rightarrow> string"

datatype accounts_error =
    NotATable string
  | AccountsEmpty
  | AccountsUsername username_error
  | EmptyPassword username

text \<open>The accounts by digest, no digest twice.\<close>

datatype accounts = Accounts (by_digest: "(bytes \<times> username) list")

definition credential_digest :: "developer_libs \<Rightarrow> string \<Rightarrow> bytes" where
  "credential_digest L credential = blake2b_256 L credential"

definition credential_of :: "username \<Rightarrow> string \<Rightarrow> string" where
  "credential_of user password = user @ '':'' @ password"

fun read_accounts ::
  "developer_libs \<Rightarrow> (string \<times> string) list \<Rightarrow> (bytes \<times> username) list \<Rightarrow> (accounts_error, accounts) result" where
  "read_accounts L [] acc = Ok (Accounts acc)"
| "read_accounts L ((user, password) # rest) acc =
     and_then (map_err AccountsUsername (username_parse user)) (\<lambda>u.
       if password = [] then Err (EmptyPassword u)
       else read_accounts L rest (AList.update (credential_digest L (credential_of u password)) u acc))"

definition stopped_at :: "string \<Rightarrow> nat option \<Rightarrow> string" where
  "stopped_at text start =
     (case Option.bind start (\<lambda>n. split_at_checked n text) of
        Some (before, _) \<Rightarrow> ''line '' @ decimal (length (filter (\<lambda>c. c = CHR 0x0A) before) + 1)
      | None \<Rightarrow> ''position unknown'')"

definition accounts_parse :: "developer_libs \<Rightarrow> string \<Rightarrow> (accounts_error, accounts) result" where
  "accounts_parse L text =
     and_then (map_err (\<lambda>start. NotATable (stopped_at text start)) (toml_passwords L text)) (\<lambda>written.
       if written = [] then Err AccountsEmpty else read_accounts L written [])"

definition accounts_count :: "accounts \<Rightarrow> nat" where
  "accounts_count a = length (by_digest a)"

section \<open>Credentials\<close>

record unauthorized =
  ua_reason :: string
  ua_presented :: "username option"

definition anonymous :: "string \<Rightarrow> unauthorized" where
  "anonymous reason = \<lparr>ua_reason = reason, ua_presented = None\<rparr>"

definition unauthorized_text :: "unauthorized \<Rightarrow> string" where
  "unauthorized_text u =
     (case ua_presented u of
        Some user \<Rightarrow> ua_reason u @ '', presented as '' @ user
      | None \<Rightarrow> ua_reason u)"

record presented =
  ps_user :: username
  ps_credential :: string

text \<open>\<open>str::trim\<close>.\<close>

definition trim :: "string \<Rightarrow> string" where
  "trim s = concat (rev (dropWhile is_whitespace (rev (dropWhile is_whitespace (chars_of s)))))"

definition basic_credential :: "developer_libs \<Rightarrow> string \<Rightarrow> (unauthorized, presented) result" where
  "basic_credential L authorization =
     and_then (ok_or (anonymous ''the authorization header names no scheme'')
         (split_once space authorization)) (\<lambda>(scheme, encoded).
     if map to_lower scheme \<noteq> ''basic'' then Err (anonymous ''the authorization scheme is not Basic'')
     else and_then (ok_or (anonymous ''the Basic credential is not base64'') (base64_decode L (trim encoded))) (\<lambda>decoded.
     if \<not> valid_utf8 decoded then Err (anonymous ''the Basic credential is not UTF-8'')
     else and_then (ok_or (anonymous ''the Basic credential holds no colon'')
         (split_once (CHR '':'') decoded)) (\<lambda>(user, _).
     and_then (map_err (\<lambda>_. anonymous ''the Basic credential names no username'') (username_parse user)) (\<lambda>u.
       Ok \<lparr>ps_user = u, ps_credential = decoded\<rparr>))))"

record developer =
  dv_accounts :: accounts
  dv_list_max_rows :: nat

definition list_max_rows :: "developer \<Rightarrow> nat" where
  "list_max_rows d = min (dv_list_max_rows d) LIST_MAX_ROWS_CAP"

definition authorize :: "developer_libs \<Rightarrow> developer \<Rightarrow> string option \<Rightarrow> (unauthorized, username) result" where
  "authorize L d authorization =
     and_then (ok_or (anonymous ''no authorization header'') authorization) (\<lambda>a.
     and_then (basic_credential L a) (\<lambda>p.
       ok_or \<lparr>ua_reason = ''the credential is not an account's'', ua_presented = Some (ps_user p)\<rparr>
         (map_of (by_digest (dv_accounts d)) (credential_digest L (ps_credential p)))))"

section \<open>What a listing asks\<close>

record listing_filters =
  lf_prefix :: string
  lf_after :: string

definition listing_filters_parse :: "string \<Rightarrow> (bad_query, listing_filters) result" where
  "listing_filters_parse url =
     and_then (query_value url PREFIX_FIELD) (\<lambda>asked.
     and_then (query_value url AFTER_FIELD) (\<lambda>a.
       Ok \<lparr>lf_prefix = (if asked = [] then KEY_PREFIX else asked), lf_after = a\<rparr>))"

definition listing_page :: "developer_libs \<Rightarrow> page \<Rightarrow> string" where
  "listing_page L p = listing_to_string L \<lparr>l_keys = pg_keys p, l_truncated = pg_truncated p\<rparr>"

end
