(* ===== verification/Server_Http.thy ===== *)
theory Server_Http
  imports Intake_Laws Developer
begin

text \<open>
  \<open>metsuke-server/src/http.rs\<close>: what the server answers, as values. The archive is its three operations
  (\<open>archive_ops\<close>); the texts of errors and the JSON of an acknowledgement are \<open>http_libs\<close>. A request is
  answered from the intake and the archive it meets, and what it writes to the journal comes back
  beside the answer.
\<close>

definition SUBMIT_PATH :: string where "SUBMIT_PATH = ''/v1/submit''"
definition QUICKSTART_PATH :: string where "QUICKSTART_PATH = ''/''"
definition DETAILS_PATH :: string where "DETAILS_PATH = ''/details''"
definition ANALYSIS_PATH :: string where "ANALYSIS_PATH = ''/analysis''"
definition ICON_PATH :: string where "ICON_PATH = ''/favicon.svg''"
definition ICON_LEGACY_PATH :: string where "ICON_LEGACY_PATH = ''/favicon.ico''"
definition ICON_CONTENT_TYPE :: string where "ICON_CONTENT_TYPE = ''image/svg+xml''"
definition FILES_PREFIX :: string where "FILES_PREFIX = ''/files/''"
definition UNAUTHORIZED_BODY :: string where "UNAUTHORIZED_BODY = ''credentials required''"

datatype http_method = Get | Head | Post | OtherMethod

record request =
  rt_method :: http_method
  rt_target :: string
  rt_submission :: "(attribution_error, attributed) result"
  rt_authorization :: "string option"
  rt_body :: bytes

definition request_path :: "request \<Rightarrow> string" where
  "request_path r = hd (split_on (CHR ''?'') (rt_target r))"

fun status_for :: "rejection \<Rightarrow> nat" where
  "status_for (OversizedBody found most) = 413"
| "status_for (RateLimited pool most secs) = 429"
| "status_for (ServerBusy most secs) = 429"
| "status_for (UnknownPool pool) = 403"
| "status_for BadSignature = 403"
| "status_for (Unauthorised u) = 403"
| "status_for (NotASubmission e) = 400"
| "status_for (UnreadableHeader e) = 400"
| "status_for (KeylessSchema v) = 400"
| "status_for (NotItsProvenance claimed pool) = 400"
| "status_for (StaleTimestamp sealed now secs) = 400"

section \<open>Answers\<close>

datatype answer_body = BodyBytes bytes | BodyStream object_stream

record answer =
  an_status :: nat
  an_content_type :: string
  an_body :: answer_body
  an_headers :: "(string \<times> string) list"

record served =
  sv_name :: string
  sv_bytes :: bytes
  sv_content_type :: string

record served_pages =
  sp_quickstart :: bytes
  sp_details :: bytes
  sp_analysis :: bytes
  sp_files :: "served list"

definition served_file :: "served_pages \<Rightarrow> string \<Rightarrow> served option" where
  "served_file p name = find (\<lambda>s. sv_name s = name) (sp_files p)"

definition ok_bytes :: "string \<Rightarrow> bytes \<Rightarrow> answer" where
  "ok_bytes content_type body =
     \<lparr>an_status = 200, an_content_type = content_type, an_body = BodyBytes body, an_headers = []\<rparr>"

definition html_answer :: "bytes \<Rightarrow> answer" where
  "html_answer body = ok_bytes ''text/html; charset=utf-8'' body"

record http_libs =
  hl_server :: server_libs
  hl_developer :: developer_libs
  rejection_text :: "rejection \<Rightarrow> string"
  attribution_text :: "attribution_error \<Rightarrow> string"
  ack_to_vec :: "ack \<Rightarrow> bytes"
  hl_icon :: bytes

record ('w, 'a) archive_ops =
  ao_store :: "('w, 'a) store"
  ao_reader :: "'a \<Rightarrow> string \<Rightarrow> (archive_error, object_stream) result"
  ao_page :: "'a \<Rightarrow> string \<Rightarrow> string \<Rightarrow> nat \<Rightarrow> (archive_error, page) result"

section \<open>Refusals\<close>

text \<open>An answer and the journal lines written on the way to it.\<close>

type_synonym said = "answer \<times> string list"

definition named :: "http_libs \<Rightarrow> pool_id option \<Rightarrow> string" where
  "named H signer =
     (case signer of
        Some pool \<Rightarrow> to_bech32 (kl_bech32 (sl_key (hl_server H))) pool
      | None \<Rightarrow> ''an unidentified client'')"

definition refuse_withholding :: "http_libs \<Rightarrow> pool_id option \<Rightarrow> nat \<Rightarrow> string \<Rightarrow> string option \<Rightarrow> said" where
  "refuse_withholding H signer status reason withheld =
     (let severity = (if 500 \<le> status then ERR else WARNING);
          logged = (case withheld of Some w \<Rightarrow> reason @ '': '' @ w | None \<Rightarrow> reason)
      in (\<lparr>an_status = status, an_content_type = ''text/plain; charset=utf-8'',
            an_body = BodyBytes reason, an_headers = []\<rparr>,
          [severity @ ''refused '' @ named H signer @ '': '' @ decimal status @ '', '' @ logged]))"

definition refuse_request :: "http_libs \<Rightarrow> pool_id option \<Rightarrow> nat \<Rightarrow> string \<Rightarrow> said" where
  "refuse_request H signer status reason = refuse_withholding H signer status reason None"

definition unavailable :: "http_libs \<Rightarrow> pool_id option \<Rightarrow> string \<Rightarrow> string \<Rightarrow> said" where
  "unavailable H signer reason withheld = refuse_withholding H signer 503 reason (Some withheld)"

definition challenge :: "http_libs \<Rightarrow> string \<Rightarrow> unauthorized \<Rightarrow> said" where
  "challenge H path error =
     (case refuse_withholding H None 401 UNAUTHORIZED_BODY (Some (path @ '': '' @ unauthorized_text error)) of
        (a, log) \<Rightarrow>
          (a\<lparr>an_headers := an_headers a @
              [(''www-authenticate'', ''Basic realm=\"'' @ REALM @ ''\", charset=\"UTF-8\"'')]\<rparr>, log))"

definition oversized :: "http_libs \<Rightarrow> pool_id option \<Rightarrow> nat \<Rightarrow> nat \<Rightarrow> said" where
  "oversized H signer found most = refuse_request H signer 413 (rejection_text H (OversizedBody found most))"

section \<open>Routes\<close>

definition bad_query_text :: "bad_query \<Rightarrow> string" where
  "bad_query_text e =
     (case e of QueryNotUtf8 field \<Rightarrow> field @ '' is not UTF-8 once its percent escapes are decoded'')"

definition listing_route :: "http_libs \<Rightarrow> ('w, 'a) archive_ops \<Rightarrow> developer \<Rightarrow> string \<Rightarrow> 'a \<Rightarrow> said" where
  "listing_route H A dev target a =
     (case listing_filters_parse target of
        Inl e \<Rightarrow> refuse_request H None 400 (bad_query_text e)
      | Inr f \<Rightarrow>
          (case ao_page A a (lf_prefix f) (lf_after f) (list_max_rows dev) of
             Inr p \<Rightarrow> (ok_bytes ''application/json'' (listing_page (hl_developer H) p), [])
           | Inl e \<Rightarrow> unavailable H None ''the archive cannot be listed'' (archive_error_text (hl_server H) e)))"

definition attested_headers :: "attestation option \<Rightarrow> (string \<times> string) list" where
  "attested_headers a = (case a of Some p \<Rightarrow> headers p | None \<Rightarrow> [])"

definition object_route :: "http_libs \<Rightarrow> ('w, 'a) archive_ops \<Rightarrow> string \<Rightarrow> 'a \<Rightarrow> said" where
  "object_route H A target a =
     (case query_value target KEY_FIELD of
        Inl e \<Rightarrow> refuse_request H None 400 (bad_query_text e)
      | Inr key \<Rightarrow>
          if key = [] then refuse_request H None 400 (''name the object in ?'' @ KEY_FIELD @ ''='')
          else (case ao_reader A a key of
             Inr st \<Rightarrow>
               (\<lparr>an_status = 200, an_content_type = ''application/zstd'',
                  an_body = BodyStream st, an_headers = attested_headers (os_attestation st)\<rparr>, [])
           | Inl e \<Rightarrow>
               (case e of
                  NoSuchObject _ \<Rightarrow> refuse_request H None 404 ''no such object''
                | _ \<Rightarrow> unavailable H None ''the archive cannot be read'' (archive_error_text (hl_server H) e))))"

definition submit_route ::
  "http_libs \<Rightarrow> ('w, 'a) archive_ops \<Rightarrow> 'w submit_world \<Rightarrow> request \<Rightarrow> intake \<Rightarrow> 'a \<Rightarrow> intake \<times> 'a \<times> said" where
  "submit_route H A w r ik a =
     (case rt_submission r of
        Inl e \<Rightarrow> (ik, a, refuse_request H None 400 (attribution_text H e))
      | Inr ad \<Rightarrow>
          (case submit (hl_server H) (ao_store A) w (over ad (rt_body r)) ik a of
             (ik', a', Inr v) \<Rightarrow>
               (ik', a', (ok_bytes ''application/json'' (ack_to_vec H \<lparr>latest_version = v\<rparr>), []))
           | (ik', a', Inl (Rejected j)) \<Rightarrow>
               (ik', a', refuse_request H (Some (ad_pool ad)) (status_for j) (rejection_text H j))
           | (ik', a', Inl (IngestArchive e)) \<Rightarrow>
               (ik', a', unavailable H (Some (ad_pool ad)) ''the archive cannot be written''
                  (archive_error_text (hl_server H) e))))"

text \<open>A document served to a GET or a HEAD, and the refusal of any other method.\<close>

definition document :: "http_libs \<Rightarrow> http_method \<Rightarrow> string \<Rightarrow> answer \<Rightarrow> said" where
  "document H m path a =
     (if m = Get \<or> m = Head then (a, []) else refuse_request H None 405 (path @ '' takes GET''))"

definition developer_route ::
  "http_libs \<Rightarrow> ('w, 'a) archive_ops \<Rightarrow> developer \<Rightarrow> string \<Rightarrow> request \<Rightarrow> 'a \<Rightarrow> said" where
  "developer_route H A dev path r a =
     (case authorize (hl_developer H) dev (rt_authorization r) of
        Inl e \<Rightarrow> challenge H path e
      | Inr account \<Rightarrow>
          if rt_method r \<noteq> Get then refuse_request H None 405 (path @ '' takes GET'')
          else (case (if path = SUBMISSIONS_PATH then listing_route H A dev (rt_target r) a
                      else object_route H A (rt_target r) a) of
                  (ans, log) \<Rightarrow> (ans, (INFO @ account @ '' is reading '' @ path) # log)))"

definition answer_request ::
  "http_libs \<Rightarrow> ('w, 'a) archive_ops \<Rightarrow> developer \<Rightarrow> served_pages \<Rightarrow> 'w submit_world \<Rightarrow> request \<Rightarrow> intake \<Rightarrow> 'a
    \<Rightarrow> intake \<times> 'a \<times> said" where
  "answer_request H A dev pages w r ik a =
     (let path = request_path r; m = rt_method r in
      if path = QUICKSTART_PATH then (ik, a, document H m path (html_answer (sp_quickstart pages)))
      else if path = DETAILS_PATH then (ik, a, document H m path (html_answer (sp_details pages)))
      else if path = ANALYSIS_PATH then (ik, a, document H m path (html_answer (sp_analysis pages)))
      else if starts_with FILES_PREFIX path then
        (ik, a,
         if m = Get \<or> m = Head
         then (case served_file pages (drop (length FILES_PREFIX) path) of
                 Some f \<Rightarrow> (ok_bytes (sv_content_type f) (sv_bytes f), [])
               | None \<Rightarrow> refuse_request H None 404 ''no such file'')
         else refuse_request H None 405 (FILES_PREFIX @ '' takes GET''))
      else if path = ICON_PATH \<or> path = ICON_LEGACY_PATH then
        (ik, a, document H m path (ok_bytes ICON_CONTENT_TYPE (hl_icon H)))
      else if path = SUBMIT_PATH then
        (if m = Post then submit_route H A w r ik a
         else (ik, a, refuse_request H None 405 (SUBMIT_PATH @ '' takes POST'')))
      else if path = SUBMISSIONS_PATH \<or> path = OBJECT_PATH then (ik, a, developer_route H A dev path r a)
      else (ik, a, refuse_request H None 404 (''no route '' @ path @ '', submissions go to '' @ SUBMIT_PATH)))"

end
