(* ===== verification/Server_Laws.thy ===== *)
theory Server_Laws
  imports Server_Http
begin

text \<open>
  What the server's answers promise: to the operator of the archive, that only an account of the secret
  reads it (\<open>developer.rs\<close>, \<open>http.rs\<close>), and to the agent, that a status means what its uploader takes it
  to mean (\<open>metsuke/src/uploader.rs\<close>).
\<close>

section \<open>Accounts\<close>

lemma name_char_plain: "is_name_char g \<Longrightarrow> CHR '':'' \<notin> set g"
  by (auto simp: is_name_char_def is_upper_def is_lower_def is_digit_def split: list.splits)

lemma username_parse_Ok: "username_parse t = Ok u \<Longrightarrow> u = t \<and> CHR '':'' \<notin> set u"
proof -
  assume "username_parse t = Ok u"
  then have u: "u = t" "list_all is_name_char (chars_of t)" by (auto simp: username_parse_def split: if_splits)
  have "set t = \<Union> (set ` set (chars_of t))" by (metis concat_chars_of set_concat)
  with u name_char_plain show ?thesis by (auto simp: list_all_iff)
qed

text \<open>No credential but an account's own has its digest.\<close>

definition collision_free :: "developer_libs \<Rightarrow> (string \<times> string) list \<Rightarrow> string \<Rightarrow> bool" where
  "collision_free L es c \<longleftrightarrow>
     (\<forall>(u, pw) \<in> set es. credential_digest L (credential_of u pw) = credential_digest L c \<longrightarrow> credential_of u pw = c)"

lemma read_accounts_digests:
  assumes "read_accounts L es acc = Ok a"
  shows "map_of (by_digest a) d =
      (map_of acc ++ map_of (rev (map (\<lambda>(u, pw). (credential_digest L (credential_of u pw), u)) es))) d
    \<and> (\<forall>(u, pw) \<in> set es. CHR '':'' \<notin> set u \<and> pw \<noteq> [])"
  using assms
proof (induction es arbitrary: acc)
  case (Cons e es)
  obtain u pw where e: "e = (u, pw)" by fastforce
  with Cons.prems obtain u' where u': "username_parse u = Ok u'" "pw \<noteq> []"
    and rest: "read_accounts L es (AList.update (credential_digest L (credential_of u' pw)) u' acc) = Ok a"
    by (auto simp: and_then_Ok_iff split: if_splits)
  from username_parse_Ok [OF u'(1)] have "u' = u" "CHR '':'' \<notin> set u" by auto
  with Cons.IH [OF rest] u'(2) e show ?case
    by (auto simp: update_conv' map_add_def split: option.splits)
qed auto

lemma read_accounts_parse:
  "read_accounts L es acc = Ok a \<Longrightarrow> (u, pw) \<in> set es \<Longrightarrow> username_parse u = Ok u"
proof (induction es arbitrary: acc)
  case (Cons e es)
  obtain v p where e: "e = (v, p)" by fastforce
  with Cons.prems(1) obtain v' acc' where v: "username_parse v = Ok v'" "read_accounts L es acc' = Ok a"
    by (auto simp: and_then_Ok_iff split: if_splits)
  with Cons.IH [OF v(2)] Cons.prems(2) username_parse_Ok [OF v(1)] e show ?case by auto
qed simp

lemma credential_inj:
  "CHR '':'' \<notin> set u \<Longrightarrow> CHR '':'' \<notin> set v \<Longrightarrow> credential_of u p = credential_of v q \<longleftrightarrow> u = v \<and> p = q"
proof
  assume u: "CHR '':'' \<notin> set u" and v: "CHR '':'' \<notin> set v" and eq: "credential_of u p = credential_of v q"
  from eq have "u @ CHR '':'' # p = v @ CHR '':'' # q" by (simp only: credential_of_def append_Cons append_Nil)
  then have "split_once (CHR '':'') (u @ CHR '':'' # p) = split_once (CHR '':'') (v @ CHR '':'' # q)" by (rule arg_cong)
  then show "u = v \<and> p = q" by (simp only: split_once_append [OF u] split_once_append [OF v] option.inject prod.inject)
qed auto

lemma accounts_lookup:
  assumes "accounts_parse L text = Ok acc" "toml_passwords L text = Ok es" and "collision_free L es c"
  shows "map_of (by_digest acc) (credential_digest L c) = Some u
    \<longleftrightarrow> (\<exists>pw. (u, pw) \<in> set es \<and> credential_of u pw = c)"
proof -
  let ?g = "\<lambda>(u, pw). (credential_digest L (credential_of u pw), u)"
  from assms(1,2) have "read_accounts L es [] = Ok acc" by (auto simp: accounts_parse_def split: if_splits)
  from read_accounts_digests [OF this]
  have look: "map_of (by_digest acc) d = map_of (rev (map ?g es)) d" for d by simp
  from read_accounts_digests [OF \<open>read_accounts L es [] = Ok acc\<close>]
  have plain: "CHR '':'' \<notin> set u" if "(u, pw) \<in> set es" for u pw using that by auto
  have only: "(u, pw) \<in> set es \<Longrightarrow> credential_digest L (credential_of u pw) = credential_digest L c
      \<Longrightarrow> credential_of u pw = c" for u pw
    using assms(3) by (auto simp: collision_free_def)
  show ?thesis
  proof
    assume "map_of (by_digest acc) (credential_digest L c) = Some u"
    then have "(credential_digest L c, u) \<in> set (rev (map ?g es))" unfolding look by (rule map_of_SomeD)
    then obtain pw where pw: "(u, pw) \<in> set es" "credential_digest L (credential_of u pw) = credential_digest L c"
      by auto
    with only [OF this] show "\<exists>pw. (u, pw) \<in> set es \<and> credential_of u pw = c" by blast
  next
    assume "\<exists>pw. (u, pw) \<in> set es \<and> credential_of u pw = c"
    then obtain pw where pw: "(u, pw) \<in> set es" "credential_of u pw = c" by blast
    then have "(credential_digest L c, u) \<in> set (rev (map ?g es))" by force
    then obtain v where v: "map_of (rev (map ?g es)) (credential_digest L c) = Some v"
      by (meson weak_map_of_SomeI)
    from map_of_SomeD [OF this] obtain pv where pv: "(v, pv) \<in> set es"
        "credential_digest L (credential_of v pv) = credential_digest L c"
      by auto
    from only [OF pv] pw plain [OF pv(1)] plain [OF pw(1)] have "v = u"
      using credential_inj [of v u pv pw] by simp
    with v show "map_of (by_digest acc) (credential_digest L c) = Some u" by (simp add: look)
  qed
qed

text \<open>A header that presents the credential of an account of the secret.\<close>

definition presents :: "developer_libs \<Rightarrow> (string \<times> string) list \<Rightarrow> string option \<Rightarrow> username \<Rightarrow> bool" where
  "presents L es authorization u \<longleftrightarrow>
     (\<exists>a p pw. authorization = Some a \<and> basic_credential L a = Ok p \<and> (u, pw) \<in> set es
        \<and> ps_credential p = credential_of u pw)"

definition presented_free :: "developer_libs \<Rightarrow> (string \<times> string) list \<Rightarrow> string option \<Rightarrow> bool" where
  "presented_free L es authorization \<longleftrightarrow>
     (\<forall>a p. authorization = Some a \<and> basic_credential L a = Ok p \<longrightarrow> collision_free L es (ps_credential p))"

lemma authorize_Ok:
  assumes "accounts_parse L text = Ok (dv_accounts dev)" "toml_passwords L text = Ok es"
    and "presented_free L es authorization"
  shows "authorize L dev authorization = Ok u \<longleftrightarrow> presents L es authorization u"
proof (cases authorization)
  case (Some a)
  show ?thesis
  proof (cases "basic_credential L a")
    case (Inr p)
    with assms(3) Some have "collision_free L es (ps_credential p)" by (auto simp: presented_free_def)
    from accounts_lookup [OF assms(1,2) this] Some Inr show ?thesis
      by (auto simp: authorize_def presents_def)
  qed (simp add: authorize_def presents_def Some)
qed (simp add: authorize_def presents_def)

section \<open>Properties\<close>

text \<open>The one answer to a credential that is no account's.\<close>

definition unauthorized_answer :: answer where
  "unauthorized_answer =
     \<lparr>an_status = 401, an_content_type = ''text/plain; charset=utf-8'', an_body = BodyBytes UNAUTHORIZED_BODY,
      an_headers = [(''www-authenticate'', ''Basic realm=\"'' @ REALM @ ''\", charset=\"UTF-8\"'')]\<rparr>"

lemma challenge_answer: "fst (challenge H path e) = unauthorized_answer"
  by (simp add: challenge_def refuse_withholding_def unauthorized_answer_def Let_def)

lemma archive_path:
  assumes "request_path r \<in> {SUBMISSIONS_PATH, OBJECT_PATH}"
  shows "answer_request H A dev pages w r ik a = (ik, a, developer_route H A dev (request_path r) r a)"
  using assms
  by (auto simp: answer_request_def Let_def QUICKSTART_PATH_def DETAILS_PATH_def ANALYSIS_PATH_def FILES_PREFIX_def
      ICON_PATH_def ICON_LEGACY_PATH_def SUBMIT_PATH_def SUBMISSIONS_PATH_def OBJECT_PATH_def starts_with_def)

text \<open>
  C18: Only an account reads the archive. A request for the listing or for an object that presents no
  credential of the secret, whatever else it is and whatever the archive holds, changes nothing and is
  answered with one constant 401: nothing in it tells a wrong password from an unknown user, a
  malformed header or a missing one, or an object that is there from one that is not. And what
  presents a credential of the secret is authorised, as that account.
\<close>

theorem archive_needs_account:
  assumes "accounts_parse (hl_developer H) text = Ok (dv_accounts dev)" "toml_passwords (hl_developer H) text = Ok es"
    and "presented_free (hl_developer H) es (rt_authorization r)"
    and "request_path r \<in> {SUBMISSIONS_PATH, OBJECT_PATH}"
  shows "(\<exists>u. presents (hl_developer H) es (rt_authorization r) u
        \<and> authorize (hl_developer H) dev (rt_authorization r) = Ok u)
    \<or> (\<nexists>u. presents (hl_developer H) es (rt_authorization r) u)
        \<and> (\<exists>log. answer_request H A dev pages w r ik a = (ik, a, unauthorized_answer, log))"
proof (cases "authorize (hl_developer H) dev (rt_authorization r)")
  case (Inl e)
  with authorize_Ok [OF assms(1-3)] have none: "\<nexists>u. presents (hl_developer H) es (rt_authorization r) u" by force
  obtain log where "challenge H (request_path r) e = (unauthorized_answer, log)"
    using challenge_answer [of H "request_path r" e] by (cases "challenge H (request_path r) e") auto
  with Inl have "answer_request H A dev pages w r ik a = (ik, a, unauthorized_answer, log)"
    by (simp add: archive_path [OF assms(4)] developer_route_def)
  with none show ?thesis by blast
next
  case (Inr u)
  with authorize_Ok [OF assms(1-3), of u] show ?thesis by blast
qed

section \<open>What an answer is to the agent\<close>

definition body_text :: "answer_body \<Rightarrow> (string, string) result" where
  "body_text b =
     (case b of
        BodyBytes bs \<Rightarrow> if valid_utf8 bs then Ok bs else Err ''not UTF-8''
      | BodyStream st \<Rightarrow> os_content st)"

definition answer_response :: "answer \<Rightarrow> http_response" where
  "answer_response a = \<lparr>rs_status = an_status a, rs_body = body_text (an_body a)\<rparr>"

text \<open>The request an upload arrives as, its signing headers decoded (\<open>serve.rs\<close>).\<close>

definition submission_request :: "server_libs \<Rightarrow> http_request \<Rightarrow> request" where
  "submission_request L rq =
     \<lparr>rt_method = Post, rt_target = SUBMIT_PATH,
      rt_submission = attributed_decode (sl_crypto L) (kl_bech32 (sl_key L)) (map_of (rq_headers rq) HEADER_VKEY)
        (map_of (rq_headers rq) HEADER_SIGNATURE) (map_of (rq_headers rq) HEADER_POOL),
      rt_authorization = None, rt_body = rq_body rq\<rparr>"

definition server_transport ::
  "http_libs \<Rightarrow> ('w, 'a) archive_ops \<Rightarrow> developer \<Rightarrow> served_pages \<Rightarrow> 'w submit_world \<Rightarrow> intake \<Rightarrow> 'a \<Rightarrow> transport" where
  "server_transport H A dev pages w ik a rq =
     (case answer_request H A dev pages w (submission_request (hl_server H) rq) ik a of
        (_, _, ans, _) \<Rightarrow> Ok (answer_response ans))"

definition texts_ok :: "http_libs \<Rightarrow> ack_parser \<Rightarrow> bool" where
  "texts_ok H ack_from_str \<longleftrightarrow>
     (\<forall>j. valid_utf8 (rejection_text H j))
     \<and> (\<forall>x. valid_utf8 (ack_to_vec H x) \<and> ack_from_str (ack_to_vec H x) = Ok x)"

text \<open>What an upload's fate at the server is to the agent that made it.\<close>

fun heard :: "http_libs \<Rightarrow> (ingest_error, string) result \<Rightarrow> upload_outcome" where
  "heard H (Inr v) = UpAcked \<lparr>latest_version = v\<rparr>"
| "heard H (Inl (IngestArchive e)) = UpRetryable (''server answered '' @ decimal 503 @ '': '' @ one_line ''the archive cannot be written'')"
| "heard H (Inl (Rejected (RateLimited p n s))) =
     UpRetryable (''server answered '' @ decimal 429 @ '': '' @ one_line (rejection_text H (RateLimited p n s)))"
| "heard H (Inl (Rejected (ServerBusy n s))) =
     UpRetryable (''server answered '' @ decimal 429 @ '': '' @ one_line (rejection_text H (ServerBusy n s)))"
| "heard H (Inl (Rejected j)) = UpRejected (status_for j) (one_line (rejection_text H j))"

lemma submit_path_route:
  "request_path r = SUBMIT_PATH \<Longrightarrow> rt_method r = Post
    \<Longrightarrow> answer_request H A dev pages w r ik a = submit_route H A w r ik a"
  by (simp add: answer_request_def Let_def QUICKSTART_PATH_def DETAILS_PATH_def ANALYSIS_PATH_def FILES_PREFIX_def
      ICON_PATH_def ICON_LEGACY_PATH_def SUBMIT_PATH_def starts_with_def)

lemma submission_request_path [simp]: "request_path (submission_request L rq) = SUBMIT_PATH"
  by (simp add: request_path_def submission_request_def SUBMIT_PATH_def)

text \<open>
  The two sides mean the same by a status. An agent whose upload reaches the server hears exactly
  what became of it: an acknowledgement exactly when it was stored, with the version the server
  ships; a retryable answer exactly when the limiter refused it or the archive failed; and for every
  other rejection a final one, which its uploader will not send again.
\<close>

theorem statuses_agree:
  assumes "texts_ok H ack_from_str"
    and "rt_submission (submission_request (hl_server H) (upload_request B cfg pool sub)) = Ok ad"
    and "submit (hl_server H) (ao_store A) w (over ad (ss_wire_bytes sub)) ik a = (ik', a', r)"
  shows "upload B ack_from_str (server_transport H A dev pages w ik a) cfg pool sub = heard H r"
proof -
  let ?rq = "upload_request B cfg pool sub" and ?r = "submission_request (hl_server H) (upload_request B cfg pool sub)"
  have body: "rt_body ?r = ss_wire_bytes sub" by (simp add: submission_request_def upload_request_def)
  obtain ik'' a'' ans log where ans: "submit_route H A w ?r ik a = (ik'', a'', ans, log)"
    by (metis prod_cases4)
  have "answer_request H A dev pages w ?r ik a = (ik'', a'', ans, log)"
    by (subst submit_path_route) (simp_all add: ans, simp add: submission_request_def)
  then have sent: "server_transport H A dev pages w ik a ?rq = Ok (answer_response ans)"
    by (simp add: server_transport_def)
  note route = ans [unfolded submit_route_def assms(2) body, simplified, unfolded assms(3), simplified]
  have u: "valid_utf8 ''the archive cannot be written''" by simp
  show ?thesis
  proof (cases r)
    case (Inr v)
    with route have "ans = ok_bytes ''application/json'' (ack_to_vec H \<lparr>latest_version = v\<rparr>)" by simp
    with Inr assms(1) sent show ?thesis
      by (simp add: upload_def classify_def answer_response_def ok_bytes_def body_text_def texts_ok_def)
  next
    case (Inl e)
    show ?thesis
    proof (cases e)
      case (Rejected j)
      with route Inl have "an_status ans = status_for j" "an_body ans = BodyBytes (rejection_text H j)"
        by (auto simp: refuse_request_def refuse_withholding_def Let_def)
      with Inl Rejected assms(1) sent show ?thesis
        by (cases j) (auto simp: upload_def classify_def answer_response_def body_text_def texts_ok_def Let_def
            TOO_MANY_REQUESTS_def)
    next
      case (IngestArchive x)
      with route Inl have "an_status ans = 503" "an_body ans = BodyBytes ''the archive cannot be written''"
        by (auto simp: unavailable_def refuse_withholding_def Let_def)
      with Inl IngestArchive sent u show ?thesis
        by (auto simp: upload_def classify_def answer_response_def body_text_def Let_def TOO_MANY_REQUESTS_def)
    qed
  qed
qed

end
