(* ===== verification/Served.thy ===== *)
theory Served
  imports Sync_Laws Server_Laws
begin

text \<open>
  The two ends together: \<open>metsuke-fetch\<close> over a network whose other end is \<open>metsuke-server\<close>'s own \<open>answer\<close>
  and its archive, some answers of which are lost or cut short on the way.
\<close>

section \<open>The network\<close>

datatype mishap = Lost string | Cut string

definition pull_response :: "string option \<Rightarrow> answer \<Rightarrow> pull_answer" where
  "pull_response broken ans =
     \<lparr>rs_status = an_status ans,
      rs_body = (case broken of Some r \<Rightarrow> Err r | None \<Rightarrow> body_text (an_body ans)),
      pa_header = map_of (an_headers ans),
      pa_length = Some (case an_body ans of BodyBytes b \<Rightarrow> length b | BodyStream st \<Rightarrow> os_length st),
      pa_content = (case broken of Some r \<Rightarrow> Err r
         | None \<Rightarrow> (case an_body ans of BodyBytes b \<Rightarrow> Ok b | BodyStream st \<Rightarrow> os_content st))\<rparr>"

text \<open>A GET as it reaches the server: the target is what follows the origin.\<close>

definition get_request :: "string \<Rightarrow> string \<Rightarrow> string \<Rightarrow> request" where
  "get_request origin url authorization =
     \<lparr>rt_method = Get, rt_target = drop (length origin) url, rt_submission = Err Unnamed,
      rt_authorization = Some authorization, rt_body = []\<rparr>"

text \<open>The server, with the archive as it stands.\<close>

record ('w, 'a) server =
  sr_http :: http_libs
  sr_ops :: "('w, 'a) archive_ops"
  sr_developer :: developer
  sr_pages :: served_pages
  sr_world :: "'w submit_world"
  sr_intake :: intake
  sr_archive :: 'a

definition server_answer :: "('w, 'a) server \<Rightarrow> request \<Rightarrow> answer" where
  "server_answer S r =
     fst (snd (snd (answer_request (sr_http S) (sr_ops S) (sr_developer S) (sr_pages S) (sr_world S) r
       (sr_intake S) (sr_archive S))))"

definition server_network :: "('w, 'a) server \<Rightarrow> string \<Rightarrow> mishap option list network" where
  "server_network S origin ms url authorization =
     (let ans = server_answer S (get_request origin url authorization) in
      case ms of
        Some (Lost r) # ms' \<Rightarrow> (ms', Err r)
      | Some (Cut r) # ms' \<Rightarrow> (ms', Ok (pull_response (Some r) ans))
      | _ \<Rightarrow> (tl ms, Ok (pull_response None ans)))"

section \<open>An account's requests\<close>

definition base64_ok :: "pull_libs \<Rightarrow> developer_libs \<Rightarrow> bool" where
  "base64_ok L D \<longleftrightarrow>
     (\<forall>b. base64_decode D (base64_encode L b) = Some b
        \<and> list_all (\<lambda>c. 33 \<le> code c \<and> code c < 127) (base64_encode L b))"

lemma trim_visible: "list_all (\<lambda>c. 33 \<le> code c \<and> code c < 127) s \<Longrightarrow> trim s = s"
proof -
  assume s: "list_all (\<lambda>c. 33 \<le> code c \<and> code c < 127) s"
  then have "chars_of s = map (\<lambda>c. [c]) s" by (intro chars_of_ascii) (auto simp: list_all_iff)
  moreover have "\<not> is_whitespace [c]" if "c \<in> set s" for c
    using s that by (auto simp: list_all_iff is_whitespace_def Let_def)
  then have "dropWhile is_whitespace (map (\<lambda>c. [c]) s) = map (\<lambda>c. [c]) s"
    "dropWhile is_whitespace (rev (map (\<lambda>c. [c]) s)) = rev (map (\<lambda>c. [c]) s)"
    by (auto simp: dropWhile_eq_self_iff hd_map rev_map hd_rev last_map)
  ultimately show ?thesis by (simp add: trim_def concat_map_singleton)
qed

text \<open>A user that holds an account of the secret presents it.\<close>

definition holds_account :: "developer_libs \<Rightarrow> accounts \<Rightarrow> username \<Rightarrow> string \<Rightarrow> bool" where
  "holds_account D acc user password \<longleftrightarrow>
     (\<exists>text es. accounts_parse D text = Ok acc \<and> toml_passwords D text = Ok es \<and> (user, password) \<in> set es
        \<and> collision_free D es (credential_of user password)) \<and> valid_utf8 (credential_of user password)"

lemma client_authorized:
  assumes "base64_ok L D" and "holds_account D (dv_accounts dev) user password"
  shows "authorize D dev (Some (ac_authorization (new_client L origin user password))) = Ok user"
proof -
  let ?c = "credential_of user password"
  from assms(2) obtain secret es where es: "accounts_parse D secret = Ok (dv_accounts dev)" "toml_passwords D secret = Ok es"
      "(user, password) \<in> set es" "collision_free D es ?c" and utf8: "valid_utf8 ?c"
    by (auto simp: holds_account_def)
  from es(1,2) have "read_accounts D es [] = Ok (dv_accounts dev)" by (auto simp: accounts_parse_def split: if_splits)
  then have parse: "username_parse user = Ok user" using es(3) by (rule read_accounts_parse)
  then have colon: "CHR '':'' \<notin> set user" by (simp add: username_parse_Ok)
  have enc: "base64_decode D (base64_encode L ?c) = Some ?c" "trim (base64_encode L ?c) = base64_encode L ?c"
    using assms(1) trim_visible by (auto simp: base64_ok_def)
  have "ac_authorization (new_client L origin user password) = ''Basic'' @ space # base64_encode L ?c"
    by (simp add: new_client_def credential_of_def)
  moreover have "split_once space (''Basic'' @ space # base64_encode L ?c) = Some (''Basic'', base64_encode L ?c)"
    by (rule split_once_append) simp
  moreover have "map to_lower ''Basic'' = ''basic''" by (simp add: to_lower_def is_upper_def char_of_def bit_0)
  moreover have "split_once (CHR '':'') ?c = Some (user, password)"
    using split_once_append [OF colon, of password] by (simp add: credential_of_def)
  ultimately have "basic_credential D (ac_authorization (new_client L origin user password))
      = Ok \<lparr>ps_user = user, ps_credential = ?c\<rparr>"
    using enc utf8 parse by (simp add: basic_credential_def)
  moreover have "map_of (by_digest (dv_accounts dev)) (credential_digest D ?c) = Some user"
    using accounts_lookup [OF es(1,2,4)] es(3) by blast
  ultimately show ?thesis by (simp add: authorize_def)
qed

section \<open>Pages and objects across it\<close>

lemma server_network_cases:
  "server_network S origin ms url auth = (tl ms, Ok (pull_response None (server_answer S (get_request origin url auth))))
   \<or> (\<exists>r. server_network S origin ms url auth = (tl ms, Err r))
   \<or> (\<exists>r. server_network S origin ms url auth
        = (tl ms, Ok (pull_response (Some r) (server_answer S (get_request origin url auth)))))"
  by (auto simp: server_network_def Let_def split: list.splits option.splits mishap.splits)

text \<open>What the archive answers for a key when nothing happens on the way.\<close>

definition archive_object :: "mishap option list run_env \<Rightarrow> string \<Rightarrow> (pull_error, object) result" where
  "archive_object E k =
     snd (pull_object (fl_pull (re_libs E)) (re_send E) (re_client E) k (vf_max_object_bytes (re_ver E)) [])"

text \<open>What a download is of the network's answer to it.\<close>

definition object_from :: "crypto \<Rightarrow> string \<Rightarrow> string \<Rightarrow> nat \<Rightarrow> (string, pull_answer) result \<Rightarrow> (pull_error, object) result" where
  "object_from C url k cap x =
     (case x of
        Inl r \<Rightarrow> Err (Unreachable url r)
      | Inr r \<Rightarrow> (case classify (http_response.truncate r) of
            Inl rf \<Rightarrow> Err (Refused url (rf_status rf) (rf_reason rf))
          | Inr _ \<Rightarrow> object_of C k cap r))"

lemma pull_object_from:
  "send ms (object_url ac k) (ac_authorization ac) = (ms', x)
    \<Longrightarrow> pull_object L send ac k cap ms = (ms', object_from (pl_crypto L) (object_url ac k) k cap x)"
  by (simp add: pull_object_def answered_def object_from_def split: sum.splits)

lemma classify_refused:
  "\<not> (200 \<le> rs_status r \<and> rs_status r < 300) \<Longrightarrow> \<exists>x. classify r = Err x \<and> rf_status x = rs_status r"
  by (cases "rs_body r") (auto simp: classify_def Let_def)

lemma object_from_cut:
  "\<exists>e. object_from C url k cap (Ok (pull_response (Some r) ans)) = Err e \<and> (is_one_objects_problem e
      \<longrightarrow> (\<exists>e'. object_from C url k cap (Ok (pull_response None ans)) = Err e'))"
proof -
  obtain len where "len = (case an_body ans of BodyBytes b \<Rightarrow> length b | BodyStream st \<Rightarrow> os_length st)" by simp
  then have head: "pa_length (pull_response c ans) = Some len" "rs_status (pull_response c ans) = an_status ans" for c
    by (simp_all add: pull_response_def)
  show ?thesis
  proof (cases "200 \<le> an_status ans \<and> an_status ans < 300")
    case True
    then have two: "classify (http_response.truncate (pull_response c ans)) = Ok ()" for c
      by (simp add: classify_def http_response.truncate_def head)
    have whole: "object_from C url k cap (Ok (pull_response c ans)) = object_of C k cap (pull_response c ans)" for c
      by (simp add: object_from_def two)
    have cut: "pa_content (pull_response (Some r) ans) = Err r" by (simp add: pull_response_def)
    show ?thesis unfolding whole
      by (cases "cap < len") (simp_all add: object_of_def head(1) cut)
  next
    case False
    have refused: "\<exists>x. object_from C url k cap (Ok (pull_response c ans)) = Err (Refused url (an_status ans) x)" for c
    proof -
      from False have "\<not> (200 \<le> rs_status (http_response.truncate (pull_response c ans))
          \<and> rs_status (http_response.truncate (pull_response c ans)) < 300)"
        by (simp only: http_response.truncate_def http_response.select_convs head(2) not_False_eq_True)
      from classify_refused [OF this] obtain x where
        "classify (http_response.truncate (pull_response c ans)) = Err x" "rf_status x = an_status ans"
        by (auto simp only: http_response.truncate_def http_response.select_convs head(2))
      then show ?thesis by (simp add: object_from_def)
    qed
    from refused [of "Some r"] obtain x where "object_from C url k cap (Ok (pull_response (Some r) ans)) = Err (Refused url (an_status ans) x)" ..
    moreover from refused [of None] obtain y where "object_from C url k cap (Ok (pull_response None ans)) = Err (Refused url (an_status ans) y)" ..
    ultimately show ?thesis by simp
  qed
qed

lemma object_across:
  assumes send: "re_send E = server_network S (ac_server (re_client E))"
    and pull: "pull_object (fl_pull (re_libs E)) (re_send E) (re_client E) k (vf_max_object_bytes (re_ver E)) ms = (ms', q)"
  shows "q = archive_object E k
    \<or> (\<exists>e. q = Err e \<and> (is_one_objects_problem e \<longrightarrow> (\<exists>e'. archive_object E k = Err e')))"
proof -
  let ?url = "object_url (re_client E) k" and ?auth = "ac_authorization (re_client E)"
  let ?ans = "server_answer S (get_request (ac_server (re_client E)) ?url ?auth)"
  let ?from = "object_from (pl_crypto (fl_pull (re_libs E))) ?url k (vf_max_object_bytes (re_ver E))"
  have "server_network S (ac_server (re_client E)) [] ?url ?auth = ([], Ok (pull_response None ?ans))"
    by (simp add: server_network_def Let_def)
  then have o: "archive_object E k = ?from (Ok (pull_response None ?ans))"
    unfolding archive_object_def send by (subst pull_object_from) auto
  obtain x where x: "re_send E ms ?url ?auth = (tl ms, x)"
      "x = Ok (pull_response None ?ans) \<or> (\<exists>r. x = Err r) \<or> (\<exists>r. x = Ok (pull_response (Some r) ?ans))"
    using server_network_cases [of S "ac_server (re_client E)" ms ?url ?auth] unfolding send by blast
  then have q: "q = ?from x" using pull by (subst (asm) pull_object_from) auto
  from x(2) show ?thesis
  proof (elim disjE exE)
    assume "x = Ok (pull_response None ?ans)"
    with q o show ?thesis by simp
  next
    fix r assume "x = Err r"
    with q show ?thesis by (simp add: object_from_def)
  next
    fix r assume "x = Ok (pull_response (Some r) ?ans)"
    with q object_from_cut o show ?thesis by metis
  qed
qed

text \<open>What \<open>serde_json\<close> prints of a listing it reads back.\<close>

definition listing_ok :: "pull_libs \<Rightarrow> developer_libs \<Rightarrow> bool" where
  "listing_ok L D \<longleftrightarrow> (\<forall>l. valid_utf8 (listing_to_string D l) \<and> listing_from_str L (listing_to_string D l) = Ok l)"

definition asked_prefix :: "string \<Rightarrow> string" where
  "asked_prefix p = (if p = [] then KEY_PREFIX else p)"

lemma target_parts:
  "drop (length (ac_server ac)) (page_url ac p a)
    = SUBMISSIONS_PATH @ ''?'' @ PREFIX_FIELD @ ''='' @ escaped p @ ''&'' @ AFTER_FIELD @ ''='' @ escaped a"
  "drop (length (ac_server ac)) (object_url ac k) = OBJECT_PATH @ ''?'' @ KEY_FIELD @ ''='' @ escaped k"
  by (simp_all add: page_url_def object_url_def)

lemma path_of_target: "CHR ''?'' \<notin> set path \<Longrightarrow> hd (split_on (CHR ''?'') (path @ ''?'' @ rest)) = path"
  by (simp add: split_on_append)

lemma routes_plain:
  "CHR ''?'' \<notin> set SUBMISSIONS_PATH" "CHR ''?'' \<notin> set OBJECT_PATH"
  "\<forall>f \<in> {PREFIX_FIELD, AFTER_FIELD}. CHR ''='' \<notin> set f \<and> CHR ''&'' \<notin> set f" "PREFIX_FIELD \<noteq> AFTER_FIELD"
  "CHR ''='' \<notin> set KEY_FIELD" "CHR ''&'' \<notin> set KEY_FIELD"
  by (simp_all add: SUBMISSIONS_PATH_def OBJECT_PATH_def PREFIX_FIELD_def AFTER_FIELD_def KEY_FIELD_def)

lemma listing_filters_sent:
  "valid_utf8 p \<Longrightarrow> valid_utf8 a \<Longrightarrow>
    listing_filters_parse (SUBMISSIONS_PATH @ ''?'' @ PREFIX_FIELD @ ''='' @ escaped p @ ''&'' @ AFTER_FIELD @ ''='' @ escaped a)
      = Ok \<lparr>lf_prefix = asked_prefix p, lf_after = a\<rparr>"
  using query_value_two [OF routes_plain(1,3,4), of p a]
  by (simp add: listing_filters_parse_def asked_prefix_def)

lemma page_answered:
  assumes "authorize (hl_developer (sr_http S)) (sr_developer S) (Some (ac_authorization ac)) = Ok user"
    and "valid_utf8 p" "valid_utf8 a"
    and "ao_page (sr_ops S) (sr_archive S) (asked_prefix p) a (list_max_rows (sr_developer S)) = Ok pg"
  shows "server_answer S (get_request (ac_server ac) (page_url ac p a) (ac_authorization ac))
    = ok_bytes ''application/json'' (listing_page (hl_developer (sr_http S)) pg)"
proof -
  let ?r = "get_request (ac_server ac) (page_url ac p a) (ac_authorization ac)"
  have path: "request_path ?r = SUBMISSIONS_PATH"
    using path_of_target [OF routes_plain(1)] by (simp add: request_path_def get_request_def target_parts)
  have "listing_route (sr_http S) (sr_ops S) (sr_developer S) (rt_target ?r) (sr_archive S)
      = (ok_bytes ''application/json'' (listing_page (hl_developer (sr_http S)) pg), [])"
    using listing_filters_sent [OF assms(2,3)] assms(4)
    by (simp add: get_request_def target_parts listing_route_def)
  moreover have "rt_method ?r = Get" "rt_authorization ?r = Some (ac_authorization ac)"
    by (simp_all add: get_request_def)
  ultimately show ?thesis
    using assms(1) path by (simp add: server_answer_def archive_path developer_route_def)
qed

section \<open>The server is a steady archive\<close>

text \<open>
  A run of an account's against the server: the client \<open>cli.rs\<close> makes from the account, the network whose
  other end is the server, and a prefix that is text.
\<close>

definition account_run :: "('w, 'a) server \<Rightarrow> mishap option list run_env \<Rightarrow> bool" where
  "account_run S E \<longleftrightarrow>
     (\<exists>origin user password. re_client E = new_client (fl_pull (re_libs E)) origin user password
        \<and> holds_account (hl_developer (sr_http S)) (dv_accounts (sr_developer S)) user password)
     \<and> re_send E = server_network S (ac_server (re_client E))
     \<and> base64_ok (fl_pull (re_libs E)) (hl_developer (sr_http S))
     \<and> listing_ok (fl_pull (re_libs E)) (hl_developer (sr_http S))
     \<and> valid_utf8 (f_prefix (re_filters E))"

text \<open>The archive that stands still: what it holds, and a reader and a listing that work.\<close>

definition lists :: "('w, 'a) server \<Rightarrow> string list \<Rightarrow> bool" where
  "lists S held \<longleftrightarrow> distinct held \<and> list_all valid_utf8 held
     \<and> (\<forall>p aft. ao_page (sr_ops S) (sr_archive S) p aft (list_max_rows (sr_developer S))
          = Ok (page_bounded (sort (filter (\<lambda>k. starts_with p k \<and> aft < k) held)) (list_max_rows (sr_developer S))))"

definition offered :: "mishap option list run_env \<Rightarrow> string list \<Rightarrow> string list" where
  "offered E held = sort (filter (starts_with (asked_prefix (f_prefix (re_filters E)))) held)"

definition served_by ::
  "('w, 'a) server \<Rightarrow> mishap option list run_env \<Rightarrow> string list \<Rightarrow> nat \<Rightarrow> (string \<Rightarrow> (pull_error, object) result) \<Rightarrow> bool" where
  "served_by S E ks n obj \<longleftrightarrow> account_run S E \<and> (\<exists>held. lists S held \<and> ks = offered E held)
     \<and> n = list_max_rows (sr_developer S) \<and> 0 < n \<and> obj = archive_object E"

lemma account_authorized:
  "account_run S E \<Longrightarrow>
    \<exists>user. authorize (hl_developer (sr_http S)) (sr_developer S) (Some (ac_authorization (re_client E))) = Ok user"
  unfolding account_run_def using client_authorized by metis

lemma listing_sent:
  assumes served: "served_by S E ks n obj" and aft: "valid_utf8 aft"
  shows "server_answer S (get_request (ac_server (re_client E)) (page_url (re_client E) (f_prefix (re_filters E)) aft)
      (ac_authorization (re_client E)))
    = ok_bytes ''application/json'' (listing_to_string (hl_developer (sr_http S))
        \<lparr>l_keys = take n (filter (\<lambda>k. aft < k) ks), l_truncated = (n < length (filter (\<lambda>k. aft < k) ks))\<rparr>)"
proof -
  let ?p = "asked_prefix (f_prefix (re_filters E))" and ?auth = "ac_authorization (re_client E)"
  from served obtain held user where run: "account_run S E" and held: "lists S held" "ks = offered E held"
      and n: "n = list_max_rows (sr_developer S)"
      and user: "authorize (hl_developer (sr_http S)) (sr_developer S) (Some ?auth) = Ok user"
    using account_authorized [of S E] by (auto simp: served_by_def)
  have ks: "sort (filter (\<lambda>k. starts_with ?p k \<and> aft < k) held) = filter (\<lambda>k. aft < k) ks"
    by (simp add: held(2) offered_def filter_sort filter_filter conj_commute)
  have "ao_page (sr_ops S) (sr_archive S) ?p aft (list_max_rows (sr_developer S))
      = Ok (page_bounded (filter (\<lambda>k. aft < k) ks) n)"
    using held(1) ks n by (simp add: lists_def)
  with run user aft show ?thesis
    by (subst page_answered) (auto simp: account_run_def listing_page_def page_bounded_def)
qed

lemma page_across:
  assumes served: "served_by S E ks n obj" and aft: "valid_utf8 aft"
    and page: "pull_page (fl_pull (re_libs E)) (re_send E) (re_client E) (f_prefix (re_filters E)) aft w = (w', r)"
  shows "r = Ok \<lparr>l_keys = take n (filter (\<lambda>k. aft < k) ks), l_truncated = (n < length (filter (\<lambda>k. aft < k) ks))\<rparr>
    \<or> (\<exists>e. r = Err e)"
proof -
  let ?auth = "ac_authorization (re_client E)" and ?url = "page_url (re_client E) (f_prefix (re_filters E)) aft"
  let ?l = "\<lparr>l_keys = take n (filter (\<lambda>k. aft < k) ks), l_truncated = (n < length (filter (\<lambda>k. aft < k) ks))\<rparr>"
  note ans = listing_sent [OF served aft]
  from served have run: "account_run S E" by (simp add: served_by_def)
  from run have read: "valid_utf8 (listing_to_string (hl_developer (sr_http S)) ?l)"
      "listing_from_str (fl_pull (re_libs E)) (listing_to_string (hl_developer (sr_http S)) ?l) = Ok ?l"
    by (auto simp: account_run_def listing_ok_def)
  from run have send: "re_send E = server_network S (ac_server (re_client E))" by (simp add: account_run_def)
  from server_network_cases [of S "ac_server (re_client E)" w ?url ?auth]
  show ?thesis
  proof (elim disjE exE)
    assume "server_network S (ac_server (re_client E)) w ?url ?auth
      = (tl w, Ok (pull_response None (server_answer S (get_request (ac_server (re_client E)) ?url ?auth))))"
    with page read show ?thesis
      by (simp add: pull_page_def Let_def answered_def send ans pull_response_def ok_bytes_def classify_def
          http_response.truncate_def body_text_def)
  next
    fix e assume "server_network S (ac_server (re_client E)) w ?url ?auth = (tl w, Err e)"
    with page show ?thesis by (auto simp: pull_page_def Let_def answered_def send)
  next
    fix e assume "server_network S (ac_server (re_client E)) w ?url ?auth
      = (tl w, Ok (pull_response (Some e) (server_answer S (get_request (ac_server (re_client E)) ?url ?auth))))"
    with page show ?thesis
      by (auto simp: pull_page_def Let_def answered_def send ans pull_response_def ok_bytes_def classify_def
          http_response.truncate_def)
  qed
qed

text \<open>The object route's answer, and what the client makes of it.\<close>

lemma object_answered:
  assumes "authorize (hl_developer (sr_http S)) (sr_developer S) (Some (ac_authorization ac)) = Ok user"
    and "valid_utf8 k" "k \<noteq> []" and "ao_reader (sr_ops S) (sr_archive S) k = Ok st"
  shows "server_answer S (get_request (ac_server ac) (object_url ac k) (ac_authorization ac))
    = \<lparr>an_status = 200, an_content_type = ''application/zstd'', an_body = BodyStream st,
       an_headers = attested_headers (os_attestation st)\<rparr>"
proof -
  let ?r = "get_request (ac_server ac) (object_url ac k) (ac_authorization ac)"
  have path: "request_path ?r = OBJECT_PATH"
    using path_of_target [OF routes_plain(2)] by (simp add: request_path_def get_request_def target_parts)
  have "query_value (rt_target ?r) KEY_FIELD = Ok k"
    using query_value_one [OF routes_plain(2,5,6) assms(2)] by (simp add: get_request_def target_parts)
  with assms(3,4) have "fst (object_route (sr_http S) (sr_ops S) (rt_target ?r) (sr_archive S))
      = \<lparr>an_status = 200, an_content_type = ''application/zstd'', an_body = BodyStream st,
         an_headers = attested_headers (os_attestation st)\<rparr>"
    by (simp add: object_route_def)
  moreover have "rt_method ?r = Get" "rt_authorization ?r = Some (ac_authorization ac)"
    by (simp_all add: get_request_def)
  ultimately show ?thesis
    using assms(1) path by (simp add: server_answer_def archive_path developer_route_def OBJECT_PATH_def SUBMISSIONS_PATH_def
        case_prod_unfold)
qed

lemma archive_object_read:
  assumes run: "account_run S E" and k: "valid_utf8 k" "k \<noteq> []"
    and st: "ao_reader (sr_ops S) (sr_archive S) k = Ok st"
      "os_content st = Ok b" "os_length st = length b" "length b \<le> vf_max_object_bytes (re_ver E)"
  shows "archive_object E k = Ok \<lparr>ob_bytes = b,
     ob_attestation = (let hs = map_of (attested_headers (os_attestation st)) in
       from_headers (pl_crypto (fl_pull (re_libs E))) (map_option header_text (hs HEADER_VKEY))
         (map_option header_text (hs HEADER_SIGNATURE)))\<rparr>"
proof -
  let ?url = "object_url (re_client E) k" and ?auth = "ac_authorization (re_client E)"
  from account_authorized [OF run] obtain user where
    user: "authorize (hl_developer (sr_http S)) (sr_developer S) (Some ?auth) = Ok user" ..
  from run have "re_send E [] ?url ?auth
      = ([], Ok (pull_response None (server_answer S (get_request (ac_server (re_client E)) ?url ?auth))))"
    by (simp add: account_run_def server_network_def Let_def)
  then show ?thesis unfolding object_answered [OF user k st(1)] using st(2-4)
    by (simp add: archive_object_def pull_object_def answered_def pull_response_def classify_def
        http_response.truncate_def object_of_def answer_attestation_def Let_def)
qed

interpretation served: steady_archive "served_by S" for S
proof unfold_locales
  fix E ks n obj
  assume "served_by S E ks n obj"
  then show "sorted_wrt (<) ks \<and> list_all valid_utf8 ks \<and> 0 < n"
    by (auto simp: served_by_def lists_def offered_def strict_sorted_iff list_all_iff)
next
  fix E ks n obj aft w w' r
  assume "served_by S E ks n obj" "valid_utf8 aft"
    "pull_page (fl_pull (re_libs E)) (re_send E) (re_client E) (f_prefix (re_filters E)) aft w = (w', r)"
  then show "r = Ok \<lparr>l_keys = take n (filter (\<lambda>k. aft < k) ks), l_truncated = (n < length (filter (\<lambda>k. aft < k) ks))\<rparr>
      \<or> (\<exists>e. r = Err e)"
    by (rule page_across)
next
  fix E ks n obj k w w' q
  assume "served_by S E ks n obj" "k \<in> set ks"
    "pull_object (fl_pull (re_libs E)) (re_send E) (re_client E) k (vf_max_object_bytes (re_ver E)) w = (w', q)"
  then show "q = obj k \<or> (\<exists>e. q = Err e \<and> (is_one_objects_problem e \<longrightarrow> (\<exists>e'. obj k = Err e')))"
    using object_across [of E S k w w' q] by (auto simp: served_by_def account_run_def)
qed

end
