(* ===== verification/Served_Laws.thy ===== *)
theory Served_Laws
  imports Served
begin

text \<open>
  What syncing from \<open>metsuke-server\<close> comes to: the interpretation of \<open>Served\<close> put to use, and the run
  that nothing goes wrong in. The bar's file is only \<open>claim\<close>'s to write, so a directory that a run claimed
  once is claimed again by the next.
\<close>

section \<open>Nothing but the claim writes the bar\<close>

abbreviation bar_path :: "'w run_env \<Rightarrow> path" where
  "bar_path E \<equiv> ds_into (re_dest E) @ [PROVENANCE_FILE]"

text \<open>A path that is neither the state file's nor an object's, nor either's staging file.\<close>

lemma bar_apart:
  assumes "state_apart E"
  shows "bar_path E \<noteq> ds_state (re_dest E)" "staging (ds_state (re_dest E)) \<noteq> Some (bar_path E)"
    "key_selected E k \<Longrightarrow> bar_path E \<noteq> key_path E k" "key_selected E k \<Longrightarrow> staging (key_path E k) \<noteq> Some (bar_path E)"
proof -
  have "\<not> outside E (bar_path E)" by (simp add: outside_def)
  moreover from assms obtain st where "outside E (ds_state (re_dest E))" "staging (ds_state (re_dest E)) = Some st" "outside E st"
    by (auto simp: state_apart_def)
  ultimately show "bar_path E \<noteq> ds_state (re_dest E)" "staging (ds_state (re_dest E)) \<noteq> Some (bar_path E)" by auto
  assume "key_selected E k"
  from selected_nameable [OF this] obtain n where n: "object_name_parse (pl_key (fl_pull (re_libs E))) k = Ok n" ..
  from nameable_pieces [OF n] obtain day stem where "split_on (CHR ''/'') k = [''v1'', day, stem @ KEY_SUFFIX]" by blast
  then have "length (key_path E k) \<noteq> length (bar_path E)" by (simp add: key_path_def)
  then show "bar_path E \<noteq> key_path E k" by metis
  from staging_key_path [OF n, of E] show "staging (key_path E k) \<noteq> Some (bar_path E)" by auto
qed

lemma replacing_elsewhere:
  "replacing path b d = (d', r) \<Longrightarrow> p \<noteq> path \<Longrightarrow> staging path \<noteq> Some p \<Longrightarrow> dk_files d' p = dk_files d p"
  using replacing_files(1) [of path b d d' r "the (staging path)"]
  by (cases "staging path") (simp add: replacing_def, auto)

lemma pass_key_bar:
  assumes "state_apart E" and "pass_key E v k s = (s', r)"
  shows "dk_files (sy_disk s') (bar_path E) = dk_files (sy_disk s) (bar_path E)"
proof -
  obtain c d x where moved: "(if v then advance_unverified else advance) (re_libs E) (ds_state (re_dest E)) k (sy_cursor s) (sy_disk s) = (c, d, x)"
    by (metis prod_cases3)
  then obtain y b where "replacing (ds_state (re_dest E)) b (sy_disk s) = (d, y)"
    by (auto simp: advance_unverified_def advance_def Let_def cursor_write_def split: prod.splits if_splits)
  from replacing_elsewhere [OF this bar_apart(1,2) [OF assms(1)]] moved assms(2) show ?thesis
    by (auto simp: pass_key_def)
qed

lemma sync_key_bar:
  assumes "state_apart E" and "sync_key E k s = (s', r)"
  shows "dk_files (sy_disk s') (bar_path E) = dk_files (sy_disk s) (bar_path E)"
proof (cases "key_selected E k")
  case False
  with assms(2) pass_key_bar [OF assms(1)] show ?thesis
    by (fastforce simp: sync_key_def split: selected.splits)
next
  case True
  obtain w d x where down: "download E k (sy_net s) (sy_disk s) = (w, d, x)" by (metis prod_cases3)
  from selected_nameable [OF True] obtain n where "object_name_parse (pl_key (fl_pull (re_libs E))) k = Ok n" ..
  note dest = destination_nameable [OF this, of E]
  have "d = sy_disk s \<or> (\<exists>b y. replacing (key_path E k) b (sy_disk s) = (d, y))"
    using down by (auto simp: download_def dest split: prod.splits sum.splits not_checked.splits)
  then have "dk_files d (bar_path E) = dk_files (sy_disk s) (bar_path E)"
    using replacing_elsewhere bar_apart(3,4) [OF assms(1) True] by metis
  with assms(2) pass_key_bar [OF assms(1)] True down show ?thesis
    by (fastforce simp: sync_key_def split: sum.splits)
qed

lemma sync_keys_bar:
  "state_apart E \<Longrightarrow> sync_keys E ks s = (s', r) \<Longrightarrow> dk_files (sy_disk s') (bar_path E) = dk_files (sy_disk s) (bar_path E)"
proof (induction ks arbitrary: s)
  case (Cons k ks)
  obtain s1 r1 where k: "sync_key E k s = (s1, r1)" by fastforce
  from Cons sync_key_bar [OF Cons.prems(1) k] k show ?case by (cases r1) auto
qed simp

lemma sync_pages_bar:
  "state_apart E \<Longrightarrow> sync_pages fuel E wk s = Some (s', r)
    \<Longrightarrow> dk_files (sy_disk s') (bar_path E) = dk_files (sy_disk s) (bar_path E)"
proof (induction fuel arbitrary: wk s)
  case (Suc fuel)
  obtain w wk' p where page: "pages_next E wk (sy_net s) = (w, wk', p)" by (metis prod_cases3)
  show ?case
  proof (cases p)
    case (Some q)
    show ?thesis
    proof (cases q)
      case (Inr keys)
      obtain s1 r1 where k: "sync_keys E keys (s\<lparr>sy_net := w\<rparr>) = (s1, r1)" by fastforce
      from sync_keys_bar [OF Suc.prems(1) k] Suc page Some Inr k show ?thesis by (cases r1) auto
    qed (use Suc.prems page Some in auto)
  qed (use Suc.prems page in auto)
qed simp

text \<open>The bar of a directory that only these runs wrote to is absent or their own.\<close>

definition claimable :: "'w run_env \<Rightarrow> files \<Rightarrow> bool" where
  "claimable E f \<longleftrightarrow> f (bar_path E) = None \<or> f (bar_path E) = Some (verified_to_vec (re_libs E) (verified_of (re_ver E)))"

lemma claim_claimable:
  assumes "claim (re_libs E) (ds_into (re_dest E)) (re_ver E) d = (d', r)" and "claimable E (dk_files d)"
  shows "claimable E (dk_files d')"
proof -
  obtain d1 q where q: "read_to_string (bar_path E) d = (d1, q)" by fastforce
  have "utf8_lossy PROVENANCE_FILE = PROVENANCE_FILE" by code_simp
  then have st: "\<exists>st. staging (bar_path E) = Some st \<and> st \<noteq> bar_path E" by (simp add: staging_def)
  then obtain st where st: "staging (bar_path E) = Some st" "st \<noteq> bar_path E" by blast
  have "claimable E (dk_files d1)" using assms(2) read_to_string_files [OF q] by simp
  moreover from this have "claimable E (dk_files d')"
    if "replacing (bar_path E) (verified_to_vec (re_libs E) (verified_of (re_ver E))) d1 = (d', x)" for x
    using replacing_files(2) [OF that st] unfolding claimable_def by metis
  ultimately show ?thesis using assms(1) q
    by (auto simp: claim_def write_verified_def Let_def split: sum.splits io_error.splits prod.splits)
qed

lemma run_claimable:
  assumes apart: "state_apart E" and ran: "run fuel E w d = Some en" and bar: "claimable E (dk_files d)"
  shows "claimable E (dk_files (en_disk en))"
proof -
  obtain d1 r1 where claim: "claim (re_libs E) (ds_into (re_dest E)) (re_ver E) d = (d1, r1)" by fastforce
  note bar1 = claim_claimable [OF claim bar]
  obtain d2 r2 where reads: "cursor_read (re_libs E) (ds_state (re_dest E)) (re_filters E) (re_ver E) d1 = (d2, r2)" by fastforce
  then have files: "dk_files d2 = dk_files d1"
    by (auto simp: cursor_read_def split: prod.splits sum.splits io_error.splits dest: read_to_string_files)
  show ?thesis
  proof (cases r1)
    case (Inl e)
    with ran claim bar1 show ?thesis by (auto simp: run_def stopped_def)
  next
    case (Inr u)
    show ?thesis
    proof (cases r2)
      case (Inl e)
      with ran claim \<open>r1 = Inr u\<close> reads bar1 files show ?thesis by (auto simp: run_def stopped_def)
    next
      case (Inr c)
      with ran claim \<open>r1 = Inr u\<close> reads obtain s' r where
        "sync_pages fuel E \<lparr>wk_after = days_after (f_days (re_filters E)) (cu_after c), wk_done = False\<rparr>
           \<lparr>sy_net = w, sy_disk = d2, sy_cursor = c, sy_report = new_report, sy_landed = []\<rparr> = Some (s', r)"
        and en: "en = ended (s', r)"
        by (auto simp: run_def)
      from sync_pages_bar [OF apart this(1)] bar1 files en show ?thesis
        by (simp add: claimable_def ended_def)
    qed
  qed
qed

lemma left_claimable:
  "state_apart E \<Longrightarrow> claimable E f0 \<Longrightarrow> left_by E f0 f \<Longrightarrow> claimable E f"
  by (rotate_tac 2, induction rule: left_by.induct) (auto intro: run_claimable)

section \<open>Nothing goes wrong\<close>

definition quiet :: "mishap option list sync_state \<Rightarrow> bool" where
  "quiet s \<longleftrightarrow> set (sy_net s) \<subseteq> {None} \<and> dk_faults (sy_disk s) = []"

lemma read_quiet: "dk_faults d = [] \<Longrightarrow> read_to_string p d = (d, case dk_files d p of
      None \<Rightarrow> Err NotFound | Some b \<Rightarrow> if valid_utf8 b then Ok b else Err (OtherIo ''stream did not contain valid UTF-8''))"
  by (simp add: read_to_string_def next_fault_def)

lemma replacing_quiet: "dk_faults d = [] \<Longrightarrow> p \<noteq> [] \<Longrightarrow> \<exists>d'. replacing p b d = (d', Ok ()) \<and> dk_faults d' = []"
  by (simp add: replacing_def next_fault_def staging_def)

lemma network_quiet:
  "set w \<subseteq> {None} \<Longrightarrow>
    server_network S origin w url auth = (tl w, Ok (pull_response None (server_answer S (get_request origin url auth))))"
  by (cases w) (auto simp: server_network_def Let_def)

lemma tl_quiet: "set w \<subseteq> {None} \<Longrightarrow> set (tl w) \<subseteq> {None}"
  by (cases w) auto

lemma pass_key_quiet:
  assumes "quiet s" and "ds_state (re_dest E) \<noteq> []"
  shows "\<exists>s'. pass_key E v k s = (s', Ok ()) \<and> quiet s'"
proof -
  have wrote: "\<exists>d'. cursor_write (re_libs E) (ds_state (re_dest E)) c (sy_disk s) = (d', Ok ()) \<and> dk_faults d' = []" for c
  proof -
    from assms replacing_quiet [of "sy_disk s" "ds_state (re_dest E)" "cursor_to_vec (re_libs E) c"] obtain d' where
      "replacing (ds_state (re_dest E)) (cursor_to_vec (re_libs E) c) (sy_disk s) = (d', Ok ())" "dk_faults d' = []"
      by (auto simp: quiet_def)
    then show ?thesis by (simp add: cursor_write_def)
  qed
  obtain c where "(if v then advance_unverified else advance) (re_libs E) (ds_state (re_dest E)) k (sy_cursor s) (sy_disk s)
      = (c, cursor_write (re_libs E) (ds_state (re_dest E)) c (sy_disk s))"
    by (cases v) (simp_all add: advance_unverified_def advance_def Let_def)
  with wrote [of c] have "\<exists>c d'. (if v then advance_unverified else advance) (re_libs E) (ds_state (re_dest E)) k (sy_cursor s) (sy_disk s)
      = (c, d', Ok ()) \<and> dk_faults d' = []"
    by auto
  then show ?thesis using assms(1) by (auto simp: pass_key_def quiet_def)
qed

text \<open>An object that is no reason to stop: it is answered, with or without a well-formed attestation, or it alone is refused.\<close>

definition takeable :: "mishap option list run_env \<Rightarrow> string \<Rightarrow> bool" where
  "takeable E k \<longleftrightarrow> (key_selected E k \<longrightarrow>
     (case archive_object E k of Inl e \<Rightarrow> is_one_objects_problem e | Inr ob \<Rightarrow> \<forall>e. ob_attestation ob \<noteq> Malformed e))"

text \<open>Every selected key of these has bytes that land.\<close>

definition all_land :: "mishap option list run_env \<Rightarrow> string list \<Rightarrow> bool" where
  "all_land E ks \<longleftrightarrow> (\<forall>k \<in> set ks. key_selected E k \<longrightarrow> lands E (archive_object E) k \<noteq> None)"

lemma count_landed_rejected:
  "rp_rejected (count_landed k l r) = rp_rejected r @ (case l of Landed _ _ \<Rightarrow> []
     | LandRejected reason f \<Rightarrow> [\<lparr>rj_key = k, rj_reason = reason, rj_fault = f\<rparr>])"
proof (cases l)
  case (Landed how n)
  then show ?thesis by (cases how) simp_all
qed simp

lemma pass_key_report: "pass_key E v k s = (s', r) \<Longrightarrow> sy_report s' = sy_report s"
  by (auto simp: pass_key_def split: prod.splits)

lemma checked_malformed:
  "checked L k ob ins = Err (UncheckedMalformed t) \<Longrightarrow> \<exists>e. ob_attestation ob = Malformed e"
  by (auto simp: checked_def Let_def and_then_def map_err_def split: attested.splits if_splits sum.splits option.splits)

lemma sync_key_quiet:
  assumes net: "re_send E = server_network S (ac_server (re_client E))" and state: "ds_state (re_dest E) \<noteq> []"
    and quiet: "quiet s" and take: "takeable E k"
  shows "\<exists>s'. sync_key E k s = (s', Ok ()) \<and> quiet s'
    \<and> (all_land E [k] \<longrightarrow> rp_rejected (sy_report s') = rp_rejected (sy_report s))"
proof (cases "key_selected E k")
  case False
  obtain rp where rp: "sync_key E k s = pass_key E False k (s\<lparr>sy_report := rp\<rparr>)" "rp_rejected rp = rp_rejected (sy_report s)"
    using False by (cases "selects (pl_key (fl_pull (re_libs E))) (f_selection (re_filters E)) k") (auto simp: sync_key_def)
  have "quiet (s\<lparr>sy_report := rp\<rparr>)" using quiet by (simp add: quiet_def)
  from pass_key_quiet [OF this state, of False k] obtain s' where
    s': "pass_key E False k (s\<lparr>sy_report := rp\<rparr>) = (s', Ok ())" "quiet s'" by blast
  with pass_key_report [OF s'(1)] rp show ?thesis by simp
next
  case True
  from selected_nameable [OF True] obtain n where n: "object_name_parse (pl_key (fl_pull (re_libs E))) k = Ok n" ..
  note dest = destination_nameable [OF n, of E]
  from nameable_pieces [OF n] have path: "key_path E k \<noteq> []" by (auto simp: key_path_def)
  from quiet have w: "set (sy_net s) \<subseteq> {None}" and d: "dk_faults (sy_disk s) = []" by (simp_all add: quiet_def)
  let ?pull = "\<lambda>w. pull_object (fl_pull (re_libs E)) (re_send E) (re_client E) k (vf_max_object_bytes (re_ver E)) w"
  have pull: "?pull (sy_net s) = (tl (sy_net s), archive_object E k)"
  proof -
    let ?url = "object_url (re_client E) k" and ?auth = "ac_authorization (re_client E)"
    let ?ans = "server_answer S (get_request (ac_server (re_client E)) ?url ?auth)"
    have eq: "?pull w = (tl w, object_from (pl_crypto (fl_pull (re_libs E))) ?url k (vf_max_object_bytes (re_ver E))
        (Ok (pull_response None ?ans)))" if "set w \<subseteq> {None}" for w
      by (rule pull_object_from) (simp only: net network_quiet [OF that])
    from eq [OF w] eq [of "[]"] show ?thesis by (simp add: archive_object_def)
  qed
  have "\<exists>d' l. download E k (sy_net s) (sy_disk s) = (tl (sy_net s), d', Ok l) \<and> dk_faults d' = []
      \<and> (all_land E [k] \<longrightarrow> (\<exists>how n. l = Landed how n))"
  proof (cases "archive_object E k")
    case (Inl e)
    with take True pull d show ?thesis by (simp add: download_def dest takeable_def all_land_def lands_def)
  next
    case (Inr ob)
    show ?thesis
    proof (cases "checked (re_libs E) k ob (vf_insist (re_ver E))")
      case (Inl u)
      with Inr pull d take True checked_malformed [of "re_libs E" k ob "vf_insist (re_ver E)"] show ?thesis
        by (cases u) (auto simp: download_def dest takeable_def all_land_def lands_def)
    next
      case (Inr how)
      from replacing_quiet [OF d path, of "ob_bytes ob"] obtain d' where
        "replacing (key_path E k) (ob_bytes ob) (sy_disk s) = (d', Ok ())" "dk_faults d' = []" by blast
      with Inr \<open>archive_object E k = Inr ob\<close> pull show ?thesis by (simp add: download_def dest)
    qed
  qed
  then obtain d' l where l: "download E k (sy_net s) (sy_disk s) = (tl (sy_net s), d', Ok l)" "dk_faults d' = []"
      "all_land E [k] \<longrightarrow> (\<exists>how n. l = Landed how n)" by blast
  obtain s1 v where s1: "sync_key E k s = pass_key E v k s1" "sy_net s1 = tl (sy_net s)" "sy_disk s1 = d'"
      "sy_report s1 = count_landed k l (sy_report s)"
    using l(1) True by (simp add: sync_key_def)
  then have "quiet s1" using l(2) tl_quiet [OF w] by (simp add: quiet_def)
  from pass_key_quiet [OF this state, of v k] obtain s' where s': "pass_key E v k s1 = (s', Ok ())" "quiet s'" by blast
  with pass_key_report [OF s'(1)] s1 l(3) show ?thesis
    by (auto simp: count_landed_rejected simp del: count_landed.simps)
qed

lemma sync_keys_quiet:
  assumes "re_send E = server_network S (ac_server (re_client E))" "ds_state (re_dest E) \<noteq> []"
  shows "quiet s \<Longrightarrow> \<forall>k \<in> set ks. takeable E k \<Longrightarrow> \<exists>s'. sync_keys E ks s = (s', Ok ()) \<and> quiet s'
    \<and> (all_land E ks \<longrightarrow> rp_rejected (sy_report s') = rp_rejected (sy_report s))"
proof (induction ks arbitrary: s)
  case (Cons k ks)
  then obtain s1 where s1: "sync_key E k s = (s1, Ok ())" "quiet s1"
      "all_land E [k] \<longrightarrow> rp_rejected (sy_report s1) = rp_rejected (sy_report s)"
    using sync_key_quiet [OF assms, of s k] by auto
  with Cons.IH [of s1] Cons.prems show ?case by (auto simp: all_land_def)
qed simp

lemma page_quiet:
  assumes served: "served_by S E ks n obj" and aft: "valid_utf8 aft" and w: "set w \<subseteq> {None}"
  shows "pull_page (fl_pull (re_libs E)) (re_send E) (re_client E) (f_prefix (re_filters E)) aft w
    = (tl w, Ok \<lparr>l_keys = take n (filter (\<lambda>k. aft < k) ks), l_truncated = (n < length (filter (\<lambda>k. aft < k) ks))\<rparr>)"
proof -
  let ?l = "\<lparr>l_keys = take n (filter (\<lambda>k. aft < k) ks), l_truncated = (n < length (filter (\<lambda>k. aft < k) ks))\<rparr>"
  let ?url = "page_url (re_client E) (f_prefix (re_filters E)) aft" and ?auth = "ac_authorization (re_client E)"
  from served have run: "account_run S E" by (simp add: served_by_def)
  then have send: "re_send E = server_network S (ac_server (re_client E))" by (simp add: account_run_def)
  from run have read: "valid_utf8 (listing_to_string (hl_developer (sr_http S)) ?l)"
      "listing_from_str (fl_pull (re_libs E)) (listing_to_string (hl_developer (sr_http S)) ?l) = Ok ?l"
    by (auto simp: account_run_def listing_ok_def)
  from listing_sent [OF served aft] have "server_network S (ac_server (re_client E)) w ?url ?auth = (tl w, Ok (pull_response None
      (ok_bytes ''application/json'' (listing_to_string (hl_developer (sr_http S)) ?l))))"
    by (simp only: network_quiet [OF w])
  with read show ?thesis
    by (simp add: pull_page_def Let_def answered_def send pull_response_def ok_bytes_def classify_def
        http_response.truncate_def body_text_def)
qed

lemma pages_next_quiet:
  assumes served: "served_by S E ks n obj" and aft: "valid_utf8 (wk_after wk)" and w: "set w \<subseteq> {None}"
    and page: "pages_next E wk w = (w', wk', r)"
  shows "set w' \<subseteq> {None} \<and> valid_utf8 (wk_after wk') \<and> (r = None \<or> (\<exists>p. r = Some (Ok p) \<and> set p \<subseteq> set ks))"
proof (cases "wk_done wk")
  case True
  with page w aft show ?thesis by (auto simp: pages_next_def)
next
  case False
  let ?m = "filter (\<lambda>k. wk_after wk < k) ks"
  from served.listed [OF served] have ks: "list_all valid_utf8 ks" "0 < n" by auto
  show ?thesis
  proof (cases "?m = []")
    case True
    with page \<open>\<not> wk_done wk\<close> aft tl_quiet [OF w] show ?thesis
      by (auto simp: pages_next_def page_quiet [OF served aft w])
  next
    case False
    then have "take n ?m \<noteq> []" using ks(2) by simp
    then have last: "last (take n ?m) \<in> set ?m" by (meson in_set_takeD last_in_set)
    then have "valid_utf8 (last (take n ?m))" "wk_after wk < last (take n ?m)" using ks(1) by (auto simp: list_all_iff)
    moreover have "set (takeWhile P (take n ?m)) \<subseteq> set ks" for P by (auto dest!: set_takeWhileD in_set_takeD)
    ultimately show ?thesis using page \<open>\<not> wk_done wk\<close> False \<open>take n ?m \<noteq> []\<close> tl_quiet [OF w]
      by (auto simp: pages_next_def page_quiet [OF served aft w] Let_def split: if_splits)
  qed
qed

lemma sync_pages_quiet:
  assumes served: "served_by S E ks n obj" and state: "ds_state (re_dest E) \<noteq> []" and take: "\<forall>k \<in> set ks. takeable E k"
  shows "quiet s \<Longrightarrow> valid_utf8 (wk_after wk) \<Longrightarrow> sync_pages fuel E wk s = Some (s', r) \<Longrightarrow> r = Ok ()
    \<and> (all_land E ks \<longrightarrow> rp_rejected (sy_report s') = rp_rejected (sy_report s))"
proof (induction fuel arbitrary: wk s)
  case (Suc fuel)
  from served have net: "re_send E = server_network S (ac_server (re_client E))" by (simp add: served_by_def account_run_def)
  obtain w wk' p where page: "pages_next E wk (sy_net s) = (w, wk', p)" by (metis prod_cases3)
  from Suc.prems(1) have "set (sy_net s) \<subseteq> {None}" by (simp add: quiet_def)
  note next_page = pages_next_quiet [OF served Suc.prems(2) this page]
  show ?case
  proof (cases p)
    case (Some q)
    with next_page obtain keys where keys: "q = Ok keys" "set keys \<subseteq> set ks" by auto
    have "quiet (s\<lparr>sy_net := w\<rparr>)" using Suc.prems(1) next_page by (simp add: quiet_def)
    with sync_keys_quiet [OF net state this, of keys] take keys obtain s1 where
      s1: "sync_keys E keys (s\<lparr>sy_net := w\<rparr>) = (s1, Ok ())" "quiet s1"
        "all_land E keys \<longrightarrow> rp_rejected (sy_report s1) = rp_rejected (sy_report s)" by auto
    moreover have "all_land E ks \<Longrightarrow> all_land E keys" using keys(2) by (auto simp: all_land_def)
    ultimately show ?thesis using Suc.IH [of s1 wk'] Suc.prems(3) page Some keys(1) next_page by simp
  qed (use Suc.prems page in auto)
qed simp

lemma state_named: "state_apart E \<Longrightarrow> ds_state (re_dest E) \<noteq> []"
  by (auto simp: state_apart_def staging_def)

lemma run_quiet:
  assumes served: "served_by S E ks n obj" and apart: "state_apart E" and codecs: "codecs_ok E"
    and days: "valid_utf8 (days_after (f_days (re_filters E)) [])"
    and keys: "run_keys E ks = pre @ post" and stand: "standing E obj f0 pre post (dk_files d)"
    and bar: "claimable E (dk_files d)" and calm: "dk_faults d = []" "set w \<subseteq> {None}" and take: "\<forall>k \<in> set ks. takeable E k"
    and ran: "run fuel E w d = Some en"
  shows "\<exists>rep. en_result en = Ok rep \<and> (all_land E ks \<longrightarrow> rp_rejected rep = [])"
proof -
  let ?bar = "verified_to_vec (re_libs E) (verified_of (re_ver E))"
  have "\<exists>d1. claim (re_libs E) (ds_into (re_dest E)) (re_ver E) d = (d1, Ok ()) \<and> dk_faults d1 = []"
  proof (cases "dk_files d (bar_path E)")
    case None
    from replacing_quiet [OF calm(1), of "bar_path E" ?bar] obtain d1 where
      "replacing (bar_path E) ?bar d = (d1, Ok ())" "dk_faults d1 = []" by auto
    with None calm(1) show ?thesis by (simp add: claim_def Let_def read_quiet write_verified_def)
  next
    case (Some b)
    with bar have "b = ?bar" by (simp add: claimable_def)
    moreover from codecs have "valid_utf8 ?bar" "verified_from_str (re_libs E) ?bar = Ok (verified_of (re_ver E))"
      by (auto simp: codecs_ok_def Let_def)
    ultimately show ?thesis using Some calm(1) by (simp add: claim_def Let_def read_quiet)
  qed
  then obtain d1 where claim: "claim (re_libs E) (ds_into (re_dest E)) (re_ver E) d = (d1, Ok ())" "dk_faults d1 = []" by blast
  have stand1: "standing E obj f0 pre post (dk_files d1)"
    using stand standing_cong [of E "dk_files d1" "dk_files d"] claim_leaves [OF apart claim(1)] by auto
  let ?c = "cursor_behind E obj pre"
  have codec: "valid_utf8 (cursor_to_vec (re_libs E) ?c)" "cursor_from_str (re_libs E) (cursor_to_vec (re_libs E) ?c) = Ok ?c"
    using codecs unfolding codecs_ok_def cursor_behind_def Let_def by blast+
  have fits: "cursor_fits (re_libs E) p (re_filters E) (re_ver E) ?c = Ok ?c" for p
    by (simp add: cursor_fits_def cursor_behind_def fresh_cursor_def Let_def)
  obtain c where reads: "cursor_read (re_libs E) (ds_state (re_dest E)) (re_filters E) (re_ver E) d1 = (d1, Ok c)"
    using stand1 codec fits claim(2) by (auto simp: standing_def cursor_read_def read_quiet)
  from cursor_resumes(2) [OF codecs stand1 reads] have c: "c = ?c" by simp
  let ?aft = "days_after (f_days (re_filters E)) (cu_after c)"
  note ks = served.listed [OF served]
  have utf8: "valid_utf8 ?aft"
  proof (cases "pre = []")
    case True
    with days show ?thesis by (simp add: c cursor_behind_def)
  next
    case False
    then have "last pre \<in> set (run_keys E ks)" using keys by simp
    then have "last pre \<in> set ks" by (auto simp: run_keys_def keys_past_def dest: set_takeWhileD)
    with ks have "valid_utf8 (last pre)" by (auto simp: list_all_iff)
    then show ?thesis using False days by (simp add: c cursor_behind_def days_after_utf8)
  qed
  from ran claim reads obtain s' r where pages: "sync_pages fuel E \<lparr>wk_after = ?aft, wk_done = False\<rparr>
      \<lparr>sy_net = w, sy_disk = d1, sy_cursor = c, sy_report = new_report, sy_landed = []\<rparr> = Some (s', r)"
    and en: "en = ended (s', r)"
    by (auto simp: run_def)
  have "r = Ok () \<and> (all_land E ks \<longrightarrow> rp_rejected (sy_report s') = rp_rejected new_report)"
    using sync_pages_quiet [OF served state_named [OF apart] take _ _ pages] by (simp add: quiet_def calm claim utf8)
  with en show ?thesis by (simp add: ended_def new_report_def)
qed

lemma quiet_run_settled:
  assumes served: "served_by S E ks n obj" and apart: "state_apart E" and codecs: "codecs_ok E"
    and days: "valid_utf8 (days_after (f_days (re_filters E)) [])"
    and new: "f0 (ds_state (re_dest E)) = None" "claimable E f0" and left: "left_by E f0 (dk_files d)"
    and calm: "dk_faults d = []" "set w \<subseteq> {None}" and take: "\<forall>k \<in> set ks. takeable E k"
  shows "\<exists>en rep. run (Suc (length ks)) E w d = Some en \<and> en_result en = Ok rep
    \<and> (\<forall>k \<in> set (run_keys E ks). settled E obj f0 (dk_files (en_disk en)) k)
    \<and> rp_unverified rep = filter (doubted E obj) (run_keys E ks)
    \<and> (all_land E ks \<longrightarrow> rp_rejected rep = [])"
proof -
  from served.left_standing [OF served apart codecs days new(1) left] obtain pre post where
    stand: "run_keys E ks = pre @ post" "standing E obj f0 pre post (dk_files d)" by blast
  from served.runs_settle [OF served apart codecs days new(1) left, of w] obtain en where
    en: "run (Suc (length ks)) E w d = Some en" "\<forall>rep. en_result en = Ok rep \<longrightarrow>
         (\<forall>k \<in> set (run_keys E ks). settled E obj f0 (dk_files (en_disk en)) k)
         \<and> rp_unverified rep = filter (doubted E obj) (run_keys E ks)" by blast
  from run_quiet [OF served apart codecs days stand left_claimable [OF apart new(2) left] calm take en(1)] en
  show ?thesis by blast
qed

section \<open>Properties\<close>

text \<open>
  C1: A sync picks up where it broke off. Against a server whose archive stands still, over any number of
  runs each broken off anywhere by a lost or cut answer, a write that failed at any step or a killed
  process, the next run ends, and if it reports then every selected key of the days asked for is
  settled: its file holds exactly the bytes the archive serves when those pass the checks, and is as it
  was before the first run when they do not. The report names exactly the keys with a verdict against
  them, whichever run it was that found it.
\<close>

theorem sync_settles:
  assumes "served_by S E ks n obj" and "state_apart E" and "codecs_ok E"
    and "valid_utf8 (days_after (f_days (re_filters E)) [])" and "f0 (ds_state (re_dest E)) = None"
    and "left_by E f0 (dk_files d)"
  shows "\<exists>en. run (Suc (length ks)) E w d = Some en
    \<and> (\<forall>rep. en_result en = Ok rep \<longrightarrow>
         (\<forall>k \<in> set (run_keys E ks). settled E obj f0 (dk_files (en_disk en)) k)
         \<and> rp_unverified rep = filter (doubted E obj) (run_keys E ks))"
  using assms by (rule served.runs_settle)

text \<open>
  C29: And it does report. When no answer is lost, no write fails, and no object's attestation is
  malformed or its reading refused for the archive's sake, then however many runs broke off before, this one
  reports, with every key settled.
\<close>

theorem sync_reports:
  assumes served: "served_by S E ks n obj" and apart: "state_apart E" and codecs: "codecs_ok E"
    and days: "valid_utf8 (days_after (f_days (re_filters E)) [])"
    and new: "f0 (ds_state (re_dest E)) = None" "claimable E f0" and left: "left_by E f0 (dk_files d)"
    and calm: "dk_faults d = []" "set w \<subseteq> {None}" and take: "\<forall>k \<in> set ks. takeable E k"
  shows "\<exists>en rep. run (Suc (length ks)) E w d = Some en \<and> en_result en = Ok rep
    \<and> (\<forall>k \<in> set (run_keys E ks). settled E obj f0 (dk_files (en_disk en)) k)
    \<and> rp_unverified rep = filter (doubted E obj) (run_keys E ks)"
  using quiet_run_settled [OF assms] by blast


text \<open>
  C19: What the directory archive holds reaches the developer's disk. A sync without \<open>--require\<close> flags
  that reports has written, under every selected key of its days whose file the server reads within the
  size asked for, exactly the stored bytes.
\<close>

theorem stored_reaches_disk:
  assumes served: "served_by S E ks n obj" and "state_apart E" and "codecs_ok E"
    and "valid_utf8 (days_after (f_days (re_filters E)) [])" and "f0 (ds_state (re_dest E)) = None"
    and "left_by E f0 (dk_files d)"
    and reads: "ao_reader (sr_ops S) = fs_reader K name_text None"
    and held: "fs_bytes K name_text (sr_archive S) k = Ok b" "length b \<le> vf_max_object_bytes (re_ver E)"
    and k: "k \<in> set (run_keys E ks)" "key_selected E k" and lax: "vf_insist (re_ver E) = InsistNothing"
    and ran: "run fuel E w d = Some en" "en_result en = Ok rep"
  shows "dk_files (en_disk en) (key_path E k) = Some b"
proof -
  from served have run: "account_run S E" and obj: "obj = archive_object E" by (auto simp: served_by_def)
  from k(1) have "k \<in> set ks" by (auto simp: run_keys_def keys_past_def dest: set_takeWhileD)
  with served.listed [OF served] have "valid_utf8 k" by (auto simp: list_all_iff)
  moreover have "k \<noteq> []" using selected_nameable [OF k(2)] nameable_pieces by fastforce
  moreover from held(1) obtain st where
    "fs_reader K name_text None (sr_archive S) k = Ok st" "os_content st = Ok b" "os_length st = length b" "os_attestation st = None"
    by (auto simp: fs_bytes_def fs_reader_def and_then_Ok_iff)
  ultimately have "obj k = Ok \<lparr>ob_bytes = b, ob_attestation = AttestedNone\<rparr>"
    using archive_object_read [OF run, of k st b] reads held(2)
    by (simp add: obj attested_headers_def from_headers_def Let_def)
  then have "lands E obj k = Some b"
    using k(2) lax by (simp add: lands_def checked_def Let_def)
  moreover from served.runs_settle [OF assms(1-6), of w] obtain en' where
    en': "run (Suc (length ks)) E w d = Some en'" "\<forall>rep. en_result en' = Ok rep \<longrightarrow>
         (\<forall>k \<in> set (run_keys E ks). settled E obj f0 (dk_files (en_disk en')) k)" by blast
  moreover from run_more [OF en'(1), of fuel] run_more [OF ran(1), of "Suc (length ks)"] have "en' = en"
    by (simp add: add.commute)
  ultimately show ?thesis using ran(2) k by (auto simp: settled_def)
qed

text \<open>
  C43: A query survives the wire. Whatever prefix, cursor and key the fetcher asks by, of any bytes that
  are text, percent-encoded into a URL by the client, the server reads the same back: no key is too strange
  to be listed past or fetched by, and no \<open>&\<close>, \<open>=\<close>, \<open>+\<close> or \<open>%\<close> in one becomes another field.
\<close>

theorem queries_survive:
  assumes "valid_utf8 p" "valid_utf8 a" "valid_utf8 k"
  shows "listing_filters_parse (drop (length (ac_server ac)) (page_url ac p a)) = Ok \<lparr>lf_prefix = asked_prefix p, lf_after = a\<rparr>
    \<and> query_value (drop (length (ac_server ac)) (object_url ac k)) KEY_FIELD = Ok k"
  using listing_filters_sent [OF assms(1,2)] query_value_one [OF routes_plain(2,5,6) assms(3)]
  by (simp add: target_parts)

end
