(* ===== verification/Served_Demo.thy ===== *)
theory Served_Demo
  imports Served_Laws
begin

text \<open>
  A concrete server, account, archive and run: one object in the archive's directory, and the library
  calls as functions that keep every contract the properties of \<open>Served_Laws\<close> name.
\<close>

section \<open>Text a list is written as\<close>

definition hexes :: "string list \<Rightarrow> string" where
  "hexes xs = join_with (CHR '','') (map encode xs)"

definition unhexes :: "string \<Rightarrow> string list" where
  "unhexes t = map (\<lambda>p. case decode_bytes p of Inr b \<Rightarrow> b | Inl _ \<Rightarrow> []) (split_on (CHR '','') t)"

lemma unhexes_hexes [simp]: "xs \<noteq> [] \<Longrightarrow> unhexes (hexes xs) = xs"
proof -
  assume "xs \<noteq> []"
  moreover have "CHR '','' \<notin> set p" if "p \<in> set (map encode xs)" for p using that encode_visible by force
  ultimately have "split_on (CHR '','') (hexes xs) = map encode xs" unfolding hexes_def by (intro split_join) auto
  then show ?thesis by (simp add: unhexes_def comp_def)
qed

lemma hexes_utf8 [simp]: "valid_utf8 (hexes xs)"
proof (rule valid_utf8_ascii)
  fix c assume "c \<in> set (hexes xs)"
  moreover have "set (join_with (CHR '','') ps) \<subseteq> insert (CHR '','') (\<Union> (set ` set ps))" for ps
    by (induction "CHR '',''" ps rule: join_with.induct) auto
  ultimately have "c = CHR '','' \<or> (\<exists>p \<in> set (map encode xs). c \<in> set p)" unfolding hexes_def by blast
  then show "code c < 128" using encode_visible by force
qed

section \<open>The server and the run\<close>

definition demo_filters :: filters where
  "demo_filters = \<lparr>f_prefix = [], f_selection = \<lparr>se_pool = None, se_agent = None, se_kind = None\<rparr>,
     f_days = \<lparr>d_from = None, d_until = None\<rparr>\<rparr>"

definition demo_ver :: "insist \<Rightarrow> verification" where
  "demo_ver ins = \<lparr>vf_max_object_bytes = 1000, vf_insist = ins\<rparr>"

definition demo_pull :: pull_libs where
  "demo_pull = \<lparr>pl_crypto = demo_crypto, pl_key = demo_key_lib,
     listing_from_str = (\<lambda>t. Ok \<lparr>l_keys = tl (unhexes t), l_truncated = (hd (unhexes t) = ''t'')\<rparr>),
     base64_encode = encode\<rparr>"

definition demo_fetch :: "insist \<Rightarrow> fetch_libs" where
  "demo_fetch ins = \<lparr>fl_pull = demo_pull, verified_to_vec = (\<lambda>_. ''v''), verified_from_str = (\<lambda>_. Ok (verified_of (demo_ver ins))),
     cursor_to_vec = (\<lambda>c. hexes (cu_after c # cu_unverified c)),
     cursor_from_str = (\<lambda>t. Ok ((fresh_cursor demo_filters (demo_ver ins))
        \<lparr>cu_after := hd (unhexes t), cu_unverified := tl (unhexes t)\<rparr>)),
     debug_quoted = (\<lambda>s. s), pull_error_text = (\<lambda>_. ''refused''), object_name_error_text = (\<lambda>_. ''name''),
     attestation_error_text = (\<lambda>_. ''attestation'')\<rparr>"

definition demo_dev_libs :: developer_libs where
  "demo_dev_libs = \<lparr>blake2b_256 = (\<lambda>b. b), base64_decode = (\<lambda>s. case decode_bytes s of Inr b \<Rightarrow> Some b | Inl _ \<Rightarrow> None),
     toml_passwords = (\<lambda>_. Ok [(''dev'', ''secret'')]),
     listing_to_string = (\<lambda>l. hexes ((if l_truncated l then ''t'' else ''f'') # l_keys l))\<rparr>"

definition demo_http :: http_libs where
  "demo_http = \<lparr>hl_server = demo_verifier, hl_developer = demo_dev_libs, rejection_text = (\<lambda>_. ''rejected''),
     attribution_text = (\<lambda>_. ''attribution''), ack_to_vec = (\<lambda>a. encode (latest_version a)), hl_icon = []\<rparr>"

definition demo_content :: bytes where "demo_content = frame ''h'' ''data''"

definition demo_key_text :: string where "demo_key_text = to_key demo_key_lib demo_name"

definition demo_archive :: fs_archive where
  "demo_archive = \<lparr>fs_root = ''/archive'', fs_tree = Some (case path_components demo_key_text of
     [v, day, leaf] \<Rightarrow> FsDir [(v, FsDir [(day, FsDir [(leaf, FsFile demo_content)] None)] None)] None)\<rparr>"

definition demo_developer :: developer where
  "demo_developer = \<lparr>dv_accounts = Accounts [(''dev:secret'', ''dev'')], dv_list_max_rows = 2\<rparr>"

text \<open>The directory archive, and one that knows besides who signed what it holds.\<close>

definition demo_reader :: "attestation option \<Rightarrow> fs_archive \<Rightarrow> string \<Rightarrow> (archive_error, object_stream) result" where
  "demo_reader att a k =
     and_then (fs_reader demo_key_lib (\<lambda>_. ''name'') None a k) (\<lambda>st. Ok (st\<lparr>os_attestation := att\<rparr>))"

definition demo_server :: "attestation option \<Rightarrow> (fs_fault option, fs_archive) server" where
  "demo_server att = \<lparr>sr_http = demo_http,
     sr_ops = \<lparr>ao_store = fs_store demo_key_lib, ao_reader = demo_reader att, ao_page = fs_page\<rparr>,
     sr_developer = demo_developer,
     sr_pages = \<lparr>sp_quickstart = [], sp_details = [], sp_analysis = [], sp_files = []\<rparr>,
     sr_world = demo_world, sr_intake = demo_intake, sr_archive = demo_archive\<rparr>"

definition demo_run :: "attestation option \<Rightarrow> insist \<Rightarrow> mishap option list run_env" where
  "demo_run att ins =
     (let ac = new_client demo_pull ''https://metsuke.example/'' ''dev'' ''secret'' in
      \<lparr>re_libs = demo_fetch ins, re_send = server_network (demo_server att) (ac_server ac), re_client = ac,
       re_filters = demo_filters, re_dest = \<lparr>ds_into = [''dl''], ds_state = [''state'']\<rparr>, re_ver = demo_ver ins\<rparr>)"

lemma demo_run_simps [simp]:
  "re_libs (demo_run att ins) = demo_fetch ins" "fl_pull (demo_fetch ins) = demo_pull"
  "re_client (demo_run att ins) = new_client demo_pull ''https://metsuke.example/'' ''dev'' ''secret''"
  "re_send (demo_run att ins) = server_network (demo_server att) (ac_server (re_client (demo_run att ins)))"
  "re_filters (demo_run att ins) = demo_filters" "re_dest (demo_run att ins) = \<lparr>ds_into = [''dl''], ds_state = [''state'']\<rparr>"
  "re_ver (demo_run att ins) = demo_ver ins" "f_prefix demo_filters = []" "f_days demo_filters = \<lparr>d_from = None, d_until = None\<rparr>"
  "f_selection demo_filters = \<lparr>se_pool = None, se_agent = None, se_kind = None\<rparr>"
  "sr_http (demo_server att) = demo_http" "hl_developer demo_http = demo_dev_libs" "sr_developer (demo_server att) = demo_developer"
  "ao_page (sr_ops (demo_server att)) = fs_page" "ao_reader (sr_ops (demo_server att)) = demo_reader att"
  "sr_archive (demo_server att) = demo_archive" "pl_key demo_pull = demo_key_lib" "pl_crypto demo_pull = demo_crypto"
  by (simp_all add: demo_run_def Let_def demo_fetch_def demo_filters_def demo_server_def demo_http_def demo_pull_def)

lemma demo_parse: "object_name_parse demo_key_lib demo_key_text = Ok demo_name"
  unfolding demo_key_text_def by (rule parse_to_key [OF demo_key_lib_ok demo_name_wf])

lemma demo_key_utf8:
  assumes "list_all (\<lambda>c. code c < 128) (on_agent n)"
  shows "valid_utf8 (to_key demo_key_lib n)"
proof (rule valid_utf8_ascii)
  fix c assume "c \<in> set (to_key demo_key_lib n)"
  then have "(\<exists>w x. c \<in> set (zero_padded w x)) \<or> (\<exists>b. c \<in> set (encode b)) \<or> code c < 128"
    using assms by (cases "on_kind n") (auto simp: to_key_def object_date_def demo_key_lib_def KEY_PREFIX_def KEY_SUFFIX_def list_all_iff
        date_folder_def demo_bech32_def to_bech32_def POOL_HRP_def simp del: encode_simps split: prod.splits uuid.splits)
  moreover have "code c < 128" if "is_digit c" using that by (auto simp: is_digit_def)
  ultimately show "code c < 128" using encode_visible zero_padded_digits by fastforce
qed

lemma demo_utf8: "valid_utf8 demo_key_text"
  unfolding demo_key_text_def by (rule demo_key_utf8) (simp add: demo_name_def)

lemma demo_tree:
  "\<exists>day leaf. path_components demo_key_text = [''v1'', day, leaf] \<and> demo_key_text = ''v1'' @ ''/'' @ day @ ''/'' @ leaf
    \<and> fs_tree demo_archive = Some (FsDir [(''v1'', FsDir [(day, FsDir [(leaf, FsFile demo_content)] None)] None)] None)"
proof -
  from nameable_pieces [OF demo_parse] obtain day stem where
    p: "split_on (CHR ''/'') demo_key_text = [''v1'', day, stem @ KEY_SUFFIX]" by blast
  then have "demo_key_text = join_with (CHR ''/'') [''v1'', day, stem @ KEY_SUFFIX]" by (metis join_split)
  with p show ?thesis by (simp add: path_components_def demo_archive_def)
qed

lemma demo_keys: "fs_keys demo_archive = Ok [demo_key_text]"
proof -
  from demo_tree obtain day leaf where "demo_key_text = ''v1'' @ ''/'' @ day @ ''/'' @ leaf"
    "fs_tree demo_archive = Some (FsDir [(''v1'', FsDir [(day, FsDir [(leaf, FsFile demo_content)] None)] None)] None)"
    by blast
  with demo_utf8 show ?thesis by (simp add: fs_keys_def fs_for_each_key_def path_join_def Let_def collect_key_def)
qed

lemma demo_bytes: "fs_bytes demo_key_lib nt demo_archive demo_key_text = Ok demo_content"
  using demo_tree by (auto simp: fs_bytes_eq demo_parse)

lemma demo_account_parse: "accounts_parse demo_dev_libs [] = Ok (dv_accounts demo_developer)"
proof -
  have "username_parse ''dev'' = Ok ''dev''"
    by (simp add: username_parse_def USERNAME_MAX_CHARS_def is_name_char_def is_lower_def is_continuation_def between_def)
  then show ?thesis
    by (simp add: accounts_parse_def demo_dev_libs_def demo_developer_def credential_digest_def credential_of_def)
qed

lemma demo_account: "holds_account demo_dev_libs (dv_accounts demo_developer) ''dev'' ''secret''"
proof -
  from demo_account_parse show ?thesis unfolding holds_account_def
    by (intro conjI exI [of _ "[]"] exI [of _ "[(''dev'', ''secret'')]"])
      (simp_all add: demo_dev_libs_def collision_free_def credential_of_def is_continuation_def between_def)
qed

lemma demo_account_run: "account_run (demo_server att) (demo_run att ins)"
proof -
  have "base64_ok demo_pull demo_dev_libs"
    using encode_visible by (force simp: base64_ok_def demo_pull_def demo_dev_libs_def list_all_iff)
  moreover have "listing_ok demo_pull demo_dev_libs" by (simp add: listing_ok_def demo_pull_def demo_dev_libs_def)
  ultimately show ?thesis using demo_account by (auto simp: account_run_def)
qed

lemma demo_lists: "lists (demo_server att) [demo_key_text]"
proof -
  have "fs_readable demo_archive" "fs_held demo_archive = [demo_key_text]"
    by (simp_all add: fs_readable_def fs_held_def demo_keys)
  then show ?thesis using fs.page_of [of demo_archive] demo_utf8 by (simp add: lists_def key_matches_def)
qed

lemma demo_served: "served_by (demo_server att) (demo_run att ins) [demo_key_text] 2 (archive_object (demo_run att ins))"
proof -
  have "offered (demo_run att ins) [demo_key_text] = [demo_key_text]"
    by (simp add: offered_def asked_prefix_def demo_key_text_def to_key_def starts_with_def KEY_PREFIX_def)
  then have "\<exists>held. lists (demo_server att) held \<and> [demo_key_text] = offered (demo_run att ins) held"
    using demo_lists by (intro exI [of _ "[demo_key_text]"]) simp
  then show ?thesis using demo_account_run by (simp add: served_by_def demo_developer_def list_max_rows_def LIST_MAX_ROWS_CAP_def)
qed

lemma demo_apart: "state_apart (demo_run att ins)"
proof -
  have "utf8_lossy ''state'' = ''state''" by code_simp
  then show ?thesis by (simp add: state_apart_def outside_def staging_def)
qed

lemma demo_codecs: "codecs_ok (demo_run att ins)"
  by (simp add: codecs_ok_def Let_def demo_fetch_def fresh_cursor_def)

lemma demo_days: "valid_utf8 (days_after (f_days (re_filters (demo_run att ins))) [])"
  by (simp add: days_after_def)

lemma demo_wanted: "key_selected (demo_run att ins) demo_key_text"
  by (simp add: selects_Yes demo_parse wants_def)

lemma demo_walked: "run_keys (demo_run att ins) [demo_key_text] = [demo_key_text]"
proof -
  have "[] < demo_key_text" by (simp add: demo_key_text_def to_key_def KEY_PREFIX_def)
  then show ?thesis by (simp add: run_keys_def keys_past_def days_after_def days_past_def)
qed

abbreviation fresh_disk :: disk where "fresh_disk \<equiv> \<lparr>dk_files = (\<lambda>_. None), dk_faults = []\<rparr>"

lemma demo_left: "left_by E (\<lambda>_. None) (dk_files fresh_disk)"
  by (simp add: left_by.start)

section \<open>The object as it arrives\<close>

abbreviation demo_att :: attestation where
  "demo_att \<equiv> attest demo_crypto demo_signer demo_content"

lemma demo_att_wf: "attestation_wf demo_crypto demo_att"
  by (rule attest_wf [OF demo_crypto_ok demo_signer_owner(1)])

lemma encode_header: "header_text (encode b) = encode b"
  using encode_visible by (force simp: header_text_def list_all_iff)

lemma demo_arrives:
  "archive_object (demo_run (Some demo_att) ins) demo_key_text = Ok \<lparr>ob_bytes = demo_content, ob_attestation = Pair demo_att\<rparr>"
proof -
  have run: "account_run (demo_server (Some demo_att)) (demo_run (Some demo_att) ins)"
    using demo_served by (auto simp: served_by_def)
  obtain st where st: "fs_reader demo_key_lib (\<lambda>_. ''name'') None demo_archive demo_key_text = Ok st"
      "os_content st = Ok demo_content" "os_length st = length demo_content"
    using demo_bytes [of "\<lambda>_. ''name''"] by (auto simp: fs_bytes_def fs_reader_def and_then_Ok_iff)
  have "demo_key_text \<noteq> []" by (simp add: demo_key_text_def to_key_def KEY_PREFIX_def)
  moreover have "length demo_content \<le> vf_max_object_bytes (re_ver (demo_run (Some demo_att) ins))"
    by (simp add: demo_content_def frame_def demo_ver_def)
  ultimately have "archive_object (demo_run (Some demo_att) ins) demo_key_text = Ok \<lparr>ob_bytes = demo_content,
      ob_attestation = from_headers demo_crypto (map_option header_text (map_of (headers demo_att) HEADER_VKEY))
        (map_option header_text (map_of (headers demo_att) HEADER_SIGNATURE))\<rparr>"
    using archive_object_read [OF run demo_utf8, of "st\<lparr>os_attestation := Some demo_att\<rparr>" demo_content] st
    by (simp add: demo_reader_def attested_headers_def Let_def)
  moreover have "from_headers demo_crypto (map_option header_text (map_of (headers demo_att) HEADER_VKEY))
      (map_option header_text (map_of (headers demo_att) HEADER_SIGNATURE)) = Pair demo_att"
    using demo_att_wf by (simp add: from_headers_Pair attestation_decode_Ok headers_def HEADER_VKEY_def HEADER_SIGNATURE_def encode_header)
  ultimately show ?thesis by simp
qed

lemma demo_takeable: "\<forall>k \<in> set [demo_key_text]. takeable (demo_run (Some demo_att) ins) k"
  by (simp add: takeable_def demo_arrives)

lemma demo_claimable: "claimable E (\<lambda>_. None)"
  by (simp add: claimable_def)

lemma demo_lands: "lands (demo_run (Some demo_att) InsistColdSigned) (archive_object (demo_run (Some demo_att) InsistColdSigned)) demo_key_text
    = Some demo_content"
proof -
  have "verifies demo_crypto demo_att demo_content" by (rule attest_verifies [OF demo_crypto_ok demo_signer_owner(1)])
  moreover have "attributes demo_crypto demo_att = Some (on_pool demo_name)"
    using demo_signer_owner(2)
    by (simp add: attest_attributes demo_name_def demo_envelope_def new_envelope_def demo_provenance_def)
  ultimately show ?thesis using demo_wanted
    by (simp add: lands_def demo_arrives checked_def Let_def demo_parse)
qed

section \<open>Witnesses\<close>

theorem sync_settles_witness:
  "\<exists>en. run 2 (demo_run None InsistNothing) [Some (Lost ''reset''), None, Some (Cut ''eof'')] fresh_disk = Some en
    \<and> (\<forall>rep. en_result en = Ok rep \<longrightarrow>
         settled (demo_run None InsistNothing) (archive_object (demo_run None InsistNothing)) (\<lambda>_. None)
           (dk_files (en_disk en)) demo_key_text)"
  using sync_settles [OF demo_served demo_apart demo_codecs demo_days refl demo_left,
      of None InsistNothing "[Some (Lost ''reset''), None, Some (Cut ''eof'')]"]
  by (simp add: demo_walked numeral_2_eq_2) blast

theorem sync_reports_witness:
  "\<exists>en rep. run 2 (demo_run (Some demo_att) InsistColdSigned) [None] fresh_disk = Some en \<and> en_result en = Ok rep
    \<and> dk_files (en_disk en) (key_path (demo_run (Some demo_att) InsistColdSigned) demo_key_text) = Some demo_content"
proof -
  obtain en rep where en: "run (Suc (length [demo_key_text])) (demo_run (Some demo_att) InsistColdSigned) [None] fresh_disk = Some en"
      "en_result en = Ok rep"
      "\<forall>k \<in> set (run_keys (demo_run (Some demo_att) InsistColdSigned) [demo_key_text]).
         settled (demo_run (Some demo_att) InsistColdSigned) (archive_object (demo_run (Some demo_att) InsistColdSigned))
           (\<lambda>_. None) (dk_files (en_disk en)) k"
    using sync_reports [OF demo_served demo_apart demo_codecs demo_days refl demo_claimable demo_left _ _ demo_takeable,
        of "[None]" InsistColdSigned] by auto
  then have "settled (demo_run (Some demo_att) InsistColdSigned) (archive_object (demo_run (Some demo_att) InsistColdSigned))
      (\<lambda>_. None) (dk_files (en_disk en)) demo_key_text" by (simp add: demo_walked)
  with demo_wanted demo_lands have "dk_files (en_disk en) (key_path (demo_run (Some demo_att) InsistColdSigned) demo_key_text)
      = Some demo_content" by (simp add: settled_def)
  with en(1,2) show ?thesis by (auto simp: numeral_2_eq_2)
qed


lemma demo_arrives_unsigned:
  "archive_object (demo_run None ins) demo_key_text = Ok \<lparr>ob_bytes = demo_content, ob_attestation = AttestedNone\<rparr>"
proof -
  have run: "account_run (demo_server None) (demo_run None ins)" using demo_served by (auto simp: served_by_def)
  obtain st where st: "fs_reader demo_key_lib (\<lambda>_. ''name'') None demo_archive demo_key_text = Ok st"
      "os_content st = Ok demo_content" "os_length st = length demo_content"
    using demo_bytes [of "\<lambda>_. ''name''"] by (auto simp: fs_bytes_def fs_reader_def and_then_Ok_iff)
  have "demo_key_text \<noteq> []" by (simp add: demo_key_text_def to_key_def KEY_PREFIX_def)
  moreover have "length demo_content \<le> vf_max_object_bytes (re_ver (demo_run None ins))"
    by (simp add: demo_content_def frame_def demo_ver_def)
  ultimately show ?thesis
    using archive_object_read [OF run demo_utf8, of "st\<lparr>os_attestation := None\<rparr>" demo_content] st
    by (simp add: demo_reader_def attested_headers_def from_headers_def Let_def)
qed

lemma demo_unsigned: "\<forall>k \<in> set [demo_key_text]. takeable (demo_run None ins) k"
  by (simp add: takeable_def demo_arrives_unsigned)

theorem stored_reaches_disk_witness:
  "\<exists>en rep. run 2 (demo_run None InsistNothing) [] fresh_disk = Some en \<and> en_result en = Ok rep
    \<and> dk_files (en_disk en) (key_path (demo_run None InsistNothing) demo_key_text) = Some demo_content"
proof -
  obtain en rep where en: "run 2 (demo_run None InsistNothing) [] fresh_disk = Some en" "en_result en = Ok rep"
    using quiet_run_settled [OF demo_served demo_apart demo_codecs demo_days refl demo_claimable demo_left _ _ demo_unsigned,
        of "[]" InsistNothing] by (auto simp: numeral_2_eq_2)
  have "ao_reader (sr_ops (demo_server None)) = fs_reader demo_key_lib (\<lambda>_. ''name'') None"
    by (auto simp: fun_eq_iff demo_reader_def fs_reader_def and_then_def split: sum.splits)
  moreover have "fs_bytes demo_key_lib (\<lambda>_. ''name'') (sr_archive (demo_server None)) demo_key_text = Ok demo_content"
    by (simp add: demo_bytes)
  ultimately have "dk_files (en_disk en) (key_path (demo_run None InsistNothing) demo_key_text) = Some demo_content"
    by (rule stored_reaches_disk [OF demo_served demo_apart demo_codecs demo_days refl demo_left _ _ _ _ _ _ en])
      (simp_all add: demo_content_def frame_def demo_ver_def demo_walked demo_wanted [simplified])
  with en show ?thesis by blast
qed

theorem queries_survive_witness:
  "listing_filters_parse (drop (length ''https://metsuke.example'')
     (page_url \<lparr>ac_server = ''https://metsuke.example'', ac_authorization = []\<rparr> ''v1/2026&x=%'' []))
   = Ok \<lparr>lf_prefix = ''v1/2026&x=%'', lf_after = []\<rparr>"
  using queries_survive [of "''v1/2026&x=%''" "[]" "[]" "\<lparr>ac_server = ''https://metsuke.example'', ac_authorization = []\<rparr>"]
  by (simp add: asked_prefix_def)

text \<open>A request without a credential, and an upload that is stored.\<close>

theorem archive_needs_account_witness:
  "\<exists>log. answer_request demo_http (sr_ops (demo_server None)) demo_developer (sr_pages (demo_server None)) demo_world
      \<lparr>rt_method = Get, rt_target = SUBMISSIONS_PATH, rt_submission = Err Unnamed, rt_authorization = None, rt_body = []\<rparr>
      demo_intake demo_archive = (demo_intake, demo_archive, unauthorized_answer, log)"
proof -
  let ?r = "\<lparr>rt_method = Get, rt_target = SUBMISSIONS_PATH, rt_submission = Err Unnamed, rt_authorization = None, rt_body = []\<rparr>"
  have "accounts_parse (hl_developer demo_http) [] = Ok (dv_accounts demo_developer)"
    using demo_account_parse by simp
  moreover have "toml_passwords (hl_developer demo_http) [] = Ok [(''dev'', ''secret'')]" by (simp add: demo_dev_libs_def)
  moreover have "presented_free (hl_developer demo_http) [(''dev'', ''secret'')] (rt_authorization ?r)"
    by (simp add: presented_free_def)
  moreover have "request_path ?r \<in> {SUBMISSIONS_PATH, OBJECT_PATH}"
    by (simp add: request_path_def SUBMISSIONS_PATH_def)
  ultimately show ?thesis
    using archive_needs_account [of demo_http "[]" demo_developer "[(''dev'', ''secret'')]" ?r
        "sr_ops (demo_server None)" "sr_pages (demo_server None)" demo_world demo_intake demo_archive]
    by (auto simp: presents_def)
qed

definition demo_ack_parser :: ack_parser where
  "demo_ack_parser t = (case decode_bytes t of Inr b \<Rightarrow> Ok \<lparr>latest_version = b\<rparr> | Inl _ \<Rightarrow> Err ''not an ack'')"

theorem statuses_agree_witness:
  "\<exists>cfg v. upload (kl_bech32 (sl_key demo_verifier)) demo_ack_parser
     (server_transport demo_http (sr_ops (demo_server None)) demo_developer (sr_pages (demo_server None)) demo_world demo_intake demo_empty)
     cfg (pv_pool (e_provenance demo_envelope)) demo_sub = UpAcked \<lparr>latest_version = v\<rparr>"
proof -
  obtain ik' a' v where acked: "submit demo_verifier (fs_store demo_key_lib) demo_world (over demo_filed demo_wire)
      demo_intake demo_empty = (ik', a', Ok v)"
    using demo_acked by blast
  have texts: "texts_ok demo_http demo_ack_parser"
    using encode_visible by (auto simp: texts_ok_def demo_http_def demo_ack_parser_def intro!: valid_utf8_ascii) force
  fix cfg
  have "ss_attestation demo_sub = attest demo_crypto demo_signer (ss_wire_bytes demo_sub)" by (simp add: demo_sub_def)
  from upload_request_read [OF demo_crypto_ok demo_bech32_ok demo_signer_owner(1) demo_pool_wf disjI2 [OF demo_signer_owner(2)] this]
  have sub: "rt_submission (submission_request (hl_server demo_http) (upload_request (kl_bech32 (sl_key demo_verifier)) cfg
      (pv_pool (e_provenance demo_envelope)) demo_sub)) = Ok demo_filed"
    by (simp add: submission_request_def demo_http_def demo_libs demo_filed_eq demo_key_lib_def)
  have "submit (hl_server demo_http) (ao_store (sr_ops (demo_server None))) demo_world (over demo_filed (ss_wire_bytes demo_sub))
      demo_intake demo_empty = (ik', a', Ok v)"
    using acked by (simp add: demo_http_def demo_server_def demo_sub_def)
  from statuses_agree [OF texts sub this] show ?thesis by auto
qed

end
