(* ===== verification/S3_Served.thy ===== *)
theory S3_Served
  imports S3_Laws Served_Laws Served_Demo
begin

text \<open>
  The production archive between the two ends: what the intake acknowledged into the bucket, served by the
  developer routes, as it lands on a developer's disk with its signature checked.
\<close>

section \<open>The bucket behind the routes\<close>

definition s3_ops ::
  "s3_libs \<Rightarrow> s3_archive \<Rightarrow> ('m, 'b) s3_send \<Rightarrow> 'm \<Rightarrow> (nat \<Rightarrow> 'm, 'b) archive_ops" where
  "s3_ops L A send calm =
     \<lparr>ao_store = s3_op_store L A send, ao_reader = s3_op_reader L A send calm, ao_page = s3_op_page L A send calm\<rparr>"

text \<open>The rows a page may have are within what one request of the bucket answers.\<close>

lemma s3_lists:
  assumes "sr_ops S = s3_ops SL A send calm" and "s3_readable SL send calm objs (sr_archive S)"
    and "list_all valid_utf8 (map fst (objs (sr_archive S)))" and "0 < list_max_rows (sr_developer S)"
  shows "lists S (map fst (objs (sr_archive S)))"
proof -
  have "0 < list_max_rows (sr_developer S) \<and> list_max_rows (sr_developer S) \<le> 1000" using assms(4) by (simp add: list_max_rows_def LIST_MAX_ROWS_CAP_def)
  from s3.page_of [OF assms(2) this] s3.distinct_held [OF assms(2)] assms(1,3) show ?thesis
    by (simp add: lists_def s3_ops_def key_matches_def)
qed

lemma s3_good_stored:
  assumes "put_documented send objs" "get_documented send calm objs" and "server_libs_ok L" "s3l_key SL = sl_key L"
    and "fresh_header L w s ik = Some h" "pv_pool (h_provenance h) = sg_pool s"
  shows "s3_good SL send calm objs (stored_for L w s h k)"
  using assms good_stored [OF assms(3,5,6), of k] by (simp add: s3_good_def good_name_def)

text \<open>An acknowledged submission in the bucket: its bytes and its pair, whatever is submitted after it.\<close>

lemma s3_acknowledged_kept:
  assumes doc: "put_documented send objs" "get_documented send calm objs" and libs: "server_libs_ok L"
    and same: "s3l_key SL = sl_key L" "s3l_crypto SL = sl_crypto L"
    and who: "attributed_decode (sl_crypto L) B vkey sig pool_text = Ok ad"
    and acked: "submit L (s3_op_store SL A send) w (over ad wire) ik b = (ik1, b1, Ok v)"
    and later: "submits L (s3_op_store SL A send) ws ik1 b1 = (ik2, b2)"
  shows "\<exists>h k. fresh_header L w (over ad wire) ik = Some h \<and> kind_of (h_schema_version h) = Some k
    \<and> pv_pool (h_provenance h) = ad_pool ad
    \<and> ((\<exists>(w', s') \<in> set ws. filed_under L w' s' ik (object_key (sl_key L) (stored_for L w (over ad wire) h k)))
       \<or> s3_stored SL A send calm b2 (object_key (sl_key L) (stored_for L w (over ad wire) h k))
           = Ok (wire, Some (ad_attestation ad)))"
proof -
  have key: "object_key (s3l_key SL) x = object_key (sl_key L) x" for x by (simp add: same)
  have pair: "usable_pair SL (s3_metadata (ad_attestation ad)) = Some (ad_attestation ad)"
    using who same(2) by (intro metadata_roundtrip) (simp add: attributed_decode_Ok attestation_decode_Ok)
  have content: "s3_content SL (stored_for L w (over ad wire) h k) = (wire, Some (ad_attestation ad))"
    for w :: "(nat \<Rightarrow> 'a) submit_world" and h k
    by (simp add: s3_content_def stored_for_def pair)
  have good: "s3_good SL send calm objs (stored_for L w s h k)"
    if "fresh_header L w s ik = Some h" "pv_pool (h_provenance h) = sg_pool s" for w :: "(nat \<Rightarrow> 'a) submit_world" and s h k
    using s3_good_stored [OF doc libs same(1) that] .
  from s3.acknowledged_kept [OF good key acked later] show ?thesis by (simp add: content)
qed

section \<open>What the reader sees\<close>

text \<open>The pair goes out in the two headers and comes back from them.\<close>

lemma attested_headers_back:
  assumes "attestation_wf C a"
  shows "(let hs = map_of (attested_headers (Some a)) in
      from_headers C (map_option header_text (hs HEADER_VKEY)) (map_option header_text (hs HEADER_SIGNATURE))) = Pair a"
proof -
  have "header_text (encode b) = encode b" for b
    using encode_visible by (force simp: header_text_def list_all_iff)
  with assms show ?thesis
    by (simp add: attested_headers_def headers_def from_headers_Pair attestation_decode_Ok HEADER_VKEY_def HEADER_SIGNATURE_def)
qed

lemma s3_stored_reader:
  assumes "s3_stored SL A send calm b key = Ok (body, pair)" and "get_documented send calm objs"
  shows "\<exists>st. s3_op_reader SL A send calm b key = Ok st \<and> os_content st = Ok body \<and> os_length st = length body
    \<and> os_attestation st = pair"
proof -
  obtain name where name: "object_name_parse (s3l_key SL) key = Ok name"
    using assms by (auto simp: s3_stored_documented [OF assms(2)] and_then_Ok_iff)
  from s3_reader_documented [OF assms(2) name, of A b] assms(1) show ?thesis
    by (cases "map_of (objs b) key") (auto simp: s3_stored_def)
qed

lemma acknowledged_sound:
  assumes "server_libs_ok L" and "attributed_decode (sl_crypto L) B vkey sig pool_text = Ok ad"
    and "submit L store w (over ad wire) ik b = (ik1, b1, Ok v)"
    and "fresh_header L w (over ad wire) ik = Some h" "kind_of (h_schema_version h) = Some k"
  shows "verifies (sl_crypto L) (ad_attestation ad) wire
    \<and> (attributes (sl_crypto L) (ad_attestation ad) = None \<or> attributes (sl_crypto L) (ad_attestation ad) = Some (ad_pool ad))
    \<and> object_name_parse (sl_key L) (object_key (sl_key L) (stored_for L w (over ad wire) h k))
        = Ok (ss_name (stored_for L w (over ad wire) h k))
    \<and> on_pool (ss_name (stored_for L w (over ad wire) h k)) = ad_pool ad"
proof -
  have "\<exists>ik' v. submit L store w (over ad wire) ik b = (ik', b1, Ok v)" using assms(3) by blast
  from acknowledged_parts [OF this] assms(4) have p: "proven L w (over ad wire) ik" and pool: "pv_pool (h_provenance h) = sg_pool (over ad wire)"
    by auto
  have agrees: "header_pool_agrees (sl_crypto L) ad" using assms(2) by (simp add: attributed_decode_Ok)
  have "object_name_wf (sl_key L) (ss_name (stored_for L w (over ad wire) h k))"
    by (rule stored_name_wf [OF assms(1,4) pool])
  moreover have "key_lib_ok (sl_key L)" using assms(1) by (simp add: server_libs_ok_def)
  moreover have "verifies (sl_crypto L) (ad_attestation ad) wire" using p by (simp add: proven_def signed_verifies_def)
  moreover have "attributes (sl_crypto L) (ad_attestation ad) = None \<or> attributes (sl_crypto L) (ad_attestation ad) = Some (ad_pool ad)"
    using agrees by (auto simp: header_pool_agrees_def split: option.splits)
  ultimately show ?thesis
    by (simp add: object_key_def parse_to_key) (simp add: stored_for_def object_name_stamped_def)
qed

text \<open>A run and a server that share their libraries, over the bucket as submissions left it.\<close>

definition bucket_run ::
  "server_libs \<Rightarrow> s3_libs \<Rightarrow> s3_archive \<Rightarrow> ('m, 'b) s3_send \<Rightarrow> 'm \<Rightarrow> (nat \<Rightarrow> 'm, 'b) server \<Rightarrow> mishap option list run_env \<Rightarrow> bool" where
  "bucket_run L SL A send calm S E \<longleftrightarrow>
     server_libs_ok L \<and> s3l_key SL = sl_key L \<and> s3l_crypto SL = sl_crypto L
     \<and> pl_key (fl_pull (re_libs E)) = sl_key L \<and> pl_crypto (fl_pull (re_libs E)) = sl_crypto L
     \<and> ao_reader (sr_ops S) = s3_op_reader SL A send calm"

lemma attested_object:
  assumes over: "bucket_run L SL A send calm S E" and doc: "get_documented send calm objs"
    and run: "account_run S E" and k: "valid_utf8 key" "key \<noteq> []"
    and stored: "s3_stored SL A send calm (sr_archive S) key = Ok (wire, Some a)" "length wire \<le> vf_max_object_bytes (re_ver E)"
    and wf: "attestation_wf (sl_crypto L) a"
  shows "archive_object E key = Ok \<lparr>ob_bytes = wire, ob_attestation = Pair a\<rparr>"
proof -
  from s3_stored_reader [OF stored(1) doc] over obtain st where st: "ao_reader (sr_ops S) (sr_archive S) key = Ok st"
      "os_content st = Ok wire" "os_length st = length wire" "os_attestation st = Some a"
    by (auto simp: bucket_run_def)
  show ?thesis
    using archive_object_read [OF run k(1,2) st(1,2)] st(3,4) stored(2) attested_headers_back [OF wf] over
    by (simp add: bucket_run_def)
qed

lemma landed_attested:
  assumes over: "bucket_run L SL A send calm S E" and k: "key_selected E key"
    and ob: "archive_object E key = Ok \<lparr>ob_bytes = wire, ob_attestation = Pair a\<rparr>"
    and sound: "verifies (sl_crypto L) a wire" "object_name_parse (sl_key L) key = Ok name"
      "attributes (sl_crypto L) a = None \<or> attributes (sl_crypto L) a = Some (on_pool name)"
    and bar: "vf_insist (re_ver E) = InsistColdSigned \<Longrightarrow> attributes (sl_crypto L) a \<noteq> None"
  shows "lands E (archive_object E) key = Some wire"
  using over k ob sound bar by (auto simp: lands_def checked_def Let_def bucket_run_def)

section \<open>Properties\<close>

text \<open>
  C3: What is acknowledged reaches the developer. An upload the intake acknowledged into the bucket, whatever is
  submitted after it (short of another upload under the very same key), is on the disk of every developer whose sync
  selects its key and reports: byte for byte what the agent sent, its signature checked on the way, even under
  \<open>--require-cold-signed\<close> when a cold key signed it; however many earlier runs broke off, and whatever answers this one lost.
\<close>

theorem acknowledged_reaches_disk:
  assumes over: "bucket_run L SL A send calm S E" and doc: "put_documented send objs" "get_documented send calm objs"
    and who: "attributed_decode (sl_crypto L) B vkey sig pool_text = Ok ad"
    and acked: "submit L (s3_op_store SL A send) w (over ad wire) ik b = (ik1, b1, Ok v)"
    and later: "submits L (s3_op_store SL A send) ws ik1 b1 = (ik2, sr_archive S)"
    and h: "fresh_header L w (over ad wire) ik = Some h" "kind_of (h_schema_version h) = Some k"
    and key: "key = object_key (sl_key L) (stored_for L w (over ad wire) h k)"
    and alone: "\<not> (\<exists>(w', s') \<in> set ws. filed_under L w' s' ik key)"
    and served: "served_by S E ks n obj" and run: "state_apart E" "codecs_ok E"
      "valid_utf8 (days_after (f_days (re_filters E)) [])" "f0 (ds_state (re_dest E)) = None" "left_by E f0 (dk_files d)"
    and asked: "key \<in> set (run_keys E ks)" "key_selected E key" "length wire \<le> vf_max_object_bytes (re_ver E)"
    and bar: "vf_insist (re_ver E) = InsistColdSigned \<Longrightarrow> attributes (sl_crypto L) (ad_attestation ad) \<noteq> None"
    and ran: "run fuel E net d = Some en" "en_result en = Ok rep"
  shows "dk_files (en_disk en) (key_path E key) = Some wire"
proof -
  from over have libs: "server_libs_ok L" and same: "s3l_key SL = sl_key L" "s3l_crypto SL = sl_crypto L"
    by (simp_all add: bucket_run_def)
  from s3_acknowledged_kept [OF doc libs same who acked later] h alone key
  have stored: "s3_stored SL A send calm (sr_archive S) key = Ok (wire, Some (ad_attestation ad))" by auto
  note sound = acknowledged_sound [OF libs who acked h, folded key]
  have wf: "attestation_wf (sl_crypto L) (ad_attestation ad)"
    using who by (simp add: attributed_decode_Ok attestation_decode_Ok)
  from served have acct: "account_run S E" and obj: "obj = archive_object E" by (auto simp: served_by_def)
  from asked(1) have "key \<in> set ks" by (auto simp: run_keys_def keys_past_def dest: set_takeWhileD)
  with served.listed [OF served] have utf8: "valid_utf8 key" by (auto simp: list_all_iff)
  have "key \<noteq> []" using selected_nameable [OF asked(2)] nameable_pieces by fastforce
  from attested_object [OF over doc(2) acct utf8 this stored asked(3) wf]
  have "lands E (archive_object E) key = Some wire"
    using landed_attested [OF over asked(2)] sound bar by auto
  then have lands: "lands E obj key = Some wire" by (simp add: obj)
  from served.runs_settle [OF served run, of net] obtain en' where
    en': "run (Suc (length ks)) E net d = Some en'" "\<forall>rep. en_result en' = Ok rep \<longrightarrow>
         (\<forall>k \<in> set (run_keys E ks). settled E obj f0 (dk_files (en_disk en')) k)" by blast
  moreover from run_more [OF en'(1), of fuel] run_more [OF ran(1), of "Suc (length ks)"] have "en' = en"
    by (simp add: add.commute)
  ultimately show ?thesis using ran(2) asked(1,2) lands by (auto simp: settled_def)
qed

text \<open>
  A concrete bucket that does what S3 documents, its state the objects themselves, and the witnesses of the
  properties over it.
\<close>

section \<open>The bucket\<close>

datatype s3_trouble = Undisturbed | NeverArrives | AnswerLost | SlowDown

type_synonym demo_bucket = "(string \<times> s3_object) list"

definition demo_answer :: "nat \<Rightarrow> (string \<times> string) list \<Rightarrow> bytes \<Rightarrow> s3_answer" where
  "demo_answer status md body =
     \<lparr>sa_status = status, sa_header = map_of md, sa_length = Some (length body), sa_text = Ok body, sa_vec = Ok body,
      sa_stream = Ok body\<rparr>"

text \<open>A page of a listing is as many keys as were asked for, or one; its token is its last key.\<close>

definition demo_rows :: "nat option \<Rightarrow> nat" where
  "demo_rows n = (case n of None \<Rightarrow> 1 | Some k \<Rightarrow> k)"

definition demo_listed :: "nat option \<Rightarrow> string list \<Rightarrow> bytes" where
  "demo_listed n rest =
     (let c = demo_rows n in
      hexes ((if c < length rest then last (take c rest) else []) # take c rest))"

definition demo_apply :: "s3_request \<Rightarrow> demo_bucket \<Rightarrow> demo_bucket \<times> s3_answer" where
  "demo_apply rq b =
     (case sq_action rq of
        PutObject key hs \<Rightarrow> (AList.update key (sq_headers rq, sq_body rq) b, demo_answer 200 [] [])
      | GetObject key \<Rightarrow>
          (b, case map_of b key of None \<Rightarrow> demo_answer 404 [] ''NoSuchKey'' | Some (md, body) \<Rightarrow> demo_answer 200 md body)
      | ListObjects p token aft n \<Rightarrow>
          (b, demo_answer 200 [] (demo_listed n (keys_after b p (list_start (\<lambda>t. t) token aft)))))"

fun demo_send :: "(s3_trouble, demo_bucket) s3_send" where
  "demo_send Undisturbed rq b = map_prod id Ok (demo_apply rq b)"
| "demo_send NeverArrives rq b = (b, Err (OtherUreq ''refused''))"
| "demo_send AnswerLost rq b = (fst (demo_apply rq b), Err (OtherUreq ''timeout''))"
| "demo_send SlowDown rq b = (b, Ok (demo_answer 503 [] ''SlowDown''))"

definition demo_s3_libs :: s3_libs where
  "demo_s3_libs = \<lparr>s3l_crypto = demo_crypto, s3l_key = demo_key_lib,
     bucket_new = (\<lambda>url style name region. Ok \<lparr>bk_name = name, bk_base_url = url @ name\<rparr>),
     list_parse_response = (\<lambda>t. case unhexes t of
        token # ks \<Rightarrow> Ok \<lparr>li_contents = ks, li_next_token = (if token = [] then None else Some token)\<rparr> | [] \<Rightarrow> Err ''none''),
     ureq_text = (\<lambda>_. ''transport''), name_error_text = (\<lambda>_. ''name''), pair_error_text = (\<lambda>_. ''attestation''),
     debug_text = (\<lambda>s. s)\<rparr>"

definition demo_s3 :: s3_archive where
  "demo_s3 = \<lparr>s3_bucket = \<lparr>bk_name = ''metsuke'', bk_base_url = ''https://s3.example/metsuke''\<rparr>,
     s3_credentials = (''id'', ''secret''), s3_timeout_ms = 1000, s3_signature_validity_ms = 60000,
     s3_put_retries = 2, s3_put_retry_backoff_ms = 10, s3_list_max_pages = 5\<rparr>"

section \<open>It does what S3 documents\<close>

lemma demo_send_cases:
  "demo_send m rq b = (b', x) \<Longrightarrow>
    (b' = b \<or> b' = fst (demo_apply rq b)) \<and> (\<forall>ans. x = Ok ans \<longrightarrow> succeeded ans \<longrightarrow> (b', ans) = demo_apply rq b)"
  by (cases m; cases "demo_apply rq b") (auto simp: demo_answer_def succeeded_def)

lemma demo_put_documented: "put_documented demo_send (\<lambda>b. b)"
proof -
  have "(distinct (map fst b) \<longrightarrow> distinct (map fst b')) \<and> (\<forall>k. k \<noteq> key \<longrightarrow> map_of b' k = map_of b k)
      \<and> (\<forall>ans. x = Ok ans \<longrightarrow> succeeded ans \<longrightarrow> map_of b' key = Some (sq_headers rq, sq_body rq))"
    if "sq_action rq = PutObject key hs" "demo_send m rq b = (b', x)" for m rq key hs b b' x
  proof -
    have "fst (demo_apply rq b) = AList.update key (sq_headers rq, sq_body rq) b" using that(1) by (simp add: demo_apply_def)
    moreover from demo_send_cases [OF that(2)] have "b' = b \<or> b' = fst (demo_apply rq b)" by blast
    moreover from demo_send_cases [OF that(2)] have "\<forall>ans. x = Ok ans \<longrightarrow> succeeded ans \<longrightarrow> b' = fst (demo_apply rq b)"
      by (metis fst_eqD)
    ultimately show ?thesis by (auto simp: update_conv' distinct_update)
  qed
  then show ?thesis unfolding put_documented_def by blast
qed

lemma demo_get_documented: "get_documented demo_send Undisturbed (\<lambda>b. b)"
proof -
  have "\<exists>b' ans. demo_send Undisturbed rq b = (b', Ok ans) \<and> b' = b \<and>
          (case map_of b key of
             None \<Rightarrow> sa_status ans = 404
           | Some (md, body) \<Rightarrow> sa_status ans = 200 \<and> sa_header ans META_VKEY = map_of md META_VKEY
               \<and> sa_header ans META_SIGNATURE = map_of md META_SIGNATURE
               \<and> sa_length ans = Some (length body) \<and> sa_stream ans = Ok body)"
    if "sq_action rq = GetObject key" for rq key b
    using that by (cases "map_of b key") (auto simp: demo_apply_def demo_answer_def)
  then show ?thesis unfolding get_documented_def by blast
qed

lemma keys_after_nonempty: "k \<in> set (keys_after b p a) \<Longrightarrow> k \<noteq> []"
  by (auto simp: keys_after_def key_matches_set)

lemma demo_listed_read:
  assumes "list_all (\<lambda>k. k \<noteq> []) rest" and "n \<noteq> Some 0"
  shows "\<exists>l. list_parse_response demo_s3_libs (demo_listed n rest) = Ok l
    \<and> li_contents l = take (demo_rows n) rest
    \<and> li_next_token l = (if demo_rows n < length rest then Some (last (take (demo_rows n) rest)) else None)
    \<and> 0 < demo_rows n"
proof -
  let ?c = "demo_rows n"
  have c: "0 < ?c" using assms(2) by (cases n) (auto simp: demo_rows_def)
  have "last (take ?c rest) \<noteq> []" if "?c < length rest"
  proof -
    from that c have "take ?c rest \<noteq> []" by auto
    then have "last (take ?c rest) \<in> set rest" using last_in_set in_set_takeD by metis
    with assms(1) show ?thesis by (auto simp: list_all_iff)
  qed
  with c show ?thesis by (auto simp: demo_s3_libs_def demo_listed_def Let_def)
qed

lemma demo_list_documented: "list_documented demo_s3_libs demo_send (\<lambda>t. t) (\<lambda>b. b)"
proof -
  have "b' = b \<and> (\<forall>ans t l. x = Ok ans \<longrightarrow> succeeded ans \<longrightarrow> sa_text ans = Ok t \<longrightarrow>
        list_parse_response demo_s3_libs t = Ok l \<longrightarrow>
          run_of_keys (\<lambda>t. t) (keys_after b p (list_start (\<lambda>t. t) token aft)) l)"
    if act: "sq_action rq = ListObjects p token aft n" and n: "n \<noteq> Some 0" and sent: "demo_send m rq b = (b', x)"
    for m rq p token aft n b b' x
  proof -
    let ?rest = "keys_after b p (list_start (\<lambda>t. t) token aft)"
    have applied: "demo_apply rq b = (b, demo_answer 200 [] (demo_listed n ?rest))"
      using act by (simp add: demo_apply_def)
    have "list_all (\<lambda>k. k \<noteq> []) ?rest" using keys_after_nonempty by (auto simp: list_all_iff)
    from demo_listed_read [OF this n] have "run_of_keys (\<lambda>t. t) ?rest l"
      if "list_parse_response demo_s3_libs (demo_listed n ?rest) = Ok l" for l
      using that by (auto simp: run_of_keys_def intro: exI [of _ "demo_rows n"] split: if_splits)
    with demo_send_cases [OF sent] applied show ?thesis by (auto simp: demo_answer_def)
  qed
  then show ?thesis unfolding list_documented_def by blast
qed

lemma demo_page_documented: "page_documented demo_s3_libs demo_send Undisturbed (\<lambda>b. b)"
proof -
  have "\<exists>b' ans t l. demo_send Undisturbed rq b = (b', Ok ans) \<and> b' = b \<and> succeeded ans \<and> sa_text ans = Ok t
      \<and> list_parse_response demo_s3_libs t = Ok l
      \<and> li_contents l = take n (keys_after b p (case aft of Some a \<Rightarrow> a | None \<Rightarrow> []))
      \<and> (li_next_token l \<noteq> None \<longleftrightarrow> n < length (keys_after b p (case aft of Some a \<Rightarrow> a | None \<Rightarrow> [])))"
    if act: "sq_action rq = ListObjects p None aft (Some n)" and n: "0 < n" for rq p aft n b
  proof -
    let ?rest = "keys_after b p (case aft of Some a \<Rightarrow> a | None \<Rightarrow> [])"
    have "list_all (\<lambda>k. k \<noteq> []) ?rest" using keys_after_nonempty by (auto simp: list_all_iff)
    from demo_listed_read [OF this, of "Some n"] n obtain l where
      "list_parse_response demo_s3_libs (demo_listed (Some n) ?rest) = Ok l" "li_contents l = take n ?rest"
      "li_next_token l \<noteq> None \<longleftrightarrow> n < length ?rest"
      by (auto simp: demo_rows_def split: if_splits)
    with act show ?thesis
      by (auto simp: demo_apply_def demo_answer_def succeeded_def list_start_def)
  qed
  then show ?thesis unfolding page_documented_def by blast
qed

section \<open>Witnesses\<close>

text \<open>A first PUT that does not arrive, a second whose answer is lost, and a third that is answered.\<close>

definition demo_troubles :: "nat \<Rightarrow> s3_trouble" where
  "demo_troubles n = (if n = 1 then NeverArrives else if n = 2 then AnswerLost else Undisturbed)"

lemma demo_stored:
  "\<exists>log. s3_store demo_s3_libs demo_s3 demo_send demo_troubles s []
      = ([(object_key demo_key_lib s, s3_metadata (ss_pair s), ss_body s)], log, Ok ()) \<and> length log = 2"
  by (simp add: s3_store_def s3_store_loop.simps s3_put_def demo_troubles_def demo_apply_def s3_answered_def
      demo_s3_def demo_s3_libs_def demo_answer_def classify_def)

theorem s3_store_decided_witness:
  "\<exists>log b' r. s3_store demo_s3_libs demo_s3 demo_send demo_troubles
       \<lparr>ss_name = demo_name, ss_pair = demo_att, ss_body = demo_content\<rparr> [] = (b', log, r)
     \<and> decided demo_s3 (object_key demo_key_lib \<lparr>ss_name = demo_name, ss_pair = demo_att, ss_body = demo_content\<rparr>)
         (put_outcome demo_s3_libs demo_s3 demo_send demo_troubles
           (object_key demo_key_lib \<lparr>ss_name = demo_name, ss_pair = demo_att, ss_body = demo_content\<rparr>)
           (s3_metadata demo_att) demo_content []) 2 (Ok ())"
proof -
  let ?s = "\<lparr>ss_name = demo_name, ss_pair = demo_att, ss_body = demo_content\<rparr>"
  from demo_stored [of ?s] obtain b' log where s: "s3_store demo_s3_libs demo_s3 demo_send demo_troubles ?s [] = (b', log, Ok ())"
    "length log = 2" by blast
  have "s3l_key demo_s3_libs = demo_key_lib" by (simp add: demo_s3_libs_def)
  with s3_store_decided [OF s(1)] s show ?thesis by auto
qed

definition demo_two :: demo_bucket where
  "demo_two = [(''v1/b'', [], ''2''), (''x/c'', [], ''3''), (''v1/a'', [], ''1'')]"

lemma demo_two_keys: "keys_after demo_two KEY_PREFIX [] = [''v1/a'', ''v1/b'']"
  "keys_after demo_two KEY_PREFIX ''v1/a'' = [''v1/b'']"
  by (simp_all add: keys_after_def key_matches_def demo_two_def KEY_PREFIX_def starts_with_def)

lemma demo_two_pages:
  "s3_list demo_s3_libs demo_s3 demo_send Undisturbed (ListObjects KEY_PREFIX None None None) demo_two
    = (demo_two, Ok \<lparr>li_contents = [''v1/a''], li_next_token = Some ''v1/a''\<rparr>)"
  "s3_list demo_s3_libs demo_s3 demo_send Undisturbed (ListObjects KEY_PREFIX (Some ''v1/a'') None None) demo_two
    = (demo_two, Ok \<lparr>li_contents = [''v1/b''], li_next_token = None\<rparr>)"
  by (simp_all add: s3_list_def s3_get_def demo_apply_def s3_answered_def demo_s3_libs_def
      demo_answer_def classify_def demo_two_keys list_start_def demo_listed_def demo_rows_def)

lemma demo_two_listed:
  "s3_for_each_key demo_s3_libs demo_s3 demo_send (\<lambda>_. Undisturbed) id (keep_key (\<lambda>_. True)) demo_two []
    = (demo_two, [''v1/a'', ''v1/b''], Ok ())"
proof -
  have "s3_list_max_pages demo_s3 = Suc (Suc 3)" by (simp add: demo_s3_def)
  then show ?thesis unfolding s3_for_each_key_def by (simp only: s3_pages.simps, simp add: demo_two_pages visit_keep)
qed

theorem s3_listing_complete_witness:
  "s3_for_each_key demo_s3_libs demo_s3 demo_send (\<lambda>_. Undisturbed) id (keep_key (\<lambda>_. True)) demo_two []
     = (demo_two, keys_after demo_two KEY_PREFIX [], Ok ())"
  using s3_listing_complete [OF demo_list_documented _ demo_two_listed] demo_two_listed
  by (simp add: demo_two_def)


text \<open>An upload into the empty bucket, and a developer's sync of what became of it.\<close>

definition demo_s3_world :: "(nat \<Rightarrow> s3_trouble) submit_world" where
  "demo_s3_world = \<lparr>iw_now = 1000000000, iw_roster = \<lparr>seen_first = None, seen_again = None, seen_text = Err ''none''\<rparr>,
     iw_entropy = ''r'', iw_store = demo_troubles\<rparr>"

definition demo_upload :: stored_submission where
  "demo_upload = stored_for demo_verifier demo_s3_world (over demo_filed demo_wire) (header_of demo_envelope) Metrics"

definition demo_upload_key :: string where
  "demo_upload_key = object_key demo_key_lib demo_upload"

definition demo_filled :: demo_bucket where
  "demo_filled = [(demo_upload_key, s3_metadata (ss_pair demo_upload), ss_body demo_upload)]"

definition demo_s3_server :: "(nat \<Rightarrow> s3_trouble, demo_bucket) server" where
  "demo_s3_server = \<lparr>sr_http = demo_http, sr_ops = s3_ops demo_s3_libs demo_s3 demo_send Undisturbed,
     sr_developer = demo_developer, sr_pages = \<lparr>sp_quickstart = [], sp_details = [], sp_analysis = [], sp_files = []\<rparr>,
     sr_world = demo_s3_world, sr_intake = demo_intake, sr_archive = demo_filled\<rparr>"

definition demo_s3_run :: "mishap option list run_env" where
  "demo_s3_run = (demo_run None InsistColdSigned)\<lparr>re_send :=
     server_network demo_s3_server (ac_server (re_client (demo_run None InsistColdSigned)))\<rparr>"

lemma demo_upload_acked:
  "\<exists>ik v. submit demo_verifier (s3_op_store demo_s3_libs demo_s3 demo_send) demo_s3_world (over demo_filed demo_wire) demo_intake []
    = (ik, demo_filled, Ok v)"
proof -
  have "s3_op_store demo_s3_libs demo_s3 demo_send (iw_store demo_s3_world) demo_upload [] = (demo_filled, Ok ())"
    using demo_stored [of demo_upload]
    by (auto simp: s3_op_store_def demo_s3_world_def demo_filled_def demo_upload_key_def)
  then show ?thesis
    by (intro demo_acked_when demo_taken) (simp_all add: demo_s3_world_def demo_upload_def)
qed

lemma demo_upload_name:
  "ss_name demo_upload = \<lparr>on_id = Uuid (CHR 0x01 # CHR ''r'' # replicate 16 (CHR 0x00)), on_pool = PoolId (replicate 28 (CHR ''p'')),
     on_agent = ''relay-1'', on_kind = Metrics\<rparr>"
  by (simp add: demo_upload_def stored_for_def object_name_stamped_def demo_s3_world_def demo_verifier_def demo_key_lib_def
      header_of_def demo_envelope_def new_envelope_def demo_provenance_def demo_filed_def filed_def char_of_def bit_0)

lemma demo_upload_nameable:
  "object_name_parse demo_key_lib demo_upload_key = Ok (ss_name demo_upload)" "valid_utf8 demo_upload_key"
  "starts_with KEY_PREFIX demo_upload_key" "[] < demo_upload_key"
proof -
  have "object_name_wf demo_key_lib (ss_name demo_upload)"
    by (simp add: demo_upload_name object_name_wf_def demo_key_lib_def pool_id_wf_def is_slug_def
        is_slug_char_def is_digit_def is_lower_def)
  then show "object_name_parse demo_key_lib demo_upload_key = Ok (ss_name demo_upload)"
    by (simp add: demo_upload_key_def object_key_def parse_to_key demo_key_lib_ok)
  show "valid_utf8 demo_upload_key" unfolding demo_upload_key_def object_key_def
    by (rule demo_key_utf8) (simp add: demo_upload_name)
  show "starts_with KEY_PREFIX demo_upload_key" "[] < demo_upload_key"
    by (simp_all add: demo_upload_key_def object_key_def to_key_def starts_with_def KEY_PREFIX_def)
qed

lemma demo_s3_run_simps [simp]:
  "re_libs demo_s3_run = demo_fetch InsistColdSigned"
  "re_client demo_s3_run = new_client demo_pull ''https://metsuke.example/'' ''dev'' ''secret''"
  "re_send demo_s3_run = server_network demo_s3_server (ac_server (re_client demo_s3_run))"
  "re_filters demo_s3_run = demo_filters" "re_dest demo_s3_run = \<lparr>ds_into = [''dl''], ds_state = [''state'']\<rparr>"
  "re_ver demo_s3_run = demo_ver InsistColdSigned" "sr_archive demo_s3_server = demo_filled"
  "sr_ops demo_s3_server = s3_ops demo_s3_libs demo_s3 demo_send Undisturbed"
  "sr_http demo_s3_server = demo_http" "sr_developer demo_s3_server = demo_developer"
  by (simp_all add: demo_s3_run_def demo_s3_server_def)

lemma demo_s3_served:
  "served_by demo_s3_server demo_s3_run [demo_upload_key] 2 (archive_object demo_s3_run)"
proof -
  have "base64_ok demo_pull demo_dev_libs"
    using encode_visible by (force simp: base64_ok_def demo_pull_def demo_dev_libs_def list_all_iff)
  moreover have "listing_ok demo_pull demo_dev_libs" by (simp add: listing_ok_def demo_pull_def demo_dev_libs_def)
  ultimately have "account_run demo_s3_server demo_s3_run" using demo_account by (auto simp: account_run_def)
  moreover have "lists demo_s3_server (map fst (id (sr_archive demo_s3_server)))"
    by (rule s3_lists [where objs = id])
      (use demo_page_documented demo_upload_nameable in
        \<open>simp_all add: s3_readable_def demo_filled_def demo_developer_def list_max_rows_def LIST_MAX_ROWS_CAP_def id_def\<close>)
  then have "lists demo_s3_server [demo_upload_key]" by (simp add: demo_filled_def)
  moreover have "offered demo_s3_run [demo_upload_key] = [demo_upload_key]"
    using demo_upload_nameable(3) by (simp add: offered_def asked_prefix_def)
  ultimately show ?thesis by (auto simp: served_by_def demo_developer_def list_max_rows_def LIST_MAX_ROWS_CAP_def)
qed

lemma demo_s3_ready:
  "state_apart demo_s3_run" "codecs_ok demo_s3_run" "valid_utf8 (days_after (f_days (re_filters demo_s3_run)) [])"
  "key_selected demo_s3_run demo_upload_key" "run_keys demo_s3_run [demo_upload_key] = [demo_upload_key]"
proof -
  from demo_apart show "state_apart demo_s3_run" by (simp add: state_apart_def outside_def)
  from demo_codecs show "codecs_ok demo_s3_run" by (simp add: codecs_ok_def)
  show "valid_utf8 (days_after (f_days (re_filters demo_s3_run)) [])" by (simp add: days_after_def)
  show "key_selected demo_s3_run demo_upload_key"
    by (simp add: selects_Yes demo_upload_nameable wants_def)
  show "run_keys demo_s3_run [demo_upload_key] = [demo_upload_key]"
    using demo_upload_nameable(4) by (simp add: run_keys_def keys_past_def days_after_def days_past_def)
qed

lemma demo_s3_bucket_run:
  "bucket_run demo_verifier demo_s3_libs demo_s3 demo_send Undisturbed demo_s3_server demo_s3_run"
  using demo_verifier_ok by (simp add: bucket_run_def demo_s3_libs_def demo_verifier_def s3_ops_def demo_fetch_def demo_pull_def)

lemma demo_s3_takeable: "\<forall>k \<in> set [demo_upload_key]. takeable demo_s3_run k"
proof -
  obtain vkey sig ptext where who: "attributed_decode (sl_crypto demo_verifier) demo_bech32 vkey sig ptext = Ok demo_filed"
    using demo_attributed by (auto simp: demo_libs)
  obtain ik v where acked: "submit demo_verifier (s3_op_store demo_s3_libs demo_s3 demo_send) demo_s3_world (over demo_filed demo_wire)
      demo_intake [] = (ik, demo_filled, Ok v)" using demo_upload_acked by blast
  have "map_of demo_filled demo_upload_key = Some (s3_metadata (ad_attestation demo_filed), demo_wire)"
    by (simp add: demo_filled_def demo_upload_def stored_for_def)
  moreover have wf: "attestation_wf demo_crypto (ad_attestation demo_filed)"
    using who by (simp add: attributed_decode_Ok attestation_decode_Ok demo_libs)
  then have "usable_pair demo_s3_libs (s3_metadata (ad_attestation demo_filed)) = Some (ad_attestation demo_filed)"
    by (intro metadata_roundtrip) (simp add: demo_s3_libs_def)
  ultimately have "s3_stored demo_s3_libs demo_s3 demo_send Undisturbed (sr_archive demo_s3_server) demo_upload_key
      = Ok (demo_wire, Some (ad_attestation demo_filed))"
    using demo_upload_nameable(1)
    by (simp add: s3_stored_documented [OF demo_get_documented] demo_s3_libs_def)
  moreover have "account_run demo_s3_server demo_s3_run" using demo_s3_served by (simp add: served_by_def)
  moreover have "length demo_wire \<le> vf_max_object_bytes (re_ver demo_s3_run)"
    by (simp add: demo_ver_def demo_wire_def frame_def payload_lines_concat demo_envelope_def new_envelope_def scrapes_payload_def)
  ultimately have "archive_object demo_s3_run demo_upload_key = Ok \<lparr>ob_bytes = demo_wire, ob_attestation = Pair (ad_attestation demo_filed)\<rparr>"
    using wf demo_upload_nameable
    by (intro attested_object [OF demo_s3_bucket_run demo_get_documented]) (simp_all add: demo_libs)
  then show ?thesis by (simp add: takeable_def)
qed

theorem acknowledged_reaches_disk_witness:
  "\<exists>en rep. run 2 demo_s3_run [] fresh_disk = Some en \<and> en_result en = Ok rep
    \<and> dk_files (en_disk en) (key_path demo_s3_run demo_upload_key) = Some demo_wire"
proof -
  obtain vkey sig ptext where who: "attributed_decode (sl_crypto demo_verifier) demo_bech32 vkey sig ptext = Ok demo_filed"
    using demo_attributed by (auto simp: demo_libs)
  obtain ik v where acked: "submit demo_verifier (s3_op_store demo_s3_libs demo_s3 demo_send) demo_s3_world (over demo_filed demo_wire)
      demo_intake [] = (ik, demo_filled, Ok v)" using demo_upload_acked by blast
  have h: "fresh_header demo_verifier demo_s3_world (over demo_filed demo_wire) demo_intake = Some (header_of demo_envelope)"
  proof -
    have "json_ok (sl_json demo_verifier)" "header_json (sl_json demo_verifier) demo_envelope = Ok ''h''"
      "seal demo_crypto (sl_json demo_verifier) demo_zstd demo_signer demo_envelope 0 = Ok (demo_wire, ss_attestation demo_sub)"
      using demo_sealed demo_header_json demo_json_ok by (simp_all add: demo_libs demo_sub_def)
    note fresh = sealed_fresh_header [OF this(1,3,2)]
    show ?thesis unfolding fresh
      by (simp add: demo_intake_def new_intake_def demo_ingest_def stale_def demo_s3_world_def
          header_of_def demo_envelope_def new_envelope_def)
  qed
  have k: "kind_of (h_schema_version (header_of demo_envelope)) = Some Metrics"
    by (simp add: kind_of_def header_of_def demo_envelope_def new_envelope_def scrapes_payload_def)
  have key: "demo_upload_key = object_key (sl_key demo_verifier) (stored_for demo_verifier demo_s3_world (over demo_filed demo_wire)
      (header_of demo_envelope) Metrics)" by (simp add: demo_upload_key_def demo_upload_def demo_libs)
  have cold: "attributes (sl_crypto demo_verifier) (ad_attestation demo_filed) \<noteq> None"
    by (simp add: demo_filed_def filed_def demo_sub_def demo_libs attest_attributes demo_signer_def)
  have small: "length demo_wire \<le> vf_max_object_bytes (re_ver demo_s3_run)"
    by (simp add: demo_ver_def demo_wire_def frame_def payload_lines_concat demo_envelope_def new_envelope_def scrapes_payload_def)
  have quiet: "submits demo_verifier (s3_op_store demo_s3_libs demo_s3 demo_send) [] ik demo_filled = (ik, sr_archive demo_s3_server)"
    by simp
  obtain en rep where en: "run 2 demo_s3_run [] fresh_disk = Some en" "en_result en = Ok rep"
    using quiet_run_settled [OF demo_s3_served demo_s3_ready(1-3) refl demo_claimable demo_left _ _ demo_s3_takeable, of "[]"]
    by (auto simp: numeral_2_eq_2)
  have "dk_files (en_disk en) (key_path demo_s3_run demo_upload_key) = Some demo_wire"
    by (rule acknowledged_reaches_disk [OF demo_s3_bucket_run demo_put_documented demo_get_documented who acked quiet h k key _
        demo_s3_served demo_s3_ready(1-3) refl demo_left _ demo_s3_ready(4) small _ en])
      (simp_all add: demo_s3_ready(5) cold)
  with en show ?thesis by blast
qed

end
