(* ===== verification/Serve.thy ===== *)
theory Serve
  imports Server_Laws
begin

text \<open>
  \<open>metsuke-server/src/serve.rs\<close>: the listener. hyper and tokio are outside the model, what they hand to the code
  and take from it is not: a request is its decoded head (\<open>raw_request\<close>) and the frames of its body with
  the millisecond each arrives at; an answer is the head \<open>respond\<close> builds and the frames of its body; a
  connection is the sequence of polls of its stream. A panic in \<open>http::answer\<close>, which \<open>blocking\<close>
  turns into a 503, has no counterpart: every function of the model is total.
\<close>

section \<open>A request\<close>

datatype hyper_method = HyperGet | HyperHead | HyperPost | HyperOther string

text \<open>What reading the body meets, in order: a sequence that does not end in \<open>Ended\<close> is a client that stopped sending.\<close>

datatype body_event = Data bytes | Trailers | Broken string | Ended

record raw_request =
  rw_method :: hyper_method
  rw_path_and_query :: "string option"
  rw_header :: "string \<Rightarrow> bytes option"
  rw_body :: "(nat \<times> body_event) list"

fun method_of :: "hyper_method \<Rightarrow> http_method" where
  "method_of HyperGet = Get"
| "method_of HyperHead = Head"
| "method_of HyperPost = Post"
| "method_of (HyperOther _) = OtherMethod"

definition raw_text :: "raw_request \<Rightarrow> string \<Rightarrow> string option" where
  "raw_text rw name = Option.bind (rw_header rw name) header_to_str"

definition decoded_request :: "server_libs \<Rightarrow> raw_request \<Rightarrow> request" where
  "decoded_request L rw =
     \<lparr>rt_method = method_of (rw_method rw),
      rt_target = (case rw_path_and_query rw of Some t \<Rightarrow> t | None \<Rightarrow> ''/''),
      rt_submission = attributed_decode (sl_crypto L) (kl_bech32 (sl_key L)) (raw_text rw HEADER_VKEY)
        (raw_text rw HEADER_SIGNATURE) (raw_text rw HEADER_POOL),
      rt_authorization = raw_text rw ''authorization'', rt_body = []\<rparr>"

definition takes_a_body :: "request \<Rightarrow> pool_id option" where
  "takes_a_body r =
     (if rt_method r = Post \<and> request_path r = SUBMIT_PATH
      then (case rt_submission r of Inr ad \<Rightarrow> Some (ad_pool ad) | Inl _ \<Rightarrow> None)
      else None)"

section \<open>Its body\<close>

definition declared_length :: "raw_request \<Rightarrow> nat option" where
  "declared_length rw = Option.bind (raw_text rw ''content-length'') parse_u64"

text \<open>\<open>bounded\<close>: when it is done, if ever, and with what.\<close>

fun bounded_body ::
  "http_libs \<Rightarrow> nat \<Rightarrow> pool_id option \<Rightarrow> bytes \<Rightarrow> (nat \<times> body_event) list \<Rightarrow> (nat \<times> (said, bytes) result) option" where
  "bounded_body H most signer collected [] = None"
| "bounded_body H most signer collected ((t, Ended) # es) = Some (t, Ok collected)"
| "bounded_body H most signer collected ((t, Broken e) # es) =
     Some (t, Err (refuse_request H signer 400 (''could not read the request body: '' @ e)))"
| "bounded_body H most signer collected ((t, Trailers) # es) = bounded_body H most signer collected es"
| "bounded_body H most signer collected ((t, Data d) # es) =
     (let collected = collected @ d in
      if most < length collected then Some (t, Err (oversized H signer (length collected) most))
      else bounded_body H most signer collected es)"

definition in_time :: "http_libs \<Rightarrow> nat \<Rightarrow> pool_id option \<Rightarrow> (nat \<times> (said, bytes) result) option \<Rightarrow> (said, bytes) result" where
  "in_time H timeout_ms signer finished =
     (case finished of
        Some (t, r) \<Rightarrow> if t \<le> timeout_ms then r
          else Err (refuse_request H signer 408
            (''the request body did not arrive within '' @ decimal (timeout_ms div 1000) @ ''s''))
      | None \<Rightarrow> Err (refuse_request H signer 408
            (''the request body did not arrive within '' @ decimal (timeout_ms div 1000) @ ''s'')))"

definition read_body ::
  "http_libs \<Rightarrow> raw_request \<Rightarrow> nat \<Rightarrow> nat \<Rightarrow> pool_id option \<Rightarrow> (said, bytes) result" where
  "read_body H rw most timeout_ms signer =
     (case declared_length rw of
        Some declared \<Rightarrow>
          if most < declared then Err (oversized H signer declared most)
          else in_time H timeout_ms signer (bounded_body H most signer [] (rw_body rw))
      | None \<Rightarrow> in_time H timeout_ms signer (bounded_body H most signer [] (rw_body rw)))"

text \<open>
  \<open>handle\<close> up to the answer: whose the request is, which the connection remembers, and what it is answered
  from the intake and the archive it meets.
\<close>

definition handle ::
  "http_libs \<Rightarrow> ('w, 'a) archive_ops \<Rightarrow> developer \<Rightarrow> served_pages \<Rightarrow> 'w submit_world \<Rightarrow> nat \<Rightarrow> raw_request \<Rightarrow> intake \<Rightarrow> 'a
    \<Rightarrow> pool_id option \<times> intake \<times> 'a \<times> said" where
  "handle H A dev pages w timeout_ms rw ik a =
     (let decoded = decoded_request (hl_server H) rw; signer = takes_a_body decoded in
      (signer,
       case signer of
         None \<Rightarrow> answer_request H A dev pages w decoded ik a
       | Some _ \<Rightarrow>
           (case read_body H rw (ic_max_body_bytes (ik_config ik)) timeout_ms signer of
              Inr body \<Rightarrow> answer_request H A dev pages w (decoded\<lparr>rt_body := body\<rparr>) ik a
            | Inl refused \<Rightarrow> (ik, a, refused))))"

section \<open>An answer\<close>

abbreviation quoted :: "string \<Rightarrow> string" where
  "quoted s \<equiv> CHR 0x27 # s @ [CHR 0x27]"

definition POLICY_HEADERS :: "(string \<times> string) list" where
  "POLICY_HEADERS =
     [(''content-security-policy'',
       ''default-src '' @ quoted ''none'' @ ''; img-src '' @ quoted ''self'' @ ''; style-src '' @ quoted ''unsafe-inline''
       @ ''; base-uri '' @ quoted ''none'' @ ''; form-action '' @ quoted ''none'' @ ''; frame-ancestors '' @ quoted ''none''),
      (''x-content-type-options'', ''nosniff''),
      (''referrer-policy'', ''no-referrer'')]"

datatype response_body = FullBody bytes | StreamedBody object_stream

record hyper_response =
  hr_status :: nat
  hr_headers :: "(string \<times> string) list"
  hr_body :: response_body

definition respond :: "answer \<Rightarrow> hyper_response" where
  "respond ans =
     (let hs = (''content-type'', an_content_type ans) # an_headers ans @ POLICY_HEADERS in
      case an_body ans of
        BodyBytes b \<Rightarrow> \<lparr>hr_status = an_status ans, hr_headers = hs, hr_body = FullBody b\<rparr>
      | BodyStream st \<Rightarrow>
          \<lparr>hr_status = an_status ans, hr_headers = hs @ [(''content-length'', decimal (os_length st))],
           hr_body = StreamedBody st\<rparr>)"

text \<open>
  The loop of \<open>streamed\<close> over what each read of the archive's reader comes to (an empty one, or the end of the
  sequence, is its end), \<open>sent\<close> bytes read so far, while \<open>room\<close> more frames are taken before the client goes
  (\<open>None\<close>: it stays). The frames handed to the connection, and the lines written.
\<close>

fun stream_loop ::
  "string \<Rightarrow> nat \<Rightarrow> nat \<Rightarrow> nat option \<Rightarrow> (string, bytes) result list \<Rightarrow> (string, bytes) result list \<times> string list" where
  "stream_loop key n sent room [] =
     ([], if sent < n
          then [ERR @ ''the download of '' @ key @ '' ended '' @ decimal (n - sent) @ '' bytes short of the '' @ decimal n @ '' it declared'']
          else [])"
| "stream_loop key n sent room (Inl e # reads) =
     (if room = Some 0 then [] else [Err e], [ERR @ ''the download of '' @ key @ '' stopped: '' @ e])"
| "stream_loop key n sent room (Inr chunk # reads) =
     (if chunk = [] then stream_loop key n sent room []
      else if n < sent + length chunk
        then ([], [ERR @ ''the download of '' @ key @ '' grew past the '' @ decimal n @ '' it declared; cut at '' @ decimal sent @ '' bytes''])
      else if room = Some 0 then ([], [])
      else (case stream_loop key n (sent + length chunk) (map_option (\<lambda>k. k - 1) room) reads of
              (frames, log) \<Rightarrow> (Ok chunk # frames, log)))"

definition streamed ::
  "object_stream \<Rightarrow> nat option \<Rightarrow> (string, bytes) result list \<Rightarrow> (string, bytes) result list \<times> string list" where
  "streamed st room reads = stream_loop (os_key st) (os_length st) 0 room reads"

section \<open>A connection\<close>

datatype error_kind =
    ConnectionAborted | Interrupted | NetworkDown | NetworkUnreachable | HostUnreachable | OtherKind string

definition one_connection :: "error_kind \<Rightarrow> bool" where
  "one_connection k \<longleftrightarrow> k \<in> {ConnectionAborted, Interrupted, NetworkDown, NetworkUnreachable, HostUnreachable}"

text \<open>
  The stream under a deadline, in milliseconds of the connection's clock; an inner poll is \<open>Pending\<close> or
  has an answer.
\<close>

record write_deadline =
  wd_limit :: nat
  wd_stalled :: "nat option"

datatype 'x polled = Pending | Ready "(io_error, 'x) result"

definition write_deadline_new :: "nat \<Rightarrow> write_deadline" where
  "write_deadline_new limit = \<lparr>wd_limit = limit, wd_stalled = None\<rparr>"

definition progressing :: "nat \<Rightarrow> 'x polled \<Rightarrow> write_deadline \<Rightarrow> write_deadline \<times> 'x polled" where
  "progressing now p wd =
     (case p of
        Ready x \<Rightarrow> (wd\<lparr>wd_stalled := None\<rparr>, Ready x)
      | Pending \<Rightarrow>
          (let deadline = (case wd_stalled wd of Some d \<Rightarrow> d | None \<Rightarrow> now + wd_limit wd);
               wd = wd\<lparr>wd_stalled := Some deadline\<rparr>
           in if deadline \<le> now
              then (wd, Ready (Err (OtherIo (''the client read nothing for '' @ decimal (wd_limit wd div 1000) @ ''s''))))
              else (wd, Pending)))"

datatype stream_op = PollRead | PollWrite | PollFlush | PollShutdown

definition poll_stream :: "nat \<Rightarrow> stream_op \<Rightarrow> 'x polled \<Rightarrow> write_deadline \<Rightarrow> write_deadline \<times> 'x polled" where
  "poll_stream now op p wd = (if op = PollRead then (wd, p) else progressing now p wd)"

text \<open>What a connection that ended early leaves in the journal.\<close>

definition connection_ended :: "http_libs \<Rightarrow> pool_id option \<Rightarrow> (bool \<times> string) option \<Rightarrow> string list" where
  "connection_ended H signer ended =
     (case ended of
        Some (is_timeout, e) \<Rightarrow>
          if is_timeout then []
          else [WARNING @ ''the connection last answering '' @ named H signer @ '' ended: '' @ e]
      | None \<Rightarrow> [])"

section \<open>The accept loop\<close>

text \<open>
  The loop between two accepts: the permits left, whether it holds one, the connections being served, the lines
  written, and the error it returned.
\<close>

record acceptor =
  ac_free :: nat
  ac_holds :: bool
  ac_serving :: "nat list"
  ac_log :: "string list"
  ac_stopped :: "(error_kind \<times> string) option"

definition accepting :: "nat \<Rightarrow> acceptor" where
  "accepting most = \<lparr>ac_free = most, ac_holds = False, ac_serving = [], ac_log = [], ac_stopped = None\<rparr>"

inductive accept_step :: "acceptor \<Rightarrow> acceptor \<Rightarrow> bool" where
  acquire: "ac_stopped s = None \<Longrightarrow> \<not> ac_holds s \<Longrightarrow> 0 < ac_free s
    \<Longrightarrow> accept_step s (s\<lparr>ac_free := ac_free s - 1, ac_holds := True\<rparr>)"
| taken_on: "ac_stopped s = None \<Longrightarrow> ac_holds s \<Longrightarrow> c \<notin> set (ac_serving s)
    \<Longrightarrow> accept_step s (s\<lparr>ac_holds := False, ac_serving := c # ac_serving s\<rparr>)"
| skipped: "ac_stopped s = None \<Longrightarrow> ac_holds s \<Longrightarrow> one_connection k
    \<Longrightarrow> accept_step s (s\<lparr>ac_holds := False, ac_free := ac_free s + 1,
          ac_log := ac_log s @ [WARNING @ ''a connection was not accepted: '' @ e]\<rparr>)"
| gave_up: "ac_stopped s = None \<Longrightarrow> ac_holds s \<Longrightarrow> \<not> one_connection k
    \<Longrightarrow> accept_step s (s\<lparr>ac_holds := False, ac_free := ac_free s + 1, ac_stopped := Some (k, e)\<rparr>)"
| ended: "c \<in> set (ac_serving s)
    \<Longrightarrow> accept_step s (s\<lparr>ac_serving := remove1 c (ac_serving s), ac_free := ac_free s + 1,
          ac_log := ac_log s @ connection_ended H signer how\<rparr>)"

inductive_cases accept_stepE: "accept_step s s'"

end
