(* ===== verification/Serve_Laws.thy ===== *)
theory Serve_Laws
  imports Serve Served_Demo "HOL-Library.Sublist"
begin

text \<open>
  What the listener adds to the routes: bodies are bounded in size and in time before anything is answered from
  them, an upload over the wire is answered as \<open>http::answer\<close> answers it, a download is whole or said to be
  cut, a stalled write ends, and no slot is ever lost.
\<close>

section \<open>Bodies\<close>

text \<open>The body a client sends, and when it has all arrived.\<close>

fun whole_body :: "(nat \<times> body_event) list \<Rightarrow> (nat \<times> bytes) option" where
  "whole_body [] = None"
| "whole_body ((t, Ended) # es) = Some (t, [])"
| "whole_body ((t, Broken e) # es) = None"
| "whole_body ((t, Trailers) # es) = whole_body es"
| "whole_body ((t, Data d) # es) = map_option (\<lambda>(t, b). (t, d @ b)) (whole_body es)"

lemma bounded_body_Ok:
  "length collected \<le> most \<Longrightarrow> bounded_body H most signer collected es = Some (t, Ok b)
    \<longleftrightarrow> (\<exists>b'. whole_body es = Some (t, b') \<and> b = collected @ b' \<and> length b \<le> most)"
proof (induction H most signer collected es rule: bounded_body.induct)
  case (5 H most signer collected t' d es)
  show ?case
  proof (cases "most < length (collected @ d)")
    case False
    with 5(1) [OF refl] 5(2) show ?thesis by (auto simp: Let_def)
  qed auto
qed auto

lemma refused_status:
  "an_status (fst (oversized H signer n m)) = 413" "an_status (fst (refuse_request H signer s r)) = s"
  by (simp_all add: oversized_def refuse_request_def refuse_withholding_def Let_def)

lemma bounded_body_Err:
  "bounded_body H most signer collected es = Some (t, Err x) \<Longrightarrow> an_status (fst x) \<in> {400, 413}"
  by (induction H most signer collected es rule: bounded_body.induct)
    (auto simp: refused_status Let_def split: if_splits)

lemma bounded_body_over:
  "whole_body es = Some (t, b) \<Longrightarrow> length collected \<le> most \<Longrightarrow> most < length (collected @ b) \<Longrightarrow>
    \<exists>t' n. bounded_body H most signer collected es = Some (t', Err (oversized H signer n most)) \<and> (sorted (map fst es) \<longrightarrow> t' \<le> t)"
proof (induction H most signer collected es arbitrary: b rule: bounded_body.induct)
  case (5 H most signer collected t' d es)
  then obtain b' where b': "whole_body es = Some (t, b')" "b = d @ b'" by auto
  have later: "sorted (map fst es) \<Longrightarrow> \<forall>x \<in> set (map fst es). t' \<le> x \<Longrightarrow> t' \<le> t"
  proof -
    have "whole_body es = Some (t, b) \<Longrightarrow> t \<in> set (map fst es)" for es b
      by (induction es arbitrary: b rule: whole_body.induct) auto
    then show "sorted (map fst es) \<Longrightarrow> \<forall>x \<in> set (map fst es). t' \<le> x \<Longrightarrow> t' \<le> t" using b'(1) by blast
  qed
  show ?case
  proof (cases "most < length (collected @ d)")
    case True
    then show ?thesis using later by (auto simp: Let_def)
  next
    case False
    with 5(1) [OF refl _ b'(1)] 5(3,4) b'(2) show ?thesis by (auto simp: Let_def)
  qed
qed auto

definition declared_fits :: "raw_request \<Rightarrow> nat \<Rightarrow> bool" where
  "declared_fits rw most \<longleftrightarrow> (case declared_length rw of None \<Rightarrow> True | Some n \<Rightarrow> n \<le> most)"

lemma in_time_cases:
  "in_time H timeout_ms signer f = Ok b \<longleftrightarrow> (\<exists>t \<le> timeout_ms. f = Some (t, Ok b))"
  "in_time H timeout_ms signer f = Err x \<Longrightarrow> an_status (fst x) = 408 \<or> (\<exists>t. f = Some (t, Err x))"
  by (auto simp: in_time_def refused_status split: option.splits prod.splits if_splits)

lemma read_body_Ok:
  "read_body H rw most timeout_ms signer = Ok b
    \<longleftrightarrow> declared_fits rw most \<and> (\<exists>t \<le> timeout_ms. whole_body (rw_body rw) = Some (t, b)) \<and> length b \<le> most"
  by (auto simp: read_body_def declared_fits_def in_time_cases(1) bounded_body_Ok split: option.splits)

lemma read_body_Err:
  assumes "read_body H rw most timeout_ms signer = Err x"
  shows "an_status (fst x) \<in> {400, 408, 413}"
proof -
  from assms consider n where "x = oversized H signer n most" | "in_time H timeout_ms signer (bounded_body H most signer [] (rw_body rw)) = Err x"
    by (auto simp: read_body_def split: option.splits if_splits)
  then show ?thesis
    by cases (auto simp: refused_status dest!: in_time_cases(2) bounded_body_Err)
qed

section \<open>Streams\<close>

text \<open>What a sequence of reads comes to: the bytes before it ends or fails.\<close>

fun read_out :: "(string, bytes) result list \<Rightarrow> bytes \<times> string option" where
  "read_out [] = ([], None)"
| "read_out (Inl e # reads) = ([], Some e)"
| "read_out (Inr c # reads) = (if c = [] then ([], None) else map_prod ((@) c) id (read_out reads))"

definition frame_bytes :: "(string, bytes) result list \<Rightarrow> bytes" where
  "frame_bytes frames = concat (map (\<lambda>f. case f of Inr b \<Rightarrow> b | Inl _ \<Rightarrow> []) frames)"

lemma stream_loop_prefix:
  "stream_loop key n sent room reads = (frames, log) \<Longrightarrow> sent \<le> n \<Longrightarrow>
    prefix (frame_bytes frames) (fst (read_out reads)) \<and> sent + length (frame_bytes frames) \<le> n"
proof (induction key n sent room reads arbitrary: frames log rule: stream_loop.induct)
  case (3 key n sent room chunk reads)
  then show ?case by (auto simp: frame_bytes_def split: if_splits prod.splits)
qed (auto simp: frame_bytes_def split: if_splits)

lemma stream_loop_whole:
  "stream_loop key n sent None reads = (frames, log) \<Longrightarrow> sent \<le> n \<Longrightarrow>
    (log = [] \<longleftrightarrow> snd (read_out reads) = None \<and> sent + length (fst (read_out reads)) = n)
    \<and> (log = [] \<longrightarrow> frame_bytes frames = fst (read_out reads) \<and> list_all (\<lambda>f. \<exists>b. f = Ok b) frames)"
proof (induction key n sent "None :: nat option" reads arbitrary: frames log rule: stream_loop.induct)
  case (3 key n sent chunk reads)
  then show ?case by (auto simp: frame_bytes_def split: if_splits prod.splits)
qed (auto simp: frame_bytes_def)

section \<open>Stalled writes\<close>

text \<open>The polls of a connection, in order; since when no write has moved.\<close>

definition poll_all :: "(nat \<times> stream_op \<times> 'x polled) list \<Rightarrow> write_deadline \<Rightarrow> write_deadline" where
  "poll_all es wd = fold (\<lambda>(now, op, p) wd. fst (poll_stream now op p wd)) es wd"

definition stall :: "nat \<times> stream_op \<times> 'x polled \<Rightarrow> nat option \<Rightarrow> nat option" where
  "stall e since =
     (case e of (now, op, p) \<Rightarrow>
        if op = PollRead then since
        else (case p of Ready _ \<Rightarrow> None | Pending \<Rightarrow> (case since of None \<Rightarrow> Some now | Some t \<Rightarrow> Some t)))"

definition stalled_since :: "(nat \<times> stream_op \<times> 'x polled) list \<Rightarrow> nat option" where
  "stalled_since es = fold stall es None"

lemma poll_stream_stall:
  "wd_stalled wd = map_option (\<lambda>t. t + wd_limit wd) since \<Longrightarrow>
    wd_limit (fst (poll_stream now op p wd)) = wd_limit wd
    \<and> wd_stalled (fst (poll_stream now op p wd)) = map_option (\<lambda>t. t + wd_limit wd) (stall (now, op, p) since)"
  by (auto simp: poll_stream_def progressing_def stall_def Let_def split: polled.splits option.splits)

lemma fold_stall:
  "wd_stalled wd = map_option (\<lambda>t. t + wd_limit wd) since \<Longrightarrow>
    wd_limit (poll_all es wd) = wd_limit wd
    \<and> wd_stalled (poll_all es wd) = map_option (\<lambda>t. t + wd_limit wd) (fold stall es since)"
proof (induction es arbitrary: wd since)
  case (Cons e es)
  obtain now op p where e: "e = (now, op, p)" by (cases e)
  from poll_stream_stall [OF Cons.prems, of now op p] Cons.IH [of "fst (poll_stream now op p wd)"] e show ?case
    by (simp add: poll_all_def)
qed (simp add: poll_all_def)

section \<open>Slots\<close>

definition slots_kept :: "nat \<Rightarrow> acceptor \<Rightarrow> bool" where
  "slots_kept most s \<longleftrightarrow> ac_free s + (if ac_holds s then 1 else 0) + length (ac_serving s) = most
     \<and> distinct (ac_serving s) \<and> (\<forall>k e. ac_stopped s = Some (k, e) \<longrightarrow> \<not> one_connection k)"

lemma slots_step: "accept_step s s' \<Longrightarrow> slots_kept most s \<Longrightarrow> slots_kept most s'"
  by (induction rule: accept_step.induct)
    (auto simp: slots_kept_def length_remove1 dest: length_pos_if_in_set)

lemma slots_reached: "accept_step\<^sup>*\<^sup>* (accepting most) s \<Longrightarrow> slots_kept most s"
  by (induction rule: rtranclp_induct) (auto simp: slots_step, simp add: slots_kept_def accepting_def)

section \<open>An upload over the wire\<close>

text \<open>
  A raw request that carries an agent's upload: its signing headers, and its body in whatever frames, all of it
  in time; a declared length is the body's.
\<close>

definition carries :: "http_request \<Rightarrow> raw_request \<Rightarrow> nat \<Rightarrow> bool" where
  "carries rq rw timeout_ms \<longleftrightarrow>
     rw_method rw = HyperPost \<and> rw_path_and_query rw = Some SUBMIT_PATH
     \<and> list_all (\<lambda>h. rw_header rw h = map_of (rq_headers rq) h) [HEADER_VKEY, HEADER_SIGNATURE, HEADER_POOL]
     \<and> (declared_length rw = None \<or> declared_length rw = Some (length (rq_body rq)))
     \<and> (\<exists>t \<le> timeout_ms. whole_body (rw_body rw) = Some (t, rq_body rq)) \<and> sorted (map fst (rw_body rw))"

definition listener_transport ::
  "http_libs \<Rightarrow> ('w, 'a) archive_ops \<Rightarrow> developer \<Rightarrow> served_pages \<Rightarrow> 'w submit_world \<Rightarrow> nat \<Rightarrow> (http_request \<Rightarrow> raw_request)
    \<Rightarrow> intake \<Rightarrow> 'a \<Rightarrow> transport" where
  "listener_transport H A dev pages w timeout_ms wire ik a rq =
     (case handle H A dev pages w timeout_ms (wire rq) ik a of (_, _, _, ans, _) \<Rightarrow> Ok (answer_response ans))"

lemma upload_texts:
  assumes "carries (upload_request B cfg pool sub) rw timeout_ms" and "header_to_str (to_bech32 B pool) = Some (to_bech32 B pool)"
    and "h \<in> {HEADER_VKEY, HEADER_SIGNATURE, HEADER_POOL}"
  shows "raw_text rw h = map_of (rq_headers (upload_request B cfg pool sub)) h"
  using assms by (auto simp: carries_def raw_text_def upload_request_def headers_def HEADER_VKEY_def HEADER_SIGNATURE_def HEADER_POOL_def)

lemma carried_request:
  assumes "carries (upload_request B cfg pool sub) rw timeout_ms" and "header_to_str (to_bech32 B pool) = Some (to_bech32 B pool)"
  shows "rt_method (decoded_request L rw) = Post" "request_path (decoded_request L rw) = SUBMIT_PATH"
    "rt_submission (decoded_request L rw) = rt_submission (submission_request L (upload_request B cfg pool sub))"
proof -
  show "rt_method (decoded_request L rw) = Post" "request_path (decoded_request L rw) = SUBMIT_PATH"
    using assms(1) by (simp_all add: decoded_request_def carries_def request_path_def SUBMIT_PATH_def)
  show "rt_submission (decoded_request L rw) = rt_submission (submission_request L (upload_request B cfg pool sub))"
    using upload_texts [OF assms] by (simp add: decoded_request_def submission_request_def)
qed

lemma carried_body:
  assumes "carries rq rw timeout_ms"
  shows "if length (rq_body rq) \<le> most then read_body H rw most timeout_ms signer = Ok (rq_body rq)
    else \<exists>n. read_body H rw most timeout_ms signer = Err (oversized H signer n most)"
proof (cases "length (rq_body rq) \<le> most")
  case True
  with assms show ?thesis by (auto simp: read_body_Ok carries_def declared_fits_def)
next
  case False
  from assms obtain t where t: "t \<le> timeout_ms" "whole_body (rw_body rw) = Some (t, rq_body rq)" "sorted (map fst (rw_body rw))"
    by (auto simp: carries_def)
  from bounded_body_over [OF t(2), of "[]" most H signer] False t(3) obtain t' n where
    "bounded_body H most signer [] (rw_body rw) = Some (t', Err (oversized H signer n most))" "t' \<le> t"
    by auto
  with t(1) have "in_time H timeout_ms signer (bounded_body H most signer [] (rw_body rw)) = Err (oversized H signer n most)"
    by (simp add: in_time_def)
  with False show ?thesis by (auto simp: read_body_def split: option.splits)
qed

section \<open>Properties\<close>

text \<open>
  C26: Nothing is answered from a body that is too long, too late or broken. A request whose headers name a
  submission is answered from its body exactly when the declared length fits, the whole body arrives in time and it fits;
  otherwise it is a 400, a 408 or a 413, and neither the intake nor the archive is touched. Any other request is
  answered without its body.
\<close>

theorem bodies_bounded:
  "case takes_a_body (decoded_request (hl_server H) rw) of
     None \<Rightarrow> handle H A dev pages w timeout_ms rw ik a
       = (None, answer_request H A dev pages w (decoded_request (hl_server H) rw) ik a)
   | Some p \<Rightarrow>
       (\<exists>t b. whole_body (rw_body rw) = Some (t, b) \<and> t \<le> timeout_ms \<and> length b \<le> ic_max_body_bytes (ik_config ik)
          \<and> declared_fits rw (ic_max_body_bytes (ik_config ik))
          \<and> handle H A dev pages w timeout_ms rw ik a
              = (Some p, answer_request H A dev pages w (decoded_request (hl_server H) rw\<lparr>rt_body := b\<rparr>) ik a))
       \<or> (\<nexists>t b. whole_body (rw_body rw) = Some (t, b) \<and> t \<le> timeout_ms \<and> length b \<le> ic_max_body_bytes (ik_config ik)
            \<and> declared_fits rw (ic_max_body_bytes (ik_config ik)))
         \<and> (\<exists>ans log. handle H A dev pages w timeout_ms rw ik a = (Some p, ik, a, ans, log) \<and> an_status ans \<in> {400, 408, 413})"
proof (cases "takes_a_body (decoded_request (hl_server H) rw)")
  case (Some p)
  let ?read = "read_body H rw (ic_max_body_bytes (ik_config ik)) timeout_ms (Some p)"
  show ?thesis
  proof (cases ?read)
    case (Inr b)
    with read_body_Ok [of H rw "ic_max_body_bytes (ik_config ik)" timeout_ms "Some p" b] Some show ?thesis
      by (fastforce simp: handle_def Let_def)
  next
    case (Inl x)
    obtain ans log where x: "x = (ans, log)" by fastforce
    from Inl have "\<forall>b. ?read \<noteq> Ok b" by simp
    then have "\<nexists>t b. whole_body (rw_body rw) = Some (t, b) \<and> t \<le> timeout_ms \<and> length b \<le> ic_max_body_bytes (ik_config ik)
        \<and> declared_fits rw (ic_max_body_bytes (ik_config ik))"
      by (auto simp: read_body_Ok)
    moreover have "handle H A dev pages w timeout_ms rw ik a = (Some p, ik, a, ans, log)" "an_status ans \<in> {400, 408, 413}"
      using read_body_Err [OF Inl] Inl Some x by (simp_all add: handle_def Let_def)
    ultimately show ?thesis using Some by auto
  qed
qed (simp add: handle_def)

text \<open>
  C25: The two sides mean the same by a status, through the listener. An agent whose upload reaches the server whole and
  in time, in whatever frames, hears exactly what became of it: an acknowledgement exactly when it was stored, with
  the version the server ships; a retryable answer exactly when the limiter refused it or the archive failed; and for
  every other rejection a final one, which its uploader will not send again. One larger than the server takes is
  refused for good.
\<close>

theorem upload_heard:
  assumes texts: "texts_ok H ack_from_str"
    and carried: "carries (upload_request B cfg pool sub) (wire (upload_request B cfg pool sub)) timeout_ms"
    and visible: "header_to_str (to_bech32 B pool) = Some (to_bech32 B pool)"
    and ad: "rt_submission (submission_request (hl_server H) (upload_request B cfg pool sub)) = Ok ad"
    and made: "submit (hl_server H) (ao_store A) w (over ad (ss_wire_bytes sub)) ik a = (ik', a', r)"
  shows "if length (ss_wire_bytes sub) \<le> ic_max_body_bytes (ik_config ik)
    then upload B ack_from_str (listener_transport H A dev pages w timeout_ms wire ik a) cfg pool sub = heard H r
    else (\<exists>reason. upload B ack_from_str (listener_transport H A dev pages w timeout_ms wire ik a) cfg pool sub = UpRejected 413 reason)"
proof -
  let ?rq = "upload_request B cfg pool sub" and ?most = "ic_max_body_bytes (ik_config ik)"
  let ?d = "decoded_request (hl_server H) (wire ?rq)"
  note req = carried_request [OF carried visible, of "hl_server H"]
  have signer: "takes_a_body ?d = Some (ad_pool ad)" using req ad by (simp add: takes_a_body_def)
  have body: "rq_body ?rq = ss_wire_bytes sub" by (simp add: upload_request_def)
  show ?thesis
  proof (cases "length (ss_wire_bytes sub) \<le> ?most")
    case True
    with carried_body [OF carried, of ?most H "Some (ad_pool ad)"] body
    have "read_body H (wire ?rq) ?most timeout_ms (Some (ad_pool ad)) = Ok (ss_wire_bytes sub)" by simp
    then have "handle H A dev pages w timeout_ms (wire ?rq) ik a
        = (Some (ad_pool ad), answer_request H A dev pages w (?d\<lparr>rt_body := ss_wire_bytes sub\<rparr>) ik a)"
      using signer by (simp add: handle_def Let_def)
    moreover have "answer_request H A dev pages w (?d\<lparr>rt_body := ss_wire_bytes sub\<rparr>) ik a
        = answer_request H A dev pages w (submission_request (hl_server H) ?rq) ik a"
    proof -
      have "request_path (?d\<lparr>rt_body := ss_wire_bytes sub\<rparr>) = SUBMIT_PATH" using req(2) by (simp add: request_path_def)
      moreover have "rt_method (submission_request (hl_server H) ?rq) = Post" by (simp add: submission_request_def)
      moreover have "rt_body (submission_request (hl_server H) ?rq) = ss_wire_bytes sub" by (simp add: submission_request_def body)
      ultimately show ?thesis using req(1,3) ad by (simp add: submit_path_route submit_route_def)
    qed
    ultimately have "listener_transport H A dev pages w timeout_ms wire ik a ?rq = server_transport H A dev pages w ik a ?rq"
      by (simp add: listener_transport_def server_transport_def)
    then have "upload B ack_from_str (listener_transport H A dev pages w timeout_ms wire ik a) cfg pool sub
        = upload B ack_from_str (server_transport H A dev pages w ik a) cfg pool sub"
      by (simp add: upload_def)
    with True statuses_agree [OF texts ad made] show ?thesis by simp
  next
    case False
    with carried_body [OF carried, of ?most H "Some (ad_pool ad)"] body obtain n where
      "read_body H (wire ?rq) ?most timeout_ms (Some (ad_pool ad)) = Err (oversized H (Some (ad_pool ad)) n ?most)" by auto
    then have "handle H A dev pages w timeout_ms (wire ?rq) ik a = (Some (ad_pool ad), ik, a, oversized H (Some (ad_pool ad)) n ?most)"
      using signer by (simp add: handle_def Let_def)
    then have "listener_transport H A dev pages w timeout_ms wire ik a ?rq = Ok (answer_response (fst (oversized H (Some (ad_pool ad)) n ?most)))"
      by (simp add: listener_transport_def case_prod_unfold)
    with False refused_status(1) [of H "Some (ad_pool ad)" n ?most] show ?thesis
      by (simp add: upload_def classify_def answer_response_def Let_def TOO_MANY_REQUESTS_def)
  qed
qed

text \<open>
  C27: A download is whole or said to be cut. Whatever the archive's reader answers and wherever the client leaves,
  what goes out is the beginning of the object, never longer than the length the head declared; and while the client
  stays, the journal stays silent exactly when the object was read to its end at that very length, and then every byte of it went out.
\<close>

theorem download_whole_or_said:
  "case streamed st room reads of (frames, log) \<Rightarrow>
     prefix (frame_bytes frames) (fst (read_out reads)) \<and> length (frame_bytes frames) \<le> os_length st
     \<and> (case room of Some _ \<Rightarrow> True | None \<Rightarrow>
          (if snd (read_out reads) = None \<and> length (fst (read_out reads)) = os_length st
           then log = [] \<and> frame_bytes frames = fst (read_out reads) \<and> list_all (\<lambda>f. \<exists>b. f = Ok b) frames
           else log \<noteq> []))"
proof -
  obtain frames log where s: "stream_loop (os_key st) (os_length st) 0 room reads = (frames, log)" by fastforce
  show ?thesis
  proof (cases room)
    case None
    with s stream_loop_prefix [OF s] stream_loop_whole [of "os_key st" "os_length st" 0 reads frames log] show ?thesis
      by (auto simp: streamed_def)
  qed (use s stream_loop_prefix [OF s] in \<open>simp add: streamed_def\<close>)
qed

text \<open>
  A stalled write ends, a slow one does not. After any sequence of polls, one that cannot proceed is answered with a
  timeout exactly when nothing but pending writes has been polled for the whole limit; a write that moves takes the
  answer it got and starts the clock anew; and reads are never timed.
\<close>

theorem stalled_write_ends:
  assumes "0 < limit"
  shows "snd (poll_stream now op p (poll_all es (write_deadline_new limit)))
     = (case p of
          Ready x \<Rightarrow> Ready x
        | Pending \<Rightarrow>
            (case stalled_since es of
               Some t \<Rightarrow>
                 if op \<noteq> PollRead \<and> t + limit \<le> now
                 then Ready (Err (OtherIo (''the client read nothing for '' @ decimal (limit div 1000) @ ''s'')))
                 else Pending
             | None \<Rightarrow> Pending))"
proof -
  have "wd_stalled (write_deadline_new limit) = map_option (\<lambda>t. t + wd_limit (write_deadline_new limit)) None"
    by (simp add: write_deadline_new_def)
  from fold_stall [OF this, of es] assms show ?thesis
    by (cases p; cases "stalled_since es")
      (auto simp: poll_stream_def progressing_def Let_def stalled_since_def write_deadline_new_def)
qed

text \<open>
  C28: No slot is lost and none is made. However connections come, fail and end, the permits left, the one the loop
  holds and the connections served add up to the configured number, so no more are ever served at once; while there
  is room for another the loop can go on; and it only returns on an accept error that was not one connection's.
\<close>

theorem slots_never_leak:
  assumes "accept_step\<^sup>*\<^sup>* (accepting most) s"
  shows "ac_free s + (if ac_holds s then 1 else 0) + length (ac_serving s) = most
    \<and> (ac_stopped s = None \<and> length (ac_serving s) < most \<longrightarrow> (\<exists>s'. accept_step s s' \<and> (ac_holds s' \<or> length (ac_serving s') = Suc (length (ac_serving s)))))
    \<and> (\<forall>k e. ac_stopped s = Some (k, e) \<longrightarrow> \<not> one_connection k)"
proof -
  from slots_reached [OF assms] have kept: "slots_kept most s" .
  have "\<exists>s'. accept_step s s' \<and> (ac_holds s' \<or> length (ac_serving s') = Suc (length (ac_serving s)))"
    if going: "ac_stopped s = None" "length (ac_serving s) < most"
  proof (cases "ac_holds s")
    case True
    obtain c where "c \<notin> set (ac_serving s)" using ex_new_if_finite [of "set (ac_serving s)"] by auto
    from accept_step.taken_on [OF going(1) True this] show ?thesis by (intro exI) auto
  next
    case False
    with kept going have "0 < ac_free s" by (auto simp: slots_kept_def)
    from accept_step.acquire [OF going(1) False this] show ?thesis by (intro exI) auto
  qed
  with kept show ?thesis by (auto simp: slots_kept_def)
qed

text \<open>Concrete requests, connections and accepts, and the witnesses of the properties of \<open>Serve_Laws\<close>.\<close>

text \<open>An upload as it arrives: its body in two frames, the second after 40 ms.\<close>

definition demo_wire_of :: "http_request \<Rightarrow> raw_request" where
  "demo_wire_of rq =
     \<lparr>rw_method = HyperPost, rw_path_and_query = Some SUBMIT_PATH, rw_header = map_of (rq_headers rq),
      rw_body = [(5, Data (take 3 (rq_body rq))), (40, Data (drop 3 (rq_body rq))), (40, Ended)]\<rparr>"

lemma demo_carries: "carries (upload_request B cfg pool sub) (demo_wire_of (upload_request B cfg pool sub)) 100"
  by (simp add: carries_def demo_wire_of_def declared_length_def raw_text_def upload_request_def headers_def
      HEADER_VKEY_def HEADER_SIGNATURE_def HEADER_POOL_def)

lemma demo_pool_visible:
  "header_to_str (to_bech32 (kl_bech32 (sl_key demo_verifier)) pool) = Some (to_bech32 (kl_bech32 (sl_key demo_verifier)) pool)"
  using encode_visible
  by (force simp: header_to_str_def demo_libs demo_key_lib_def demo_bech32_def to_bech32_def POOL_HRP_def list_all_iff)

lemma demo_submission:
  "rt_submission (submission_request (hl_server demo_http) (upload_request (kl_bech32 (sl_key demo_verifier)) cfg
      (pv_pool (e_provenance demo_envelope)) demo_sub)) = Ok demo_filed"
proof -
  have "ss_attestation demo_sub = attest demo_crypto demo_signer (ss_wire_bytes demo_sub)" by (simp add: demo_sub_def)
  from upload_request_read [OF demo_crypto_ok demo_bech32_ok demo_signer_owner(1) demo_pool_wf disjI2 [OF demo_signer_owner(2)] this]
  show ?thesis by (simp add: submission_request_def demo_http_def demo_libs demo_filed_eq demo_key_lib_def)
qed

theorem upload_heard_witness:
  "\<exists>v. upload (kl_bech32 (sl_key demo_verifier)) demo_ack_parser
     (listener_transport demo_http (sr_ops (demo_server None)) demo_developer (sr_pages (demo_server None)) demo_world 100
       demo_wire_of demo_intake demo_empty)
     \<lparr>upload_url = ''https://metsuke.example'', max_submissions = 1\<rparr> (pv_pool (e_provenance demo_envelope)) demo_sub
     = UpAcked \<lparr>latest_version = v\<rparr>"
proof -
  obtain ik' a' v where acked: "submit demo_verifier (fs_store demo_key_lib) demo_world (over demo_filed demo_wire)
      demo_intake demo_empty = (ik', a', Ok v)"
    using demo_acked by blast
  have texts: "texts_ok demo_http demo_ack_parser"
    using encode_visible by (auto simp: texts_ok_def demo_http_def demo_ack_parser_def intro!: valid_utf8_ascii) force
  have "submit (hl_server demo_http) (ao_store (sr_ops (demo_server None))) demo_world (over demo_filed (ss_wire_bytes demo_sub))
      demo_intake demo_empty = (ik', a', Ok v)"
    using acked by (simp add: demo_http_def demo_server_def demo_sub_def)
  from upload_heard [where wire = demo_wire_of, OF texts demo_carries demo_pool_visible demo_submission this]
  have "length (ss_wire_bytes demo_sub) \<le> ic_max_body_bytes (ik_config demo_intake) \<Longrightarrow> ?thesis" by auto
  moreover have "length (ss_wire_bytes demo_sub) \<le> ic_max_body_bytes (ik_config demo_intake)"
    by (simp add: demo_sub_def demo_intake_def new_intake_def demo_ingest_def demo_wire_def frame_def payload_lines_concat
        demo_envelope_def new_envelope_def scrapes_payload_def)
  ultimately show ?thesis by blast
qed

text \<open>The same upload from a client that stops sending after its first frame.\<close>

theorem bodies_bounded_witness:
  "\<exists>ans log. handle demo_http (sr_ops (demo_server None)) demo_developer (sr_pages (demo_server None)) demo_world 100
      ((demo_wire_of (upload_request (kl_bech32 (sl_key demo_verifier)) \<lparr>upload_url = [], max_submissions = 1\<rparr>
         (pv_pool (e_provenance demo_envelope)) demo_sub))\<lparr>rw_body := [(5, Data ''half'')]\<rparr>) demo_intake demo_empty
    = (Some (ad_pool demo_filed), demo_intake, demo_empty, ans, log) \<and> an_status ans \<in> {400, 408, 413}"
proof -
  let ?rq = "upload_request (kl_bech32 (sl_key demo_verifier)) \<lparr>upload_url = [], max_submissions = 1\<rparr>
    (pv_pool (e_provenance demo_envelope)) demo_sub"
  let ?rw = "(demo_wire_of ?rq)\<lparr>rw_body := [(5, Data ''half'')]\<rparr>"
  note req = carried_request [OF demo_carries demo_pool_visible, of "hl_server demo_http"]
  have "decoded_request (hl_server demo_http) ?rw = decoded_request (hl_server demo_http) (demo_wire_of ?rq)"
    by (simp add: decoded_request_def raw_text_def)
  then have "takes_a_body (decoded_request (hl_server demo_http) ?rw) = Some (ad_pool demo_filed)"
    using req demo_submission by (simp add: takes_a_body_def)
  with bodies_bounded [where H = demo_http and rw = ?rw and A = "sr_ops (demo_server None)" and dev = demo_developer
      and pages = "sr_pages (demo_server None)" and w = demo_world and timeout_ms = 100 and ik = demo_intake and a = demo_empty] show ?thesis by simp
qed

theorem stalled_write_ends_witness:
  "snd (poll_stream 45 PollFlush Pending (poll_all
     [(0, PollWrite, Ready (Ok ())), (10, PollWrite, Pending), (20, PollRead, Ready (Ok ())), (30, PollWrite, Pending)]
     (write_deadline_new 30)))
   = Ready (Err (OtherIo (''the client read nothing for '' @ decimal 0 @ ''s'')))"
  using stalled_write_ends [of 30 45 PollFlush Pending
      "[(0, PollWrite, Ready (Ok ())), (10, PollWrite, Pending), (20, PollRead, Ready (Ok ())), (30, PollWrite, Pending)]"]
  by (simp add: stalled_since_def stall_def)

theorem slots_never_leak_witness:
  "\<exists>s. accept_step\<^sup>*\<^sup>* (accepting 1) s \<and> ac_serving s = [7] \<and> ac_free s = 0"
proof -
  let ?s1 = "(accepting 1)\<lparr>ac_free := 0, ac_holds := True\<rparr>"
  let ?s2 = "?s1\<lparr>ac_holds := False, ac_serving := [7]\<rparr>"
  have "accept_step (accepting 1) ?s1" using accept_step.acquire [of "accepting 1"] by (simp add: accepting_def)
  moreover have "accept_step ?s1 ?s2" using accept_step.taken_on [of ?s1 7] by (simp add: accepting_def)
  ultimately have reached: "accept_step\<^sup>*\<^sup>* (accepting 1) ?s2" by (meson r_into_rtranclp rtranclp_trans)
  from slots_never_leak [OF reached] have "ac_free ?s2 = 0" by (simp add: accepting_def)
  with reached show ?thesis by (intro exI [of _ ?s2]) simp
qed

end
