(* ===== verification/Report.thy ===== *)
theory Report
  imports Agent
begin

text \<open>
  \<open>metsuke/src/report.rs\<close>: how often the scrape tick says a thing. The counters are numbers that grow by
  one scrape at a time; the \<open>Debug\<close> rendering of a refused line is an argument.
\<close>

datatype journal_line = Info string | Warning string

record since =
  since_failed :: nat
  since_refusing :: nat
  since_refused_lines :: nat

definition since_zero :: since where
  "since_zero = \<lparr>since_failed = 0, since_refusing = 0, since_refused_lines = 0\<rparr>"

record scrape_report =
  sr_since :: since
  sr_failing :: nat
  sr_answered :: bool

definition report_default :: scrape_report where
  "report_default = \<lparr>sr_since = since_zero, sr_failing = 0, sr_answered = False\<rparr>"

definition report_answered :: "scrape_report \<Rightarrow> bool" where
  "report_answered = sr_answered"

abbreviation nodes :: string where
  "nodes \<equiv> ''node'' @ [CHR 0x27] @ ''s''"

definition failed_scrapes :: "nat \<Rightarrow> string" where
  "failed_scrapes count = (if count = 1 then ''one scrape'' else decimal count @ '' scrapes'')"

fun refused_text :: "(string \<Rightarrow> string) \<Rightarrow> refused \<Rightarrow> string" where
  "refused_text dbg (NonFinite nm v) = nm @ '' stated '' @ v @ '', which is not a number JSON can hold''"
| "refused_text dbg (UnreadableLine l) = dbg l @ '' states no metric''"

text \<open>The four things a tick can say, and the two a drain can.\<close>

definition failed_line :: "bool \<Rightarrow> string \<Rightarrow> journal_line" where
  "failed_line still_starting detail =
     (if still_starting
      then Info (''the '' @ nodes @ '' metrics endpoint has not answered yet, so this scrape ships as a failure: '' @ detail)
      else Warning (''the scrape failed, and the failure is what ships: '' @ detail))"

definition recovered_line :: "nat \<Rightarrow> journal_line" where
  "recovered_line n =
     Info (''the '' @ nodes @ '' metrics endpoint answered, after '' @ failed_scrapes n @ '' that did not'')"

definition refused_line :: "(string \<Rightarrow> string) \<Rightarrow> refused list \<Rightarrow> journal_line" where
  "refused_line dbg rs =
     Warning (decimal (length rs) @ '' of the '' @ nodes @ '' metric lines did not ship, the first: '' @ refused_text dbg (hd rs))"

definition failed_summary :: "nat \<Rightarrow> journal_line" where
  "failed_summary n = Warning (decimal n @ '' scrapes have failed since the last report, each shipping as a failure'')"

definition refused_summary :: "nat \<Rightarrow> nat \<Rightarrow> journal_line" where
  "refused_summary lines scrapes =
     Warning (decimal lines @ '' of the '' @ nodes @ '' metric lines did not ship, across '' @ decimal scrapes
       @ '' scrapes since the last report'')"

definition record_outcome ::
  "string option \<Rightarrow> bool \<Rightarrow> scrape_report \<Rightarrow> scrape_report \<times> journal_line list" where
  "record_outcome failed starting r =
     (case failed of
        Some detail \<Rightarrow>
          (let r' = r\<lparr>sr_since := (sr_since r)\<lparr>since_failed := since_failed (sr_since r) + 1\<rparr>,
                      sr_failing := sr_failing r + 1\<rparr>
           in (r', if since_failed (sr_since r') = 1 then [failed_line (starting \<and> \<not> sr_answered r') detail] else []))
      | None \<Rightarrow>
          (let r' = r\<lparr>sr_answered := True\<rparr>
           in if 0 < sr_failing r' then (r'\<lparr>sr_failing := 0\<rparr>, [recovered_line (sr_failing r')]) else (r', [])))"

definition record_refused ::
  "(string \<Rightarrow> string) \<Rightarrow> refused list \<Rightarrow> scrape_report \<Rightarrow> scrape_report \<times> journal_line list" where
  "record_refused dbg rs r =
     (if rs = [] then (r, [])
      else let s = sr_since r;
               s' = s\<lparr>since_refusing := since_refusing s + 1, since_refused_lines := since_refused_lines s + length rs\<rparr>
           in (r\<lparr>sr_since := s'\<rparr>, if since_refusing s' = 1 then [refused_line dbg rs] else []))"

definition report_record ::
  "(string \<Rightarrow> string) \<Rightarrow> scrape_news \<Rightarrow> bool \<Rightarrow> scrape_report \<Rightarrow> scrape_report \<times> journal_line list" where
  "report_record dbg news starting r =
     (case record_outcome (sn_failed news) starting r of
        (r1, lines1) \<Rightarrow> (case record_refused dbg (sn_refused news) r1 of (r2, lines2) \<Rightarrow> (r2, lines1 @ lines2)))"

definition report_drain :: "scrape_report \<Rightarrow> scrape_report \<times> journal_line list" where
  "report_drain r =
     (let s = sr_since r
      in (r\<lparr>sr_since := since_zero\<rparr>,
          (if 1 < since_failed s then [failed_summary (since_failed s)] else [])
          @ (if 1 < since_refusing s then [refused_summary (since_refused_lines s) (since_refusing s)] else [])))"

section \<open>The report as a history\<close>

datatype report_event = Scraped scrape_news bool | Drained

definition report_step :: "(string \<Rightarrow> string) \<Rightarrow> report_event \<Rightarrow> scrape_report \<Rightarrow> scrape_report \<times> journal_line list" where
  "report_step dbg e r =
     (case e of Scraped news starting \<Rightarrow> report_record dbg news starting r | Drained \<Rightarrow> report_drain r)"

definition report_after :: "(string \<Rightarrow> string) \<Rightarrow> report_event list \<Rightarrow> scrape_report" where
  "report_after dbg es = fold (\<lambda>e r. fst (report_step dbg e r)) es report_default"

text \<open>Newest first: the news since the last drain, and the news of the whole run.\<close>

fun news_of :: "report_event \<Rightarrow> scrape_news option" where
  "news_of (Scraped news _) = Some news"
| "news_of Drained = None"

definition news_since :: "report_event list \<Rightarrow> scrape_news list" where
  "news_since es = List.map_filter news_of (takeWhile (\<lambda>e. e \<noteq> Drained) (rev es))"

definition all_news :: "report_event list \<Rightarrow> scrape_news list" where
  "all_news es = List.map_filter news_of (rev es)"

abbreviation has_failed :: "scrape_news \<Rightarrow> bool" where
  "has_failed n \<equiv> sn_failed n \<noteq> None"

abbreviation has_refused :: "scrape_news \<Rightarrow> bool" where
  "has_refused n \<equiv> sn_refused n \<noteq> []"

definition failed_since :: "report_event list \<Rightarrow> nat" where
  "failed_since es = length (filter has_failed (news_since es))"

definition refusing_since :: "report_event list \<Rightarrow> nat" where
  "refusing_since es = length (filter has_refused (news_since es))"

definition refused_lines_since :: "report_event list \<Rightarrow> nat" where
  "refused_lines_since es = sum_list (map (\<lambda>n. length (sn_refused n)) (news_since es))"

definition failing_run :: "report_event list \<Rightarrow> nat" where
  "failing_run es = length (takeWhile has_failed (all_news es))"

definition ever_answered :: "report_event list \<Rightarrow> bool" where
  "ever_answered es \<longleftrightarrow> list_ex (\<lambda>n. \<not> has_failed n) (all_news es)"

lemmas history_defs = failed_since_def refusing_since_def refused_lines_since_def failing_run_def ever_answered_def
  news_since_def all_news_def

lemma report_after_snoc [simp]: "report_after dbg (es @ [e]) = fst (report_step dbg e (report_after dbg es))"
  by (simp add: report_after_def)

lemma history_snoc [simp]:
  "news_since (es @ [Scraped n s]) = n # news_since es" "news_since (es @ [Drained]) = []"
  "all_news (es @ [Scraped n s]) = n # all_news es" "all_news (es @ [Drained]) = all_news es"
  by (simp_all add: news_since_def all_news_def map_filter_simps)

lemma report_after_state:
  "report_after dbg es =
     \<lparr>sr_since = \<lparr>since_failed = failed_since es, since_refusing = refusing_since es,
        since_refused_lines = refused_lines_since es\<rparr>,
      sr_failing = failing_run es, sr_answered = ever_answered es\<rparr>"
proof (induction es rule: rev_induct)
  case Nil
  then show ?case by (simp add: report_after_def report_default_def since_zero_def history_defs map_filter_simps)
next
  case (snoc e es)
  show ?case
  proof (cases e)
    case (Scraped n s)
    show ?thesis
      unfolding report_after_snoc snoc Scraped
      by (auto simp: report_step_def report_record_def record_outcome_def record_refused_def Let_def
          failed_since_def refusing_since_def refused_lines_since_def failing_run_def ever_answered_def
          split: option.split)
  next
    case Drained
    show ?thesis
      unfolding report_after_snoc snoc Drained
      by (simp add: report_step_def report_drain_def Let_def since_zero_def failed_since_def refusing_since_def
          refused_lines_since_def failing_run_def ever_answered_def)
  qed
qed

section \<open>Properties\<close>

text \<open>
  C39: The journal of scrapes says each thing once, and its counts are right over any history. A failed
  scrape is a line exactly when it is the first since the last report; the rest are in the summary
  of the next report, which counts every one since the last, and is silent about a kind that
  happened at most once. A recovery is a line exactly when scrapes failed since the last answer,
  and counts those, however many reports lie between. A refused metric line is treated as a failure
  is, and a failure is only ever good news before the first answer, in the starting window.
\<close>

theorem report_counts_history:
  "snd (report_step dbg e (report_after dbg es)) =
     (case e of
        Scraped news starting \<Rightarrow>
          (case sn_failed news of
             Some detail \<Rightarrow> if failed_since es = 0 then [failed_line (starting \<and> \<not> ever_answered es) detail] else []
           | None \<Rightarrow> if 0 < failing_run es then [recovered_line (failing_run es)] else [])
          @ (if has_refused news \<and> refusing_since es = 0 then [refused_line dbg (sn_refused news)] else [])
      | Drained \<Rightarrow>
          (if 1 < failed_since es then [failed_summary (failed_since es)] else [])
          @ (if 1 < refusing_since es then [refused_summary (refused_lines_since es) (refusing_since es)] else []))"
  unfolding report_after_state
  by (auto simp: report_step_def report_record_def record_outcome_def record_refused_def report_drain_def Let_def
      split: report_event.split option.split)

end
