(* ===== verification/Endpoint.thy ===== *)
theory Endpoint
  imports Hex
begin

text \<open>
  \<open>metsuke/src/endpoint.rs\<close>: the two endpoints the agent may talk to. What a URL is made of is the \<open>http\<close>
  crate's to say (\<open>uri_lib\<close>); what an IP literal is, the standard library's parser, written out here.
\<close>

section \<open>IP literals\<close>

text \<open>\<open>std::net::IpAddr\<close>: the octets of an IPv4 address, the 16-bit groups of an IPv6 one.\<close>

datatype ip_addr = V4 "nat list" | V6 "nat list"

definition is_radix_digit :: "nat \<Rightarrow> char \<Rightarrow> bool" where
  "is_radix_digit radix c \<longleftrightarrow> is_ascii_hexdigit c \<and> hex_value c < radix"

definition in_radix :: "nat \<Rightarrow> string \<Rightarrow> nat" where
  "in_radix radix = foldl (\<lambda>n c. radix * n + hex_value c) 0"

definition read_number :: "nat \<Rightarrow> nat \<Rightarrow> bool \<Rightarrow> nat \<Rightarrow> string \<Rightarrow> (nat \<times> string) option" where
  "read_number radix max_digits allow_zero_prefix bound s =
     (let ds = takeWhile (is_radix_digit radix) s
      in if ds = [] \<or> max_digits < length ds \<or> bound < in_radix radix ds
            \<or> (\<not> allow_zero_prefix \<and> hd ds = CHR ''0'' \<and> 1 < length ds) then None
         else Some (in_radix radix ds, drop (length ds) s))"

definition read_given_char :: "char \<Rightarrow> string \<Rightarrow> string option" where
  "read_given_char c s = (case s of [] \<Rightarrow> None | x # xs \<Rightarrow> if x = c then Some xs else None)"

definition read_separator :: "char \<Rightarrow> nat \<Rightarrow> (string \<Rightarrow> 'a option) \<Rightarrow> string \<Rightarrow> 'a option" where
  "read_separator sep i inner s = (if i = 0 then inner s else Option.bind (read_given_char sep s) inner)"

abbreviation read_octet :: "string \<Rightarrow> (nat \<times> string) option" where
  "read_octet \<equiv> read_number 10 3 False 255"

fun read_octets :: "nat \<Rightarrow> nat \<Rightarrow> string \<Rightarrow> (nat list \<times> string) option" where
  "read_octets i 0 s = Some ([], s)"
| "read_octets i (Suc n) s =
     (case read_separator (CHR ''.'') i read_octet s of
        None \<Rightarrow> None
      | Some (v, r) \<Rightarrow> map_option (\<lambda>(vs, r'). (v # vs, r')) (read_octets (Suc i) n r))"

definition read_ipv4 :: "string \<Rightarrow> (nat list \<times> string) option" where
  "read_ipv4 s = read_octets 0 4 s"

text \<open>Up to so many groups, and whether the last two were read off an IPv4 address.\<close>

fun read_groups :: "nat \<Rightarrow> nat \<Rightarrow> string \<Rightarrow> nat list \<times> bool \<times> string" where
  "read_groups i 0 s = ([], False, s)"
| "read_groups i (Suc n) s =
     (case (if n = 0 then None else read_separator (CHR '':'') i read_ipv4 s) of
        Some ([a, b, c, d], r) \<Rightarrow> ([a * 256 + b, c * 256 + d], True, r)
      | _ \<Rightarrow>
          (case read_separator (CHR '':'') i (read_number 16 4 True 65535) s of
             None \<Rightarrow> ([], False, s)
           | Some (g, r) \<Rightarrow> (case read_groups (Suc i) n r of (gs, v4, r') \<Rightarrow> (g # gs, v4, r'))))"

definition read_ipv6 :: "string \<Rightarrow> (nat list \<times> string) option" where
  "read_ipv6 s =
     (case read_groups 0 8 s of
        (front, front_v4, r) \<Rightarrow>
          if length front = 8 then Some (front, r)
          else if front_v4 then None
          else Option.bind (read_given_char (CHR '':'') r) (\<lambda>r1.
            Option.bind (read_given_char (CHR '':'') r1) (\<lambda>r2.
              case read_groups 0 (7 - length front) r2 of
                (tail, _, r3) \<Rightarrow> Some (front @ replicate (8 - length front - length tail) 0 @ tail, r3))))"

definition parse_ip :: "string \<Rightarrow> ip_addr option" where
  "parse_ip s =
     (case read_ipv4 s of
        Some (octets, r) \<Rightarrow> if r = [] then Some (V4 octets) else None
      | None \<Rightarrow>
          (case read_ipv6 s of
             Some (groups, r) \<Rightarrow> if r = [] then Some (V6 groups) else None
           | None \<Rightarrow> None))"

fun loopback_address :: "ip_addr \<Rightarrow> bool" where
  "loopback_address (V4 octets) \<longleftrightarrow> hd octets = 127"
| "loopback_address (V6 groups) \<longleftrightarrow> groups = [0, 0, 0, 0, 0, 0, 0, 1]"

section \<open>The endpoints\<close>

record uri =
  uri_scheme :: "string option"
  uri_authority :: "string option"
  uri_host :: "string option"

type_synonym uri_lib = "string \<Rightarrow> (string, uri) result"

datatype metrics_endpoint = MetricsUrl (metrics_as_str: string)
datatype upload_endpoint = UploadUrl (upload_as_str: string)

datatype not_absolute = UriMalformed string string | NoHost string
datatype metrics_url_error = MetricsNotAbsolute not_absolute | NotLoopback string
datatype upload_url_error = UploadNotAbsolute not_absolute | Plaintext string

definition trim_brackets :: "string \<Rightarrow> string" where
  "trim_brackets host =
     rev (dropWhile (\<lambda>c. c = CHR '']'') (rev (dropWhile (\<lambda>c. c = CHR ''['') host)))"

definition is_loopback :: "string \<Rightarrow> bool" where
  "is_loopback host =
     (case parse_ip (trim_brackets host) of None \<Rightarrow> False | Some address \<Rightarrow> loopback_address address)"

definition absolute_parts :: "uri_lib \<Rightarrow> string \<Rightarrow> (not_absolute, string \<times> string) result" where
  "absolute_parts U text =
     and_then (map_err (UriMalformed text) (U text)) (\<lambda>uri.
       case (uri_scheme uri, uri_host uri) of
         (Some scheme, Some host) \<Rightarrow> Ok (scheme, host)
       | _ \<Rightarrow> Err (NoHost text))"

definition metrics_url_of :: "uri_lib \<Rightarrow> string \<Rightarrow> (metrics_url_error, metrics_endpoint) result" where
  "metrics_url_of U text =
     and_then (map_err MetricsNotAbsolute (absolute_parts U text)) (\<lambda>(scheme, host).
       if (scheme = ''http'' \<or> scheme = ''https'') \<and> is_loopback host then Ok (MetricsUrl text)
       else Err (NotLoopback text))"

definition upload_url_of :: "uri_lib \<Rightarrow> string \<Rightarrow> (upload_url_error, upload_endpoint) result" where
  "upload_url_of U text =
     and_then (map_err UploadNotAbsolute (absolute_parts U text)) (\<lambda>(scheme, host).
       if scheme = ''https'' then Ok (UploadUrl text)
       else if scheme = ''http'' \<and> is_loopback host then Ok (UploadUrl text)
       else Err (Plaintext text))"

text \<open>\<open>UploadUrl::server\<close>; each of its three \<open>expect\<close>s is \<^const>\<open>None\<close>.\<close>

definition upload_server :: "uri_lib \<Rightarrow> upload_endpoint \<Rightarrow> string option" where
  "upload_server U url =
     (case U (upload_as_str url) of
        Inl e \<Rightarrow> None
      | Inr uri \<Rightarrow>
          (case (uri_scheme uri, uri_authority uri) of
             (Some scheme, Some authority) \<Rightarrow> Some (scheme @ ''://'' @ authority @ ''/'')
           | _ \<Rightarrow> None))"

text \<open>A host is the part of an authority, so a URL with the one has the other (\<open>http::Uri\<close>).\<close>

definition uri_lib_ok :: "uri_lib \<Rightarrow> bool" where
  "uri_lib_ok U \<longleftrightarrow> (\<forall>text uri. U text = Ok uri \<longrightarrow> uri_host uri \<noteq> None \<longrightarrow> uri_authority uri \<noteq> None)"

section \<open>What an IPv4 literal is\<close>

definition dotted :: "nat list \<Rightarrow> string" where
  "dotted octets = join_with (CHR ''.'') (map decimal octets)"

lemma radix10 [simp]: "is_radix_digit 10 = is_digit"
  by (rule ext) (auto simp: is_radix_digit_def is_ascii_hexdigit_def hex_value_def is_digit_def)

lemma in_radix10: "list_all is_digit ds \<Longrightarrow> in_radix 10 ds = undecimal ds"
  by (induction ds rule: rev_induct)
    (auto simp: in_radix_def undecimal_def digit_value_def hex_value_def)

lemma decimal_length3: "v \<le> 255 \<Longrightarrow> length (decimal v) \<le> 3"
  by (subst decimal.simps, subst decimal.simps [of "v div 10"], subst decimal.simps [of "v div 10 div 10"]) auto

lemma decimal_no_leading_zero: "hd (decimal n) = CHR ''0'' \<Longrightarrow> decimal n = ''0''"
proof (induction n rule: decimal.induct)
  case (1 n)
  show ?case
  proof (cases "n < 10")
    case True
    with 1(2) show ?thesis by (subst (asm) decimal.simps) (simp, subst decimal.simps, simp)
  next
    case False
    then have d: "decimal n = decimal (n div 10) @ [digit_char (n mod 10)]" by (subst decimal.simps) simp
    with 1 False have "decimal (n div 10) = ''0''" by simp
    then have "undecimal (decimal (n div 10)) = undecimal ''0''" by simp
    then have "n div 10 = undecimal ''0''" by (simp only: undecimal_decimal)
    then have "n div 10 = 0" by (simp add: undecimal_def digit_value_def)
    with False show ?thesis by auto
  qed
qed

definition no_digit_next :: "string \<Rightarrow> bool" where
  "no_digit_next r \<longleftrightarrow> (r = [] \<or> \<not> is_digit (hd r))"

lemma takeWhile_digits: "list_all is_digit ds \<Longrightarrow> no_digit_next r \<Longrightarrow> takeWhile is_digit (ds @ r) = ds"
  by (induction ds) (cases r; simp add: no_digit_next_def)+

lemma read_octet_iff:
  "read_octet s = Some (v, r) \<longleftrightarrow> s = decimal v @ r \<and> v \<le> 255 \<and> no_digit_next r"
proof
  assume r: "read_octet s = Some (v, r)"
  let ?ds = "takeWhile is_digit s"
  have dig: "list_all is_digit ?ds" by (auto simp: list_all_iff dest: set_takeWhileD)
  from r have "?ds \<noteq> []" and v: "v = undecimal ?ds" "v \<le> 255" and rest: "r = drop (length ?ds) s"
    and z: "hd ?ds = CHR ''0'' \<longrightarrow> length ?ds \<le> 1"
    using in_radix10 [OF dig] by (auto simp: read_number_def Let_def split: if_splits)
  have "decimal (undecimal ?ds) = ?ds"
  proof (rule decimal_undecimal [OF \<open>?ds \<noteq> []\<close> dig], rule impI)
    assume "hd ?ds = CHR ''0''"
    with z \<open>?ds \<noteq> []\<close> show "?ds = ''0''" by (cases ?ds) auto
  qed
  moreover have dw: "r = dropWhile is_digit s" unfolding rest by (rule dropWhile_eq_drop [symmetric])
  then have "s = ?ds @ r" by simp
  moreover have "no_digit_next r" 
    unfolding dw using hd_dropWhile [of is_digit s] by (auto simp: no_digit_next_def simp del: dropWhile_eq_Nil_conv)
  ultimately show "s = decimal v @ r \<and> v \<le> 255 \<and> no_digit_next r" using v by simp
next
  assume a: "s = decimal v @ r \<and> v \<le> 255 \<and> no_digit_next r"
  have dig: "list_all is_digit (decimal v)" by (auto simp: list_all_iff dest: decimal_digits)
  with a have "takeWhile is_digit s = decimal v" by (simp add: takeWhile_digits)
  with a dig decimal_length3 [of v] decimal_no_leading_zero [of v] show "read_octet s = Some (v, r)"
    by (auto simp: read_number_def Let_def in_radix10)
qed

abbreviation octet_list :: "nat list \<Rightarrow> bool" where
  "octet_list vs \<equiv> list_all (\<lambda>v. v \<le> 255) vs"

definition dot_tail :: "nat list \<Rightarrow> string" where
  "dot_tail vs = concat (map (\<lambda>v. CHR ''.'' # decimal v) vs)"

lemma dot_tail_simps [simp]:
  "dot_tail [] = []" "dot_tail (v # vs) = CHR ''.'' # decimal v @ dot_tail vs"
  by (simp_all add: dot_tail_def)

lemma dotted_Cons [simp]: "dotted (v # vs) = decimal v @ dot_tail vs"
proof (induction vs arbitrary: v)
  case (Cons w ws)
  from Cons [of w] show ?case by (simp add: dotted_def)
qed (simp add: dotted_def)

lemma no_digit_dot_tail [simp]:
  "no_digit_next (dot_tail vs @ r) \<longleftrightarrow> vs \<noteq> [] \<or> no_digit_next r"
  by (cases vs) (auto simp: no_digit_next_def is_digit_def)

lemma read_separator_0 [simp]: "read_separator sep 0 inner s = inner s"
  by (simp add: read_separator_def)

lemma read_separator_Some:
  "read_separator sep (Suc i) inner s = Some x \<longleftrightarrow> (\<exists>s'. s = sep # s' \<and> inner s' = Some x)"
  by (cases s) (auto simp: read_separator_def read_given_char_def)

lemma read_octets_Suc_iff:
  "read_octets i (Suc n) s = Some (w, r) \<longleftrightarrow>
     (\<exists>v vs r0. w = v # vs \<and> read_separator (CHR ''.'') i read_octet s = Some (v, r0)
        \<and> read_octets (Suc i) n r0 = Some (vs, r))"
  by (auto split: option.split prod.split)

lemma read_octets_tail:
  "read_octets (Suc i) n s = Some (vs, r) \<longleftrightarrow>
     length vs = n \<and> octet_list vs \<and> s = dot_tail vs @ r \<and> (n = 0 \<or> no_digit_next r)"
proof (induction n arbitrary: i s vs)
  case (Suc n)
  show ?case
    unfolding read_octets_Suc_iff read_separator_Some read_octet_iff Suc
    by (cases vs) auto
qed auto

lemma read_ipv4_iff:
  "read_ipv4 s = Some (vs, r) \<longleftrightarrow> length vs = 4 \<and> octet_list vs \<and> s = dotted vs @ r \<and> no_digit_next r"
proof -
  have e: "read_ipv4 s = read_octets 0 (Suc 3) s" unfolding read_ipv4_def by (simp add: eval_nat_numeral)
  show ?thesis
    unfolding e read_octets_Suc_iff read_separator_0 read_octet_iff read_octets_tail
    by (cases vs) auto
qed

lemma parse_ip_v4: "parse_ip s = Some (V4 vs) \<longleftrightarrow> length vs = 4 \<and> octet_list vs \<and> s = dotted vs"
proof
  assume "parse_ip s = Some (V4 vs)"
  then have "read_ipv4 s = Some (vs, [])" by (auto simp: parse_ip_def split: option.splits if_splits)
  then show "length vs = 4 \<and> octet_list vs \<and> s = dotted vs" unfolding read_ipv4_iff by simp
next
  assume "length vs = 4 \<and> octet_list vs \<and> s = dotted vs"
  then have "read_ipv4 s = Some (vs, [])" unfolding read_ipv4_iff by (simp add: no_digit_next_def)
  then show "parse_ip s = Some (V4 vs)" by (simp add: parse_ip_def)
qed

text \<open>What a loopback host is: \<open>127.b.c.d\<close>, or an IPv6 spelling of the address one.\<close>

definition spells_loopback :: "string \<Rightarrow> bool" where
  "spells_loopback h \<longleftrightarrow>
     (\<exists>b c d. octet_list [b, c, d] \<and> h = dotted [127, b, c, d]) \<or> parse_ip h = Some (V6 [0, 0, 0, 0, 0, 0, 0, 1])"

lemma v4_127:
  "(\<exists>vs. (length vs = 4 \<and> octet_list vs \<and> h = dotted vs) \<and> hd vs = 127) \<longleftrightarrow>
     (\<exists>b c d. octet_list [b, c, d] \<and> h = dotted [127, b, c, d])" (is "?l \<longleftrightarrow> ?r")
proof
  assume ?l
  then obtain vs where vs: "length vs = 4" "octet_list vs" "h = dotted vs" "hd vs = 127" by blast
  from vs(1) obtain a b c d where "vs = [a, b, c, d]"
    by (auto simp: numeral_eq_Suc length_Suc_conv)
  with vs have "octet_list [b, c, d] \<and> h = dotted [127, b, c, d]" by simp
  then show ?r by blast
next
  assume ?r
  then obtain b c d where r: "octet_list [b, c, d]" "h = dotted [127, b, c, d]" by blast
  show ?l by (rule exI [of _ "[127, b, c, d]"]) (use r in simp)
qed

lemma is_loopback_iff: "is_loopback host \<longleftrightarrow> spells_loopback (trim_brackets host)"
proof -
  let ?h = "trim_brackets host"
  have "is_loopback host \<longleftrightarrow>
      (\<exists>vs. parse_ip ?h = Some (V4 vs) \<and> hd vs = 127) \<or> parse_ip ?h = Some (V6 [0, 0, 0, 0, 0, 0, 0, 1])"
    unfolding is_loopback_def
    by (cases "parse_ip ?h" rule: option.exhaust [case_names None Some]; simp) (rename_tac a, case_tac a; simp)
  also have "(\<exists>vs. parse_ip ?h = Some (V4 vs) \<and> hd vs = 127) \<longleftrightarrow>
      (\<exists>b c d. octet_list [b, c, d] \<and> ?h = dotted [127, b, c, d])"
    unfolding parse_ip_v4 by (rule v4_127)
  finally show ?thesis by (simp add: spells_loopback_def)
qed

lemma absolute_parts_Ok:
  "absolute_parts U text = Ok (scheme, host) \<longleftrightarrow>
     (\<exists>uri. U text = Ok uri \<and> uri_scheme uri = Some scheme \<and> uri_host uri = Some host)"
  by (cases "U text") (auto simp: absolute_parts_def split: option.split)

text \<open>Where a submission may go: over TLS, or to this host.\<close>

definition private_url :: "uri_lib \<Rightarrow> string \<Rightarrow> string \<Rightarrow> bool" where
  "private_url U text scheme \<longleftrightarrow>
     (\<exists>uri host. U text = Ok uri \<and> uri_scheme uri = Some scheme \<and> uri_host uri = Some host
        \<and> (scheme = ''https'' \<or> scheme = ''http'' \<and> spells_loopback (trim_brackets host)))"

lemma upload_url_of_Ok:
  "upload_url_of U text = Ok url \<longleftrightarrow> url = UploadUrl text \<and> (\<exists>scheme. private_url U text scheme)"
proof -
  have "upload_url_of U text = Ok url \<longleftrightarrow> url = UploadUrl text
      \<and> (\<exists>scheme host. absolute_parts U text = Ok (scheme, host)
            \<and> (scheme = ''https'' \<or> scheme = ''http'' \<and> is_loopback host))"
    by (cases "absolute_parts U text") (auto simp: upload_url_of_def split: if_splits)
  then show ?thesis unfolding absolute_parts_Ok is_loopback_iff private_url_def by blast
qed

lemma metrics_url_of_Ok:
  "metrics_url_of U text = Ok url \<longleftrightarrow> url = MetricsUrl text
     \<and> (\<exists>uri host. U text = Ok uri \<and> (uri_scheme uri = Some ''http'' \<or> uri_scheme uri = Some ''https'')
           \<and> uri_host uri = Some host \<and> spells_loopback (trim_brackets host))"
proof -
  have "metrics_url_of U text = Ok url \<longleftrightarrow> url = MetricsUrl text
      \<and> (\<exists>scheme host. absolute_parts U text = Ok (scheme, host)
            \<and> (scheme = ''http'' \<or> scheme = ''https'') \<and> is_loopback host)"
    by (cases "absolute_parts U text") (auto simp: metrics_url_of_def split: if_splits)
  then show ?thesis unfolding absolute_parts_Ok is_loopback_iff by blast
qed

lemma upload_server_private:
  assumes "uri_lib_ok U" "private_url U text scheme"
  shows "\<exists>authority. upload_server U (UploadUrl text) = Some (scheme @ ''://'' @ authority @ ''/'')"
proof -
  obtain uri host where u: "U text = Ok uri" "uri_scheme uri = Some scheme" "uri_host uri = Some host"
    using assms(2) by (auto simp: private_url_def)
  moreover from u assms(1) obtain authority where "uri_authority uri = Some authority"
    by (force simp: uri_lib_ok_def)
  ultimately show ?thesis by (simp add: upload_server_def)
qed

section \<open>Properties\<close>

text \<open>
  C17: An upload URL is private by its type: a value of the type is exactly the text the configuration
  holds, its scheme is https, or it is http to an address literal of this host (\<open>127.b.c.d\<close>, or a
  spelling of the IPv6 address one; never a name), and where its pages are can always be said. Every
  such text is accepted, and every other one refused.
\<close>

theorem upload_url_private:
  assumes "uri_lib_ok U"
  shows "case upload_url_of U text of
      Inl e \<Rightarrow> \<nexists>scheme. private_url U text scheme
    | Inr url \<Rightarrow> upload_as_str url = text
        \<and> (\<exists>scheme authority. private_url U text scheme
              \<and> upload_server U url = Some (scheme @ ''://'' @ authority @ ''/''))"
proof (cases "upload_url_of U text")
  case (Inl e)
  then have "upload_url_of U text \<noteq> Ok (UploadUrl text)" by simp
  then have "\<nexists>scheme. private_url U text scheme" unfolding upload_url_of_Ok by simp
  with Inl show ?thesis by simp
next
  case (Inr url)
  then have "url = UploadUrl text" "\<exists>scheme. private_url U text scheme" by (simp_all add: upload_url_of_Ok)
  with Inr upload_server_private [OF assms, of "text"] show ?thesis by auto
qed

text \<open>A library that reads \<open>http://h/\<close> and \<open>https://h/\<close>.\<close>

definition demo_uri :: uri_lib where
  "demo_uri text =
     (case strip_prefix ''http://'' text of
        Some h \<Rightarrow> Ok \<lparr>uri_scheme = Some ''http'', uri_authority = Some (takeWhile (\<lambda>c. c \<noteq> CHR ''/'') h),
                     uri_host = Some (takeWhile (\<lambda>c. c \<noteq> CHR ''/'') h)\<rparr>
      | None \<Rightarrow> Err ''no scheme'')"

lemma demo_uri_ok: "uri_lib_ok demo_uri"
  by (auto simp: uri_lib_ok_def demo_uri_def split: option.splits)

lemma four: "(4 :: nat) = Suc (Suc (Suc (Suc 0)))" and seven: "(7 :: nat) = Suc (Suc (Suc 4))"
  and eight: "(8 :: nat) = Suc (Suc (Suc (Suc 4)))"
  by simp_all

lemma read_ipv4_Suc: "read_ipv4 s = read_octets 0 (Suc (Suc (Suc (Suc 0)))) s"
  unfolding read_ipv4_def four by (rule refl)

lemma read_ipv6_Suc:
  "read_groups 0 8 s = read_groups 0 (Suc (Suc (Suc (Suc (Suc (Suc (Suc (Suc 0)))))))) s"
  "read_groups 0 7 s = read_groups 0 (Suc (Suc (Suc (Suc (Suc (Suc (Suc 0))))))) s"
  unfolding eight seven four by (rule refl)+

lemma seven_zeros: "replicate 7 (0 :: nat) = [0, 0, 0, 0, 0, 0, 0]"
  unfolding seven four by simp

lemmas demo_eval = seven_zeros upload_url_of_def absolute_parts_def demo_uri_def is_loopback_def trim_brackets_def parse_ip_def
  read_ipv4_Suc read_ipv6_Suc read_ipv6_def read_number_def read_separator_def read_given_char_def Let_def is_radix_digit_def
  is_ascii_hexdigit_def hex_value_def is_digit_def in_radix_def

theorem upload_url_private_witness:
  "upload_url_of demo_uri ''http://127.0.0.1/up'' = Ok (UploadUrl ''http://127.0.0.1/up'')
   \<and> upload_url_of demo_uri ''http://[::1]/up'' = Ok (UploadUrl ''http://[::1]/up'')
   \<and> upload_url_of demo_uri ''http://localhost/up'' = Err (Plaintext ''http://localhost/up'')
   \<and> \<not> private_url demo_uri ''http://localhost/up'' ''http''"
proof -
  have r: "upload_url_of demo_uri ''http://127.0.0.1/up'' = Ok (UploadUrl ''http://127.0.0.1/up'')"
    "upload_url_of demo_uri ''http://[::1]/up'' = Ok (UploadUrl ''http://[::1]/up'')"
    "upload_url_of demo_uri ''http://localhost/up'' = Err (Plaintext ''http://localhost/up'')"
    by (simp_all add: demo_eval)
  with upload_url_private [OF demo_uri_ok, of "''http://localhost/up''"] show ?thesis by simp
qed

end
