(* ===== verification/Agent_Keys.thy ===== *)
theory Agent_Keys
  imports Attestation Agent_Id Reader
begin

text \<open>
  \<open>metsuke/src/keys.rs\<close> and \<open>identity.rs\<close>: the key an agent signs with, read from a cardano-cli
  TextEnvelope, and whether it speaks for the configured pool. Reading the file and its JSON are
  \<open>key_files\<close>; a path is its UTF-8 text.
\<close>

section \<open>Signing keys\<close>

definition SEED_PREFIX :: string where "SEED_PREFIX = ''5820''"
definition COLD_KEY_TYPE :: string where "COLD_KEY_TYPE = ''StakePoolSigningKey_ed25519''"
definition LEIOS_KEY_TYPE :: string where
  "LEIOS_KEY_TYPE = ''BlsSigningKey_bls12-381-BLS-Signature-Minimal-Signature-Size''"
definition LEIOS_KEY_TYPE_BEFORE_W36 :: string where
  "LEIOS_KEY_TYPE_BEFORE_W36 = ''BlsSigningKey_bls12-381-BLS-Signature-Mininimal-Signature-Size''"

lemmas key_types = COLD_KEY_TYPE_def LEIOS_KEY_TYPE_def LEIOS_KEY_TYPE_BEFORE_W36_def

record text_envelope =
  te_key_type :: string
  te_cbor_hex :: string

datatype key_error =
    KeyRead string io_error
  | KeyEnvelope string string
  | NotASigningKey string string
  | NotASeed string
  | SeedNotHex string hex_error
  | NotALeiosKey string leios_key_error
  | KeyMissing

record key_files =
  kf_read :: "string \<Rightarrow> (io_error, string) result"
  kf_envelope :: "string \<Rightarrow> (string, text_envelope) result"

definition load_signing_key :: "key_files \<Rightarrow> crypto \<Rightarrow> string \<Rightarrow> (key_error, submission_key) result" where
  "load_signing_key F C path =
     and_then (map_err (KeyRead path) (kf_read F path)) (\<lambda>text.
     and_then (map_err (KeyEnvelope path) (kf_envelope F text)) (\<lambda>envelope.
     and_then (ok_or (NotASeed path) (strip_prefix SEED_PREFIX (te_cbor_hex envelope))) (\<lambda>digits.
     and_then (map_err (SeedNotHex path) (decode 32 digits)) (\<lambda>sd.
       if te_key_type envelope = COLD_KEY_TYPE then Ok (ColdSigningKey (SigningKey sd))
       else if te_key_type envelope = LEIOS_KEY_TYPE \<or> te_key_type envelope = LEIOS_KEY_TYPE_BEFORE_W36 then
         and_then (map_err (NotALeiosKey path) (signing_key_from_bytes (bls C) sd)) (\<lambda>k. Ok (LeiosSubmissionKey k))
       else Err (NotASigningKey path (te_key_type envelope))))))"

definition resolve_signing_key ::
  "key_files \<Rightarrow> crypto \<Rightarrow> string option \<Rightarrow> string option \<Rightarrow> (key_error, submission_key) result" where
  "resolve_signing_key F C flag config =
     and_then (ok_or KeyMissing (case flag of Some p \<Rightarrow> Some p | None \<Rightarrow> config)) (load_signing_key F C)"

section \<open>Identity\<close>

datatype identity_error =
    IdentityAgentId agent_id_error
  | HostnameNotUtf8 bytes
  | PoolIdMismatch pool_id pool_id

text \<open>The kernel's host name is bytes.\<close>

definition agent_id_of :: "bytes \<Rightarrow> string option \<Rightarrow> (identity_error, agent_id) result" where
  "agent_id_of hostname configured =
     and_then
       (case configured of
          Some name \<Rightarrow> Ok name
        | None \<Rightarrow> if valid_utf8 hostname then Ok hostname else Err (HostnameNotUtf8 hostname))
       (\<lambda>name. map_err IdentityAgentId (slugify name))"

definition check_pool_id :: "crypto \<Rightarrow> pool_id \<Rightarrow> submission_key \<Rightarrow> (identity_error, unit) result" where
  "check_pool_id C configured key =
     (case key_attributes C key of
        None \<Rightarrow> Ok ()
      | Some implied \<Rightarrow> if implied = configured then Ok () else Err (PoolIdMismatch configured implied))"

section \<open>Laws\<close>

text \<open>What a key file says: a scheme by its type, and the 32 bytes behind the CBOR prefix.\<close>

definition key_file_says :: "key_files \<Rightarrow> string \<Rightarrow> string \<Rightarrow> bytes \<Rightarrow> bool" where
  "key_file_says F path key_type sd \<longleftrightarrow>
     (\<exists>text envelope digits. kf_read F path = Ok text \<and> kf_envelope F text = Ok envelope
        \<and> te_key_type envelope = key_type \<and> te_cbor_hex envelope = SEED_PREFIX @ digits
        \<and> length sd = 32 \<and> list_all is_ascii_hexdigit digits \<and> encode sd = map to_lower digits)"

lemma decode_32: "decode 32 digits = Ok sd \<longleftrightarrow>
    length sd = 32 \<and> list_all is_ascii_hexdigit digits \<and> encode sd = map to_lower digits"
proof -
  have "length digits = 64 \<longleftrightarrow> length sd = 32" if "encode sd = map to_lower digits"
    using arg_cong [OF that, of length] by simp arith
  then show ?thesis unfolding decode_exact by auto
qed

lemma load_signing_key_says:
  "load_signing_key F C path = Ok k \<longleftrightarrow>
     (\<exists>key_type sd. key_file_says F path key_type sd
        \<and> (if key_type = COLD_KEY_TYPE then k = ColdSigningKey (SigningKey sd)
           else key_type \<in> {LEIOS_KEY_TYPE, LEIOS_KEY_TYPE_BEFORE_W36}
              \<and> secret_key_validate (bls C) sd = BLST_SUCCESS \<and> k = LeiosSubmissionKey (LeiosSigningKey sd)))"
  unfolding load_signing_key_def key_file_says_def and_then_Ok_iff map_err_Ok_iff ok_or_Ok_iff strip_prefix_iff decode_32
  by (auto simp: and_then_Ok_iff split: if_splits)

lemma check_pool_id_Ok [simp]:
  "check_pool_id C pool k = Ok () \<longleftrightarrow> key_attributes C k = None \<or> key_attributes C k = Some pool"
  by (auto simp: check_pool_id_def split: option.split)

section \<open>Properties\<close>

text \<open>
  C45: A signing key is of the scheme its file's \<open>type\<close> names, never of one its bytes could pass for. A
  file loads exactly as the well-formed key whose seed it holds behind the CBOR prefix: a cold key
  under the cold type, a Leios key the curve library accepts under either spelling of the Leios type,
  and nothing under any other type.
\<close>

theorem key_is_its_file:
  "load_signing_key F C path = Ok k \<longleftrightarrow> submission_key_wf C k \<and>
     (case k of
        ColdSigningKey s \<Rightarrow> key_file_says F path COLD_KEY_TYPE (seed s)
      | LeiosSubmissionKey s \<Rightarrow> key_file_says F path LEIOS_KEY_TYPE (signing_key_bytes s)
          \<or> key_file_says F path LEIOS_KEY_TYPE_BEFORE_W36 (signing_key_bytes s))"
proof (cases k)
  case (ColdSigningKey s)
  moreover have "key_file_says F path COLD_KEY_TYPE sd \<Longrightarrow> length sd = 32" for sd by (auto simp: key_file_says_def)
  ultimately show ?thesis
    unfolding load_signing_key_says by (cases s) (auto split: if_splits)
next
  case (LeiosSubmissionKey s)
  moreover have "LEIOS_KEY_TYPE \<noteq> COLD_KEY_TYPE" "LEIOS_KEY_TYPE_BEFORE_W36 \<noteq> COLD_KEY_TYPE"
    by (simp_all add: key_types)
  ultimately show ?thesis
    unfolding load_signing_key_says by (cases s) (auto split: if_splits)
qed

end
