(* ===== verification/Agent_Config.thy ===== *)
theory Agent_Config
  imports Endpoint Agent_Keys Sntp Json "HOL-Library.Monad_Syntax"
begin

text \<open>
  \<open>metsuke/src/config.rs\<close> and \<open>cli.rs\<close>: the file an operator edits, validated into the configuration the
  agent runs on, and the two flags. The \<open>toml\<close> crate's part is to read the file as a table whose
  values have the kinds the fields ask for and whose keys are all known (\<open>config_lib\<close>); ranges,
  defaults and the conversions the fields declare are written out. A \<open>Duration\<close> is its nanoseconds.
\<close>

section \<open>Numbers of a table\<close>

definition as_u64 :: "int \<Rightarrow> nat option" where
  "as_u64 n = (if 0 \<le> n \<and> n \<le> int u64_max then Some (nat n) else None)"

definition as_nonzero :: "int \<Rightarrow> nat option" where
  "as_nonzero n = Option.bind (as_u64 n) (\<lambda>k. if k = 0 then None else Some k)"

definition as_i32 :: "int \<Rightarrow> int option" where
  "as_i32 n = (if - (2 ^ 31) \<le> n \<and> n < 2 ^ 31 then Some n else None)"

text \<open>A field that may be absent: what it is then, or what its value converts to, if it does.\<close>

definition field_or :: "'b \<Rightarrow> ('a \<Rightarrow> 'b option) \<Rightarrow> 'a option \<Rightarrow> 'b option" where
  "field_or absent conv v = (case v of None \<Rightarrow> Some absent | Some x \<Rightarrow> conv x)"

definition optional :: "('a \<Rightarrow> 'b option) \<Rightarrow> 'a option \<Rightarrow> 'b option option" where
  "optional conv v = field_or None (\<lambda>x. map_option Some (conv x)) v"

section \<open>Defaults\<close>

definition default_scrape_interval_secs :: nat where "default_scrape_interval_secs = 300"
definition default_upload_interval_secs :: nat where "default_upload_interval_secs = 3600"
definition default_upload_max_submissions :: nat where "default_upload_max_submissions = 16"
definition DEFAULT_SERVER :: string where "DEFAULT_SERVER = ''time.cloudflare.com:123''"
definition default_sntp_servers :: "string list" where "default_sntp_servers = [DEFAULT_SERVER]"
definition default_sntp_timeout_secs :: nat where "default_sntp_timeout_secs = 5"
definition default_spool_path :: string where "default_spool_path = ''/var/lib/metsuke/spool.sqlite''"
definition default_spool_max_bytes :: nat where "default_spool_max_bytes = 32 * 1024 * 1024"
definition default_spool_busy_timeout_secs :: nat where "default_spool_busy_timeout_secs = 5"
definition default_upload_batch_max_bytes :: nat where "default_upload_batch_max_bytes = 4 * 1024 * 1024"
definition default_log_namespace_roots :: "string list" where
  "default_log_namespace_roots = [''Consensus'', ''ChainDB'', ''Forge'']"
definition default_log_namespaces :: "string list" where
  "default_log_namespaces =
     [''Consensus.LeiosKernel'', ''Consensus.LeiosPeer'', ''ChainDB.AddBlockEvent.AddedToCurrentChain'',
      ''Forge.Loop.AdoptedBlock'']"
definition default_pipe_queue_capacity :: nat where "default_pipe_queue_capacity = 4096"
definition default_log_max_line_bytes :: nat where "default_log_max_line_bytes = 64 * 1024"
definition default_log_max_bytes :: nat where "default_log_max_bytes = 256 * 1024 * 1024"
definition default_log_respawn_backoff_secs :: nat where "default_log_respawn_backoff_secs = 30"
definition default_log_start_grace_secs :: nat where "default_log_start_grace_secs = 1"
definition default_scrape_timeout_secs :: nat where "default_scrape_timeout_secs = 5"
definition default_scrape_max_body_bytes :: nat where "default_scrape_max_body_bytes = 4 * 1024 * 1024"
definition default_upload_timeout_secs :: nat where "default_upload_timeout_secs = 60"
definition default_upload_jitter_max_secs :: nat where "default_upload_jitter_max_secs = 300"
definition default_upload_backoff_max_secs :: nat where "default_upload_backoff_max_secs = 86400"

lemmas default_numbers = default_scrape_interval_secs_def default_upload_interval_secs_def
  default_upload_max_submissions_def default_sntp_timeout_secs_def default_spool_max_bytes_def
  default_spool_busy_timeout_secs_def default_upload_batch_max_bytes_def default_pipe_queue_capacity_def
  default_log_max_line_bytes_def default_log_max_bytes_def default_log_respawn_backoff_secs_def
  default_log_start_grace_secs_def default_scrape_timeout_secs_def default_scrape_max_body_bytes_def
  default_upload_timeout_secs_def default_upload_jitter_max_secs_def default_upload_backoff_max_secs_def

definition secs :: "nat \<Rightarrow> nat" where
  "secs n = n * 10 ^ 9"

section \<open>The \<open>[log]\<close> table\<close>

record journal_config =
  jc_journal_unit :: string
  jc_journalctl_path :: string
  jc_start_grace :: nat
  jc_max_line_bytes :: nat

record pipe_config =
  pc_queue_capacity :: nat
  pc_max_line_bytes :: nat

datatype log_source_kind = KindJournald | KindPipe
datatype log_source = FromJournald journal_config | FromPipe pipe_config

record log_config =
  lc_source :: log_source
  lc_namespace_roots :: "string list"
  lc_namespaces :: "string list"
  lc_exclude_namespaces :: "string list"
  lc_log_max_bytes :: nat
  lc_respawn_backoff_secs :: nat

text \<open>The table as written, its numbers and defaults already taken.\<close>

record log_toml =
  lt_source :: log_source_kind
  lt_journal_unit :: "string option"
  lt_journalctl_path :: "string option"
  lt_start_grace_secs :: "nat option"
  lt_pipe_queue_capacity :: "nat option"
  lt_max_line_bytes :: nat
  lt_namespace_roots :: "string list"
  lt_namespaces :: "string list"
  lt_exclude_namespaces :: "string list"
  lt_log_max_bytes :: nat
  lt_respawn_backoff_secs :: nat

datatype log_source_error = JournaldNeeds string | PipeRefuses string | JournaldRefuses string

definition journald_source :: "log_toml \<Rightarrow> (log_source_error, log_source) result" where
  "journald_source t =
     (if lt_pipe_queue_capacity t \<noteq> None then Err (JournaldRefuses ''pipe_queue_capacity'')
      else and_then (ok_or (JournaldNeeds ''journal_unit'') (lt_journal_unit t)) (\<lambda>unit.
        and_then (ok_or (JournaldNeeds ''journalctl_path'') (lt_journalctl_path t)) (\<lambda>path.
          Ok (FromJournald
            \<lparr>jc_journal_unit = unit, jc_journalctl_path = path,
             jc_start_grace = secs (case lt_start_grace_secs t of None \<Rightarrow> default_log_start_grace_secs | Some n \<Rightarrow> n),
             jc_max_line_bytes = lt_max_line_bytes t\<rparr>))))"

definition pipe_source_of :: "log_toml \<Rightarrow> (log_source_error, log_source) result" where
  "pipe_source_of t =
     (case filter snd [(''journal_unit'', lt_journal_unit t \<noteq> None), (''journalctl_path'', lt_journalctl_path t \<noteq> None),
                       (''start_grace_secs'', lt_start_grace_secs t \<noteq> None)] of
        (name, _) # _ \<Rightarrow> Err (PipeRefuses name)
      | [] \<Rightarrow> Ok (FromPipe
          \<lparr>pc_queue_capacity = (case lt_pipe_queue_capacity t of None \<Rightarrow> default_pipe_queue_capacity | Some n \<Rightarrow> n),
           pc_max_line_bytes = lt_max_line_bytes t\<rparr>))"

definition log_config_of :: "log_toml \<Rightarrow> (log_source_error, log_config) result" where
  "log_config_of t =
     and_then (case lt_source t of KindJournald \<Rightarrow> journald_source t | KindPipe \<Rightarrow> pipe_source_of t) (\<lambda>source.
       Ok \<lparr>lc_source = source, lc_namespace_roots = lt_namespace_roots t, lc_namespaces = lt_namespaces t,
           lc_exclude_namespaces = lt_exclude_namespaces t, lc_log_max_bytes = lt_log_max_bytes t,
           lc_respawn_backoff_secs = lt_respawn_backoff_secs t\<rparr>)"

section \<open>The file\<close>

text \<open>The two tables as the library reads them.\<close>

record log_table =
  ltb_source :: "string option"
  ltb_journal_unit :: "string option"
  ltb_journalctl_path :: "string option"
  ltb_start_grace_secs :: "int option"
  ltb_pipe_queue_capacity :: "int option"
  ltb_max_line_bytes :: "int option"
  ltb_namespace_roots :: "string list option"
  ltb_namespaces :: "string list option"
  ltb_exclude_namespaces :: "string list option"
  ltb_log_max_bytes :: "int option"
  ltb_respawn_backoff_secs :: "int option"

record config_table =
  tb_pool_id :: "string option"
  tb_agent_id :: "string option"
  tb_metrics_url :: "string option"
  tb_upload_url :: "string option"
  tb_signing_key :: "string option"
  tb_scrape_interval_secs :: "int option"
  tb_upload_interval_secs :: "int option"
  tb_upload_max_submissions :: "int option"
  tb_sntp_servers :: "string list option"
  tb_sntp_timeout_secs :: "int option"
  tb_spool_path :: "string option"
  tb_spool_max_bytes :: "int option"
  tb_spool_busy_timeout_secs :: "int option"
  tb_upload_batch_max_bytes :: "int option"
  tb_scrape_timeout_secs :: "int option"
  tb_scrape_max_body_bytes :: "int option"
  tb_upload_timeout_secs :: "int option"
  tb_upload_jitter_max_secs :: "int option"
  tb_upload_backoff_max_secs :: "int option"
  tb_compression_level :: "int option"
  tb_log :: "log_table option"

record agent_config =
  cf_pool_id :: pool_id
  cf_agent_id :: "string option"
  cf_metrics_url :: metrics_endpoint
  cf_upload_url :: upload_endpoint
  cf_signing_key :: "string option"
  cf_scrape_interval_secs :: nat
  cf_upload_interval_secs :: nat
  cf_upload_max_submissions :: nat
  cf_sntp_servers :: "string list"
  cf_sntp_timeout_secs :: nat
  cf_spool_path :: string
  cf_spool_max_bytes :: nat
  cf_spool_busy_timeout_secs :: nat
  cf_upload_batch_max_bytes :: nat
  cf_scrape_timeout_secs :: nat
  cf_scrape_max_body_bytes :: nat
  cf_upload_timeout_secs :: nat
  cf_upload_jitter_max_secs :: nat
  cf_upload_backoff_max_secs :: nat
  cf_compression_level :: int
  cf_log :: "log_config option"

text \<open>One error; what it says is the library's.\<close>

datatype config_error = ConfigToml

record config_lib =
  cl_table :: "string \<Rightarrow> config_table option"
  cl_uri :: uri_lib
  cl_bech32 :: bech32_lib

definition result_ok :: "('e, 'a) result \<Rightarrow> 'a option" where
  "result_ok r = (case r of Inl _ \<Rightarrow> None | Inr x \<Rightarrow> Some x)"

definition log_source_kind_of :: "string \<Rightarrow> log_source_kind option" where
  "log_source_kind_of s =
     (if s = ''journald'' then Some KindJournald else if s = ''pipe'' then Some KindPipe else None)"

definition log_toml_of :: "log_table \<Rightarrow> log_toml option" where
  "log_toml_of t = do {
     source \<leftarrow> Option.bind (ltb_source t) log_source_kind_of;
     grace \<leftarrow> optional as_nonzero (ltb_start_grace_secs t);
     capacity \<leftarrow> optional as_nonzero (ltb_pipe_queue_capacity t);
     line_bytes \<leftarrow> field_or default_log_max_line_bytes as_nonzero (ltb_max_line_bytes t);
     roots \<leftarrow> field_or default_log_namespace_roots Some (ltb_namespace_roots t);
     namespaces \<leftarrow> field_or default_log_namespaces Some (ltb_namespaces t);
     excludes \<leftarrow> field_or [] Some (ltb_exclude_namespaces t);
     max_bytes \<leftarrow> field_or default_log_max_bytes as_u64 (ltb_log_max_bytes t);
     backoff \<leftarrow> field_or default_log_respawn_backoff_secs as_u64 (ltb_respawn_backoff_secs t);
     Some \<lparr>lt_source = source, lt_journal_unit = ltb_journal_unit t, lt_journalctl_path = ltb_journalctl_path t,
           lt_start_grace_secs = grace, lt_pipe_queue_capacity = capacity, lt_max_line_bytes = line_bytes,
           lt_namespace_roots = roots, lt_namespaces = namespaces, lt_exclude_namespaces = excludes,
           lt_log_max_bytes = max_bytes, lt_respawn_backoff_secs = backoff\<rparr>
   }"

definition config_of_table :: "uri_lib \<Rightarrow> bech32_lib \<Rightarrow> config_table \<Rightarrow> agent_config option" where
  "config_of_table U B t = do {
     pool \<leftarrow> Option.bind (tb_pool_id t) (\<lambda>s. result_ok (from_bech32 B s));
     metrics_url \<leftarrow> Option.bind (tb_metrics_url t) (\<lambda>s. result_ok (metrics_url_of U s));
     upload_url \<leftarrow> Option.bind (tb_upload_url t) (\<lambda>s. result_ok (upload_url_of U s));
     scrape_interval \<leftarrow> field_or default_scrape_interval_secs as_nonzero (tb_scrape_interval_secs t);
     upload_interval \<leftarrow> field_or default_upload_interval_secs as_nonzero (tb_upload_interval_secs t);
     max_submissions \<leftarrow> field_or default_upload_max_submissions as_nonzero (tb_upload_max_submissions t);
     servers \<leftarrow> field_or default_sntp_servers Some (tb_sntp_servers t);
     sntp_timeout \<leftarrow> field_or default_sntp_timeout_secs as_u64 (tb_sntp_timeout_secs t);
     spool_path \<leftarrow> field_or default_spool_path Some (tb_spool_path t);
     spool_max \<leftarrow> field_or default_spool_max_bytes as_u64 (tb_spool_max_bytes t);
     busy \<leftarrow> field_or default_spool_busy_timeout_secs as_u64 (tb_spool_busy_timeout_secs t);
     batch \<leftarrow> field_or default_upload_batch_max_bytes as_u64 (tb_upload_batch_max_bytes t);
     scrape_timeout \<leftarrow> field_or default_scrape_timeout_secs as_u64 (tb_scrape_timeout_secs t);
     scrape_body \<leftarrow> field_or default_scrape_max_body_bytes as_u64 (tb_scrape_max_body_bytes t);
     upload_timeout \<leftarrow> field_or default_upload_timeout_secs as_u64 (tb_upload_timeout_secs t);
     jitter_secs \<leftarrow> field_or default_upload_jitter_max_secs as_u64 (tb_upload_jitter_max_secs t);
     backoff_secs \<leftarrow> field_or default_upload_backoff_max_secs as_u64 (tb_upload_backoff_max_secs t);
     level \<leftarrow> field_or 0 as_i32 (tb_compression_level t);
     log \<leftarrow> optional (\<lambda>l. Option.bind (log_toml_of l) (\<lambda>toml. result_ok (log_config_of toml))) (tb_log t);
     Some \<lparr>cf_pool_id = pool, cf_agent_id = tb_agent_id t, cf_metrics_url = metrics_url, cf_upload_url = upload_url,
           cf_signing_key = tb_signing_key t, cf_scrape_interval_secs = scrape_interval,
           cf_upload_interval_secs = upload_interval, cf_upload_max_submissions = max_submissions,
           cf_sntp_servers = servers, cf_sntp_timeout_secs = sntp_timeout, cf_spool_path = spool_path,
           cf_spool_max_bytes = spool_max, cf_spool_busy_timeout_secs = busy, cf_upload_batch_max_bytes = batch,
           cf_scrape_timeout_secs = scrape_timeout, cf_scrape_max_body_bytes = scrape_body,
           cf_upload_timeout_secs = upload_timeout, cf_upload_jitter_max_secs = jitter_secs,
           cf_upload_backoff_max_secs = backoff_secs, cf_compression_level = level, cf_log = log\<rparr>
   }"

definition config_from_toml :: "config_lib \<Rightarrow> string \<Rightarrow> (config_error, agent_config) result" where
  "config_from_toml L s = ok_or ConfigToml (Option.bind (cl_table L s) (config_of_table (cl_uri L) (cl_bech32 L)))"

section \<open>The settings as the journal shows them\<close>

definition scheme_name :: "submission_key \<Rightarrow> string" where
  "scheme_name k = (case k of ColdSigningKey _ \<Rightarrow> ''cold'' | LeiosSubmissionKey _ \<Rightarrow> ''leios'')"

definition j_nat :: "nat \<Rightarrow> json" where "j_nat n = JNumber (decimal n)"
definition j_int :: "int \<Rightarrow> json" where
  "j_int n = JNumber (if n < 0 then CHR ''-'' # decimal (nat (- n)) else decimal (nat n))"
definition j_strings :: "string list \<Rightarrow> json" where "j_strings ss = JArray (map JString ss)"

text \<open>\<open>serde_json::json!\<close> of an object: its fields by key.\<close>

definition resolved_source :: "log_source \<Rightarrow> json_object" where
  "resolved_source s =
     (case s of
        FromJournald j \<Rightarrow>
          [(''source'', JString ''journald''), (''journal_unit'', JString (jc_journal_unit j)),
           (''journalctl_path'', JString (jc_journalctl_path j)), (''start_grace_secs'', j_nat (jc_start_grace j div 10 ^ 9)),
           (''max_line_bytes'', j_nat (jc_max_line_bytes j))]
      | FromPipe p \<Rightarrow>
          [(''source'', JString ''pipe''), (''pipe_queue_capacity'', j_nat (pc_queue_capacity p)),
           (''max_line_bytes'', j_nat (pc_max_line_bytes p))])"

definition resolved_log :: "log_config option \<Rightarrow> json" where
  "resolved_log lc =
     (case lc of
        None \<Rightarrow> JNull
      | Some log \<Rightarrow> JObject
          ([(''namespace_roots'', j_strings (lc_namespace_roots log)), (''namespaces'', j_strings (lc_namespaces log)),
            (''exclude_namespaces'', j_strings (lc_exclude_namespaces log)), (''log_max_bytes'', j_nat (lc_log_max_bytes log)),
            (''respawn_backoff_secs'', j_nat (lc_respawn_backoff_secs log))] @ resolved_source (lc_source log)))"

definition resolved :: "crypto \<Rightarrow> bech32_lib \<Rightarrow> agent_id \<Rightarrow> string option \<Rightarrow> submission_key \<Rightarrow> agent_config \<Rightarrow> json_object" where
  "resolved C B aid signing_key key c =
     [(''pool_id'', JString (to_bech32 B (cf_pool_id c))), (''agent_id'', JString aid),
      (''metrics_url'', JString (metrics_as_str (cf_metrics_url c))), (''upload_url'', JString (upload_as_str (cf_upload_url c))),
      (''signing_key'', case signing_key of None \<Rightarrow> JNull | Some p \<Rightarrow> JString p),
      (''signing_key_scheme'', JString (scheme_name key)), (''signing_key_public'', JString (public_key_hex C key)),
      (''scrape_interval_secs'', j_nat (cf_scrape_interval_secs c)), (''upload_interval_secs'', j_nat (cf_upload_interval_secs c)),
      (''upload_max_submissions'', j_nat (cf_upload_max_submissions c)), (''sntp_servers'', j_strings (cf_sntp_servers c)),
      (''sntp_timeout_secs'', j_nat (cf_sntp_timeout_secs c)), (''spool_path'', JString (cf_spool_path c)),
      (''spool_max_bytes'', j_nat (cf_spool_max_bytes c)), (''spool_busy_timeout_secs'', j_nat (cf_spool_busy_timeout_secs c)),
      (''upload_batch_max_bytes'', j_nat (cf_upload_batch_max_bytes c)), (''scrape_timeout_secs'', j_nat (cf_scrape_timeout_secs c)),
      (''scrape_max_body_bytes'', j_nat (cf_scrape_max_body_bytes c)), (''upload_timeout_secs'', j_nat (cf_upload_timeout_secs c)),
      (''upload_jitter_max_secs'', j_nat (cf_upload_jitter_max_secs c)),
      (''upload_backoff_max_secs'', j_nat (cf_upload_backoff_max_secs c)),
      (''compression_level'', j_int (cf_compression_level c)), (''log'', resolved_log (cf_log c))]"

section \<open>The two flags\<close>

definition DEFAULT_CONFIG_PATH :: string where "DEFAULT_CONFIG_PATH = ''/etc/metsuke/config.toml''"

record args =
  ar_config :: string
  ar_signing_key :: "string option"

datatype args_error = UnknownArgument string | MissingValue string

fun parse_args :: "args \<Rightarrow> string list \<Rightarrow> (args_error, args) result" where
  "parse_args a [] = Ok a"
| "parse_args a [x] = (if x \<in> {''--config'', ''--signing-key''} then Err (MissingValue x) else Err (UnknownArgument x))"
| "parse_args a (x # v # rest) =
     (if x = ''--config'' then parse_args (a\<lparr>ar_config := v\<rparr>) rest
      else if x = ''--signing-key'' then parse_args (a\<lparr>ar_signing_key := Some v\<rparr>) rest
      else Err (UnknownArgument x))"

definition args_parse :: "string list \<Rightarrow> (args_error, args) result" where
  "args_parse argv = parse_args \<lparr>ar_config = DEFAULT_CONFIG_PATH, ar_signing_key = None\<rparr> argv"

end
