(* ===== verification/Agent_Config_Laws.thy ===== *)
theory Agent_Config_Laws
  imports Agent_Config
begin

text \<open>
  What a configuration that was read is: every field in its range, both endpoints where they may be,
  and a \<open>[log]\<close> table with exactly the fields of its source. And that the settings line of the journal
  holds all of it.
\<close>

definition log_config_wf :: "log_config \<Rightarrow> bool" where
  "log_config_wf l \<longleftrightarrow> lc_log_max_bytes l \<le> u64_max \<and> lc_respawn_backoff_secs l \<le> u64_max
     \<and> (case lc_source l of
          FromJournald j \<Rightarrow> 0 < jc_max_line_bytes j \<and> (\<exists>n. jc_start_grace j = secs n \<and> 0 < n \<and> n \<le> u64_max)
        | FromPipe p \<Rightarrow> 0 < pc_max_line_bytes p \<and> 0 < pc_queue_capacity p)"

definition config_numbers :: "agent_config \<Rightarrow> nat list" where
  "config_numbers c =
     [cf_scrape_interval_secs c, cf_upload_interval_secs c, cf_upload_max_submissions c, cf_sntp_timeout_secs c,
      cf_spool_max_bytes c, cf_spool_busy_timeout_secs c, cf_upload_batch_max_bytes c, cf_scrape_timeout_secs c,
      cf_scrape_max_body_bytes c, cf_upload_timeout_secs c, cf_upload_jitter_max_secs c, cf_upload_backoff_max_secs c]"

definition agent_config_wf :: "uri_lib \<Rightarrow> agent_config \<Rightarrow> bool" where
  "agent_config_wf U c \<longleftrightarrow>
     pool_id_wf (cf_pool_id c)
     \<and> (\<exists>scheme. private_url U (upload_as_str (cf_upload_url c)) scheme)
     \<and> metrics_url_of U (metrics_as_str (cf_metrics_url c)) = Ok (cf_metrics_url c)
     \<and> 0 < cf_scrape_interval_secs c \<and> 0 < cf_upload_interval_secs c \<and> 0 < cf_upload_max_submissions c
     \<and> list_all (\<lambda>n. n \<le> u64_max) (config_numbers c)
     \<and> (case cf_log c of None \<Rightarrow> True | Some l \<Rightarrow> log_config_wf l)"

lemma field_or_Some: "field_or absent conv v = Some x \<longleftrightarrow> v = None \<and> x = absent \<or> (\<exists>y. v = Some y \<and> conv y = Some x)"
  by (cases v) (auto simp: field_or_def)

lemma as_u64_bound: "as_u64 n = Some k \<Longrightarrow> k \<le> u64_max"
  by (auto simp: as_u64_def split: if_splits)

lemma as_nonzero_bound: "as_nonzero n = Some k \<Longrightarrow> 0 < k \<and> k \<le> u64_max"
  by (auto simp: as_nonzero_def bind_eq_Some_conv dest: as_u64_bound split: if_splits)

lemma field_u64: "field_or d as_u64 v = Some k \<Longrightarrow> d \<le> u64_max \<Longrightarrow> k \<le> u64_max"
  by (auto simp: field_or_Some dest: as_u64_bound)

lemma field_nonzero: "field_or d as_nonzero v = Some k \<Longrightarrow> 0 < d \<and> d \<le> u64_max \<Longrightarrow> 0 < k \<and> k \<le> u64_max"
  by (auto simp: field_or_Some dest: as_nonzero_bound)

lemma optional_nonzero: "optional as_nonzero v = Some (Some k) \<Longrightarrow> 0 < k \<and> k \<le> u64_max"
  by (auto simp: optional_def field_or_Some dest: as_nonzero_bound)

lemma result_ok_Some [simp]: "result_ok r = Some x \<longleftrightarrow> r = Ok x"
  by (cases r) (auto simp: result_ok_def)

lemma log_config_of_wf:
  assumes "log_config_of t = Ok l"
    and "0 < lt_max_line_bytes t" "lt_log_max_bytes t \<le> u64_max" "lt_respawn_backoff_secs t \<le> u64_max"
    and "\<And>n. lt_start_grace_secs t = Some n \<Longrightarrow> 0 < n \<and> n \<le> u64_max"
    and "\<And>n. lt_pipe_queue_capacity t = Some n \<Longrightarrow> 0 < n"
  shows "log_config_wf l"
proof (cases "lt_source t")
  case KindJournald
  with assms(1) obtain source where s: "journald_source t = Ok source" "lc_source l = source"
      "lc_log_max_bytes l = lt_log_max_bytes t" "lc_respawn_backoff_secs l = lt_respawn_backoff_secs t"
    by (auto simp: log_config_of_def and_then_Ok_iff)
  let ?n = "case lt_start_grace_secs t of None \<Rightarrow> default_log_start_grace_secs | Some n \<Rightarrow> n"
  have "0 < ?n" "?n \<le> u64_max"
    using assms(5) by (auto simp: default_numbers u64_max_def split: option.split)
  moreover from s(1) obtain u p where "source = FromJournald
      \<lparr>jc_journal_unit = u, jc_journalctl_path = p, jc_start_grace = secs ?n, jc_max_line_bytes = lt_max_line_bytes t\<rparr>"
    unfolding journald_source_def and_then_Ok_iff ok_or_Ok_iff by (fastforce simp: and_then_Ok_iff split: if_splits)
  ultimately show ?thesis using assms(2-4) s(2-) by (auto simp: log_config_wf_def)
next
  case KindPipe
  with assms(1) obtain source where s: "pipe_source_of t = Ok source" "lc_source l = source"
      "lc_log_max_bytes l = lt_log_max_bytes t" "lc_respawn_backoff_secs l = lt_respawn_backoff_secs t"
    by (auto simp: log_config_of_def and_then_Ok_iff)
  from s(1) have "source = FromPipe \<lparr>pc_queue_capacity =
      (case lt_pipe_queue_capacity t of None \<Rightarrow> default_pipe_queue_capacity | Some n \<Rightarrow> n),
      pc_max_line_bytes = lt_max_line_bytes t\<rparr>"
    unfolding pipe_source_of_def by (auto split: list.splits)
  then show ?thesis
    using assms s(2-) by (auto simp: log_config_wf_def default_numbers split: option.split)
qed

lemma log_toml_of_wf:
  assumes "log_toml_of t = Some toml" "log_config_of toml = Ok l"
  shows "log_config_wf l"
proof (rule log_config_of_wf [OF assms(2)])
  show "0 < lt_max_line_bytes toml" "lt_log_max_bytes toml \<le> u64_max" "lt_respawn_backoff_secs toml \<le> u64_max"
    using assms(1)
    by (auto simp: log_toml_of_def bind_eq_Some_conv default_numbers u64_max_def
        dest!: field_nonzero field_u64)
  show "lt_start_grace_secs toml = Some n \<Longrightarrow> 0 < n \<and> n \<le> u64_max" for n
    using assms(1) by (auto simp: log_toml_of_def bind_eq_Some_conv dest: optional_nonzero)
  show "lt_pipe_queue_capacity toml = Some n \<Longrightarrow> 0 < n" for n
    using assms(1) by (auto simp: log_toml_of_def bind_eq_Some_conv dest: optional_nonzero)
qed

lemma default_bounds:
  "0 < default_scrape_interval_secs \<and> default_scrape_interval_secs \<le> u64_max"
  "0 < default_upload_interval_secs \<and> default_upload_interval_secs \<le> u64_max"
  "0 < default_upload_max_submissions \<and> default_upload_max_submissions \<le> u64_max"
  "default_sntp_timeout_secs \<le> u64_max" "default_spool_max_bytes \<le> u64_max" "default_spool_busy_timeout_secs \<le> u64_max"
  "default_upload_batch_max_bytes \<le> u64_max" "default_scrape_timeout_secs \<le> u64_max"
  "default_scrape_max_body_bytes \<le> u64_max" "default_upload_timeout_secs \<le> u64_max"
  "default_upload_jitter_max_secs \<le> u64_max" "default_upload_backoff_max_secs \<le> u64_max"
  by (simp_all add: default_numbers u64_max_def)

lemmas bounded_fields = default_bounds(1-3) [THEN [2] field_nonzero] default_bounds(4-) [THEN [2] field_u64]

lemma config_of_table_fields:
  assumes "config_of_table U B t = Some c"
  shows "\<exists>s. from_bech32 B s = Ok (cf_pool_id c)" "\<exists>s. metrics_url_of U s = Ok (cf_metrics_url c)"
    "\<exists>s. upload_url_of U s = Ok (cf_upload_url c)"
    "field_or default_scrape_interval_secs as_nonzero (tb_scrape_interval_secs t) = Some (cf_scrape_interval_secs c)"
    "field_or default_upload_interval_secs as_nonzero (tb_upload_interval_secs t) = Some (cf_upload_interval_secs c)"
    "field_or default_upload_max_submissions as_nonzero (tb_upload_max_submissions t) = Some (cf_upload_max_submissions c)"
    "field_or default_sntp_timeout_secs as_u64 (tb_sntp_timeout_secs t) = Some (cf_sntp_timeout_secs c)"
    "field_or default_spool_max_bytes as_u64 (tb_spool_max_bytes t) = Some (cf_spool_max_bytes c)"
    "field_or default_spool_busy_timeout_secs as_u64 (tb_spool_busy_timeout_secs t) = Some (cf_spool_busy_timeout_secs c)"
    "field_or default_upload_batch_max_bytes as_u64 (tb_upload_batch_max_bytes t) = Some (cf_upload_batch_max_bytes c)"
    "field_or default_scrape_timeout_secs as_u64 (tb_scrape_timeout_secs t) = Some (cf_scrape_timeout_secs c)"
    "field_or default_scrape_max_body_bytes as_u64 (tb_scrape_max_body_bytes t) = Some (cf_scrape_max_body_bytes c)"
    "field_or default_upload_timeout_secs as_u64 (tb_upload_timeout_secs t) = Some (cf_upload_timeout_secs c)"
    "field_or default_upload_jitter_max_secs as_u64 (tb_upload_jitter_max_secs t) = Some (cf_upload_jitter_max_secs c)"
    "field_or default_upload_backoff_max_secs as_u64 (tb_upload_backoff_max_secs t) = Some (cf_upload_backoff_max_secs c)"
    "optional (\<lambda>l. Option.bind (log_toml_of l) (\<lambda>toml. result_ok (log_config_of toml))) (tb_log t) = Some (cf_log c)"
  using assms unfolding config_of_table_def bind_eq_Some_conv result_ok_Some
  by (elim exE conjE; force)+

lemma config_of_table_wf:
  assumes "config_of_table U B t = Some c"
  shows "agent_config_wf U c"
proof -
  note fields = config_of_table_fields [OF assms]
  have "case cf_log c of None \<Rightarrow> True | Some l \<Rightarrow> log_config_wf l"
    using fields(16) by (auto simp: optional_def field_or_Some bind_eq_Some_conv dest: log_toml_of_wf split: option.split)
  moreover have "pool_id_wf (cf_pool_id c)" "\<exists>scheme. private_url U (upload_as_str (cf_upload_url c)) scheme"
      "metrics_url_of U (metrics_as_str (cf_metrics_url c)) = Ok (cf_metrics_url c)"
    using fields(1-3) by (auto simp: upload_url_of_Ok metrics_url_of_Ok dest: from_bech32_wf)
  ultimately show ?thesis
    using bounded_fields(1) [OF fields(4)] bounded_fields(2) [OF fields(5)] bounded_fields(3) [OF fields(6)]
      bounded_fields(4) [OF fields(7)] bounded_fields(5) [OF fields(8)] bounded_fields(6) [OF fields(9)]
      bounded_fields(7) [OF fields(10)] bounded_fields(8) [OF fields(11)] bounded_fields(9) [OF fields(12)]
      bounded_fields(10) [OF fields(13)] bounded_fields(11) [OF fields(14)] bounded_fields(12) [OF fields(15)]
    by (simp add: agent_config_wf_def config_numbers_def)
qed

lemma config_from_toml_wf: "config_from_toml L s = Ok c \<Longrightarrow> agent_config_wf (cl_uri L) c"
  by (auto simp: config_from_toml_def bind_eq_Some_conv intro: config_of_table_wf)

section \<open>The settings line\<close>

lemma decimal_inject [simp]: "decimal m = decimal n \<longleftrightarrow> m = n"
  using undecimal_decimal by metis

lemma decimal_no_sign: "decimal m \<noteq> CHR ''-'' # s"
  using decimal_digits [of "CHR ''-''" m] by (auto simp: is_digit_def)

lemma j_inject [simp]:
  "j_nat m = j_nat n \<longleftrightarrow> m = n"
  "j_int i = j_int k \<longleftrightarrow> i = k"
  "j_strings ss = j_strings ts \<longleftrightarrow> ss = ts"
  by (auto simp: j_nat_def j_int_def j_strings_def inj_on_def inj_map_eq_map decimal_no_sign decimal_no_sign [symmetric]
      split: if_splits)

lemma secs_div [simp]: "secs n div 1000000000 = n"
  by (simp add: secs_def)

lemma resolved_source_inject:
  assumes "log_config_wf l" "log_config_wf l'" "resolved_source (lc_source l) = resolved_source (lc_source l')"
  shows "lc_source l = lc_source l'"
proof (cases "lc_source l")
  case (FromJournald j)
  with assms(3) obtain j' where j': "lc_source l' = FromJournald j'"
    by (cases "lc_source l'") (auto simp: resolved_source_def)
  obtain m n where "jc_start_grace j = secs m" "jc_start_grace j' = secs n"
    using assms(1,2) FromJournald j' by (auto simp: log_config_wf_def)
  with assms(3) FromJournald j' show ?thesis
    by (cases j; cases j') (auto simp: resolved_source_def)
next
  case (FromPipe p)
  with assms(3) show ?thesis
    by (cases "lc_source l'"; cases p) (auto simp: resolved_source_def intro: pipe_config.equality)
qed

lemma resolved_log_inject:
  assumes "\<And>l. c = Some l \<Longrightarrow> log_config_wf l" "\<And>l. c' = Some l \<Longrightarrow> log_config_wf l"
    and "resolved_log c = resolved_log c'"
  shows "c = c'"
proof (cases c)
  case None
  with assms(3) show ?thesis by (cases c') (auto simp: resolved_log_def)
next
  case (Some l)
  with assms(3) obtain l' where l': "c' = Some l'" by (cases c') (auto simp: resolved_log_def)
  with Some assms have "lc_source l = lc_source l'"
    by (intro resolved_source_inject) (auto simp: resolved_log_def)
  with assms(3) Some l' show ?thesis by (auto simp: resolved_log_def intro: log_config.equality)
qed

section \<open>Properties\<close>

text \<open>
  The settings line of the journal is the whole configuration: two runs that print the same line
  run on the same settings, whatever files they came from, under keys of one scheme and one public
  half, as the same agent.
\<close>

theorem settings_line_whole:
  assumes "bech32_ok B" and "agent_config_wf U c" "agent_config_wf U' c'"
    and "resolved C B aid path key c = resolved C B aid' path' key' c'"
  shows "aid = aid' \<and> path = path' \<and> scheme_name key = scheme_name key' \<and> public_key_hex C key = public_key_hex C key'
    \<and> c\<lparr>cf_agent_id := cf_agent_id c', cf_signing_key := cf_signing_key c'\<rparr> = c'"
proof -
  have logs: "\<And>l. cf_log c = Some l \<Longrightarrow> log_config_wf l" "\<And>l. cf_log c' = Some l \<Longrightarrow> log_config_wf l"
    using assms(2,3) by (auto simp: agent_config_wf_def)
  have "resolved_log (cf_log c) = resolved_log (cf_log c')" using assms(4) by (simp add: resolved_def)
  with logs have "cf_log c = cf_log c'" by (rule resolved_log_inject)
  moreover have "cf_pool_id c = cf_pool_id c'"
    using assms to_bech32_inj by (simp add: resolved_def agent_config_wf_def)
  moreover have "cf_metrics_url c = cf_metrics_url c'" "cf_upload_url c = cf_upload_url c'"
    using assms(4) by (simp_all add: resolved_def metrics_endpoint.expand upload_endpoint.expand)
  moreover have "path = path'" using assms(4) by (simp add: resolved_def split: option.splits)
  ultimately show ?thesis
    using assms(4) by (simp add: resolved_def agent_config.equality)
qed

end
