(* ===== verification/Agent_Main.thy ===== *)
theory Agent_Main
  imports Report Agent_Config_Laws Log_Select Line_Source
begin

text \<open>
  \<open>metsuke/src/main.rs\<close>: the start of the agent, which is refused or comes to the state its loop runs on,
  and the loop, one turn at a time. What a turn meets (its clock, the node's answer, SQLite, the
  server) is its \<open>turn\<close>; what it writes to the journal is a list of lines. A panic, which is an instant past
  what the clock holds, is \<^const>\<open>None\<close>.
\<close>

section \<open>Start\<close>

datatype start_error = Spawn string io_error | NotFollowing string string

datatype startup_error =
    StartArgs args_error
  | StartReadConfig string io_error
  | StartConfig config_error
  | StartKey key_error
  | StartIdentity identity_error
  | StartSpool string
  | StartSelection outside_roots
  | StartTraceSource start_error

text \<open>
  The world a start meets: the two build constants, the files, the host's name, and what opening the
  spool and following the journal come to (the spool is opened once per stream, on one file).
\<close>

record start_world =
  mw_version :: string
  mw_build_rev :: string
  mw_read :: "string \<Rightarrow> (io_error, string) result"
  mw_config :: config_lib
  mw_keys :: key_files
  mw_crypto :: crypto
  mw_hostname :: bytes
  mw_to_string :: "json_object \<Rightarrow> string"
  mw_open_spool :: "string \<Rightarrow> (string, spool_db) result"
  mw_open_log_spool :: "string \<Rightarrow> (string, unit) result"
  mw_follow :: "journal_config \<Rightarrow> (start_error, unit) result"

record collection =
  co_spool :: log_spool
  co_selection :: select_config
  co_backoff :: nat
  co_source :: log_source

definition namespaces_text :: "log_config \<Rightarrow> string" where
  "namespaces_text l =
     (if lc_exclude_namespaces l = [] then join_text '', '' (lc_namespaces l)
      else join_text '', '' (lc_namespaces l) @ '' less '' @ join_text '', '' (lc_exclude_namespaces l))"

definition start_trace_collection ::
  "start_world \<Rightarrow> log_config \<Rightarrow> string \<Rightarrow> provenance \<Rightarrow> string list \<times> (startup_error, collection) result" where
  "start_trace_collection W l spool_path prov =
     (case and_then (map_err StartSpool (mw_open_log_spool W spool_path)) (\<lambda>_.
             map_err StartSelection
               (select_config_new (lc_namespace_roots l) (lc_namespaces l) (lc_exclude_namespaces l))) of
        Inl e \<Rightarrow> ([], Err e)
      | Inr selection \<Rightarrow>
          (let found = \<lparr>co_spool = \<lparr>lsp_max_bytes = lc_log_max_bytes l, lsp_provenance = prov\<rparr>,
                        co_selection = selection, co_backoff = secs (lc_respawn_backoff_secs l), co_source = lc_source l\<rparr>
           in case lc_source l of
                FromJournald j \<Rightarrow>
                  ([INFO @ ''collecting trace lines from '' @ jc_journal_unit j @ '': namespaces '' @ namespaces_text l],
                   and_then (map_err StartTraceSource (mw_follow W j)) (\<lambda>_. Ok found))
              | FromPipe p \<Rightarrow>
                  ([INFO @ ''collecting trace lines from the '' @ nodes @ '' stdout: namespaces '' @ namespaces_text l], Ok found)))"

record running =
  rn_agent :: agent
  rn_db :: spool_db
  rn_collection :: "collection option"
  rn_schedule_config :: schedule_config
  rn_scrape_interval :: nat
  rn_server :: string

datatype start_end =
    Answered string
  | StartFailed startup_error
  | StartPanicked
  | Running running

definition provenance_of :: "agent_config \<Rightarrow> agent_id \<Rightarrow> provenance" where
  "provenance_of c aid = \<lparr>pv_pool = cf_pool_id c, pv_agent = aid\<rparr>"

definition agent_of :: "agent_config \<Rightarrow> submission_key \<Rightarrow> agent_id \<Rightarrow> agent" where
  "agent_of c key aid =
     new_agent
       \<lparr>scr_scrape = \<lparr>sc_metrics_url = metrics_as_str (cf_metrics_url c), sc_max_body_bytes = cf_scrape_max_body_bytes c\<rparr>,
        scr_sntp_servers = cf_sntp_servers c\<rparr>
       \<lparr>d_spool = \<lparr>sp_max_bytes = cf_spool_max_bytes c, sp_provenance = provenance_of c aid, sp_uncarriable = no_uncarriable\<rparr>,
        d_key = key, d_compression_level = cf_compression_level c, d_batch_max_bytes = cf_upload_batch_max_bytes c\<rparr>
       \<lparr>upload_url = upload_as_str (cf_upload_url c), max_submissions = cf_upload_max_submissions c\<rparr>
       (cf_pool_id c)"

definition schedule_config_of :: "agent_config \<Rightarrow> schedule_config" where
  "schedule_config_of c =
     \<lparr>upload_interval = secs (cf_upload_interval_secs c), jitter_max = secs (cf_upload_jitter_max_secs c),
      backoff_max = secs (cf_upload_backoff_max_secs c)\<rparr>"

text \<open>The checks before anything is opened.\<close>

record identified =
  id_config :: agent_config
  id_key :: submission_key
  id_agent :: agent_id
  id_key_path :: "string option"

definition identify :: "start_world \<Rightarrow> args \<Rightarrow> (startup_error, identified) result" where
  "identify W a =
     and_then (map_err (StartReadConfig (ar_config a)) (mw_read W (ar_config a))) (\<lambda>content.
     and_then (map_err StartConfig (config_from_toml (mw_config W) content)) (\<lambda>c.
     and_then (map_err StartKey (resolve_signing_key (mw_keys W) (mw_crypto W) (ar_signing_key a) (cf_signing_key c))) (\<lambda>key.
     and_then (map_err StartIdentity (check_pool_id (mw_crypto W) (cf_pool_id c) key)) (\<lambda>_.
     and_then (map_err StartIdentity (agent_id_of (mw_hostname W) (cf_agent_id c))) (\<lambda>aid.
       Ok \<lparr>id_config = c, id_key = key, id_agent = aid,
           id_key_path = (case ar_signing_key a of Some p \<Rightarrow> Some p | None \<Rightarrow> cf_signing_key c)\<rparr>)))))"

definition scraping_line :: "start_world \<Rightarrow> identified \<Rightarrow> string" where
  "scraping_line W i =
     INFO @ ''metsuke on '' @ id_agent i @ '' scraping '' @ metrics_as_str (cf_metrics_url (id_config i)) @ '' for ''
       @ to_bech32 (cl_bech32 (mw_config W)) (cf_pool_id (id_config i)) @ '', signing with its ''
       @ (case key_attributes (mw_crypto W) (id_key i) of Some _ \<Rightarrow> ''cold'' | None \<Rightarrow> ''Leios'') @ '' key''"

definition launch :: "start_world \<Rightarrow> identified \<Rightarrow> string list \<times> start_end" where
  "launch W i =
     (let c = id_config i;
          prov = provenance_of c (id_agent i);
          settings = [INFO @ ''config: '' @ mw_to_string W
            (resolved (mw_crypto W) (cl_bech32 (mw_config W)) (id_agent i) (id_key_path i) (id_key i) c)]
      in case mw_open_spool W (cf_spool_path c) of
           Inl e \<Rightarrow> (settings, StartFailed (StartSpool e))
         | Inr db \<Rightarrow>
             (case (case cf_log c of
                      None \<Rightarrow> ([], Ok None)
                    | Some l \<Rightarrow> (case start_trace_collection W l (cf_spool_path c) prov of
                                  (lines, r) \<Rightarrow> (lines, and_then r (\<lambda>found. Ok (Some found))))) of
                (lines, Inl e) \<Rightarrow> (settings @ [scraping_line W i] @ lines, StartFailed e)
              | (lines, Inr found) \<Rightarrow>
                  (case upload_server (cl_uri (mw_config W)) (cf_upload_url c) of
                     None \<Rightarrow> (settings @ [scraping_line W i] @ lines, StartPanicked)
                   | Some server \<Rightarrow>
                       (settings @ [scraping_line W i] @ lines
                          @ [INFO @ ''the first scrape waits for the node to bind its metrics endpoint''],
                        Running \<lparr>rn_agent = agent_of c (id_key i) (id_agent i), rn_db = db, rn_collection = found,
                                 rn_schedule_config = schedule_config_of c, rn_scrape_interval = secs (cf_scrape_interval_secs c),
                                 rn_server = server\<rparr>))))"

definition agent_run :: "start_world \<Rightarrow> string \<Rightarrow> string list \<Rightarrow> string list \<times> start_end" where
  "agent_run W usage argv =
     (if list_ex (\<lambda>a. a = ''--help'' \<or> a = ''-h'') argv then ([], Answered usage)
      else if list_ex (\<lambda>a. a = ''--version'') argv then ([], Answered (version_line (mw_build_rev W) (mw_version W)))
      else case args_parse argv of
             Inl e \<Rightarrow> ([], StartFailed (StartArgs e))
           | Inr a \<Rightarrow>
               (let starting = [INFO @ ''metsuke '' @ version_line (mw_build_rev W) (mw_version W) @ '' starting'']
                in case identify W a of
                     Inl e \<Rightarrow> (starting, StartFailed e)
                   | Inr i \<Rightarrow> (case launch W i of (lines, r) \<Rightarrow> (starting @ lines, r))))"

section \<open>One upload tick\<close>

text \<open>The renderings the journal lines quote: \<open>Display\<close> of the errors, \<open>Debug\<close> of a string.\<close>

record texts =
  tx_upload_error :: "upload_error \<Rightarrow> string"
  tx_delivery_error :: "delivery_error \<Rightarrow> string"
  tx_debug :: "string \<Rightarrow> string"

definition reported :: "journal_line list \<Rightarrow> string list" where
  "reported lines = map (\<lambda>l. case l of Info s \<Rightarrow> INFO @ s | Warning s \<Rightarrow> WARNING @ s) lines"

definition dropped_lines :: "nat \<Rightarrow> string list" where
  "dropped_lines n =
     (if 0 < n
      then [WARNING @ ''the scrape spool cap dropped '' @ decimal n @ '' rows since the last report; uploads are not keeping up, or the server has been unreachable'']
      else [])"

definition uncarriable_lines :: "uncarriable_report \<Rightarrow> string list" where
  "uncarriable_lines u =
     (if 0 < ur_oversized u
      then [WARNING @ ''dropped '' @ decimal (ur_oversized u) @ '' rows no submission could ever carry, the largest ''
              @ decimal (ur_largest_bytes u) @ '' bytes: raise upload_batch_max_bytes past it, plus the '' @ ''envelope''
              @ [CHR 0x27] @ ''s framing'']
      else [])"

definition submission_text :: "uploaded \<Rightarrow> string" where
  "submission_text u = ''submission '' @ decimal (up_counter u) @ '' payload '' @ up_payload_digest u"

definition kept_text :: "uploaded \<Rightarrow> string" where
  "kept_text u = decimal (up_lines u) @ '' '' @ up_carried u"

definition sent_lines :: "string \<Rightarrow> string \<Rightarrow> uploaded \<Rightarrow> string list" where
  "sent_lines version server u =
     (case up_outcome u of
        UpAcked ack \<Rightarrow>
          [INFO @ submission_text u @ '' accepted: '' @ kept_text u @ '', '' @ decimal (up_bytes u) @ '' bytes'']
          @ (if newer_version_available version (latest_version ack)
             then [WARNING @ ''client '' @ latest_version ack @ '' is available (this is '' @ version @ ''); how to update is at '' @ server]
             else [])
      | UpRetryable reason \<Rightarrow>
          [WARNING @ submission_text u @ '' was not taken, and the spool keeps its '' @ kept_text u @ '': '' @ reason]
      | UpRejected status reason \<Rightarrow>
          [WARNING @ ''the server refused '' @ submission_text u @ '' with '' @ decimal status @ '', the spool keeps its ''
             @ kept_text u @ '', backing off: '' @ reason])"

definition failure_lines :: "texts \<Rightarrow> upload_error option \<Rightarrow> string list" where
  "failure_lines T failed = (case failed of None \<Rightarrow> [] | Some e \<Rightarrow> [ERR @ tx_upload_error T e])"

text \<open>What the two reads of the wall clock and the server meet.\<close>

record upload_world =
  uw_rounds :: "nat \<Rightarrow> round"
  uw_now :: instant
  uw_after :: instant

record main_env =
  me_libs :: agent_libs
  me_clock :: clock_lib
  me_texts :: texts
  me_version :: string
  me_running :: running

record loop_state =
  lp_agent :: agent
  lp_db :: spool_db
  lp_scrapes :: scrape_report
  lp_schedule :: schedule
  lp_journal :: "string list"

definition journalled :: "string list \<Rightarrow> loop_state \<Rightarrow> loop_state" where
  "journalled lines s = s\<lparr>lp_journal := lp_journal s @ lines\<rparr>"

definition finish_tick :: "main_env \<Rightarrow> upload_world \<Rightarrow> upload_tick \<Rightarrow> loop_state \<Rightarrow> loop_state \<times> nat option" where
  "finish_tick E w tick s =
     (let cfg = rn_schedule_config (me_running E) in
      if ut_sent tick = [] then
        (journalled (failure_lines (me_texts E) (ut_failed tick)
           @ [INFO @ nothing_sent_line (me_clock E) (uw_after w) (upload_interval cfg)]) s,
         Some (upload_interval cfg))
      else
        (let lines = concat (map (sent_lines (me_version E) (rn_server (me_running E))) (ut_sent tick))
                       @ failure_lines (me_texts E) (ut_failed tick)
         in case after (up_outcome (last (ut_sent tick))) cfg (nat (uw_after w mod 2 ^ 64)) (lp_schedule s) of
              (sched, None) \<Rightarrow> (journalled lines s\<lparr>lp_schedule := sched\<rparr>, None)
            | (sched, Some wait) \<Rightarrow>
                (journalled (lines @ [INFO @ next_submission_line (me_clock E) (uw_after w) wait]) s\<lparr>lp_schedule := sched\<rparr>,
                 Some wait)))"

definition main_upload_tick :: "main_env \<Rightarrow> upload_world \<Rightarrow> loop_state \<Rightarrow> loop_state \<times> nat option" where
  "main_upload_tick E w s =
     (case report_drain (lp_scrapes s) of
        (scrapes, summary) \<Rightarrow>
      (case take_dropped_report (lp_agent s) of
        (ag1, dropped) \<Rightarrow>
      (case upload_once (me_libs E) (uw_rounds w) (uw_now w) ag1 (lp_db s) of
        (ag2, db, tick) \<Rightarrow>
      (case agent_take_uncarriable_report ag2 of
        (ag3, uncarriable) \<Rightarrow>
           finish_tick E w tick
             (journalled (reported summary @ dropped_lines dropped @ uncarriable_lines uncarriable)
               s\<lparr>lp_scrapes := scrapes, lp_agent := ag3, lp_db := db\<rparr>)))))"

section \<open>The loop\<close>

definition FIRST_SCRAPE_DELAY :: nat where "FIRST_SCRAPE_DELAY = secs 10"
definition FIRST_ANSWER_RETRY :: nat where "FIRST_ANSWER_RETRY = secs 5"

text \<open>\<open>Instant + Duration\<close>: a monotonic clock holds seconds below \<open>2 ^ 63\<close>.\<close>

definition instant_add :: "nat \<Rightarrow> nat \<Rightarrow> nat option" where
  "instant_add a d = (if (a + d) div 10 ^ 9 < 2 ^ 63 then Some (a + d) else None)"

record main_loop =
  ml_state :: loop_state
  ml_starting_until :: nat
  ml_next_scrape :: nat
  ml_next_upload :: nat

definition loop_start :: "running \<Rightarrow> nat \<Rightarrow> nat \<Rightarrow> main_loop option" where
  "loop_start r t1 t2 =
     (let waited = min FIRST_SCRAPE_DELAY (rn_scrape_interval r)
      in Option.bind (Option.bind (instant_add t1 waited) (\<lambda>t. instant_add t (rn_scrape_interval r))) (\<lambda>until.
         Option.bind (instant_add t2 waited) (\<lambda>first.
           Some \<lparr>ml_state = \<lparr>lp_agent = rn_agent r, lp_db = rn_db r, lp_scrapes = report_default,
                   lp_schedule = schedule_new, lp_journal = []\<rparr>,
                 ml_starting_until = until, ml_next_scrape = first, ml_next_upload = first\<rparr>)))"

record turn =
  tn_now :: nat
  tn_scrape :: scrape_world
  tn_fault :: spool_faults
  tn_upload :: upload_world

definition main_scrape_tick :: "main_env \<Rightarrow> turn \<Rightarrow> bool \<Rightarrow> loop_state \<Rightarrow> loop_state" where
  "main_scrape_tick E t starting s =
     (case agent_scrape_once (dl_json (al_delivery (me_libs E))) (tn_scrape t) (tn_fault t) (lp_agent s) (lp_db s) of
        (ag, db, r) \<Rightarrow>
          (let s' = s\<lparr>lp_agent := ag, lp_db := db\<rparr>
           in case r of
                Inr news \<Rightarrow>
                  (case report_record (tx_debug (me_texts E)) news starting (lp_scrapes s) of
                     (scrapes, lines) \<Rightarrow> journalled (reported lines) s'\<lparr>lp_scrapes := scrapes\<rparr>)
              | Inl e \<Rightarrow> journalled [ERR @ ''scrape not spooled: '' @ tx_delivery_error (me_texts E) e] s'))"

definition scrape_turn :: "main_env \<Rightarrow> turn \<Rightarrow> main_loop \<Rightarrow> main_loop option" where
  "scrape_turn E t m =
     (if ml_next_scrape m \<le> tn_now t then
        (let interval = rn_scrape_interval (me_running E);
             starting = tn_now t < ml_starting_until m;
             s = main_scrape_tick E t starting (ml_state m);
             wait = (if starting \<and> \<not> report_answered (lp_scrapes s) then min FIRST_ANSWER_RETRY interval else interval)
         in map_option (\<lambda>next. m\<lparr>ml_state := s, ml_next_scrape := next\<rparr>) (instant_add (tn_now t) wait))
      else Some m)"

definition upload_turn :: "main_env \<Rightarrow> turn \<Rightarrow> main_loop \<Rightarrow> main_loop option" where
  "upload_turn E t m =
     (if ml_next_upload m \<le> tn_now t then
        (case main_upload_tick E (tn_upload t) (ml_state m) of
           (s, wait) \<Rightarrow> Option.bind wait (\<lambda>d.
             map_option (\<lambda>next. m\<lparr>ml_state := s, ml_next_upload := next\<rparr>) (instant_add (tn_now t) d)))
      else Some m)"

definition loop_turn :: "main_env \<Rightarrow> turn \<Rightarrow> main_loop \<Rightarrow> main_loop option" where
  "loop_turn E t m = Option.bind (scrape_turn E t m) (upload_turn E t)"

definition wake :: "main_loop \<Rightarrow> nat" where
  "wake m = min (ml_next_scrape m) (ml_next_upload m)"

end
