(* ===== verification/Agent_Life.thy ===== *)
theory Agent_Life
  imports Agent_Main Agent_Laws
begin

text \<open>
  What holds for the whole life of an agent: what its start has checked, and what none of its turns
  changes.
\<close>

section \<open>What a start has checked\<close>

lemma load_signing_key_wf: "load_signing_key F C path = Ok k \<Longrightarrow> submission_key_wf C k"
  by (auto simp: load_signing_key_says key_file_says_def split: if_splits)

definition identified_wf :: "start_world \<Rightarrow> identified \<Rightarrow> bool" where
  "identified_wf W i \<longleftrightarrow>
     agent_config_wf (cl_uri (mw_config W)) (id_config i)
     \<and> submission_key_wf (mw_crypto W) (id_key i)
     \<and> key_attributes (mw_crypto W) (id_key i) \<in> {None, Some (cf_pool_id (id_config i))}
     \<and> is_slug (id_agent i)"

lemma identify_wf: "identify W a = Ok i \<Longrightarrow> identified_wf W i"
  by (auto simp: identify_def and_then_Ok_iff identified_wf_def resolve_signing_key_def agent_id_of_def
      dest: config_from_toml_wf load_signing_key_wf slugify_is_slug)

definition started_from :: "start_world \<Rightarrow> identified \<Rightarrow> running \<Rightarrow> bool" where
  "started_from W i r \<longleftrightarrow>
     rn_agent r = agent_of (id_config i) (id_key i) (id_agent i)
     \<and> rn_schedule_config r = schedule_config_of (id_config i)
     \<and> rn_scrape_interval r = secs (cf_scrape_interval_secs (id_config i))
     \<and> (\<forall>c. rn_collection r = Some c \<longrightarrow> lsp_provenance (co_spool c) = provenance_of (id_config i) (id_agent i))"

lemma start_trace_collection_Ok:
  "start_trace_collection W l path prov = (lines, Ok found) \<Longrightarrow> lsp_provenance (co_spool found) = prov"
  by (auto simp: start_trace_collection_def Let_def and_then_Ok_iff split: sum.splits log_source.splits)

lemma launch_Running: "launch W i = (lines, Running r) \<Longrightarrow> started_from W i r"
  by (auto simp: launch_def Let_def started_from_def and_then_Ok_iff
      dest: start_trace_collection_Ok split: sum.splits option.splits prod.splits)

lemma run_Running:
  assumes "agent_run W usage argv = (lines, Running r)"
  obtains i where "identified_wf W i" "started_from W i r"
  using assms by (auto simp: agent_run_def Let_def split: if_splits sum.splits prod.splits dest: identify_wf launch_Running)

section \<open>What no turn changes\<close>

text \<open>Who the agent is and where it sends: all but what its spool and reports have counted.\<close>

definition same_agent :: "agent \<Rightarrow> agent \<Rightarrow> bool" where
  "same_agent ag ag' \<longleftrightarrow>
     ag_scraper ag' = ag_scraper ag \<and> ag_upload ag' = ag_upload ag \<and> ag_pool_id ag' = ag_pool_id ag
     \<and> d_key (ag_delivery ag') = d_key (ag_delivery ag)
     \<and> d_compression_level (ag_delivery ag') = d_compression_level (ag_delivery ag)
     \<and> d_batch_max_bytes (ag_delivery ag') = d_batch_max_bytes (ag_delivery ag)
     \<and> sp_provenance (d_spool (ag_delivery ag')) = sp_provenance (d_spool (ag_delivery ag))"

lemma same_agent_refl [simp]: "same_agent ag ag"
  by (simp add: same_agent_def)

lemma same_agent_trans: "same_agent a b \<Longrightarrow> same_agent b c \<Longrightarrow> same_agent a c"
  by (simp add: same_agent_def)

lemma take_from_same:
  assumes "take_from s L w now d db = (d', db', r)"
  shows "\<exists>sp. d' = d\<lparr>d_spool := sp\<rparr> \<and> sp_provenance sp = sp_provenance (d_spool d)"
proof -
  have "d' = d\<lparr>d_spool := d_spool d'\<rparr> \<and> sp_provenance (d_spool d') = sp_provenance (d_spool d)"
    using assms by (auto simp: take_from_def split: prod.splits sum.splits dest: taken_parts)
  then show ?thesis by blast
qed

lemma take_from_same_agent:
  "take_from s L w now (ag_delivery ag) db = (d', db', r) \<Longrightarrow> same_agent ag (ag\<lparr>ag_delivery := d'\<rparr>)"
  by (drule take_from_same) (auto simp: same_agent_def)

lemma drain_loop_same:
  "drain_loop L rounds now allowance s ag db sent n = ((ag', db', sent', n'), r) \<Longrightarrow>
     same_agent ag ag' \<and> ag_dropped_since_report ag' = ag_dropped_since_report ag
       \<and> (length sent \<le> allowance \<longrightarrow> length sent' \<le> allowance)"
proof (induction L rounds now allowance s ag db sent n arbitrary: ag' db' sent' n' r rule: drain_loop.induct)
  case (1 L rounds now allowance s ag db sent n)
  show ?case
  proof (cases "length sent < allowance")
    case False
    with "1.prems" show ?thesis by (simp add: drain_loop.simps)
  next
    case True
    obtain d db1 t where t: "take_from s (al_delivery L) (rd_take (rounds n)) now (ag_delivery ag) db = (d, db1, t)"
      by (metis prod_cases3)
    note same = take_from_same_agent [OF t]
    show ?thesis
    proof (cases t)
      case (Inl e)
      with "1.prems" t True same show ?thesis by (auto simp: drain_loop.simps [of L])
    next
      case (Inr opt)
      show ?thesis
      proof (cases opt)
        case None
        with Inr "1.prems" t True same show ?thesis by (auto simp: drain_loop.simps [of L])
      next
        case (Some sub)
        note IH = "1.IH" [OF True t [symmetric] refl, unfolded Inr, OF refl Some refl refl refl refl]
        from "1.prems" t True same Inr Some IH show ?thesis
          by (simp add: drain_loop.simps [of L rounds now allowance s ag] Let_def split: if_splits prod.splits sum.splits)
            (use same_agent_trans in \<open>fastforce simp: Suc_le_eq\<close>)+
      qed
    qed
  qed
qed

lemma drain_streams_same:
  "drain_streams L rounds now allowance ss ag db sent n = (ag', db', tick) \<Longrightarrow>
     same_agent ag ag' \<and> ag_dropped_since_report ag' = ag_dropped_since_report ag
       \<and> (length sent \<le> allowance \<longrightarrow> length (ut_sent tick) \<le> allowance)"
proof (induction ss arbitrary: ag db sent n)
  case (Cons s ss)
  obtain a d u m r where l: "drain_loop L rounds now allowance s ag db sent n = ((a, d, u, m), r)"
    by (metis prod_cases4 surj_pair)
  from drain_loop_same [OF l] Cons.IH [of a d u m] Cons.prems l show ?case
    by (cases r) (auto intro: same_agent_trans)
qed auto

lemma upload_once_same:
  "upload_once L rounds now ag db = (ag', db', tick) \<Longrightarrow>
     same_agent ag ag' \<and> ag_dropped_since_report ag' = ag_dropped_since_report ag
       \<and> length (ut_sent tick) \<le> max_submissions (ag_upload ag)"
  unfolding upload_once_def by (drule drain_streams_same) simp

lemma main_upload_tick_same: "main_upload_tick E w s = (s', wait) \<Longrightarrow> same_agent (lp_agent s) (lp_agent s')"
proof -
  assume tick: "main_upload_tick E w s = (s', wait)"
  let ?ag = "(lp_agent s)\<lparr>ag_dropped_since_report := 0\<rparr>"
  obtain ag2 db t where up: "upload_once (me_libs E) (uw_rounds w) (uw_now w) ?ag (lp_db s) = (ag2, db, t)"
    by (metis prod_cases3)
  have fin: "lp_agent (fst (finish_tick E w t s1)) = lp_agent s1" for s1
    by (auto simp: finish_tick_def Let_def journalled_def split: prod.splits option.splits)
  have "lp_agent (fst (main_upload_tick E w s)) = fst (agent_take_uncarriable_report ag2)"
    by (simp add: main_upload_tick_def case_prod_beta take_dropped_report_def up fin journalled_def)
  then have "lp_agent s' = fst (agent_take_uncarriable_report ag2)" using tick by simp
  moreover have "same_agent ag2 (fst (agent_take_uncarriable_report ag2))"
    by (simp add: agent_take_uncarriable_report_def delivery_take_uncarriable_report_def
        spool_take_uncarriable_report_def same_agent_def split: prod.split)
  moreover have "same_agent ?ag ag2" using upload_once_same [OF up] by simp
  moreover have "same_agent (lp_agent s) ?ag" by (simp add: same_agent_def)
  ultimately show ?thesis by (metis same_agent_trans)
qed

lemma main_scrape_tick_same: "same_agent (lp_agent s) (lp_agent (main_scrape_tick E t starting s))"
  by (auto simp: main_scrape_tick_def agent_scrape_once_def Let_def journalled_def same_agent_def
      split: prod.splits sum.splits)

lemma scrape_turn_same: "scrape_turn E t m = Some m' \<Longrightarrow> same_agent (lp_agent (ml_state m)) (lp_agent (ml_state m'))"
  using main_scrape_tick_same by (auto simp: scrape_turn_def Let_def split: if_splits)

lemma loop_turn_same:
  assumes "loop_turn E t m = Some m'"
  shows "same_agent (lp_agent (ml_state m)) (lp_agent (ml_state m'))"
proof -
  obtain m1 where m1: "scrape_turn E t m = Some m1" "upload_turn E t m1 = Some m'"
    using assms by (auto simp: loop_turn_def bind_eq_Some_conv)
  have "same_agent (lp_agent (ml_state m)) (lp_agent (ml_state m1))"
    using m1(1) by (rule scrape_turn_same)
  moreover have "same_agent (lp_agent (ml_state m1)) (lp_agent (ml_state m'))"
    using m1(2) by (auto simp: upload_turn_def bind_eq_Some_conv dest: main_upload_tick_same split: if_splits prod.splits)
  ultimately show ?thesis by (rule same_agent_trans)
qed

end
