(* ===== verification/Agent_Loop.thy ===== *)
theory Agent_Loop
  imports Agent_Life
begin

text \<open>
  The agent's loop over any number of turns: when it scrapes and uploads, how much it sends, what it
  says, and when its clock arithmetic holds.
\<close>

fun loop_turns :: "main_env \<Rightarrow> main_loop \<Rightarrow> turn list \<Rightarrow> main_loop option" where
  "loop_turns E m [] = Some m"
| "loop_turns E m (t # ts) = Option.bind (loop_turn E t m) (\<lambda>m'. loop_turns E m' ts)"

text \<open>\<open>thread::sleep\<close> never returns early: no turn meets a clock before the instant it was to wake at.\<close>

fun slept :: "main_env \<Rightarrow> main_loop \<Rightarrow> turn list \<Rightarrow> bool" where
  "slept E m [] \<longleftrightarrow> True"
| "slept E m (t # ts) \<longleftrightarrow> wake m \<le> tn_now t \<and> (case loop_turn E t m of None \<Rightarrow> True | Some m' \<Rightarrow> slept E m' ts)"

fun scrape_times :: "main_env \<Rightarrow> main_loop \<Rightarrow> turn list \<Rightarrow> nat list" where
  "scrape_times E m [] = []"
| "scrape_times E m (t # ts) =
     (if ml_next_scrape m \<le> tn_now t then [tn_now t] else [])
     @ (case loop_turn E t m of None \<Rightarrow> [] | Some m' \<Rightarrow> scrape_times E m' ts)"

text \<open>When it uploads, and how many submissions it sends then.\<close>

definition tick_sent :: "main_env \<Rightarrow> turn \<Rightarrow> main_loop \<Rightarrow> uploaded list" where
  "tick_sent E t m =
     (case scrape_turn E t m of
        None \<Rightarrow> []
      | Some m1 \<Rightarrow>
          ut_sent (snd (snd (upload_once (me_libs E) (uw_rounds (tn_upload t)) (uw_now (tn_upload t))
            (fst (take_dropped_report (lp_agent (ml_state m1)))) (lp_db (ml_state m1))))))"

fun upload_log :: "main_env \<Rightarrow> main_loop \<Rightarrow> turn list \<Rightarrow> (nat \<times> nat) list" where
  "upload_log E m [] = []"
| "upload_log E m (t # ts) =
     (if ml_next_upload m \<le> tn_now t then [(tn_now t, length (tick_sent E t m))] else [])
     @ (case loop_turn E t m of None \<Rightarrow> [] | Some m' \<Rightarrow> upload_log E m' ts)"

section \<open>Waits\<close>

definition upload_gap :: "schedule_config \<Rightarrow> nat" where
  "upload_gap cfg = min (upload_interval cfg) (backoff_max cfg)"

lemma after_waits:
  assumes "after u cfg k s = (s', Some d)" and "upload_interval cfg \<le> duration_max"
  shows "upload_gap cfg \<le> d"
proof (cases u)
  case (UpRejected status reason)
  let ?n = "min (consecutive_rejections s + 1) u32_max"
  have "1 \<le> saturating_pow2 ?n" by (simp add: saturating_pow2_def u32_max_def)
  then have "upload_interval cfg \<le> duration_saturating_mul (upload_interval cfg) (saturating_pow2 ?n)"
    using assms(2) by (simp add: duration_saturating_mul_def)
  moreover have "d = min (duration_saturating_mul (upload_interval cfg) (saturating_pow2 ?n)) (backoff_max cfg)"
    using assms(1) UpRejected by (auto simp: after_def Let_def)
  ultimately show ?thesis by (simp add: upload_gap_def)
next
  case (UpAcked ack)
  with assms(1) show ?thesis
    by (auto simp: after_def upload_gap_def jittered_def duration_add_def bind_eq_Some_conv split: if_splits)
next
  case (UpRetryable reason)
  with assms(1) show ?thesis
    by (auto simp: after_def upload_gap_def jittered_def duration_add_def bind_eq_Some_conv split: if_splits)
qed

lemma main_upload_tick_waits:
  assumes "main_upload_tick E w s = (s', Some d)"
    and "upload_interval (rn_schedule_config (me_running E)) \<le> duration_max"
  shows "upload_gap (rn_schedule_config (me_running E)) \<le> d"
proof -
  have fin: "upload_gap (rn_schedule_config (me_running E)) \<le> d" if "finish_tick E w tick s1 = (s', Some d)" for tick s1
    using that assms(2) after_waits
    by (fastforce simp: finish_tick_def Let_def upload_gap_def split: if_splits prod.splits option.splits)
  from assms(1) show ?thesis by (auto simp: main_upload_tick_def split: prod.splits dest: fin)
qed

lemma instant_add_Some: "instant_add a d = Some b \<Longrightarrow> b = a + d"
  by (simp add: instant_add_def split: if_splits)

definition interval :: "main_env \<Rightarrow> nat" where
  "interval E = rn_scrape_interval (me_running E)"

lemma scrape_turn_times:
  assumes "scrape_turn E t m = Some m'"
  shows "ml_next_upload m' = ml_next_upload m \<and> ml_starting_until m' = ml_starting_until m
    \<and> (if ml_next_scrape m \<le> tn_now t
       then tn_now t + min FIRST_ANSWER_RETRY (interval E) \<le> ml_next_scrape m'
          \<and> ml_next_scrape m' \<le> tn_now t + interval E
          \<and> (ml_starting_until m \<le> tn_now t \<longrightarrow> ml_next_scrape m' = tn_now t + interval E)
       else ml_next_scrape m' = ml_next_scrape m)"
  using assms by (auto simp: scrape_turn_def Let_def interval_def dest: instant_add_Some split: if_splits)

lemma upload_turn_times:
  assumes "upload_turn E t m = Some m'" and "upload_interval (rn_schedule_config (me_running E)) \<le> duration_max"
  shows "ml_next_scrape m' = ml_next_scrape m \<and> ml_starting_until m' = ml_starting_until m
    \<and> (if ml_next_upload m \<le> tn_now t
       then tn_now t + upload_gap (rn_schedule_config (me_running E)) \<le> ml_next_upload m'
       else ml_next_upload m' = ml_next_upload m)"
  using assms
  by (auto simp: upload_turn_def bind_eq_Some_conv split: if_splits prod.splits)
    (drule instant_add_Some, drule (1) main_upload_tick_waits, simp)

lemma loop_turn_times:
  assumes "loop_turn E t m = Some m'" and "upload_interval (rn_schedule_config (me_running E)) \<le> duration_max"
  shows "ml_starting_until m' = ml_starting_until m
    \<and> (if ml_next_upload m \<le> tn_now t
       then tn_now t + upload_gap (rn_schedule_config (me_running E)) \<le> ml_next_upload m'
       else ml_next_upload m' = ml_next_upload m)
    \<and> (if ml_next_scrape m \<le> tn_now t
       then tn_now t + min FIRST_ANSWER_RETRY (interval E) \<le> ml_next_scrape m'
          \<and> (ml_starting_until m \<le> tn_now t \<longrightarrow> tn_now t + interval E \<le> ml_next_scrape m')
       else ml_next_scrape m' = ml_next_scrape m)"
proof -
  obtain m1 where m1: "scrape_turn E t m = Some m1" "upload_turn E t m1 = Some m'"
    using assms(1) by (auto simp: loop_turn_def bind_eq_Some_conv)
  from scrape_turn_times [OF m1(1)] upload_turn_times [OF m1(2) assms(2)] show ?thesis by (auto split: if_splits)
qed

section \<open>Pace\<close>

lemma upload_log_spaced:
  assumes "upload_interval (rn_schedule_config (me_running E)) \<le> duration_max"
  shows "sorted_wrt (\<lambda>a b. a + upload_gap (rn_schedule_config (me_running E)) \<le> b) (map fst (upload_log E m ts))
    \<and> (\<forall>a \<in> set (map fst (upload_log E m ts)). ml_next_upload m \<le> a)"
proof (induction ts arbitrary: m)
  case (Cons t ts)
  show ?case
  proof (cases "loop_turn E t m")
    case (Some m')
    with Cons [of m'] loop_turn_times [OF Some assms] show ?thesis by (auto split: if_splits intro: le_trans)
  qed auto
qed simp

lemma scrape_times_spaced:
  assumes "upload_interval (rn_schedule_config (me_running E)) \<le> duration_max"
  shows "sorted_wrt (\<lambda>a b. a + min FIRST_ANSWER_RETRY (interval E) \<le> b
        \<and> (ml_starting_until m \<le> a \<longrightarrow> a + interval E \<le> b)) (scrape_times E m ts)
    \<and> (\<forall>a \<in> set (scrape_times E m ts). ml_next_scrape m \<le> a)"
proof (induction ts arbitrary: m)
  case (Cons t ts)
  show ?case
  proof (cases "loop_turn E t m")
    case (Some m')
    with Cons [of m'] loop_turn_times [OF Some assms] show ?thesis by (auto split: if_splits intro: le_trans)
  qed auto
qed simp

lemma spaced_count:
  assumes "sorted_wrt (\<lambda>a b. a + g \<le> b) xs" "\<forall>x \<in> set xs. a \<le> x \<and> x < a + w" "0 < (g :: nat)"
  shows "length xs \<le> w div g + 1"
proof (cases xs)
  case (Cons y ys)
  have far: "y + length ys * g \<le> last (y # ys)" if "sorted_wrt (\<lambda>a b. a + g \<le> b) (y # ys)" for y ys
    using that
  proof (induction ys arbitrary: y)
    case (Cons z zs)
    then have "z + length zs * g \<le> last (z # zs)" "y + g \<le> z" by auto
    then show ?case by simp
  qed simp
  have "last xs \<in> set xs" using Cons by simp
  with assms(2) have "last xs < a + w" by blast
  moreover have "a \<le> y" using assms(2) Cons by simp
  ultimately have "length ys * g \<le> w" using far [of y ys] assms(1) Cons by simp
  then have "length ys \<le> w div g" using assms(3) by (simp add: less_eq_div_iff_mult_less_eq)
  with Cons show ?thesis by simp
qed simp

lemma every_turn_works: "slept E m ts \<Longrightarrow> loop_turns E m ts = Some m' \<Longrightarrow> length ts \<le> length (scrape_times E m ts) + length (upload_log E m ts)"
proof (induction ts arbitrary: m)
  case (Cons t ts)
  then obtain m1 where m1: "loop_turn E t m = Some m1" "loop_turns E m1 ts = Some m'" by (auto simp: bind_eq_Some_conv)
  with Cons have "slept E m1 ts" "wake m \<le> tn_now t" by simp_all
  with Cons.IH [of m1] m1 show ?case by (auto simp: wake_def min_def split: if_splits)
qed simp

lemma upload_log_allowance:
  "\<forall>x \<in> set (upload_log E m ts). snd x \<le> max_submissions (ag_upload (lp_agent (ml_state m)))"
proof (induction ts arbitrary: m)
  case (Cons t ts)
  have "length (tick_sent E t m) \<le> max_submissions (ag_upload (lp_agent (ml_state m)))"
  proof (cases "scrape_turn E t m")
    case (Some m1)
    let ?ag = "fst (take_dropped_report (lp_agent (ml_state m1)))"
    obtain ag' db' tick where up: "upload_once (me_libs E) (uw_rounds (tn_upload t)) (uw_now (tn_upload t)) ?ag
        (lp_db (ml_state m1)) = (ag', db', tick)"
      by (metis prod_cases3)
    have "ag_upload ?ag = ag_upload (lp_agent (ml_state m))"
      using scrape_turn_same [OF Some] by (simp add: take_dropped_report_def same_agent_def)
    with upload_once_same [OF up] Some up show ?thesis by (simp add: tick_sent_def)
  qed (simp add: tick_sent_def)
  moreover have "\<forall>x \<in> set (upload_log E m' ts). snd x \<le> max_submissions (ag_upload (lp_agent (ml_state m)))"
    if "loop_turn E t m = Some m'" for m'
    using Cons [of m'] loop_turn_same [OF that] by (simp add: same_agent_def)
  ultimately show ?case by (cases "loop_turn E t m") auto
qed simp

lemma sum_list_bounded: "\<forall>x \<in> set xs. f x \<le> k \<Longrightarrow> sum_list (map f xs) \<le> length xs * (k :: nat)"
  by (induction xs) auto

section \<open>Properties\<close>


end
