(* ===== verification/Agent_Said.thy ===== *)
theory Agent_Said
  imports Agent_Loop
begin

text \<open>
  What the agent's journal accounts for over its whole life, and when its clock arithmetic cannot
  panic.
\<close>

section \<open>Rows the cap dropped\<close>

definition turn_dropped :: "main_env \<Rightarrow> turn \<Rightarrow> main_loop \<Rightarrow> nat" where
  "turn_dropped E t m =
     (if ml_next_scrape m \<le> tn_now t then
        (let ag = lp_agent (ml_state m)
         in case delivery_push (dl_json (al_delivery (me_libs E))) (tn_fault t) (ag_delivery ag)
                   (fst (scraper_scrape_once (tn_scrape t) (ag_scraper ag))) (lp_db (ml_state m)) of
              (_, Inl _) \<Rightarrow> 0
            | (_, Inr n) \<Rightarrow> n)
      else 0)"

fun run_dropped :: "main_env \<Rightarrow> main_loop \<Rightarrow> turn list \<Rightarrow> nat" where
  "run_dropped E m [] = 0"
| "run_dropped E m (t # ts) =
     turn_dropped E t m + (case loop_turn E t m of None \<Rightarrow> 0 | Some m' \<Rightarrow> run_dropped E m' ts)"

abbreviation pending :: "main_loop \<Rightarrow> nat" where
  "pending m \<equiv> ag_dropped_since_report (lp_agent (ml_state m))"

abbreviation journal :: "main_loop \<Rightarrow> string list" where
  "journal m \<equiv> lp_journal (ml_state m)"

lemma scrape_turn_said:
  assumes "scrape_turn E t m = Some m'"
  shows "pending m' = pending m + turn_dropped E t m \<and> (\<exists>lines. journal m' = journal m @ lines)"
proof (cases "ml_next_scrape m \<le> tn_now t")
  case True
  let ?s = "main_scrape_tick E t (tn_now t < ml_starting_until m) (ml_state m)"
  have "ml_state m' = ?s" using assms True by (auto simp: scrape_turn_def Let_def)
  moreover have "ag_dropped_since_report (lp_agent ?s) = pending m + turn_dropped E t m
      \<and> (\<exists>lines. lp_journal ?s = journal m @ lines)"
    using True
    by (auto simp: main_scrape_tick_def agent_scrape_once_def turn_dropped_def Let_def journalled_def
        split: prod.splits sum.splits)
  ultimately show ?thesis by simp
next
  case False
  with assms show ?thesis by (simp add: scrape_turn_def turn_dropped_def)
qed

lemma finish_tick_said:
  "lp_agent (fst (finish_tick E w tick s)) = lp_agent s
   \<and> (\<exists>lines. lp_journal (fst (finish_tick E w tick s)) = lp_journal s @ lines)"
  by (auto simp: finish_tick_def Let_def journalled_def split: prod.splits option.splits)

lemma upload_tick_said:
  assumes "main_upload_tick E w s = (s', wait)"
  shows "ag_dropped_since_report (lp_agent s') = 0
    \<and> (\<exists>before after. lp_journal s' = lp_journal s @ before @ dropped_lines (ag_dropped_since_report (lp_agent s)) @ after)"
proof -
  let ?ag = "(lp_agent s)\<lparr>ag_dropped_since_report := 0\<rparr>"
  obtain ag2 db t where up: "upload_once (me_libs E) (uw_rounds w) (uw_now w) ?ag (lp_db s) = (ag2, db, t)"
    by (metis prod_cases3)
  obtain ag3 u where un: "agent_take_uncarriable_report ag2 = (ag3, u)" by fastforce
  have "ag_dropped_since_report ag3 = 0"
    using upload_once_same [OF up] un
    by (auto simp: agent_take_uncarriable_report_def split: prod.splits)
  moreover obtain lines where "lp_journal s' = (lp_journal s @ (reported (snd (report_drain (lp_scrapes s)))
      @ dropped_lines (ag_dropped_since_report (lp_agent s)) @ uncarriable_lines u)) @ lines" "lp_agent s' = ag3"
  proof -
    let ?s1 = "journalled (reported (snd (report_drain (lp_scrapes s))) @ dropped_lines (ag_dropped_since_report (lp_agent s))
      @ uncarriable_lines u) s\<lparr>lp_scrapes := fst (report_drain (lp_scrapes s)), lp_agent := ag3, lp_db := db\<rparr>"
    have "s' = fst (main_upload_tick E w s)" using assms by simp
    also have "\<dots> = fst (finish_tick E w t ?s1)"
      by (simp add: main_upload_tick_def case_prod_beta take_dropped_report_def up un)
    finally have s': "s' = fst (finish_tick E w t ?s1)" .
    have s1: "lp_journal ?s1 = lp_journal s @ (reported (snd (report_drain (lp_scrapes s)))
        @ dropped_lines (ag_dropped_since_report (lp_agent s)) @ uncarriable_lines u)" "lp_agent ?s1 = ag3"
      by (simp_all add: journalled_def)
    from finish_tick_said [of E w t ?s1] that show ?thesis unfolding s1 s' by blast
  qed
  ultimately show ?thesis by auto
qed

lemma loop_turn_said:
  assumes "loop_turn E t m = Some m'"
  shows "\<exists>ns news. journal m' = journal m @ news \<and> subseq (concat (map dropped_lines ns)) news
    \<and> turn_dropped E t m + pending m = sum_list ns + pending m'"
proof -
  obtain m1 where m1: "scrape_turn E t m = Some m1" "upload_turn E t m1 = Some m'"
    using assms by (auto simp: loop_turn_def bind_eq_Some_conv)
  obtain lines where s: "pending m1 = pending m + turn_dropped E t m" "journal m1 = journal m @ lines"
    using scrape_turn_said [OF m1(1)] by blast
  show ?thesis
  proof (cases "ml_next_upload m1 \<le> tn_now t")
    case False
    with m1(2) s show ?thesis by (intro exI [of _ "[]"] exI [of _ lines]) (auto simp: upload_turn_def)
  next
    case True
    then obtain s' wait where tick: "main_upload_tick E (tn_upload t) (ml_state m1) = (s', wait)" "ml_state m' = s'"
      using m1(2) by (auto simp: upload_turn_def bind_eq_Some_conv split: prod.splits)
    then obtain b a where "journal m' = journal m1 @ b @ dropped_lines (pending m1) @ a" "pending m' = 0"
      using upload_tick_said [OF tick(1)] by auto
    moreover have "subseq (dropped_lines n) (lines @ b @ dropped_lines n @ a)" for n
      by (metis list_emb_append2 subseq_rev_drop_many subseq_order.refl append.assoc)
    ultimately show ?thesis
      using s by (intro exI [of _ "[pending m1]"] exI [of _ "lines @ b @ dropped_lines (pending m1) @ a"]) simp
  qed
qed

section \<open>Clocks\<close>

text \<open>Waits and readings a monotonic clock has room for.\<close>

definition half_range :: nat where "half_range = 2 ^ 62 * 10 ^ 9"

lemma instant_add_room: "a < half_range \<Longrightarrow> d \<le> half_range \<Longrightarrow> instant_add a d = Some (a + d)"
  by (simp add: instant_add_def half_range_def)

definition waits_fit :: "main_env \<Rightarrow> bool" where
  "waits_fit E \<longleftrightarrow>
     (let cfg = rn_schedule_config (me_running E)
      in upload_interval cfg + jitter_max cfg \<le> half_range \<and> as_millis (jitter_max cfg) < 2 ^ 64 - 1
         \<and> backoff_max cfg \<le> half_range \<and> interval E \<le> half_range)"

lemma after_room:
  assumes "waits_fit E"
  shows "\<exists>s' d. after u (rn_schedule_config (me_running E)) k s = (s', Some d) \<and> d \<le> half_range"
proof -
  let ?cfg = "rn_schedule_config (me_running E)"
  have fit: "upload_interval ?cfg + jitter_max ?cfg \<le> half_range" "as_millis (jitter_max ?cfg) < 2 ^ 64 - 1"
      "backoff_max ?cfg \<le> half_range"
    using assms by (simp_all add: waits_fit_def Let_def)
  have "as_millis (min (jitter_max ?cfg) (upload_interval ?cfg)) \<le> as_millis (jitter_max ?cfg)"
    unfolding as_millis_def by (intro div_le_mono) simp
  with fit obtain j where j: "jitter (jitter_max ?cfg) (upload_interval ?cfg) k = Some j"
    by (auto simp: jitter_def Let_def)
  have "upload_interval ?cfg + j \<le> half_range" using jitter_le [OF j] fit(1) by simp
  moreover have "half_range \<le> duration_max" by (simp add: half_range_def duration_max_def)
  ultimately have "jittered ?cfg k = Some (upload_interval ?cfg + j)" "upload_interval ?cfg + j \<le> half_range"
    using j by (simp_all add: jittered_def duration_add_def)
  with fit show ?thesis by (cases u) (auto simp: after_def Let_def)
qed

lemma main_upload_tick_room:
  assumes "waits_fit E"
  shows "\<exists>s' d. main_upload_tick E w s = (s', Some d) \<and> d \<le> half_range"
proof -
  have up: "upload_interval (rn_schedule_config (me_running E)) \<le> half_range"
    using assms by (simp add: waits_fit_def Let_def)
  have "\<exists>s' d. finish_tick E w tick s1 = (s', Some d) \<and> d \<le> half_range" for tick s1
  proof -
    obtain sched d where "after (up_outcome (last (ut_sent tick))) (rn_schedule_config (me_running E))
        (nat (uw_after w mod 2 ^ 64)) (lp_schedule s1) = (sched, Some d)" "d \<le> half_range"
      using after_room [OF assms] by blast
    with up show ?thesis by (auto simp: finish_tick_def Let_def)
  qed
  then show ?thesis by (simp add: main_upload_tick_def case_prod_beta)
qed

lemma loop_turn_room:
  assumes "waits_fit E" "tn_now t < half_range"
  shows "\<exists>m'. loop_turn E t m = Some m'"
proof -
  have i: "interval E \<le> half_range" using assms(1) by (simp add: waits_fit_def Let_def)
  have "\<exists>m1. scrape_turn E t m = Some m1"
    using i by (auto simp: scrape_turn_def Let_def interval_def instant_add_room [OF assms(2)] min.coboundedI2)
  then obtain m1 where m1: "scrape_turn E t m = Some m1" by blast
  obtain s' d where "main_upload_tick E (tn_upload t) (ml_state m1) = (s', Some d)" "d \<le> half_range"
    using main_upload_tick_room [OF assms(1)] by blast
  with m1 show ?thesis by (auto simp: loop_turn_def upload_turn_def instant_add_room [OF assms(2)])
qed

lemma loop_turns_room:
  "waits_fit E \<Longrightarrow> \<forall>t \<in> set ts. tn_now t < half_range \<Longrightarrow> \<exists>m'. loop_turns E m ts = Some m'"
proof (induction ts arbitrary: m)
  case (Cons t ts)
  then obtain m1 where "loop_turn E t m = Some m1" using loop_turn_room by (metis list.set_intros(1))
  with Cons show ?case by simp
qed simp

lemma loop_turns_said:
  "loop_turns E m ts = Some m' \<Longrightarrow> \<exists>ns news. journal m' = journal m @ news
    \<and> subseq (concat (map dropped_lines ns)) news \<and> run_dropped E m ts + pending m = sum_list ns + pending m'"
proof (induction ts arbitrary: m)
  case Nil
  then show ?case by (intro exI [of _ "[]"]) simp
next
  case (Cons t ts)
  then obtain m1 where m1: "loop_turn E t m = Some m1" "loop_turns E m1 ts = Some m'" by (auto simp: bind_eq_Some_conv)
  obtain ns news where a: "journal m1 = journal m @ news" "subseq (concat (map dropped_lines ns)) news"
      "turn_dropped E t m + pending m = sum_list ns + pending m1"
    using loop_turn_said [OF m1(1)] by blast
  obtain ns' news' where b: "journal m' = journal m1 @ news'" "subseq (concat (map dropped_lines ns')) news'"
      "run_dropped E m1 ts + pending m1 = sum_list ns' + pending m'"
    using Cons.IH [OF m1(2)] by blast
  show ?case
  proof (intro exI conjI)
    show "journal m' = journal m @ (news @ news')" using a b by simp
    show "subseq (concat (map dropped_lines (ns @ ns'))) (news @ news')"
      using list_emb_append_mono [OF a(2) b(2)] by simp
    show "run_dropped E m (t # ts) + pending m = sum_list (ns @ ns') + pending m'" using a(3) b(3) m1(1) by simp
  qed
qed

section \<open>Properties\<close>


text \<open>
  The widest interval the configuration's type takes is one the clock has no room for: such a
  configuration starts and then panics instead of being refused.
\<close>

theorem widest_interval_panics:
  "as_nonzero (2 ^ 63 - 1) = Some (2 ^ 63 - 1)
   \<and> (rn_scrape_interval r = secs (2 ^ 63 - 1) \<longrightarrow> secs 1 \<le> t1 \<longrightarrow> loop_start r t1 t2 = None)"
proof -
  have "loop_start r t1 t2 = None" if i: "rn_scrape_interval r = secs (2 ^ 63 - 1)" and t: "secs 1 \<le> t1"
  proof -
    have "secs (2 ^ 63) \<le> t1 + min FIRST_SCRAPE_DELAY (rn_scrape_interval r) + rn_scrape_interval r"
      using t by (simp add: i secs_def)
    then have "\<not> (t1 + min FIRST_SCRAPE_DELAY (rn_scrape_interval r) + rn_scrape_interval r) div 10 ^ 9 < 2 ^ 63"
      by (simp add: secs_def not_less less_eq_div_iff_mult_less_eq)
    then show ?thesis by (auto simp: loop_start_def Let_def instant_add_def)
  qed
  then show ?thesis by (simp add: as_nonzero_def as_u64_def u64_max_def)
qed

end
