(* ===== verification/Agent_Started.thy ===== *)
theory Agent_Started
  imports Agent_Said Intake_Laws
begin

text \<open>
  An agent that starts and the server its submissions reach: from the command line, the files and the
  key on one side to the acknowledgement on the other.
\<close>

text \<open>Both ends are built on the same libraries, and these keep their contracts.\<close>

definition deployed :: "start_world \<Rightarrow> main_env \<Rightarrow> server_libs \<Rightarrow> bool" where
  "deployed W E L \<longleftrightarrow>
     dl_crypto (al_delivery (me_libs E)) = mw_crypto W \<and> sl_crypto L = mw_crypto W
     \<and> dl_json (al_delivery (me_libs E)) = sl_json L \<and> al_bech32 (me_libs E) = kl_bech32 (sl_key L)
     \<and> crypto_ok (sl_crypto L) \<and> json_ok (sl_json L) \<and> bech32_ok (kl_bech32 (sl_key L))"

text \<open>A submission is what sealing an envelope of the agent's came to.\<close>

lemma take_from_seals:
  assumes "take_from s L w now d db = (d', db', Ok (Some sub))"
  obtains e hdr where
    "seal (dl_crypto L) (dl_json L) (dl_zstd L) (d_key d) e (d_compression_level d) = Ok (ss_wire_bytes sub, ss_attestation sub)"
    "header_json (dl_json L) e = Ok hdr" "e_provenance e = sp_provenance (d_spool d)"
proof -
  have sealed: "\<exists>e. seal (dl_crypto L) (dl_json L) (dl_zstd L) (d_key d1) e (d_compression_level d1)
        = Ok (ss_wire_bytes sub, ss_attestation sub) \<and> e_provenance e = sp_provenance (d_spool d1)"
    if "delivery_seal L fault d1 now pl rs waits db1 = (db2, Ok sub)" for fault d1 pl rs waits db1 db2
    using that
    by (auto simp: delivery_seal_def delivery_envelope_def new_envelope_def Let_def split: prod.splits sum.splits)
  have "\<exists>e. seal (dl_crypto L) (dl_json L) (dl_zstd L) (d_key d) e (d_compression_level d)
        = Ok (ss_wire_bytes sub, ss_attestation sub) \<and> e_provenance e = sp_provenance (d_spool d)"
    using assms
    by (auto simp: take_from_def seal_rows_def split: prod.splits sum.splits if_splits dest!: sealed taken_parts)
  with that show ?thesis by (auto simp: seal_Ok_iff header_json_def)
qed

lemma loop_turns_same:
  "loop_turns E m ts = Some m' \<Longrightarrow> same_agent (lp_agent (ml_state m)) (lp_agent (ml_state m'))"
  by (induction ts arbitrary: m) (auto simp: bind_eq_Some_conv intro: same_agent_trans dest!: loop_turn_same)

lemma loop_start_agent: "loop_start r t1 t2 = Some m \<Longrightarrow> lp_agent (ml_state m) = rn_agent r"
  by (auto simp: loop_start_def Let_def bind_eq_Some_conv)

section \<open>Properties\<close>

text \<open>
  C13: An agent that starts is refused only for policy, for as long as it runs. Whatever it takes from its
  spool at any time of its life goes to an endpoint that is TLS or this host; the server reads the
  request's headers as the key's signature for the configured pool, and acknowledges it exactly when
  its own limits say so: nothing the start has checked (the key file, the pool it speaks for, the
  names) can be what refuses it.
\<close>

theorem started_agent_taken:
  assumes "agent_run W usage argv = (lines, Running r)" and "deployed W E L"
    and "loop_start r t1 t2 = Some m0" and "loop_turns E m0 ts = Some m"
    and "take_from s (al_delivery (me_libs E)) tw now (ag_delivery (lp_agent (ml_state m))) db = (d', db', Ok (Some sub))"
    and rq: "rq = upload_request (al_bech32 (me_libs E)) (ag_upload (lp_agent (ml_state m)))
      (ag_pool_id (lp_agent (ml_state m))) sub"
  shows "(\<exists>scheme. private_url (cl_uri (mw_config W)) (rq_url rq) scheme)
    \<and> (\<exists>ad h n. ad_pool ad = ag_pool_id (rn_agent r)
        \<and> attributed_decode (sl_crypto L) (kl_bech32 (sl_key L)) (map_of (rq_headers rq) HEADER_VKEY)
            (map_of (rq_headers rq) HEADER_SIGNATURE) (map_of (rq_headers rq) HEADER_POOL) = Ok ad
        \<and> (\<forall>store w ik ar ar'. (\<exists>ik' v. submit L (store :: ('w, 'a) store) w (over ad (rq_body rq)) ik ar = (ik', ar', Ok v))
              \<longleftrightarrow> server_takes L store w ad (rq_body rq) h n ik ar ar'))"
proof -
  obtain i where i: "identified_wf W i" "started_from W i r" using assms(1) by (rule run_Running)
  let ?c = "id_config i" and ?ag = "lp_agent (ml_state m)" and ?C = "sl_crypto L" and ?B = "kl_bech32 (sl_key L)"
  have ag: "same_agent (agent_of ?c (id_key i) (id_agent i)) ?ag"
    using loop_turns_same [OF assms(4)] loop_start_agent [OF assms(3)] i(2) by (simp add: started_from_def)
  have who: "d_key (ag_delivery ?ag) = id_key i" "sp_provenance (d_spool (ag_delivery ?ag)) = provenance_of ?c (id_agent i)"
      "ag_pool_id ?ag = cf_pool_id ?c" "upload_url (ag_upload ?ag) = upload_as_str (cf_upload_url ?c)"
    using ag by (simp_all add: same_agent_def agent_of_def new_agent_def)
  have L: "dl_crypto (al_delivery (me_libs E)) = ?C" "dl_json (al_delivery (me_libs E)) = sl_json L"
      "al_bech32 (me_libs E) = ?B" "crypto_ok ?C" "json_ok (sl_json L)" "bech32_ok ?B" "mw_crypto W = ?C"
    using assms(2) by (auto simp: deployed_def)
  obtain e hdr where e: "seal ?C (sl_json L) (dl_zstd (al_delivery (me_libs E))) (id_key i) e
        (d_compression_level (ag_delivery ?ag)) = Ok (ss_wire_bytes sub, ss_attestation sub)"
      "header_json (sl_json L) e = Ok hdr" "e_provenance e = provenance_of ?c (id_agent i)"
    using take_from_seals [OF assms(5)] L who by metis
  have pool: "pv_pool (e_provenance e) = cf_pool_id ?c" by (simp add: e(3) provenance_of_def)
  have wf: "submission_key_wf ?C (id_key i)" "pool_id_wf (cf_pool_id ?c)"
      "key_attributes ?C (id_key i) = None \<or> key_attributes ?C (id_key i) = Some (cf_pool_id ?c)"
      "\<exists>scheme. private_url (cl_uri (mw_config W)) (upload_as_str (cf_upload_url ?c)) scheme"
    using i(1) L(7) by (auto simp: identified_wf_def agent_config_wf_def)
  let ?ad = "filed (ss_attestation sub) (cf_pool_id ?c)"
  have signed: "ss_attestation sub = attest ?C (id_key i) (ss_wire_bytes sub)" using e(1) by (auto simp: seal_Ok_iff)
  have body: "rq_body rq = ss_wire_bytes sub" "rq_url rq = upload_as_str (cf_upload_url ?c)"
    by (simp_all add: rq upload_request_def who)
  have "attributed_decode ?C ?B (map_of (rq_headers rq) HEADER_VKEY) (map_of (rq_headers rq) HEADER_SIGNATURE)
      (map_of (rq_headers rq) HEADER_POOL) = Ok ?ad"
    unfolding rq L(3) who by (rule upload_request_read [OF L(4,6) wf(1,2,3) signed])
  moreover have "(\<exists>ik' v. submit L (store :: ('w, 'a) store) w (over ?ad (rq_body rq)) ik ar = (ik', ar', Ok v))
      \<longleftrightarrow> server_takes L store w ?ad (rq_body rq) (header_of e) (length hdr) ik ar ar'" for store w ik ar ar'
    unfolding body by (rule sealed_submit [OF L(4,5) wf(1) e(1,2), unfolded pool])
  moreover have "ad_pool ?ad = ag_pool_id (rn_agent r)"
    using i(2) by (simp add: started_from_def agent_of_def new_agent_def filed_def)
  ultimately show ?thesis using wf(4) body(2) by auto
qed

text \<open>One agent, from a configuration file of four lines to a submission, and the witnesses that use it.\<close>

definition demo_table :: config_table where
  "demo_table =
     \<lparr>tb_pool_id = Some (to_bech32 demo_bech32 (pv_pool demo_provenance)), tb_agent_id = Some ''relay-1'',
      tb_metrics_url = Some ''http://127.0.0.1/m'', tb_upload_url = Some ''http://127.0.0.1/u'', tb_signing_key = None,
      tb_scrape_interval_secs = None, tb_upload_interval_secs = None, tb_upload_max_submissions = None,
      tb_sntp_servers = None, tb_sntp_timeout_secs = None, tb_spool_path = None, tb_spool_max_bytes = None,
      tb_spool_busy_timeout_secs = None, tb_upload_batch_max_bytes = None, tb_scrape_timeout_secs = None,
      tb_scrape_max_body_bytes = None, tb_upload_timeout_secs = None, tb_upload_jitter_max_secs = None,
      tb_upload_backoff_max_secs = None, tb_compression_level = None, tb_log = None\<rparr>"

definition demo_config_lib :: config_lib where
  "demo_config_lib = \<lparr>cl_table = (\<lambda>_. Some demo_table), cl_uri = demo_uri, cl_bech32 = demo_bech32\<rparr>"

definition demo_config :: agent_config where
  "demo_config =
     \<lparr>cf_pool_id = pv_pool demo_provenance, cf_agent_id = Some ''relay-1'',
      cf_metrics_url = MetricsUrl ''http://127.0.0.1/m'', cf_upload_url = UploadUrl ''http://127.0.0.1/u'', cf_signing_key = None,
      cf_scrape_interval_secs = 300, cf_upload_interval_secs = 3600, cf_upload_max_submissions = 16,
      cf_sntp_servers = default_sntp_servers, cf_sntp_timeout_secs = 5, cf_spool_path = default_spool_path,
      cf_spool_max_bytes = 33554432, cf_spool_busy_timeout_secs = 5, cf_upload_batch_max_bytes = 4194304,
      cf_scrape_timeout_secs = 5, cf_scrape_max_body_bytes = 4194304, cf_upload_timeout_secs = 60,
      cf_upload_jitter_max_secs = 300, cf_upload_backoff_max_secs = 86400, cf_compression_level = 0, cf_log = None\<rparr>"

lemma demo_urls:
  "metrics_url_of demo_uri ''http://127.0.0.1/m'' = Ok (MetricsUrl ''http://127.0.0.1/m'')"
  "upload_url_of demo_uri ''http://127.0.0.1/u'' = Ok (UploadUrl ''http://127.0.0.1/u'')"
  "upload_server demo_uri (UploadUrl ''http://127.0.0.1/u'') = Some ''http://127.0.0.1/''"
  by (simp_all add: demo_eval metrics_url_of_def upload_server_def)

lemma demo_pool_text: "from_bech32 demo_bech32 (to_bech32 demo_bech32 (pv_pool demo_provenance)) = Ok (pv_pool demo_provenance)"
  using from_bech32_to_bech32 [OF demo_bech32_ok demo_pool_wf] by (simp add: demo_envelope_def new_envelope_def)

lemma demo_config_reads: "config_from_toml demo_config_lib content = Ok demo_config"
  by (simp add: config_from_toml_def demo_config_lib_def config_of_table_def demo_table_def demo_urls demo_pool_text
      result_ok_def field_or_def optional_def demo_config_def default_numbers)

lemma demo_config_wf: "agent_config_wf demo_uri demo_config"
  using config_from_toml_wf [OF demo_config_reads] by (simp add: demo_config_lib_def)

definition demo_key_files :: key_files where
  "demo_key_files =
     \<lparr>kf_read = (\<lambda>_. Ok ''key''),
      kf_envelope = (\<lambda>_. Ok \<lparr>te_key_type = COLD_KEY_TYPE, te_cbor_hex = SEED_PREFIX @ encode (replicate 32 (CHR ''p''))\<rparr>)\<rparr>"

lemma demo_key_loads: "load_signing_key demo_key_files C path = Ok demo_signer"
  by (simp add: load_signing_key_def demo_key_files_def demo_signer_def)

definition demo_start :: start_world where
  "demo_start =
     \<lparr>mw_version = ''0.1.0'', mw_build_rev = ''r1'', mw_read = (\<lambda>_. Ok ''config''), mw_config = demo_config_lib,
      mw_keys = demo_key_files, mw_crypto = demo_crypto, mw_hostname = ''host'', mw_to_string = (\<lambda>_. ''settings''),
      mw_open_spool = (\<lambda>_. Ok demo_db), mw_open_log_spool = (\<lambda>_. Ok ()), mw_follow = (\<lambda>_. Ok ())\<rparr>"

definition demo_running :: running where
  "demo_running =
     \<lparr>rn_agent = agent_of demo_config demo_signer ''relay-1'', rn_db = demo_db, rn_collection = None,
      rn_schedule_config = schedule_config_of demo_config, rn_scrape_interval = secs 300,
      rn_server = ''http://127.0.0.1/''\<rparr>"

lemma demo_slug: "slugify ''relay-1'' = Ok ''relay-1''"
  by (intro slugify_slug) (simp add: is_slug_def is_slug_char_def is_digit_def is_lower_def)

lemma demo_identified:
  "identify demo_start a = Ok \<lparr>id_config = demo_config, id_key = demo_signer, id_agent = ''relay-1'',
     id_key_path = ar_signing_key a\<rparr>" if "ar_signing_key a = Some p"
proof -
  have "key_attributes demo_crypto demo_signer = Some (cf_pool_id demo_config)"
    using demo_signer_owner(2) by (simp add: demo_config_def demo_envelope_def new_envelope_def)
  moreover have "cf_agent_id demo_config = Some ''relay-1''" "cf_signing_key demo_config = None"
    by (simp_all add: demo_config_def)
  ultimately show ?thesis
    using that demo_slug
    by (simp add: identify_def demo_start_def demo_config_reads resolve_signing_key_def demo_key_loads agent_id_of_def
        check_pool_id_def)
qed

lemma demo_agent_runs: "\<exists>lines. agent_run demo_start usage [''--signing-key'', ''key''] = (lines, Running demo_running)"
proof -
  have "args_parse [''--signing-key'', ''key''] = Ok \<lparr>ar_config = DEFAULT_CONFIG_PATH, ar_signing_key = Some ''key''\<rparr>"
    by (simp add: args_parse_def)
  then show ?thesis
    by (simp add: agent_run_def demo_identified [of _ "''key''"] Let_def)
      (simp add: launch_def demo_start_def demo_config_lib_def demo_config_def demo_urls demo_running_def Let_def)
qed

section \<open>A submission of it\<close>

definition life_header :: "nat \<Rightarrow> header" where
  "life_header c =
     \<lparr>h_schema_version = 1, h_provenance = demo_provenance, h_agent_version = ''0.1.0'', h_counter = c, h_timestamp = 0\<rparr>"

definition life_json :: json_lib where
  "life_json = demo_json
     \<lparr>header_to_vec := (\<lambda>h. if h = life_header 6 then Ok ''h'' else if h = life_header u64_max then Ok ''m'' else Err ''no''),
      header_from_slice := (\<lambda>b. if b = ''h'' then Ok (life_header 6) else if b = ''m'' then Ok (life_header u64_max) else Err ''no''),
      schema_version_peek := (\<lambda>_. Ok 1)\<rparr>"

lemma life_json_ok: "json_ok life_json"
  using demo_json_ok by (auto simp: json_ok_def life_json_def life_header_def split: if_splits)

definition life_libs :: agent_libs where
  "life_libs = demo_agent_libs\<lparr>al_delivery := demo_libs\<lparr>dl_json := life_json\<rparr>\<rparr>"

definition life_env :: main_env where
  "life_env =
     \<lparr>me_libs = life_libs, me_clock = \<lparr>ck_checked_add = (\<lambda>t d. Some (t + int d)), ck_rfc3339 = (\<lambda>_. Some ''then'')\<rparr>,
      me_texts = \<lparr>tx_upload_error = (\<lambda>_. ''failed''), tx_delivery_error = (\<lambda>_. ''failed''), tx_debug = (\<lambda>s. s)\<rparr>,
      me_version = ''0.1.0'', me_running = demo_running\<rparr>"

definition life_server :: server_libs where
  "life_server = demo_verifier\<lparr>sl_json := life_json\<rparr>"

lemma life_deployed: "deployed demo_start life_env life_server"
  by (simp add: deployed_def life_env_def life_libs_def life_server_def demo_start_def demo_agent_libs_def demo_libs_def
      demo_verifier_def demo_crypto_ok life_json_ok demo_bech32_ok demo_key_lib_def)

lemma life_start: "\<exists>m. loop_start demo_running 0 0 = Some m"
  by (simp add: loop_start_def Let_def instant_add_def FIRST_SCRAPE_DELAY_def secs_def demo_running_def)

definition life_delivery :: delivery where
  "life_delivery = ag_delivery (agent_of demo_config demo_signer ''relay-1'')"

lemma life_take:
  "\<exists>d' db' sub. take_from SCRAPES (al_delivery life_libs) quiet_world 0 life_delivery demo_db = (d', db', Ok (Some sub))
     \<and> ss_rows sub = ScrapeRows [1, 2]"
  by (simp add: take_from_def row_budget_def life_libs_def demo_agent_libs_def demo_libs_def life_delivery_def agent_of_def new_agent_def
      header_json_def life_json_def delivery_envelope_def new_envelope_def header_of_def life_header_def provenance_of_def
      demo_config_def demo_provenance_def u64_max_def schema_versions scrapes_payload_def demo_take_simps)

section \<open>Witnesses\<close>

theorem settings_line_whole_witness:
  "resolved demo_crypto demo_bech32 ''relay-1'' None demo_signer demo_config
     = resolved demo_crypto demo_bech32 ''relay-1'' None demo_signer (demo_config\<lparr>cf_agent_id := None\<rparr>)
   \<and> demo_config\<lparr>cf_agent_id := None, cf_signing_key := None\<rparr> = demo_config\<lparr>cf_agent_id := None\<rparr>"
proof -
  have same: "resolved demo_crypto demo_bech32 ''relay-1'' None demo_signer demo_config
      = resolved demo_crypto demo_bech32 ''relay-1'' None demo_signer (demo_config\<lparr>cf_agent_id := None\<rparr>)"
    by (simp add: resolved_def)
  have "agent_config_wf demo_uri (demo_config\<lparr>cf_agent_id := None\<rparr>)"
    using demo_config_wf by (simp add: agent_config_wf_def config_numbers_def)
  from settings_line_whole [OF demo_bech32_ok demo_config_wf this same]
  show ?thesis using same by (simp add: demo_config_def)
qed

definition demo_turn :: turn where
  "demo_turn =
     \<lparr>tn_now = secs 10,
      tn_scrape = \<lparr>sw_floats = demo_floats, sw_call = (\<lambda>_. Err ''refused''), sw_now = 0,
        sw_net = \<lparr>sn_connects = (\<lambda>_. False), sn_sent_at = (\<lambda>_. 0), sn_answer = (\<lambda>_ _. None), sn_received_at = (\<lambda>_. 0)\<rparr>\<rparr>,
      tn_fault = (\<lambda>_. None), tn_upload = \<lparr>uw_rounds = demo_rounds, uw_now = 0, uw_after = 0\<rparr>\<rparr>"

definition life_loop :: main_loop where
  "life_loop =
     \<lparr>ml_state = \<lparr>lp_agent = rn_agent demo_running, lp_db = demo_db, lp_scrapes = report_default,
        lp_schedule = schedule_new, lp_journal = []\<rparr>,
      ml_starting_until = secs 310, ml_next_scrape = secs 10, ml_next_upload = secs 10\<rparr>"

lemma life_loop_start: "loop_start demo_running 0 0 = Some life_loop"
  by (simp add: loop_start_def Let_def instant_add_def FIRST_SCRAPE_DELAY_def secs_def demo_running_def life_loop_def)

lemma life_schedule: "upload_interval (rn_schedule_config (me_running life_env)) = secs 3600"
  "upload_gap (rn_schedule_config (me_running life_env)) = secs 3600" "interval life_env = secs 300"
  "waits_fit life_env"
  by (simp_all add: life_env_def demo_running_def schedule_config_of_def upload_gap_def demo_config_def secs_def
      interval_def waits_fit_def half_range_def as_millis_def Let_def)



theorem started_agent_taken_witness:
  "\<exists>sub rq ad. rq = upload_request demo_bech32 (ag_upload (rn_agent demo_running)) (pv_pool demo_provenance) sub
     \<and> ss_rows sub = ScrapeRows [1, 2] \<and> ad_pool ad = pv_pool demo_provenance
     \<and> attributed_decode demo_crypto demo_bech32 (map_of (rq_headers rq) HEADER_VKEY)
         (map_of (rq_headers rq) HEADER_SIGNATURE) (map_of (rq_headers rq) HEADER_POOL) = Ok ad"
proof -
  obtain lines where run: "agent_run demo_start ''usage'' [''--signing-key'', ''key''] = (lines, Running demo_running)"
    using demo_agent_runs by blast
  obtain d' db' sub where tk: "take_from SCRAPES (al_delivery life_libs) quiet_world 0 life_delivery demo_db = (d', db', Ok (Some sub))"
    and rows: "ss_rows sub = ScrapeRows [1, 2]"
    using life_take by blast
  have libs: "me_libs life_env = life_libs" "al_bech32 life_libs = demo_bech32" "sl_crypto life_server = demo_crypto"
      "kl_bech32 (sl_key life_server) = demo_bech32"
    by (simp_all add: life_env_def life_libs_def demo_agent_libs_def life_server_def demo_verifier_def demo_key_lib_def)
  have ag: "lp_agent (ml_state life_loop) = rn_agent demo_running" "ag_delivery (rn_agent demo_running) = life_delivery"
      "ag_pool_id (rn_agent demo_running) = pv_pool demo_provenance"
    by (simp_all add: life_loop_def demo_running_def life_delivery_def agent_of_def new_agent_def demo_config_def)
  have "take_from SCRAPES (al_delivery (me_libs life_env)) quiet_world 0 (ag_delivery (lp_agent (ml_state life_loop))) demo_db
      = (d', db', Ok (Some sub))"
    using tk by (simp add: libs ag)
  from started_agent_taken [OF run life_deployed life_loop_start _ this refl, of "[]", where ?'a = unit and ?'w = unit]
  show ?thesis using rows by (auto simp: libs ag)
qed

end
