(* ===== verification/Fetch_Cli.thy ===== *)
theory Fetch_Cli
  imports Sync Uploader
begin

text \<open>
  \<open>metsuke-fetch/src/cli.rs\<close>: the command line and its environment, down to the key boundaries the two
  time flags mean. What dates and instants there are is the \<open>time\<close> crate's (\<open>calendar\<close>); a date is its
  year, month and day, an instant its UTC nanoseconds.
\<close>

type_synonym date = "nat \<times> nat \<times> nat"

record calendar =
  cal_date :: "nat \<Rightarrow> nat \<Rightarrow> nat \<Rightarrow> bool"
  cal_next_day :: "date \<Rightarrow> date option"
  cal_parse_rfc3339 :: "string \<Rightarrow> instant option"
  cal_in_utc :: "instant \<Rightarrow> bool"
  cal_date_of :: "instant \<Rightarrow> date"
  cal_add_ms :: "instant \<Rightarrow> instant option"

section \<open>Arguments\<close>

definition DEFAULT_MAX_OBJECT_BYTES :: nat where "DEFAULT_MAX_OBJECT_BYTES = 16 * 1024 * 1024"
definition ENV_SERVER :: string where "ENV_SERVER = ''METSUKE_FETCH_SERVER''"
definition ENV_USER :: string where "ENV_USER = ''METSUKE_FETCH_USER''"
definition ENV_PASSWORD_FILE :: string where "ENV_PASSWORD_FILE = ''METSUKE_FETCH_PASSWORD_FILE''"
definition ENV_TIMEOUT_MS :: string where "ENV_TIMEOUT_MS = ''METSUKE_FETCH_TIMEOUT_MS''"

datatype command = ListKeys | SyncInto string string bool

fun command_name :: "command \<Rightarrow> string" where
  "command_name ListKeys = ''list''"
| "command_name (SyncInto _ _ _) = ''sync''"

record server_access =
  sa_server :: string
  sa_user :: string
  sa_password_file :: string
  sa_timeout_ms :: nat

record fetch_args =
  fa_command :: command
  fa_access :: server_access
  fa_prefix :: string
  fa_selection :: selection
  fa_days :: days
  fa_verification :: verification

datatype fetch_args_error =
    NoCommand
  | UnknownCommand string
  | UnknownFlag string
  | FlagMissesValue string
  | MissingFlag string string
  | MissingAccess string string string
  | NotForCommand string string
  | NotAByteCount string string
  | NotADuration string string
  | NotAFilter string string string
  | NotABound string string
  | NotInUtcRange string string
  | EmptyRange string string

datatype invocation = AskHelp | AskVersion | RunArgs fetch_args

text \<open>\<open>Insist\<close> is ordered as it is declared; the bar a run asks for is the highest any flag set.\<close>

fun insist_rank :: "insist \<Rightarrow> nat" where
  "insist_rank InsistNothing = 0"
| "insist_rank InsistAttested = 1"
| "insist_rank InsistColdSigned = 2"

lemma insist_rank_inject [simp]: "insist_rank a = insist_rank b \<longleftrightarrow> a = b"
  by (cases a; cases b) simp_all

instantiation insist :: linorder
begin

definition less_eq_insist :: "insist \<Rightarrow> insist \<Rightarrow> bool" where
  "less_eq_insist a b \<longleftrightarrow> insist_rank a \<le> insist_rank b"

definition less_insist :: "insist \<Rightarrow> insist \<Rightarrow> bool" where
  "less_insist a b \<longleftrightarrow> insist_rank a < insist_rank b"

instance
  by standard (auto simp: less_eq_insist_def less_insist_def)

end

section \<open>Bounds\<close>

datatype bound = DayBound date | InstantBound instant

text \<open>One part of a day: so many digits, parsed.\<close>

definition day_part :: "nat \<Rightarrow> string \<Rightarrow> nat option" where
  "day_part width part = (if length part = width \<and> list_all is_digit part then Some (undecimal part) else None)"

definition parse_day :: "calendar \<Rightarrow> string \<Rightarrow> string \<Rightarrow> (fetch_args_error, date) result" where
  "parse_day K flag value =
     ok_or (NotABound flag value)
       (case split_on (CHR ''-'') value of
          [y, m, d] \<Rightarrow>
            Option.bind (day_part 4 y) (\<lambda>year. Option.bind (day_part 2 m) (\<lambda>month. Option.bind (day_part 2 d) (\<lambda>day.
              if cal_date K year month day then Some (year, month, day) else None)))
        | _ \<Rightarrow> None)"

definition parse_bound :: "calendar \<Rightarrow> string \<Rightarrow> string \<Rightarrow> (fetch_args_error, bound) result" where
  "parse_bound K flag value =
     (if CHR ''T'' \<in> set value then
        and_then (ok_or (NotABound flag value) (cal_parse_rfc3339 K value)) (\<lambda>t.
          if cal_in_utc K t then Ok (InstantBound t) else Err (NotInUtcRange flag value))
      else and_then (parse_day K flag value) (\<lambda>d. Ok (DayBound d)))"

text \<open>\<open>{ms:012x}\<close> of an \<open>i128\<close>: its bits, padded to twelve digits.\<close>

fun hex_number :: "nat \<Rightarrow> string" where
  "hex_number n = (if n < 16 then [hex_digit n] else hex_number (n div 16) @ [hex_digit (n mod 16)])"

declare hex_number.simps [simp del]

definition hex_padded :: "nat \<Rightarrow> int \<Rightarrow> string" where
  "hex_padded w n =
     (let h = hex_number (nat (if n < 0 then n + 2 ^ 128 else n))
      in replicate (w - length h) (CHR ''0'') @ h)"

definition at_key :: "calendar \<Rightarrow> instant \<Rightarrow> string" where
  "at_key K t =
     (let hex = hex_padded 12 (t div 1000000)
      in KEY_PREFIX @ date_folder (cal_date_of K t) @ ''/'' @ take 8 hex @ ''-'' @ take 4 (drop 8 hex))"

definition bound_starts :: "calendar \<Rightarrow> bound \<Rightarrow> string" where
  "bound_starts K b = (case b of DayBound d \<Rightarrow> KEY_PREFIX @ date_folder d | InstantBound t \<Rightarrow> at_key K t)"

definition bound_ends :: "calendar \<Rightarrow> bound \<Rightarrow> string option" where
  "bound_ends K b =
     (case b of
        DayBound d \<Rightarrow> map_option (\<lambda>d'. KEY_PREFIX @ date_folder d') (cal_next_day K d)
      | InstantBound t \<Rightarrow> map_option (at_key K) (cal_add_ms K t))"

section \<open>What was given\<close>

record given =
  gv_server :: "string option"
  gv_user :: "string option"
  gv_password_file :: "string option"
  gv_timeout_ms :: "string option"
  gv_state :: "string option"
  gv_into :: "string option"
  gv_prefix :: "string option"
  gv_pool :: "string option"
  gv_agent :: "string option"
  gv_kind :: "string option"
  gv_max_object_bytes :: "string option"
  gv_from :: "string option"
  gv_to :: "string option"
  gv_insist :: insist
  gv_forget_unverified :: bool

definition given_default :: given where
  "given_default =
     \<lparr>gv_server = None, gv_user = None, gv_password_file = None, gv_timeout_ms = None, gv_state = None, gv_into = None,
      gv_prefix = None, gv_pool = None, gv_agent = None, gv_kind = None, gv_max_object_bytes = None, gv_from = None,
      gv_to = None, gv_insist = InsistNothing, gv_forget_unverified = False\<rparr>"

text \<open>The flag's field set to a value, where it is a flag that takes one.\<close>

definition set_flag :: "string \<Rightarrow> given \<Rightarrow> (string \<Rightarrow> given) option" where
  "set_flag flag g =
     (if flag = ''--server'' then Some (\<lambda>v. g\<lparr>gv_server := Some v\<rparr>)
      else if flag = ''--user'' then Some (\<lambda>v. g\<lparr>gv_user := Some v\<rparr>)
      else if flag = ''--password-file'' then Some (\<lambda>v. g\<lparr>gv_password_file := Some v\<rparr>)
      else if flag = ''--timeout-ms'' then Some (\<lambda>v. g\<lparr>gv_timeout_ms := Some v\<rparr>)
      else if flag = ''--state'' then Some (\<lambda>v. g\<lparr>gv_state := Some v\<rparr>)
      else if flag = ''--into'' then Some (\<lambda>v. g\<lparr>gv_into := Some v\<rparr>)
      else if flag = ''--prefix'' then Some (\<lambda>v. g\<lparr>gv_prefix := Some v\<rparr>)
      else if flag = ''--from'' then Some (\<lambda>v. g\<lparr>gv_from := Some v\<rparr>)
      else if flag = ''--to'' then Some (\<lambda>v. g\<lparr>gv_to := Some v\<rparr>)
      else if flag = ''--pool'' then Some (\<lambda>v. g\<lparr>gv_pool := Some v\<rparr>)
      else if flag = ''--agent'' then Some (\<lambda>v. g\<lparr>gv_agent := Some v\<rparr>)
      else if flag = ''--kind'' then Some (\<lambda>v. g\<lparr>gv_kind := Some v\<rparr>)
      else if flag = ''--max-object-bytes'' then Some (\<lambda>v. g\<lparr>gv_max_object_bytes := Some v\<rparr>)
      else None)"

definition insist_flag :: "string \<Rightarrow> insist option" where
  "insist_flag a =
     (if a = ''--require-attested'' then Some InsistAttested
      else if a = ''--require-cold-signed'' then Some InsistColdSigned else None)"

fun parse_given :: "given \<Rightarrow> string list \<Rightarrow> (fetch_args_error, given) result" where
  "parse_given g [] = Ok g"
| "parse_given g (a # rest) =
     (case insist_flag a of
        Some i \<Rightarrow> parse_given (g\<lparr>gv_insist := max (gv_insist g) i\<rparr>) rest
      | None \<Rightarrow>
          if a = ''--forget-unverified'' then parse_given (g\<lparr>gv_forget_unverified := True\<rparr>) rest
          else (case set_flag a g of
                  None \<Rightarrow> Err (UnknownFlag a)
                | Some put \<Rightarrow> (case rest of [] \<Rightarrow> Err (FlagMissesValue a) | v # rest' \<Rightarrow> parse_given (put v) rest')))"

definition filled :: "(string \<Rightarrow> string option) \<Rightarrow> string \<Rightarrow> string option \<Rightarrow> string option" where
  "filled env variable v =
     (case v of
        Some x \<Rightarrow> Some x
      | None \<Rightarrow> (case env variable of Some found \<Rightarrow> if found = [] then None else Some found | None \<Rightarrow> None))"

definition fill_from :: "(string \<Rightarrow> string option) \<Rightarrow> given \<Rightarrow> given" where
  "fill_from env g =
     g\<lparr>gv_server := filled env ENV_SERVER (gv_server g), gv_user := filled env ENV_USER (gv_user g),
       gv_password_file := filled env ENV_PASSWORD_FILE (gv_password_file g),
       gv_timeout_ms := filled env ENV_TIMEOUT_MS (gv_timeout_ms g)\<rparr>"

definition required :: "string option \<Rightarrow> string \<Rightarrow> string \<Rightarrow> (fetch_args_error, string) result" where
  "required v cmd flag = ok_or (MissingFlag cmd flag) v"

definition access_value :: "string option \<Rightarrow> string \<Rightarrow> string \<Rightarrow> string \<Rightarrow> (fetch_args_error, string) result" where
  "access_value v cmd flag variable = ok_or (MissingAccess cmd flag variable) v"

definition nonzero_u64 :: "string \<Rightarrow> nat option" where
  "nonzero_u64 s = Option.bind (parse_u64 s) (\<lambda>n. if n = 0 then None else Some n)"

text \<open>\<open>transpose\<close> of an optional value's parse.\<close>

definition parsed :: "('a \<Rightarrow> ('e, 'b) result) \<Rightarrow> 'a option \<Rightarrow> ('e, 'b option) result" where
  "parsed f v = (case v of None \<Rightarrow> Ok None | Some x \<Rightarrow> and_then (f x) (\<lambda>y. Ok (Some y)))"

definition given_days :: "calendar \<Rightarrow> given \<Rightarrow> (fetch_args_error, days) result" where
  "given_days K g =
     and_then (parsed (parse_bound K ''--from'') (gv_from g)) (\<lambda>first.
     and_then (parsed (parse_bound K ''--to'') (gv_to g)) (\<lambda>last.
       let d = \<lparr>d_from = map_option (bound_starts K) first, d_until = Option.bind last (bound_ends K)\<rparr>
       in case (d_from d, d_until d) of
            (Some a, Some b) \<Rightarrow>
              if b \<le> a then Err (EmptyRange (case gv_from g of None \<Rightarrow> [] | Some s \<Rightarrow> s) (case gv_to g of None \<Rightarrow> [] | Some s \<Rightarrow> s))
              else Ok d
          | _ \<Rightarrow> Ok d))"

text \<open>The texts of the parsers' errors are arguments.\<close>

record filter_texts =
  ft_pool :: "pool_id_error \<Rightarrow> string"
  ft_agent :: "agent_id_error \<Rightarrow> string"

definition given_selection :: "bech32_lib \<Rightarrow> filter_texts \<Rightarrow> given \<Rightarrow> (fetch_args_error, selection) result" where
  "given_selection B T g =
     and_then (parsed (\<lambda>s. map_err (\<lambda>e. NotAFilter ''--pool'' s (ft_pool T e)) (from_bech32 B s)) (gv_pool g)) (\<lambda>pool.
     and_then (parsed (\<lambda>s. map_err (\<lambda>e. NotAFilter ''--agent'' s (ft_agent T e)) (parse_agent_id s)) (gv_agent g)) (\<lambda>agent.
     and_then (parsed (\<lambda>s. ok_or (NotAFilter ''--kind'' s
           (''the kinds a key names are '' @ kind_as_str Metrics @ '' and '' @ kind_as_str Logs)) (kind_parse s)) (gv_kind g)) (\<lambda>k.
       Ok \<lparr>se_pool = pool, se_agent = agent, se_kind = k\<rparr>)))"

definition command_of :: "given \<Rightarrow> string \<Rightarrow> (fetch_args_error, command) result" where
  "command_of g cmd =
     (if cmd = ''list'' then Ok ListKeys
      else if cmd = ''sync'' then
        and_then (required (gv_state g) ''sync'' ''--state'') (\<lambda>state.
        and_then (required (gv_into g) ''sync'' ''--into'') (\<lambda>into.
          Ok (SyncInto state into (gv_forget_unverified g))))
      else Err (UnknownCommand cmd))"

text \<open>The flags \<open>list\<close> does not take, in the order they are refused.\<close>

definition not_for_list :: "given \<Rightarrow> string list" where
  "not_for_list g =
     map fst (filter snd
       [(''--state'', gv_state g \<noteq> None), (''--into'', gv_into g \<noteq> None),
        (''--max-object-bytes'', gv_max_object_bytes g \<noteq> None),
        (''--require-attested'', gv_insist g \<noteq> InsistNothing), (''--forget-unverified'', gv_forget_unverified g)])"

definition given_access :: "given \<Rightarrow> string \<Rightarrow> (fetch_args_error, server_access) result" where
  "given_access g name =
     and_then (access_value (gv_timeout_ms g) name ''--timeout-ms'' ENV_TIMEOUT_MS) (\<lambda>timeout.
     and_then (access_value (gv_server g) name ''--server'' ENV_SERVER) (\<lambda>server.
     and_then (access_value (gv_user g) name ''--user'' ENV_USER) (\<lambda>user.
     and_then (access_value (gv_password_file g) name ''--password-file'' ENV_PASSWORD_FILE) (\<lambda>password_file.
     and_then (ok_or (NotADuration ''--timeout-ms'' timeout) (nonzero_u64 timeout)) (\<lambda>ms.
       Ok \<lparr>sa_server = server, sa_user = user, sa_password_file = password_file, sa_timeout_ms = ms\<rparr>)))))"

definition into_args ::
  "calendar \<Rightarrow> bech32_lib \<Rightarrow> filter_texts \<Rightarrow> string \<Rightarrow> given \<Rightarrow> (fetch_args_error, fetch_args) result" where
  "into_args K B T cmd g =
     and_then (command_of g cmd) (\<lambda>c.
     and_then (case (c, not_for_list g) of
                 (ListKeys, flag # _) \<Rightarrow> Err (NotForCommand (command_name c) flag)
               | _ \<Rightarrow> Ok ()) (\<lambda>_.
     and_then (given_access g (command_name c)) (\<lambda>acc.
     and_then (given_selection B T g) (\<lambda>sel.
     and_then (given_days K g) (\<lambda>days.
     and_then (case gv_max_object_bytes g of
                 None \<Rightarrow> Ok DEFAULT_MAX_OBJECT_BYTES
               | Some s \<Rightarrow> ok_or (NotAByteCount ''--max-object-bytes'' s) (nonzero_u64 s)) (\<lambda>most.
       Ok \<lparr>fa_command = c, fa_access = acc,
           fa_prefix = (case gv_prefix g of None \<Rightarrow> KEY_PREFIX | Some p \<Rightarrow> if p = [] then KEY_PREFIX else p),
           fa_selection = sel, fa_days = days,
           fa_verification = \<lparr>vf_max_object_bytes = most, vf_insist = gv_insist g\<rparr>\<rparr>))))))"

definition asked_for :: "string \<Rightarrow> invocation option" where
  "asked_for a = (if a = ''--help'' \<or> a = ''-h'' then Some AskHelp else if a = ''--version'' then Some AskVersion else None)"

definition invocation_parse ::
  "calendar \<Rightarrow> bech32_lib \<Rightarrow> filter_texts \<Rightarrow> (string \<Rightarrow> string option) \<Rightarrow> string list
    \<Rightarrow> (fetch_args_error, invocation) result" where
  "invocation_parse K B T env argv =
     (case List.map_filter asked_for argv of
        asked # _ \<Rightarrow> Ok asked
      | [] \<Rightarrow>
          (case argv of
             [] \<Rightarrow> Err NoCommand
           | cmd # rest \<Rightarrow>
               and_then (parse_given given_default rest) (\<lambda>g.
               and_then (into_args K B T cmd (fill_from env g)) (\<lambda>a. Ok (RunArgs a)))))"

end
