(* ===== verification/Fetch_Main.thy ===== *)
theory Fetch_Main
  imports Fetch_Cli
begin

text \<open>
  \<open>metsuke-fetch/src/main.rs\<close> and \<open>recipe.rs\<close>: one command against one archive, then exit. Keys go to
  stdout, everything about the run to stderr; the exit code says whether what is on disk is all of it.
\<close>

section \<open>The read a sync prints\<close>

text \<open>\<open>Path::join\<close> of a relative path.\<close>

definition path_pushed :: "string \<Rightarrow> string \<Rightarrow> string" where
  "path_pushed p rel = (if p = [] \<or> last p = CHR ''/'' then p @ rel else p @ ''/'' @ rel)"

definition quote_doubled :: "string \<Rightarrow> string" where
  "quote_doubled s = concat (map (\<lambda>c. if c = CHR 0x27 then [c, c] else [c]) s)"

definition recipe_read :: "string \<Rightarrow> kind option \<Rightarrow> string" where
  "recipe_read into k =
     (let leaf = (case k of Some k' \<Rightarrow> ''*-'' @ kind_as_str k' @ KEY_SUFFIX | None \<Rightarrow> ''*'' @ KEY_SUFFIX);
          glob = path_pushed into (KEY_PREFIX @ ''*/'' @ leaf)
      in ''read_json('' @ [CHR 0x27] @ quote_doubled glob @ [CHR 0x27] @ '', sample_size=-1)'')"

section \<open>The process\<close>

datatype fetch_fatal =
    FetchArgsFatal fetch_args_error
  | PasswordUnread string io_error
  | EmptyPassword string
  | SyncFatal sync_error
  | NotWritten nat nat

text \<open>
  What the process is run in: the libraries, the environment and the disk's naming of paths, the network
  under a timeout in milliseconds, what the build put in, and the texts of the other modules' errors.
\<close>

record 'w fetch_world =
  fw_libs :: fetch_libs
  fw_calendar :: calendar
  fw_filter_texts :: filter_texts
  fw_env :: "string \<Rightarrow> string option"
  fw_path :: "string \<Rightarrow> path"
  fw_network :: "nat \<Rightarrow> 'w network"
  fw_version :: string
  fw_build_rev :: string
  fw_usage :: string
  fw_args_text :: "fetch_args_error \<Rightarrow> string"
  fw_io_text :: "io_error \<Rightarrow> string"
  fw_sync_text :: "sync_error \<Rightarrow> string"

record 'w fetched_run =
  fo_net :: 'w
  fo_disk :: disk
  fo_out :: "string list"
  fo_err :: "string list"
  fo_result :: "(fetch_fatal, unit) result"

definition fatal_text :: "'w fetch_world \<Rightarrow> fetch_fatal \<Rightarrow> string" where
  "fatal_text W e =
     (case e of
        FetchArgsFatal a \<Rightarrow> fw_args_text W a
      | PasswordUnread p source \<Rightarrow> ''cannot read the password file '' @ p @ '': '' @ fw_io_text W source
      | EmptyPassword p \<Rightarrow> ''the password file '' @ p @ '' is empty''
      | SyncFatal s \<Rightarrow> fw_sync_text W s
      | NotWritten count unverified \<Rightarrow>
          ''this run did not write '' @ decimal count @ '' object(s); '' @ decimal unverified
          @ '' key(s) in this state file are unverified. Each is named above'')"

definition trim_newlines :: "string \<Rightarrow> string" where
  "trim_newlines s = rev (dropWhile (\<lambda>c. c = CHR 0x0D \<or> c = newline) (rev s))"

definition fetch_password :: "'w fetch_world \<Rightarrow> string \<Rightarrow> disk \<Rightarrow> disk \<times> (fetch_fatal, string) result" where
  "fetch_password W p d =
     (case read_to_string (fw_path W p) d of
        (d', Inl e) \<Rightarrow> (d', Err (PasswordUnread p e))
      | (d', Inr s) \<Rightarrow> (d', if trim_newlines s = [] then Err (EmptyPassword p) else Ok (trim_newlines s)))"

text \<open>The run the arguments ask for; a listing has no destination.\<close>

definition run_asked :: "'w fetch_world \<Rightarrow> fetch_args \<Rightarrow> string \<Rightarrow> 'w run_env" where
  "run_asked W a password =
     \<lparr>re_libs = fw_libs W,
      re_send = fw_network W (sa_timeout_ms (fa_access a)),
      re_client = new_client (fl_pull (fw_libs W)) (sa_server (fa_access a)) (sa_user (fa_access a)) password,
      re_filters = \<lparr>f_prefix = fa_prefix a, f_selection = fa_selection a, f_days = fa_days a\<rparr>,
      re_dest = (case fa_command a of
          SyncInto state into _ \<Rightarrow> \<lparr>ds_into = fw_path W into, ds_state = fw_path W state\<rparr>
        | ListKeys \<Rightarrow> \<lparr>ds_into = [], ds_state = []\<rparr>),
      re_ver = fa_verification a\<rparr>"

definition report_lines :: "fetch_args \<Rightarrow> (string \<times> string) option \<Rightarrow> report \<Rightarrow> string list" where
  "report_lines a sync r =
     map (\<lambda>rj. ''not written: '' @ rj_key rj @ '' '' @ rj_reason rj) (rp_rejected r)
     @ [decimal (report_listed r) @ '' keys under '' @ fa_prefix a @ ''; '' @ decimal (report_selected r) @ '' selected, ''
          @ decimal (rp_passed r) @ '' outside the selection, '' @ decimal (rp_unnameable r) @ '' this build cannot name'']
     @ (case sync of
          None \<Rightarrow> []
        | Some (landed, recipe) \<Rightarrow>
            [decimal (rp_objects r) @ '' objects '' @ landed @ ''; '' @ decimal (rp_cold_signed r) @ '' cold-signed, ''
               @ decimal (rp_leios_signed r) @ '' Leios-signed, '' @ decimal (rp_unattested r) @ '' unattested, ''
               @ decimal (length (rp_rejected r)) @ '' not written'',
             ''read them with: duckdb -c \"select * from '' @ recipe @ ''\"''])
     @ map (\<lambda>k. ''unverified, from this run or an earlier one: '' @ k) (rp_unverified r)"

definition run_verdict :: "report \<Rightarrow> (fetch_fatal, unit) result" where
  "run_verdict r =
     (if rp_rejected r = [] \<and> rp_unverified r = [] then Ok ()
      else Err (NotWritten (length (rp_rejected r)) (length (rp_unverified r))))"

definition fetch_list :: "nat \<Rightarrow> fetch_args \<Rightarrow> 'w run_env \<Rightarrow> 'w \<Rightarrow> disk \<Rightarrow> 'w fetched_run option" where
  "fetch_list fuel a E w d =
     map_option (\<lambda>(w', found, r).
       \<lparr>fo_net = w', fo_disk = d, fo_out = found,
        fo_err = (case r of Inl _ \<Rightarrow> [] | Inr rep \<Rightarrow> report_lines a None rep),
        fo_result = and_then (map_err SyncFatal r) run_verdict\<rparr>)
     (list_run fuel E w)"

definition fetch_sync ::
  "nat \<Rightarrow> fetch_args \<Rightarrow> string \<Rightarrow> bool \<Rightarrow> 'w run_env \<Rightarrow> 'w \<Rightarrow> disk \<Rightarrow> 'w fetched_run option" where
  "fetch_sync fuel a into forget E w d =
     (case (if forget then map_prod id (map_sum id Some) (forget_unverified E d) else (d, Ok None)) of
        (d1, Inl e) \<Rightarrow> Some \<lparr>fo_net = w, fo_disk = d1, fo_out = [], fo_err = [], fo_result = Err (SyncFatal e)\<rparr>
      | (d1, Inr forgotten) \<Rightarrow>
          map_option (\<lambda>en.
            \<lparr>fo_net = en_net en, fo_disk = en_disk en, fo_out = en_landed en,
             fo_err =
               (case forgotten of
                  None \<Rightarrow> []
                | Some n \<Rightarrow> [''forgot '' @ decimal n @ '' keys this state file held as unverified''])
               @ (case en_result en of
                    Inl _ \<Rightarrow> []
                  | Inr rep \<Rightarrow>
                      report_lines a
                        (Some (''into '' @ into @ '', '' @ decimal (rp_bytes rep) @ '' bytes'', recipe_read into (se_kind (fa_selection a))))
                        rep),
             fo_result = and_then (map_err SyncFatal (en_result en)) run_verdict\<rparr>)
          (run fuel E w d1))"

definition fetch_run :: "nat \<Rightarrow> 'w fetch_world \<Rightarrow> fetch_args \<Rightarrow> 'w \<Rightarrow> disk \<Rightarrow> 'w fetched_run option" where
  "fetch_run fuel W a w d =
     map_option (\<lambda>fo. fo\<lparr>fo_err :=
         (''metsuke-fetch '' @ version_line (fw_build_rev W) (fw_version W) @ '' against '' @ sa_server (fa_access a))
           # fo_err fo\<rparr>)
       (case fetch_password W (sa_password_file (fa_access a)) d of
          (d1, Inl e) \<Rightarrow> Some \<lparr>fo_net = w, fo_disk = d1, fo_out = [], fo_err = [], fo_result = Err e\<rparr>
        | (d1, Inr password) \<Rightarrow>
            (case fa_command a of
               ListKeys \<Rightarrow> fetch_list fuel a (run_asked W a password) w d1
             | SyncInto _ into forget \<Rightarrow> fetch_sync fuel a into forget (run_asked W a password) w d1))"

text \<open>The process: its arguments, what it leaves, and its exit code.\<close>

definition fetch_main ::
  "nat \<Rightarrow> 'w fetch_world \<Rightarrow> string list \<Rightarrow> 'w \<Rightarrow> disk \<Rightarrow> ('w fetched_run \<times> nat) option" where
  "fetch_main fuel W argv w d =
     map_option (\<lambda>fo.
         case fo_result fo of
           Inr _ \<Rightarrow> (fo, 0)
         | Inl e \<Rightarrow> (fo\<lparr>fo_err := fo_err fo @ [''metsuke-fetch stopped: '' @ fatal_text W e]\<rparr>, 1))
       (let ends = (\<lambda>out r. Some \<lparr>fo_net = w, fo_disk = d, fo_out = out, fo_err = [], fo_result = r\<rparr>) in
        case invocation_parse (fw_calendar W) (kl_bech32 (pl_key (fl_pull (fw_libs W)))) (fw_filter_texts W) (fw_env W) argv of
          Inl e \<Rightarrow> ends [] (Err (FetchArgsFatal e))
        | Inr AskHelp \<Rightarrow> ends [fw_usage W] (Ok ())
        | Inr AskVersion \<Rightarrow> ends [version_line (fw_build_rev W) (fw_version W)] (Ok ())
        | Inr (RunArgs a) \<Rightarrow> fetch_run fuel W a w d)"

end
