(* ===== verification/Fetch_Days.thy ===== *)
theory Fetch_Days
  imports Fetch_Cli
begin

text \<open>
  What \<open>--from\<close> and \<open>--to\<close> come to: the key boundaries they are turned into select exactly the objects
  of the days asked for, first and last included.
\<close>

text \<open>A key a walk bounded by these days is handed, wherever it starts from.\<close>

definition in_days :: "days \<Rightarrow> string \<Rightarrow> bool" where
  "in_days ds k \<longleftrightarrow> days_after ds [] < k \<and> \<not> days_past ds k"

text \<open>What the \<open>time\<close> crate documents of dates of four-digit years: the next day is the least later one.\<close>

definition calendar_ok :: "calendar \<Rightarrow> bool" where
  "calendar_ok K \<longleftrightarrow>
     (\<forall>y m d. cal_date K y m d \<longrightarrow> date_ok (y, m, d)
        \<and> (case cal_next_day K (y, m, d) of
             None \<Rightarrow> \<forall>y' m' d'. cal_date K y' m' d' \<longrightarrow> \<not> date_less (y, m, d) (y', m', d')
           | Some e \<Rightarrow> date_ok e
               \<and> (\<forall>y' m' d'. cal_date K y' m' d' \<longrightarrow> date_less (y, m, d) (y', m', d') = (\<not> date_less (y', m', d') e))))"

definition real_date :: "calendar \<Rightarrow> date \<Rightarrow> bool" where
  "real_date K d = (case d of (y, m, dd) \<Rightarrow> cal_date K y m dd)"

lemma next_day:
  assumes "calendar_ok K" "real_date K d"
  shows "date_ok d"
    and "cal_next_day K d = None \<Longrightarrow> real_date K e \<Longrightarrow> \<not> date_less d e"
    and "cal_next_day K d = Some d' \<Longrightarrow> date_ok d' \<and> (real_date K e \<longrightarrow> date_less d e = (\<not> date_less e d'))"
proof -
  obtain y m dd where d: "d = (y, m, dd)" by (metis surj_pair)
  obtain y' m' dd' where e: "e = (y', m', dd')" by (metis surj_pair)
  have k: "cal_date K y m dd" using assms(2) by (simp add: d real_date_def)
  note law = assms(1) [unfolded calendar_ok_def, rule_format, OF k]
  show "date_ok d" using law by (simp add: d)
  show "cal_next_day K d = None \<Longrightarrow> real_date K e \<Longrightarrow> \<not> date_less d e"
    using law by (simp add: d e real_date_def)
  show "cal_next_day K d = Some d' \<Longrightarrow> date_ok d' \<and> (real_date K e \<longrightarrow> date_less d e = (\<not> date_less e d'))"
    using law by (simp add: d e real_date_def)
qed

lemma date_less_linear: "date_less d e \<or> d = e \<or> date_less e d"
  by (cases d; cases e) (auto simp: date_less_def)

lemma date_less_irrefl: "\<not> date_less d d"
  by (cases d) (simp add: date_less_def)

lemma date_less_trans: "date_less a b \<Longrightarrow> date_less b c \<Longrightarrow> date_less a c"
  by (cases a; cases b; cases c) (auto simp: date_less_def)

lemma folder_less_iff: "date_ok d \<Longrightarrow> date_ok e \<Longrightarrow> date_folder d < date_folder e \<longleftrightarrow> date_less d e"
  using date_folder_less date_less_linear [of d e] by (metis order.asym)

text \<open>A day's folder, as a boundary, against a key of any day.\<close>

lemma boundary_less:
  assumes "date_ok d" "date_ok (object_date L n)"
  shows "KEY_PREFIX @ date_folder d < to_key L n \<longleftrightarrow> \<not> date_less (object_date L n) d"
proof -
  let ?o = "object_date L n"
  obtain rest where key: "to_key L n = KEY_PREFIX @ date_folder ?o @ CHR ''/'' # rest" by (simp add: to_key_def)
  have len: "length (date_folder d) = length (date_folder ?o)" using assms by (simp add: date_folder_length)
  consider "date_less d ?o" | "d = ?o" | "date_less ?o d" using date_less_linear by blast
  then show ?thesis
  proof cases
    case 1
    then have "date_folder d < date_folder ?o" using assms folder_less_iff by blast
    then have "date_folder d @ [] < date_folder ?o @ CHR ''/'' # rest" by (intro append_less_same_length len)
    moreover have "\<not> date_less ?o d" using 1 date_less_trans date_less_irrefl by blast
    ultimately show ?thesis by (simp add: key)
  next
    case 2
    have "date_folder d @ [] < date_folder d @ CHR ''/'' # rest" by (simp only: append_less_left) simp
    with 2 show ?thesis by (simp add: key date_less_irrefl)
  next
    case 3
    then have "date_folder ?o < date_folder d" using assms folder_less_iff by blast
    then have "date_folder ?o @ CHR ''/'' # rest < date_folder d @ []" by (intro append_less_same_length len [symmetric])
    with 3 show ?thesis by (simp add: key)
  qed
qed

lemma boundary_le:
  assumes "date_ok d" "date_ok (object_date L n)"
  shows "KEY_PREFIX @ date_folder d \<le> to_key L n \<longleftrightarrow> \<not> date_less (object_date L n) d"
proof -
  have "KEY_PREFIX @ date_folder d \<noteq> to_key L n"
    using assms by (auto simp: to_key_def date_folder_length dest: arg_cong [of _ _ length])
  then show ?thesis using boundary_less [OF assms] by (simp add: order.order_iff_strict)
qed

lemma parse_day_real: "parse_day K flag v = Ok d \<Longrightarrow> real_date K d"
  by (auto simp: parse_day_def real_date_def ok_or_def split: list.splits option.splits if_splits Option.bind_splits)

lemma day_boundaries_less:
  assumes "date_ok d" "date_ok e"
  shows "KEY_PREFIX @ date_folder e \<le> KEY_PREFIX @ date_folder d \<longleftrightarrow> \<not> date_less d e"
proof -
  have "KEY_PREFIX @ date_folder d < KEY_PREFIX @ date_folder e \<longleftrightarrow> date_less d e"
    using folder_less_iff [OF assms] by simp
  then show ?thesis by (metis linorder_not_less)
qed

text \<open>
  C40: The days asked for are the days fetched. With \<open>--from\<close> and \<open>--to\<close> two real days, the key of an object
  stamped on a real day is within the boundaries exactly when its day is neither before the first nor
  after the last, whatever its id, pool, agent and kind, the last day of the calendar included; and the two flags are
  refused as an empty range exactly when the last day is before the first.
\<close>

theorem days_select_exactly:
  assumes cal: "calendar_ok K" and n: "real_date K (object_date L n)"
    and given: "gv_from g = Some a" "gv_to g = Some b" "CHR ''T'' \<notin> set a" "CHR ''T'' \<notin> set b"
    and day_a: "parse_day K ''--from'' a = Ok da" and day_b: "parse_day K ''--to'' b = Ok db"
  shows "if date_less db da then given_days K g = Err (EmptyRange a b)
    else \<exists>ds. given_days K g = Ok ds
      \<and> in_days ds (to_key L n) = (\<not> date_less (object_date L n) da \<and> \<not> date_less db (object_date L n))"
proof -
  have bounds: "parse_bound K ''--from'' a = Ok (DayBound da)" "parse_bound K ''--to'' b = Ok (DayBound db)"
    using given(3,4) day_a day_b by (simp_all add: parse_bound_def)
  from parse_day_real [OF day_a] parse_day_real [OF day_b] have real: "real_date K da" "real_date K db" .
  note oks = next_day(1) [OF cal real(1)] next_day(1) [OF cal real(2)] next_day(1) [OF cal n]
  let ?from = "KEY_PREFIX @ date_folder da"
  have ne: "[] < ?from" by (simp add: KEY_PREFIX_def)
  show ?thesis
  proof (cases "cal_next_day K db")
    case None
    then have last: "\<not> date_less db da" "\<not> date_less db (object_date L n)"
      using next_day(2) [OF cal real(2)] real(1) n by blast+
    have "given_days K g = Ok \<lparr>d_from = Some ?from, d_until = None\<rparr>"
      using given bounds None by (simp add: given_days_def parsed_def bound_starts_def bound_ends_def)
    with last ne show ?thesis
      using boundary_less [OF oks(1,3)] by (simp add: in_days_def days_after_def days_past_def)
  next
    case (Some e)
    note e = next_day(3) [OF cal real(2) Some]
    let ?until = "KEY_PREFIX @ date_folder e"
    have e_ok: "date_ok e" using e by blast
    have "\<not> date_less da e \<longleftrightarrow> date_less db da" using e real(1) by blast
    with day_boundaries_less [OF oks(1) e_ok] have empty: "?until \<le> ?from \<longleftrightarrow> date_less db da" by simp
    have gd: "given_days K g = (if ?until \<le> ?from then Err (EmptyRange a b) else Ok \<lparr>d_from = Some ?from, d_until = Some ?until\<rparr>)"
      using given bounds Some by (simp add: given_days_def parsed_def bound_starts_def bound_ends_def)
    have "?until \<le> to_key L n \<longleftrightarrow> date_less db (object_date L n)"
      using boundary_le [OF e_ok oks(3)] e n by blast
    then have "in_days \<lparr>d_from = Some ?from, d_until = Some ?until\<rparr> (to_key L n)
        = (\<not> date_less (object_date L n) da \<and> \<not> date_less db (object_date L n))"
      using boundary_less [OF oks(1,3)] ne by (simp add: in_days_def days_after_def days_past_def)
    with gd empty show ?thesis by simp
  qed
qed

section \<open>Witness\<close>

text \<open>A calendar of twelve months of thirty-one days, which is the one \<open>demo_key_lib\<close> stamps its keys by.\<close>

definition demo_calendar :: calendar where
  "demo_calendar =
     \<lparr>cal_date = (\<lambda>y m d. y < 10000 \<and> 0 < m \<and> m \<le> 12 \<and> 0 < d \<and> d \<le> 31),
      cal_next_day = (\<lambda>(y, m, d).
        if d < 31 then Some (y, m, d + 1) else if m < 12 then Some (y, m + 1, 1)
        else if y < 9999 then Some (y + 1, 1, 1) else None),
      cal_parse_rfc3339 = (\<lambda>_. None), cal_in_utc = (\<lambda>_. True), cal_date_of = (\<lambda>_. (1970, 1, 1)), cal_add_ms = Some\<rparr>"

lemma demo_calendar_ok: "calendar_ok demo_calendar"
  by (auto simp: calendar_ok_def demo_calendar_def date_ok_def date_less_def)

definition demo_given :: given where
  "demo_given = given_default\<lparr>gv_from := Some ''1970-01-02'', gv_to := Some ''1970-04-05''\<rparr>"

theorem days_select_exactly_witness:
  "\<exists>ds. given_days demo_calendar demo_given = Ok ds \<and> in_days ds (to_key demo_key_lib demo_name)"
proof -
  have date: "object_date demo_key_lib demo_name = (1970, 4, 5)"
    by (simp add: object_date_def demo_key_lib_def demo_name_def)
  have days: "parse_day demo_calendar ''--from'' ''1970-01-02'' = Ok (1970, 1, 2)"
    "parse_day demo_calendar ''--to'' ''1970-04-05'' = Ok (1970, 4, 5)"
    by (simp_all add: parse_day_def day_part_def demo_calendar_def is_digit_def undecimal_def digit_value_def)
  have "if date_less (1970, 4, 5) (1970, 1, 2) then given_days demo_calendar demo_given = Err (EmptyRange ''1970-01-02'' ''1970-04-05'')
    else \<exists>ds. given_days demo_calendar demo_given = Ok ds
      \<and> in_days ds (to_key demo_key_lib demo_name)
        = (\<not> date_less (object_date demo_key_lib demo_name) (1970, 1, 2) \<and> \<not> date_less (1970, 4, 5) (object_date demo_key_lib demo_name))"
    by (rule days_select_exactly [OF demo_calendar_ok _ _ _ _ _ days])
      (simp_all add: date real_date_def demo_calendar_def demo_given_def)
  then show ?thesis by (simp add: date date_less_def)
qed

end
