(* ===== verification/Fetch_Laws.thy ===== *)
theory Fetch_Laws
  imports Fetch_Main Fetch_Days Served_Demo
begin

text \<open>
  What the exit code of \<open>metsuke-fetch sync\<close> says: the process from its password file to its verdict,
  against an archive that stands still behind a network that may fail.
\<close>

section \<open>A run that rejected nothing\<close>

context steady_archive
begin

lemma download_landed:
  assumes "serves E ks n obj" "k \<in> set ks" "key_selected E k" and "download E k w d = (w', d', Ok (Landed how len))"
  shows "\<exists>ob. obj k = Ok ob \<and> lands E obj k = Some (ob_bytes ob)"
proof -
  from assms(4) obtain ob where pull: "pull_object (fl_pull (re_libs E)) (re_send E) (re_client E) k (vf_max_object_bytes (re_ver E)) w = (w', Ok ob)"
    and how: "checked (re_libs E) k ob (vf_insist (re_ver E)) = Ok how"
    by (auto simp: download_def split: option.splits prod.splits sum.splits if_splits not_checked.splits)
  from objects [OF assms(1,2) pull] have "obj k = Ok ob" by auto
  with how assms(3) show ?thesis by (simp add: lands_def)
qed

lemma sync_key_rejected:
  assumes "serves E ks n obj" "k \<in> set ks" and "sync_key E k s = (s', Ok ())"
  shows "length (rp_rejected (sy_report s)) \<le> length (rp_rejected (sy_report s'))
    \<and> (rp_rejected (sy_report s') = [] \<and> key_selected E k \<longrightarrow> (\<exists>ob. obj k = Ok ob \<and> lands E obj k = Some (ob_bytes ob)))"
proof (cases "key_selected E k")
  case False
  then obtain rp v where "pass_key E v k (s\<lparr>sy_report := rp\<rparr>) = (s', Ok ())" "rp_rejected rp = rp_rejected (sy_report s)"
    using assms(3) by (auto simp: sync_key_def split: selected.splits)
  with False show ?thesis using pass_key_report by fastforce
next
  case True
  with assms(3) obtain w d l s1 v where l: "download E k (sy_net s) (sy_disk s) = (w, d, Ok l)"
      "pass_key E v k s1 = (s', Ok ())" "sy_report s1 = count_landed k l (sy_report s)"
    by (auto simp: sync_key_def split: prod.splits sum.splits)
  from pass_key_report [OF l(2)] l(3) have rep: "sy_report s' = count_landed k l (sy_report s)" by simp
  show ?thesis
  proof (cases l)
    case (Landed how len)
    with download_landed [OF assms(1,2) True, of "sy_net s" "sy_disk s"] l(1) show ?thesis
      by (simp add: rep count_landed_rejected del: count_landed.simps)
  qed (simp add: rep)
qed

lemma passes_rejected:
  assumes "serves E all n obj"
  shows "passes E ks s s' \<Longrightarrow> set ks \<subseteq> set all \<Longrightarrow> length (rp_rejected (sy_report s)) \<le> length (rp_rejected (sy_report s'))
    \<and> (rp_rejected (sy_report s') = [] \<longrightarrow>
        (\<forall>k \<in> set ks. key_selected E k \<longrightarrow> (\<exists>ob. obj k = Ok ob \<and> lands E obj k = Some (ob_bytes ob))))"
proof (induction rule: passes.induct)
  case (key k s w s1 ks s2)
  then show ?case using sync_key_rejected [OF assms _ key.hyps(1)] by auto
qed simp

text \<open>The first run into a state file, where it reports and rejected nothing, wrote every selected key.\<close>

lemma fresh_run_whole:
  assumes serves: "serves E all n obj" and apart: "state_apart E" and codecs: "codecs_ok E"
    and days: "valid_utf8 (days_after (f_days (re_filters E)) [])" and new: "dk_files d (ds_state (re_dest E)) = None"
    and ran: "run fuel E w d = Some en" "en_result en = Ok rep" "rp_rejected rep = []"
    and k: "k \<in> set (run_keys E all)" "key_selected E k"
  shows "\<exists>ob. obj k = Ok ob \<and> dk_files (en_disk en) (key_path E k) = Some (ob_bytes ob)"
proof -
  have "standing E obj (dk_files d) [] (run_keys E all) (dk_files d)" using new by (simp add: standing_def pending_def)
  from run_ends [OF serves apart codecs days _ this, of w] obtain en' where
    en': "run (Suc (length all)) E w d = Some en'"
      "\<forall>rep. en_result en' = Ok rep \<longrightarrow> standing E obj (dk_files d) (run_keys E all) [] (dk_files (en_disk en'))
        \<and> rp_unverified rep = filter (doubted E obj) (run_keys E all)
        \<and> (\<exists>s s'. passes E (run_keys E all) s s' \<and> rp_rejected rep = rp_rejected (sy_report s'))"
    by auto
  from run_more [OF en'(1), of fuel] run_more [OF ran(1), of "Suc (length all)"] have "en' = en"
    by (simp add: add.commute)
  with en'(2) ran(2) obtain s s' where
    stand: "standing E obj (dk_files d) (run_keys E all) [] (dk_files (en_disk en))"
    and pass: "passes E (run_keys E all) s s'" "rp_rejected rep = rp_rejected (sy_report s')"
    by blast
  have "set (run_keys E all) \<subseteq> set all" by (auto simp: run_keys_def keys_past_def dest: set_takeWhileD)
  with passes_rejected [OF serves pass(1)] pass(2) ran(3) k obtain ob where
    ob: "obj k = Ok ob" "lands E obj k = Some (ob_bytes ob)" by auto
  from stand k(1) have "settled E obj (dk_files d) (dk_files (en_disk en)) k" by (simp add: standing_def)
  with ob k(2) show ?thesis by (simp add: settled_def)
qed

lemma run_keys_days:
  assumes "serves E all n obj"
  shows "set (run_keys E all) = {k \<in> set all. in_days (f_days (re_filters E)) k}"
proof -
  from listed [OF assms] have "sorted (filter (\<lambda>k. days_after (f_days (re_filters E)) [] < k) all)"
    by (simp add: strict_sorted_iff sorted_wrt_filter)
  then show ?thesis by (auto simp: run_keys_def keys_past_def takeWhile_past in_days_def)
qed

end

section \<open>The process\<close>

lemma sum_eq_Inr: "(\<forall>e. x \<noteq> Err e) \<longleftrightarrow> x = Ok ()"
  by (cases x) auto

lemma password_files: "fetch_password W p d = (d', r) \<Longrightarrow> dk_files d' = dk_files d"
  by (auto simp: fetch_password_def split: prod.splits sum.splits dest: read_to_string_files)

text \<open>An exit code of zero, of arguments that ask for a sync.\<close>

lemma fetch_main_zero:
  assumes "fetch_main fuel W argv w d = Some (fo, 0)" and "fa_command a = SyncInto state into False"
    and "invocation_parse (fw_calendar W) (kl_bech32 (pl_key (fl_pull (fw_libs W)))) (fw_filter_texts W) (fw_env W) argv
      = Ok (RunArgs a)"
  shows "\<exists>d1 password en rep. fetch_password W (sa_password_file (fa_access a)) d = (d1, Ok password)
    \<and> run fuel (run_asked W a password) w d1 = Some en \<and> en_result en = Ok rep
    \<and> rp_rejected rep = [] \<and> rp_unverified rep = [] \<and> fo_disk fo = en_disk en \<and> fo_out fo = en_landed en"
proof -
  obtain d1 q where q: "fetch_password W (sa_password_file (fa_access a)) d = (d1, q)" by fastforce
  from assms(1,3) obtain fo' where fo': "fetch_run fuel W a w d = Some fo'" "fo_result fo' = Ok ()" "fo = fo'"
    by (auto simp: fetch_main_def Let_def sum_eq_Inr split: sum.splits)
  with q obtain password where p: "q = Ok password"
    by (cases q) (auto simp: fetch_run_def)
  with q fo' assms(2) obtain en where en: "run fuel (run_asked W a password) w d1 = Some en"
      "fo_disk fo = en_disk en" "fo_out fo = en_landed en" "and_then (map_err SyncFatal (en_result en)) run_verdict = Ok ()"
    by (auto simp: fetch_run_def fetch_sync_def)
  then obtain rep where "en_result en = Ok rep" "run_verdict rep = Ok ()" by (cases "en_result en") auto
  with q p en show ?thesis by (auto simp: run_verdict_def split: if_splits)
qed

lemma run_asked_simps:
  "re_filters (run_asked W a password) = \<lparr>f_prefix = fa_prefix a, f_selection = fa_selection a, f_days = fa_days a\<rparr>"
  "re_libs (run_asked W a password) = fw_libs W"
  "fa_command a = SyncInto state into forget \<Longrightarrow>
    re_dest (run_asked W a password) = \<lparr>ds_into = fw_path W into, ds_state = fw_path W state\<rparr>"
  by (simp_all add: run_asked_def)

text \<open>
  C7: An exit code of zero means all of it. When \<open>metsuke-fetch sync\<close> into a state file that does not yet
  exist exits zero, then every key the server's archive holds under the prefix, that the filters select and the
  days asked for cover, has on disk, under the path the key names, exactly the bytes the archive serves for it:
  nothing was lost to a refused object, a cut answer or a page boundary without the exit code saying so.
\<close>

theorem success_means_whole:
  assumes exit: "fetch_main fuel W argv w d = Some (fo, 0)"
    and asked: "invocation_parse (fw_calendar W) (kl_bech32 (pl_key (fl_pull (fw_libs W)))) (fw_filter_texts W) (fw_env W) argv
      = Ok (RunArgs a)" and sync: "fa_command a = SyncInto state into False"
    and password: "fetch_password W (sa_password_file (fa_access a)) d = (d1, Ok password)"
    and served: "served_by S (run_asked W a password) ks n obj"
    and apart: "state_apart (run_asked W a password)" and codecs: "codecs_ok (run_asked W a password)"
    and days: "valid_utf8 (days_after (fa_days a) [])" and new: "dk_files d (fw_path W state) = None"
    and k: "k \<in> set ks" "in_days (fa_days a) k"
      "selects (pl_key (fl_pull (fw_libs W))) (fa_selection a) k = SelYes"
  shows "\<exists>ob. archive_object (run_asked W a password) k = Ok ob
    \<and> dk_files (fo_disk fo) (key_path (run_asked W a password) k) = Some (ob_bytes ob)"
proof -
  from fetch_main_zero [OF exit sync asked] password obtain en rep where
    en: "run fuel (run_asked W a password) w d1 = Some en" "en_result en = Ok rep" "rp_rejected rep = []"
      "fo_disk fo = en_disk en" by auto
  have "dk_files d1 (ds_state (re_dest (run_asked W a password))) = None"
    using new password_files [OF password] by (simp add: run_asked_simps(3) [OF sync])
  moreover have "k \<in> set (run_keys (run_asked W a password) ks)"
    using k served.run_keys_days [OF served] by (simp add: run_asked_simps)
  moreover have "key_selected (run_asked W a password) k" using k(3) by (simp add: run_asked_simps)
  moreover have "valid_utf8 (days_after (f_days (re_filters (run_asked W a password))) [])"
    using days by (simp add: run_asked_simps)
  ultimately have "\<exists>ob. obj k = Ok ob \<and> dk_files (en_disk en) (key_path (run_asked W a password) k) = Some (ob_bytes ob)"
    using served.fresh_run_whole [OF served apart codecs _ _ en(1-3), of k] by blast
  moreover have "obj = archive_object (run_asked W a password)" using served by (simp add: served_by_def)
  ultimately show ?thesis using en(4) by simp
qed

text \<open>
  And into a state file that earlier runs left, however they ended: every selected key of the days is settled,
  and none of them stands under a verdict.
\<close>

theorem resumed_success:
  assumes exit: "fetch_main fuel W argv w d = Some (fo, 0)"
    and asked: "invocation_parse (fw_calendar W) (kl_bech32 (pl_key (fl_pull (fw_libs W)))) (fw_filter_texts W) (fw_env W) argv
      = Ok (RunArgs a)" and sync: "fa_command a = SyncInto state into False"
    and password: "fetch_password W (sa_password_file (fa_access a)) d = (d1, Ok password)"
    and served: "served_by S (run_asked W a password) ks n obj"
    and apart: "state_apart (run_asked W a password)" and codecs: "codecs_ok (run_asked W a password)"
    and days: "valid_utf8 (days_after (fa_days a) [])" and new: "f0 (fw_path W state) = None"
    and left: "left_by (run_asked W a password) f0 (dk_files d)"
    and k: "k \<in> set ks" "in_days (fa_days a) k"
  shows "settled (run_asked W a password) obj f0 (dk_files (fo_disk fo)) k \<and> \<not> doubted (run_asked W a password) obj k"
proof -
  let ?E = "run_asked W a password"
  from fetch_main_zero [OF exit sync asked] password obtain en rep where
    en: "run fuel ?E w d1 = Some en" "en_result en = Ok rep" "rp_unverified rep = []" "fo_disk fo = en_disk en" by auto
  have "f0 (ds_state (re_dest ?E)) = None" using new by (simp add: run_asked_simps(3) [OF sync])
  moreover have "valid_utf8 (days_after (f_days (re_filters ?E)) [])" using days by (simp add: run_asked_simps)
  moreover have "left_by ?E f0 (dk_files d1)" using left password_files [OF password] by simp
  ultimately obtain en' where en': "run (Suc (length ks)) ?E w d1 = Some en'" "\<forall>rep. en_result en' = Ok rep \<longrightarrow>
         (\<forall>k \<in> set (run_keys ?E ks). settled ?E obj f0 (dk_files (en_disk en')) k)
         \<and> rp_unverified rep = filter (doubted ?E obj) (run_keys ?E ks)"
    using served.runs_settle [OF served apart codecs, of f0 d1 w] by auto
  from run_more [OF en'(1), of fuel] run_more [OF en(1), of "Suc (length ks)"] have "en' = en"
    by (simp add: add.commute)
  moreover have "k \<in> set (run_keys ?E ks)"
    using k served.run_keys_days [OF served] by (simp add: run_asked_simps)
  ultimately show ?thesis using en'(2) en(2-4) by (auto simp: filter_empty_conv eq_commute [of "[]"])
qed

text \<open>
  \<open>metsuke-fetch sync\<close> run on a concrete command line against the server of \<open>Served_Demo\<close>.
\<close>

definition asked_filters :: filters where
  "asked_filters =
     \<lparr>f_prefix = KEY_PREFIX, f_selection = \<lparr>se_pool = None, se_agent = None, se_kind = None\<rparr>,
      f_days = \<lparr>d_from = Some ''v1/1970-01-02'', d_until = None\<rparr>\<rparr>"

definition asked_libs :: fetch_libs where
  "asked_libs = (demo_fetch InsistNothing)
     \<lparr>cursor_from_str := (\<lambda>t. Ok ((fresh_cursor asked_filters (demo_ver InsistNothing))
        \<lparr>cu_after := hd (unhexes t), cu_unverified := tl (unhexes t)\<rparr>))\<rparr>"

definition asked_world :: "mishap option list fetch_world" where
  "asked_world =
     \<lparr>fw_libs = asked_libs, fw_calendar = demo_calendar,
      fw_filter_texts = \<lparr>ft_pool = (\<lambda>_. []), ft_agent = (\<lambda>_. [])\<rparr>, fw_env = (\<lambda>_. None), fw_path = (\<lambda>s. [s]),
      fw_network = (\<lambda>_. server_network (demo_server None) ''https://metsuke.example''),
      fw_version = ''1.0'', fw_build_rev = ''abc'', fw_usage = [], fw_args_text = (\<lambda>_. []), fw_io_text = (\<lambda>_. []),
      fw_sync_text = (\<lambda>_. [])\<rparr>"

definition asked_flags :: "string list" where
  "asked_flags =
     [''--server'', ''https://metsuke.example/'', ''--user'', ''dev'', ''--password-file'', ''pw'',
      ''--timeout-ms'', ''5000'', ''--max-object-bytes'', ''1000'', ''--state'', ''state'', ''--into'', ''dl'',
      ''--from'', ''1970-01-02'']"

definition asked_line :: "string list" where "asked_line = ''sync'' # asked_flags"

definition asked_args :: fetch_args where
  "asked_args =
     \<lparr>fa_command = SyncInto ''state'' ''dl'' False,
      fa_access = \<lparr>sa_server = ''https://metsuke.example/'', sa_user = ''dev'', sa_password_file = ''pw'', sa_timeout_ms = 5000\<rparr>,
      fa_prefix = KEY_PREFIX, fa_selection = \<lparr>se_pool = None, se_agent = None, se_kind = None\<rparr>,
      fa_days = \<lparr>d_from = Some ''v1/1970-01-02'', d_until = None\<rparr>, fa_verification = demo_ver InsistNothing\<rparr>"

abbreviation asked_run :: "mishap option list run_env" where "asked_run \<equiv> run_asked asked_world asked_args ''secret''"

definition asked_disk :: disk where
  "asked_disk = \<lparr>dk_files = (\<lambda>_. None)([''pw''] \<mapsto> ''secret'' @ [newline]), dk_faults = []\<rparr>"

lemma asked_given:
  "parse_given given_default asked_flags = Ok (given_default
     \<lparr>gv_server := Some ''https://metsuke.example/'', gv_user := Some ''dev'', gv_password_file := Some ''pw'',
      gv_timeout_ms := Some ''5000'', gv_max_object_bytes := Some ''1000'', gv_state := Some ''state'', gv_into := Some ''dl'',
      gv_from := Some ''1970-01-02''\<rparr>)"
  by (simp add: asked_flags_def insist_flag_def set_flag_def given_default_def)

lemma asked_numbers: "nonzero_u64 ''5000'' = Some 5000" "nonzero_u64 ''1000'' = Some 1000"
  by (simp_all add: nonzero_u64_def parse_u64_def is_digit_def undecimal_def digit_value_def u64_max_def)

lemma asked_folder: "date_folder (1970, Suc 0, 2) = ''1970-01-02''"
  by (simp add: date_folder_def zero_padded_def Let_def decimal.simps digit_char_def char_of_def bit_0)

lemma asked_bound: "parse_bound demo_calendar ''--from'' ''1970-01-02'' = Ok (DayBound (1970, 1, 2))"
  by (simp add: parse_bound_def parse_day_def day_part_def demo_calendar_def is_digit_def undecimal_def digit_value_def)

lemma asked_parse:
  "invocation_parse (fw_calendar asked_world) (kl_bech32 (pl_key (fl_pull (fw_libs asked_world)))) (fw_filter_texts asked_world)
     (fw_env asked_world) asked_line = Ok (RunArgs asked_args)"
proof -
  have "into_args demo_calendar B T ''sync'' (fill_from (\<lambda>_. None) (given_default
     \<lparr>gv_server := Some ''https://metsuke.example/'', gv_user := Some ''dev'', gv_password_file := Some ''pw'',
      gv_timeout_ms := Some ''5000'', gv_max_object_bytes := Some ''1000'', gv_state := Some ''state'', gv_into := Some ''dl'',
      gv_from := Some ''1970-01-02''\<rparr>)) = Ok asked_args" for B T
    by (simp add: into_args_def command_of_def required_def given_access_def access_value_def fill_from_def filled_def
        given_default_def given_selection_def given_days_def parsed_def asked_args_def demo_ver_def ok_or_def Let_def
        asked_numbers asked_bound bound_starts_def asked_folder KEY_PREFIX_def)
  moreover have "List.map_filter asked_for asked_line = []"
    by (simp add: asked_line_def asked_flags_def asked_for_def map_filter_def)
  ultimately show ?thesis using asked_given
    by (simp add: invocation_parse_def asked_world_def asked_line_def)
qed

section \<open>What the run meets\<close>

lemma asked_run_simps [simp]:
  "re_libs asked_run = asked_libs" "fl_pull asked_libs = demo_pull"
  "re_client asked_run = re_client (demo_run None InsistNothing)" "re_send asked_run = re_send (demo_run None InsistNothing)"
  "re_filters asked_run = asked_filters" "re_dest asked_run = \<lparr>ds_into = [''dl''], ds_state = [''state'']\<rparr>"
  "re_ver asked_run = demo_ver InsistNothing" "f_prefix asked_filters = KEY_PREFIX"
  "f_days asked_filters = fa_days asked_args" "f_selection asked_filters = f_selection demo_filters"
  "fw_libs asked_world = asked_libs"
proof -
  have "trim_slashes ''https://metsuke.example/'' = ''https://metsuke.example''" by (simp add: trim_slashes_def)
  then show "re_send asked_run = re_send (demo_run None InsistNothing)"
    by (simp add: run_asked_def asked_world_def new_client_def)
qed (simp_all add: run_asked_def asked_world_def asked_args_def asked_libs_def asked_filters_def)

lemma asked_object: "archive_object asked_run k = archive_object (demo_run None InsistNothing) k"
  by (simp add: archive_object_def)

lemma asked_served: "served_by (demo_server None) asked_run [demo_key_text] 2 (archive_object asked_run)"
proof -
  have "account_run (demo_server None) asked_run"
  proof -
    from demo_account_run [of None InsistNothing] have
      "\<exists>origin user password. re_client asked_run = new_client (fl_pull (re_libs asked_run)) origin user password
         \<and> holds_account (hl_developer (sr_http (demo_server None))) (dv_accounts (sr_developer (demo_server None))) user password"
      "re_send asked_run = server_network (demo_server None) (ac_server (re_client asked_run))"
      "base64_ok (fl_pull (re_libs asked_run)) (hl_developer (sr_http (demo_server None)))"
      "listing_ok (fl_pull (re_libs asked_run)) (hl_developer (sr_http (demo_server None)))"
      unfolding account_run_def asked_run_simps demo_run_simps(1,2) by blast+
    moreover have "valid_utf8 KEY_PREFIX" by (rule valid_utf8_ascii) (auto simp: KEY_PREFIX_def)
    ultimately show ?thesis unfolding account_run_def asked_run_simps(5,8) by blast
  qed
  moreover have "offered asked_run [demo_key_text] = [demo_key_text]"
    by (simp add: offered_def asked_prefix_def demo_key_text_def to_key_def starts_with_def KEY_PREFIX_def)
  then have "\<exists>held. lists (demo_server None) held \<and> [demo_key_text] = offered asked_run held"
    using demo_lists by (intro exI [of _ "[demo_key_text]"]) simp
  ultimately show ?thesis by (simp add: served_by_def demo_developer_def list_max_rows_def LIST_MAX_ROWS_CAP_def)
qed

lemma asked_apart: "state_apart asked_run"
  using demo_apart [of None InsistNothing] by (simp add: state_apart_def outside_def)

lemma asked_codecs: "codecs_ok asked_run"
  by (simp add: codecs_ok_def Let_def asked_libs_def demo_fetch_def fresh_cursor_def)

lemma asked_days: "valid_utf8 (days_after (fa_days asked_args) [])"
  by (rule valid_utf8_ascii) (auto simp: asked_args_def days_after_def split: if_splits)

lemma asked_in_days: "in_days (fa_days asked_args) demo_key_text"
proof -
  have "object_date demo_key_lib demo_name = (1970, 4, 5)" by (simp add: object_date_def demo_key_lib_def demo_name_def)
  then have "KEY_PREFIX @ date_folder (1970, Suc 0, 2) < demo_key_text"
    unfolding demo_key_text_def by (subst boundary_less) (simp_all add: date_ok_def date_less_def)
  then show ?thesis by (simp add: in_days_def days_after_def days_past_def asked_args_def asked_folder KEY_PREFIX_def)
qed

lemma asked_selected: "key_selected asked_run demo_key_text"
  using demo_wanted [of None InsistNothing] by simp

lemma asked_lands: "lands asked_run (archive_object asked_run) demo_key_text = Some demo_content"
  using asked_selected by (simp add: lands_def asked_object demo_arrives_unsigned checked_def Let_def demo_ver_def)

lemma asked_password: "fetch_password asked_world (sa_password_file (fa_access asked_args)) asked_disk = (asked_disk, Ok ''secret'')"
proof -
  have "valid_utf8 (''secret'' @ [newline])" by (rule valid_utf8_ascii) auto
  then show ?thesis
    by (simp add: fetch_password_def asked_args_def asked_world_def asked_disk_def read_to_string_def next_fault_def trim_newlines_def)
qed

text \<open>It exits zero.\<close>

lemma asked_exit: "\<exists>fo. fetch_main 2 asked_world asked_line [] asked_disk = Some (fo, 0)"
proof -
  have bar: "claimable asked_run (dk_files asked_disk)" by (simp add: claimable_def asked_disk_def)
  have take: "\<forall>k \<in> set [demo_key_text]. takeable asked_run k"
    by (simp add: takeable_def asked_object demo_arrives_unsigned)
  have days: "valid_utf8 (days_after (f_days (re_filters asked_run)) [])" using asked_days by simp
  have new: "dk_files asked_disk (ds_state (re_dest asked_run)) = None" by (simp add: asked_disk_def)
  from quiet_run_settled [OF asked_served asked_apart asked_codecs days new bar left_by.start _ _ take, of "[]"]
  obtain en rep where en: "run (Suc (length [demo_key_text])) asked_run [] asked_disk = Some en" "en_result en = Ok rep"
      "rp_unverified rep = filter (doubted asked_run (archive_object asked_run)) (run_keys asked_run [demo_key_text])"
      "all_land asked_run [demo_key_text] \<longrightarrow> rp_rejected rep = []"
    by (auto simp: asked_disk_def)
  have "\<not> doubted asked_run (archive_object asked_run) demo_key_text"
    using asked_lands asked_selected by (auto simp: doubted_def lands_def)
  moreover have "set (run_keys asked_run [demo_key_text]) \<subseteq> {demo_key_text}"
    using served.run_keys_days [OF asked_served] by auto
  ultimately have "rp_unverified rep = []" unfolding en(3) by (auto simp: filter_empty_conv)
  moreover have "rp_rejected rep = []" using en(4) asked_lands by (simp add: all_land_def)
  ultimately have "run_verdict rep = Ok ()" by (simp add: run_verdict_def)
  with en(1,2) asked_password show ?thesis
    unfolding fetch_main_def Let_def asked_parse
    by (simp add: fetch_run_def fetch_sync_def asked_args_def [THEN arg_cong [of _ _ fa_command]] numeral_2_eq_2)
qed

theorem success_means_whole_witness:
  "\<exists>fo. fetch_main 2 asked_world asked_line [] asked_disk = Some (fo, 0)
    \<and> dk_files (fo_disk fo) (key_path asked_run demo_key_text) = Some demo_content"
proof -
  from asked_exit obtain fo where fo: "fetch_main 2 asked_world asked_line [] asked_disk = Some (fo, 0)" ..
  have "\<exists>ob. archive_object asked_run demo_key_text = Ok ob
      \<and> dk_files (fo_disk fo) (key_path asked_run demo_key_text) = Some (ob_bytes ob)"
  proof (rule success_means_whole [OF fo asked_parse _ asked_password asked_served asked_apart asked_codecs asked_days _ _ asked_in_days])
    show "fa_command asked_args = SyncInto ''state'' ''dl'' False" by (simp add: asked_args_def)
    show "dk_files asked_disk (fw_path asked_world ''state'') = None" by (simp add: asked_disk_def asked_world_def)
    show "selects (pl_key (fl_pull (fw_libs asked_world))) (fa_selection asked_args) demo_key_text = SelYes"
      using demo_wanted [of None InsistNothing] by (simp add: asked_args_def)
  qed simp
  with fo show ?thesis by (auto simp: asked_object demo_arrives_unsigned)
qed

end
