(* ===== verification/Server_Config.thy ===== *)
theory Server_Config
  imports Endpoint Serve S3_Archive Agent_Config "HOL-Library.AList"
begin

text \<open>
  \<open>metsuke-server/src/config.rs\<close>, \<open>applications.rs\<close> and \<open>cli.rs\<close>: every value an operator sets, and the
  command line. The \<open>toml\<close> crate's part is to read the file as a table of known keys whose values have the
  kinds the fields ask for (\<open>server_toml\<close>), the \<open>url\<close> crate's to read a URL (\<open>url\<close>); ranges and the
  conversions the fields declare are written out.
\<close>

section \<open>Application codes\<close>

definition METADATA_LABEL :: int where "METADATA_LABEL = 674"
definition METADATA_KEY :: string where "METADATA_KEY = ''musashinet_incentives_application_code''"

datatype application_code = ApplicationCode (code_as_str: string)

datatype application_code_error = CodeEmpty | NotAnIdentifier string

text \<open>A character of the code: an ASCII one, so a single byte.\<close>

definition is_code_char :: "uchar \<Rightarrow> bool" where
  "is_code_char g \<longleftrightarrow> (\<exists>c. g = [c] \<and> (is_alphanumeric c \<or> c = dash \<or> c = CHR ''_'' \<or> c = CHR ''.''))"

lemma is_code_char_code [code]:
  "is_code_char g = (case g of [c] \<Rightarrow> is_alphanumeric c \<or> c = dash \<or> c = CHR ''_'' \<or> c = CHR ''.'' | _ \<Rightarrow> False)"
  by (auto simp: is_code_char_def split: list.splits)

definition application_code_parse :: "string \<Rightarrow> (application_code_error, application_code) result" where
  "application_code_parse text =
     (let trimmed = trim text in
      if trimmed = [] then Err CodeEmpty
      else if \<not> list_all is_code_char (chars_of trimmed) then Err (NotAnIdentifier trimmed)
      else Ok (ApplicationCode trimmed))"

section \<open>Paths and addresses\<close>

datatype absolute_path = AbsolutePath (as_path: string)

definition absolute_path_new :: "string \<Rightarrow> (string, absolute_path) result" where
  "absolute_path_new p = (if starts_with ''/'' p then Ok (AbsolutePath p) else Err p)"

text \<open>A parsed URL, as far as it is read: its text is what \<open>as_str\<close> and \<open>Display\<close> print.\<close>

record url =
  url_text :: string
  url_scheme :: string
  url_host :: "string option"
  url_port :: "nat option"
  url_path :: string
  url_query :: "string option"
  url_fragment :: "string option"
  url_username :: string
  url_password :: "string option"

datatype public_url = PublicUrl (as_url: url)

datatype not_a_public_url = PublicPlaintext url | NotAnOrigin url

definition is_origin :: "url \<Rightarrow> bool" where
  "is_origin u \<longleftrightarrow> url_path u = ''/'' \<and> url_query u = None \<and> url_fragment u = None
     \<and> url_username u = [] \<and> url_password u = None"

definition public_url_of :: "url \<Rightarrow> (not_a_public_url, public_url) result" where
  "public_url_of u =
     (let loopback = (case url_host u of None \<Rightarrow> False | Some host \<Rightarrow> is_loopback host)
      in if \<not> is_origin u then Err (NotAnOrigin u)
         else if url_scheme u = ''https'' then Ok (PublicUrl u)
         else if url_scheme u = ''http'' \<and> loopback then Ok (PublicUrl u)
         else Err (PublicPlaintext u))"

section \<open>The file\<close>

record http_config =
  hc_idle_timeout_ms :: nat
  hc_read_timeout_ms :: nat
  hc_write_timeout_ms :: nat
  hc_max_concurrent_requests :: nat

record developer_config =
  dc_password_file :: absolute_path
  dc_list_max_rows :: nat

datatype archive_config = ArchiveFilesystem string | ArchiveS3 s3_config

text \<open>\<open>IngestConfig\<close>: what the intake reads, with the allowlist as it is written down and the roster's path.\<close>

record ingest_section = ingest_config +
  is_codes :: "(pool_id \<times> application_code) list"
  is_leios_roster :: "absolute_path option"

record server_config =
  sc_listen :: string
  sc_public_url :: public_url
  sc_http :: http_config
  sc_archive :: archive_config
  sc_ingest :: ingest_section
  sc_developer :: developer_config
  sc_downloads :: "(string \<times> absolute_path) list option"

text \<open>The file's tables as the \<open>toml\<close> crate reads them, before any range is checked.\<close>

record s3_table =
  s3t_bucket :: string
  s3t_region :: string
  s3t_endpoint :: string
  s3t_request_timeout_ms :: int
  s3t_signature_validity_secs :: int
  s3t_put_retries :: int
  s3t_put_retry_backoff_ms :: int
  s3t_list_max_pages :: int

datatype archive_table = FilesystemTable string | S3Table s3_table

record server_table =
  st_listen :: string
  st_public_url :: string
  st_idle_timeout_ms :: int
  st_read_timeout_ms :: int
  st_write_timeout_ms :: int
  st_max_concurrent_requests :: int
  st_archive :: archive_table
  st_allowlist :: "(string \<times> string) list"
  st_leios_roster :: "string option"
  st_max_body_bytes :: int
  st_max_header_bytes :: int
  st_max_timestamp_skew_secs :: int
  st_rate_limit_uploads :: int
  st_rate_limit_uploads_total :: int
  st_rate_limit_window_secs :: int
  st_password_file :: string
  st_list_max_rows :: int
  st_downloads :: "(string \<times> string) list option"

record server_toml =
  read_server_table :: "string \<Rightarrow> server_table option"
  parse_url :: "string \<Rightarrow> (string, url) result"
  toml_bech32 :: bech32_lib

datatype server_config_error = ServerToml

definition as_u32 :: "int \<Rightarrow> nat option" where
  "as_u32 n = (if 0 \<le> n \<and> n < 2 ^ 32 then Some (nat n) else None)"

definition as_nonzero_u32 :: "int \<Rightarrow> nat option" where
  "as_nonzero_u32 n = Option.bind (as_u32 n) (\<lambda>k. if k = 0 then None else Some k)"

abbreviation absolute :: "string \<Rightarrow> absolute_path option" where
  "absolute p \<equiv> result_ok (absolute_path_new p)"

text \<open>\<open>Codes\<close>: a later entry of a pool replaces an earlier one.\<close>

fun codes_of :: "bech32_lib \<Rightarrow> (string \<times> string) list \<Rightarrow> (pool_id \<times> application_code) list
    \<Rightarrow> (pool_id \<times> application_code) list option" where
  "codes_of B [] codes = Some codes"
| "codes_of B ((pool, written) # es) codes =
     Option.bind (result_ok (from_bech32 B pool)) (\<lambda>p. Option.bind (result_ok (application_code_parse written)) (\<lambda>c.
       codes_of B es (AList.update p c codes)))"

fun downloads_of :: "(string \<times> string) list \<Rightarrow> (string \<times> absolute_path) list option" where
  "downloads_of [] = Some []"
| "downloads_of ((name, p) # es) =
     Option.bind (absolute p) (\<lambda>a. Option.bind (downloads_of es) (\<lambda>rest. Some ((name, a) # rest)))"

definition s3_config_of :: "server_toml \<Rightarrow> s3_table \<Rightarrow> s3_config option" where
  "s3_config_of T t =
     do { endpoint \<leftarrow> result_ok (parse_url T (s3t_endpoint t));
          timeout \<leftarrow> as_nonzero (s3t_request_timeout_ms t);
          validity \<leftarrow> as_nonzero (s3t_signature_validity_secs t);
          retries \<leftarrow> as_u32 (s3t_put_retries t);
          backoff \<leftarrow> as_nonzero (s3t_put_retry_backoff_ms t);
          pages \<leftarrow> as_nonzero_u32 (s3t_list_max_pages t);
          Some \<lparr>s3c_bucket = s3t_bucket t, s3c_region = s3t_region t, s3c_endpoint = url_text endpoint,
                s3c_request_timeout_ms = timeout, s3c_signature_validity_secs = validity, s3c_put_retries = retries,
                s3c_put_retry_backoff_ms = backoff, s3c_list_max_pages = pages\<rparr> }"

definition archive_config_of :: "server_toml \<Rightarrow> archive_table \<Rightarrow> archive_config option" where
  "archive_config_of T t =
     (case t of
        FilesystemTable root \<Rightarrow> Some (ArchiveFilesystem root)
      | S3Table s \<Rightarrow> map_option ArchiveS3 (s3_config_of T s))"

definition http_config_of :: "server_table \<Rightarrow> http_config option" where
  "http_config_of t =
     do { idle \<leftarrow> as_nonzero (st_idle_timeout_ms t);
          reading \<leftarrow> as_nonzero (st_read_timeout_ms t);
          writing \<leftarrow> as_nonzero (st_write_timeout_ms t);
          slots \<leftarrow> as_nonzero_u32 (st_max_concurrent_requests t);
          Some \<lparr>hc_idle_timeout_ms = idle, hc_read_timeout_ms = reading, hc_write_timeout_ms = writing,
                hc_max_concurrent_requests = slots\<rparr> }"

definition ingest_of :: "bech32_lib \<Rightarrow> server_table \<Rightarrow> ingest_section option" where
  "ingest_of B t =
     do { codes \<leftarrow> codes_of B (st_allowlist t) [];
          roster \<leftarrow> optional absolute (st_leios_roster t);
          body \<leftarrow> as_nonzero (st_max_body_bytes t);
          header \<leftarrow> as_nonzero (st_max_header_bytes t);
          skew \<leftarrow> as_nonzero_u32 (st_max_timestamp_skew_secs t);
          uploads \<leftarrow> as_nonzero_u32 (st_rate_limit_uploads t);
          total \<leftarrow> as_nonzero_u32 (st_rate_limit_uploads_total t);
          window \<leftarrow> as_nonzero_u32 (st_rate_limit_window_secs t);
          Some \<lparr>allowlist = (\<lambda>p. map_option code_as_str (map_of codes p)), ic_max_body_bytes = body,
                ic_max_header_bytes = header, max_timestamp_skew_secs = skew, rate_limit_uploads = uploads,
                rate_limit_uploads_total = total, rate_limit_window_secs = window,
                is_codes = codes, is_leios_roster = roster\<rparr> }"

definition developer_config_of :: "server_table \<Rightarrow> developer_config option" where
  "developer_config_of t =
     do { file \<leftarrow> absolute (st_password_file t);
          rows \<leftarrow> as_nonzero_u32 (st_list_max_rows t);
          Some \<lparr>dc_password_file = file, dc_list_max_rows = rows\<rparr> }"

definition server_config_of :: "server_toml \<Rightarrow> server_table \<Rightarrow> server_config option" where
  "server_config_of T t =
     do { u \<leftarrow> result_ok (parse_url T (st_public_url t));
          public \<leftarrow> result_ok (public_url_of u);
          http \<leftarrow> http_config_of t;
          archive \<leftarrow> archive_config_of T (st_archive t);
          ingest \<leftarrow> ingest_of (toml_bech32 T) t;
          developer \<leftarrow> developer_config_of t;
          downloads \<leftarrow> optional (\<lambda>es. downloads_of (sort_key fst es)) (st_downloads t);
          Some \<lparr>sc_listen = st_listen t, sc_public_url = public, sc_http = http, sc_archive = archive,
                sc_ingest = ingest, sc_developer = developer, sc_downloads = downloads\<rparr> }"

definition server_config_from_toml :: "server_toml \<Rightarrow> string \<Rightarrow> (server_config_error, server_config) result" where
  "server_config_from_toml T text =
     ok_or ServerToml (Option.bind (read_server_table T text) (server_config_of T))"

section \<open>The command line\<close>

definition SERVER_CONFIG_PATH :: string where "SERVER_CONFIG_PATH = ''/etc/metsuke-server/config.toml''"
definition VERIFY_ARCHIVE :: string where "VERIFY_ARCHIVE = ''verify-archive''"

datatype server_command = ServeCommand | VerifyArchiveCommand

record server_args =
  sa_config :: string
  sa_command :: server_command

datatype server_args_error = ServerUnknown string | ServerMissingValue | TwoCommands string string

fun parse_server_args ::
  "string \<Rightarrow> string option \<Rightarrow> string list \<Rightarrow> (server_args_error, server_args) result" where
  "parse_server_args config word [] =
     Ok \<lparr>sa_config = config, sa_command = (if word = Some VERIFY_ARCHIVE then VerifyArchiveCommand else ServeCommand)\<rparr>"
| "parse_server_args config word (a # rest) =
     (if a = ''--config'' then
        (case rest of [] \<Rightarrow> Err ServerMissingValue | p # rest' \<Rightarrow> parse_server_args p word rest')
      else if a = VERIFY_ARCHIVE then
        (case word of Some first \<Rightarrow> Err (TwoCommands first a) | None \<Rightarrow> parse_server_args config (Some a) rest)
      else Err (ServerUnknown a))"

definition server_args_parse :: "string list \<Rightarrow> (server_args_error, server_args) result" where
  "server_args_parse argv = parse_server_args SERVER_CONFIG_PATH None argv"

end
