(* ===== verification/Markup.thy ===== *)
theory Markup
  imports Http_Client Envelope
begin

text \<open>
  The text the pages of \<open>metsuke-server/src/instructions.rs\<close> are made with: the standard library's string
  searches, \<open>fill\<close> (here \<open>fill_page\<close>), \<open>escape\<close> (\<open>escape_html\<close>) and \<open>toc\<close>. A panic is the \<open>Inl\<close> of its message.
\<close>

section \<open>Searches\<close>

text \<open>The text before and after the first occurrence of \<open>pat\<close>.\<close>

fun split_once_text :: "string \<Rightarrow> string \<Rightarrow> (string \<times> string) option" where
  "split_once_text pat s =
     (if starts_with pat s then Some ([], drop (length pat) s)
      else case s of [] \<Rightarrow> None | c # cs \<Rightarrow> map_option (\<lambda>(a, b). (c # a, b)) (split_once_text pat cs))"

declare split_once_text.simps [simp del]

lemma split_once_text_Some: "split_once_text pat s = Some (a, b) \<Longrightarrow> s = a @ pat @ b"
proof (induction pat s arbitrary: a rule: split_once_text.induct)
  case (1 pat s)
  show ?case
  proof (cases "starts_with pat s")
    case True
    with 1(2) show ?thesis by (subst (asm) split_once_text.simps) (auto simp: starts_with_iff)
  next
    case False
    with 1 show ?thesis by (subst (asm) (2) split_once_text.simps) (auto split: list.splits)
  qed
qed

lemma split_once_text_shorter: "split_once_text pat s = Some (a, b) \<Longrightarrow> pat \<noteq> [] \<Longrightarrow> length b < length s"
  using split_once_text_Some by fastforce

text \<open>\<open>str::split\<close> and \<open>str::replace\<close> of a pattern that is not empty; the empty one is found around every character.\<close>

function split_text :: "string \<Rightarrow> string \<Rightarrow> string list" where
  "split_text pat s =
     (if pat = [] then [] # chars_of s @ [[]]
      else case split_once_text pat s of None \<Rightarrow> [s] | Some (a, b) \<Rightarrow> a # split_text pat b)"
  by pat_completeness auto
termination
  by (relation "measure (\<lambda>(pat, s). length s)") (auto dest: split_once_text_shorter)

declare split_text.simps [simp del]

definition replace_text :: "string \<Rightarrow> string \<Rightarrow> string \<Rightarrow> string" where
  "replace_text pat new s = join_text new (split_text pat s)"

text \<open>\<open>matches(_).count()\<close>.\<close>

definition count_text :: "string \<Rightarrow> string \<Rightarrow> nat" where
  "count_text pat s = length (split_text pat s) - 1"

text \<open>\<open>str::lines\<close>: a line ends with a newline, of which a carriage return before it is part.\<close>

definition text_lines :: "string \<Rightarrow> string list" where
  "text_lines s =
     (let ps = split_on newline s; ls = (if last ps = [] then butlast ps else ps);
          ended = (if last ps = [] then length ls else length ls - 1)
      in map (\<lambda>l. if l \<noteq> [] \<and> last l = CHR 0x0D then butlast l else l) (take ended ls) @ drop ended ls)"

definition trim_end :: "string \<Rightarrow> string" where
  "trim_end s = concat (rev (dropWhile is_whitespace (rev (chars_of s))))"

section \<open>Filling a template\<close>

text \<open>The page so far is returned with what follows it; beside it, which values were used.\<close>

definition value_at :: "(string \<times> string) list \<Rightarrow> string \<Rightarrow> nat option" where
  "value_at values name = find (\<lambda>i. fst (values ! i) = name) [0..<length values]"

function fill_from_template ::
  "(string \<times> string) list \<Rightarrow> string \<Rightarrow> (string, string \<times> nat set) result" where
  "fill_from_template values rest =
     (case split_once_text ''{{'' rest of
        None \<Rightarrow> Ok (rest, {})
      | Some (before, opened) \<Rightarrow>
          (case split_once_text ''}}'' opened of
             None \<Rightarrow> Err ''every placeholder the template opens is closed''
           | Some (name, tail) \<Rightarrow>
               (case value_at values name of
                  None \<Rightarrow> Err (''the template names '' @ name @ '', which nothing fills'')
                | Some i \<Rightarrow>
                    and_then (fill_from_template values tail) (\<lambda>(page, used).
                      Ok (before @ snd (values ! i) @ page, insert i used)))))"
  by pat_completeness auto
termination
  by (relation "measure (\<lambda>(values, rest). length rest)") (auto dest!: split_once_text_Some)

declare fill_from_template.simps [simp del]

definition fill_page :: "string \<Rightarrow> (string \<times> string) list \<Rightarrow> (string, string) result" where
  "fill_page template values =
     and_then (fill_from_template values template) (\<lambda>(page, used).
       case find (\<lambda>i. i \<notin> used) [0..<length values] of
         None \<Rightarrow> Ok page
       | Some i \<Rightarrow> Err (''the template does not name '' @ fst (values ! i)))"

section \<open>Escaping\<close>

definition escape_html :: "string \<Rightarrow> string" where
  "escape_html text =
     replace_text [CHR 0x27] ''&#39;'' (replace_text [CHR 0x22] ''&quot;'' (replace_text ''>'' ''&gt;''
       (replace_text ''<'' ''&lt;'' (replace_text ''&'' ''&amp;'' text))))"

section \<open>A page's contents\<close>

definition toc_entry :: "string \<Rightarrow> (string, string) result" where
  "toc_entry rest =
     and_then (ok_or ''a section's id is quoted'' (split_once_text [CHR 0x22, CHR ''>''] rest)) (\<lambda>(id, rest').
     and_then (ok_or ''a section heading closes'' (split_once_text ''</h2>'' rest')) (\<lambda>(title, _).
       if CHR ''<'' \<in> set title then Err (''the section '' @ id @ '' carries markup the contents cannot show'')
       else Ok (''<li><a href='' @ [CHR 0x22] @ ''#'' @ id @ [CHR 0x22] @ ''>'' @ title @ ''</a>'')))"

section \<open>What escaping does\<close>

fun escaped_char :: "char \<Rightarrow> string" where
  "escaped_char c =
     (if c = CHR ''&'' then ''&amp;'' else if c = CHR ''<'' then ''&lt;'' else if c = CHR ''>'' then ''&gt;''
      else if c = CHR 0x22 then ''&quot;'' else if c = CHR 0x27 then ''&#39;'' else [c])"

lemma starts_with_char [simp]: "starts_with [c] (x # xs) \<longleftrightarrow> x = c" "\<not> starts_with [c] []"
  by (auto simp: starts_with_def)

lemma split_text_char: "split_text [c] (x # xs) =
    (if x = c then [] # split_text [c] xs else (x # hd (split_text [c] xs)) # tl (split_text [c] xs))"
proof (cases "x = c")
  case True
  then show ?thesis by (subst split_text.simps, subst split_once_text.simps) simp
next
  case False
  then have once: "split_once_text [c] (x # xs) = map_option (\<lambda>(a, b). (x # a, b)) (split_once_text [c] xs)"
    by (subst split_once_text.simps) simp
  show ?thesis
    by (subst (1 2 3) split_text.simps) (simp add: once False split: option.split prod.split)
qed

lemma split_text_char_Nil: "split_text [c] [] = [[]]"
  by (subst split_text.simps, subst split_once_text.simps) simp

lemma split_text_nonempty: "split_text [c] s \<noteq> []"
  by (subst split_text.simps) (simp split: option.split prod.split)

lemma join_text_Cons: "ps \<noteq> [] \<Longrightarrow> join_text sep (p # ps) = p @ sep @ join_text sep ps"
  by (cases ps) auto

lemma replace_text_char: "replace_text [c] new s = concat (map (\<lambda>x. if x = c then new else [x]) s)"
proof (induction s)
  case Nil
  then show ?case by (simp add: replace_text_def split_text_char_Nil)
next
  case (Cons x xs)
  obtain p ps where p: "split_text [c] xs = p # ps" using split_text_nonempty by (meson neq_Nil_conv)
  show ?case
  proof (cases "x = c")
    case True
    with Cons p show ?thesis by (simp add: replace_text_def split_text_char join_text_Cons)
  next
    case False
    with Cons p show ?thesis by (cases ps) (simp_all add: replace_text_def split_text_char)
  qed
qed

lemma escape_map: "escape_html s = concat (map escaped_char s)"
  by (induction s) (simp_all add: escape_html_def replace_text_char)

lemma escaped_char_apart: "escaped_char c @ s = escaped_char d @ t \<Longrightarrow> c = d \<and> s = t"
  by (auto split: if_splits)

lemma escaped_char_nonempty: "escaped_char c \<noteq> []"
  by simp

declare escaped_char.simps [simp del]

lemma escape_inject: "escape_html s = escape_html t \<longleftrightarrow> s = t"
proof
  show "escape_html s = escape_html t \<Longrightarrow> s = t"
    unfolding escape_map
  proof (induction s arbitrary: t)
    case Nil
    then show ?case by (cases t) (simp_all add: escaped_char_nonempty)
  next
    case (Cons c cs)
    then obtain d ds where t: "t = d # ds" by (cases t) (simp_all add: escaped_char_nonempty)
    with Cons.prems have "c = d \<and> concat (map escaped_char cs) = concat (map escaped_char ds)"
      using escaped_char_apart [of c _ d] by simp
    with Cons.IH t show ?case by simp
  qed
qed simp

lemma escape_plain: "c \<in> set (escape_html s) \<Longrightarrow> c \<notin> {CHR ''<'', CHR ''>'', CHR 0x22, CHR 0x27}"
  unfolding escape_map by (auto simp: escaped_char.simps split: if_splits)

section \<open>What filling does\<close>

text \<open>A template as literals each followed by a name, and the literal it ends with.\<close>

fun template_text :: "(string \<times> string) list \<Rightarrow> string \<Rightarrow> string" where
  "template_text [] end_text = end_text"
| "template_text ((l, n) # ps) end_text = l @ ''{{'' @ n @ ''}}'' @ template_text ps end_text"

text \<open>No occurrence of the mark in it, nor one that begins in it.\<close>

definition free_of :: "char \<Rightarrow> string \<Rightarrow> bool" where
  "free_of c s \<longleftrightarrow> split_once_text [c, c] s = None \<and> (s = [] \<or> last s \<noteq> c)"

lemma split_once_text_Cons:
  "split_once_text [c, c] (x # xs) = (if x = c \<and> xs \<noteq> [] \<and> hd xs = c then Some ([], tl xs)
     else map_option (\<lambda>(a, b). (x # a, b)) (split_once_text [c, c] xs))"
  by (subst split_once_text.simps) (cases xs; auto simp: starts_with_def)

lemma split_once_text_Nil: "split_once_text [c, c] [] = None"
  by (subst split_once_text.simps) (simp add: starts_with_def)

lemma split_free: "free_of c s \<Longrightarrow> split_once_text [c, c] (s @ c # c # t) = Some (s, t)"
proof (induction s)
  case Nil
  then show ?case by (simp add: split_once_text_Cons)
next
  case (Cons x xs)
  then have "free_of c xs" "\<not> (x = c \<and> xs \<noteq> [] \<and> hd xs = c)" "xs = [] \<longrightarrow> x \<noteq> c"
    by (auto simp: free_of_def split_once_text_Cons split: if_splits)
  with Cons.IH show ?case by (cases xs) (auto simp: split_once_text_Cons)
qed

lemma value_at_Some:
  "distinct (map fst values) \<Longrightarrow> value_at values n = Some i \<Longrightarrow>
     i < length values \<and> fst (values ! i) = n \<and> map_of values n = Some (snd (values ! i))"
proof -
  assume d: "distinct (map fst values)" and "value_at values n = Some i"
  then have i: "i < length values" "fst (values ! i) = n" by (auto simp: value_at_def find_Some_iff)
  moreover have "values ! i = (n, snd (values ! i))" using i(2) by (metis prod.collapse)
  then have "map_of values n = Some (snd (values ! i))" using d i(1) by (metis map_of_is_SomeI nth_mem)
  ultimately show ?thesis by simp
qed

lemma value_at_None: "value_at values n = None \<longleftrightarrow> n \<notin> fst ` set values"
proof -
  have "value_at values n = None \<longleftrightarrow> (\<forall>i < length values. fst (values ! i) \<noteq> n)"
    by (auto simp: value_at_def find_None_iff)
  also have "\<dots> \<longleftrightarrow> (\<forall>v \<in> set values. fst v \<noteq> n)" by (simp add: all_set_conv_all_nth)
  finally show ?thesis by force
qed

definition rendered :: "(string \<times> string) list \<Rightarrow> (string \<times> string) list \<Rightarrow> string \<Rightarrow> string" where
  "rendered values ps end_text = concat (map (\<lambda>(l, n). l @ the (map_of values n)) ps) @ end_text"

lemma fill_from_parts:
  assumes "distinct (map fst values)" "split_once_text ''{{'' end_text = None"
  shows "list_all (\<lambda>(l, n). free_of (CHR ''{'') l \<and> free_of (CHR ''}'') n) ps \<Longrightarrow>
    if snd ` set ps \<subseteq> fst ` set values
    then \<exists>used. fill_from_template values (template_text ps end_text) = Ok (rendered values ps end_text, used)
      \<and> (\<forall>i < length values. i \<in> used \<longleftrightarrow> fst (values ! i) \<in> snd ` set ps)
    else \<exists>e. fill_from_template values (template_text ps end_text) = Err e"
proof (induction ps)
  case Nil
  with assms(2) show ?case by (subst (1 2) fill_from_template.simps) (simp add: rendered_def)
next
  case (Cons p ps)
  obtain l n where p: "p = (l, n)" by fastforce
  with Cons.prems have free: "free_of (CHR ''{'') l" "free_of (CHR ''}'') n" by auto
  from split_free [OF free(1)] split_free [OF free(2)] have
    "split_once_text ''{{'' (template_text (p # ps) end_text) = Some (l, n @ ''}}'' @ template_text ps end_text)"
    "split_once_text ''}}'' (n @ ''}}'' @ template_text ps end_text) = Some (n, template_text ps end_text)"
    by (simp_all add: p)
  note step = this(1) this(2) [simplified]
  show ?case
  proof (cases "value_at values n")
    case None
    then have "n \<notin> fst ` set values" by (simp add: value_at_None)
    moreover have "\<exists>e. fill_from_template values (template_text (p # ps) end_text) = Err e"
      by (subst fill_from_template.simps) (simp add: step None)
    ultimately show ?thesis by (simp add: p)
  next
    case (Some i)
    note at_i = value_at_Some [OF assms(1) Some]
    have eq: "fill_from_template values (template_text (p # ps) end_text)
        = and_then (fill_from_template values (template_text ps end_text)) (\<lambda>(page, used).
            Ok (l @ snd (values ! i) @ page, insert i used))"
      by (subst fill_from_template.simps) (simp add: step Some)
    have n: "n \<in> fst ` set values" using at_i by (metis imageI nth_mem)
    have only: "\<forall>j < length values. fst (values ! j) = n \<longrightarrow> j = i"
      using at_i assms(1) by (metis distinct_conv_nth length_map nth_map)
    show ?thesis
    proof (cases "snd ` set ps \<subseteq> fst ` set values")
      case True
      with Cons.IH Cons.prems p obtain used where
        "fill_from_template values (template_text ps end_text) = Ok (rendered values ps end_text, used)"
        "\<forall>i < length values. i \<in> used \<longleftrightarrow> fst (values ! i) \<in> snd ` set ps"
        by auto
      with eq True n only at_i show ?thesis by (auto simp: p rendered_def)
    next
      case False
      with Cons.IH Cons.prems p obtain e where "fill_from_template values (template_text ps end_text) = Err e" by auto
      with eq False show ?thesis by (auto simp: p)
    qed
  qed
qed

lemma fill_template_text:
  assumes keys: "distinct (map fst values)"
    and parts: "list_all (\<lambda>(l, n). free_of (CHR ''{'') l \<and> free_of (CHR ''}'') n) ps"
    and tail: "split_once_text ''{{'' end_text = None"
  shows "if snd ` set ps = fst ` set values
    then fill_page (template_text ps end_text) values = Ok (rendered values ps end_text)
    else \<exists>e. fill_page (template_text ps end_text) values = Err e"
proof (cases "snd ` set ps \<subseteq> fst ` set values")
  case True
  with fill_from_parts [OF keys tail parts] obtain used where
    filled: "fill_from_template values (template_text ps end_text) = Ok (rendered values ps end_text, used)"
      "\<forall>i < length values. i \<in> used \<longleftrightarrow> fst (values ! i) \<in> snd ` set ps" by auto
  have "find (\<lambda>i. i \<notin> used) [0..<length values] = None \<longleftrightarrow> (\<forall>i < length values. fst (values ! i) \<in> snd ` set ps)"
    using filled(2) by (auto simp: find_None_iff)
  also have "\<dots> \<longleftrightarrow> (\<forall>v \<in> set values. fst v \<in> snd ` set ps)" by (simp add: all_set_conv_all_nth)
  finally have "find (\<lambda>i. i \<notin> used) [0..<length values] = None \<longleftrightarrow> fst ` set values \<subseteq> snd ` set ps" by force
  with filled(1) True show ?thesis
    by (auto simp: fill_page_def split: option.splits)
next
  case False
  with fill_from_parts [OF keys tail parts] show ?thesis by (auto simp: fill_page_def)
qed

lemma free_of_absent: "c \<notin> set s \<Longrightarrow> free_of c s"
proof -
  assume c: "c \<notin> set s"
  then have "split_once_text [c, c] s = None" by (induction s) (auto simp: split_once_text_Cons split_once_text_Nil)
  with c show "free_of c s" by (auto simp: free_of_def dest: last_in_set)
qed

section \<open>Properties\<close>

text \<open>
  A page is its template with each placeholder replaced and nothing else. For a template of literals and
  names, filling yields the literals and the values in order when the values' names are exactly the template's,
  and panics otherwise, a name nothing fills and a value the template does not name alike. What a value holds does
  not matter: braces in it are not read as a placeholder.
\<close>

theorem fill_renders:
  assumes keys: "distinct (map fst values)"
    and parts: "list_all (\<lambda>(l, n). free_of (CHR ''{'') l \<and> free_of (CHR ''}'') n) ps"
    and tail: "split_once_text ''{{'' end_text = None"
  shows "if snd ` set ps = fst ` set values
    then fill_page (template_text ps end_text) values = Ok (rendered values ps end_text)
    else \<exists>e. fill_page (template_text ps end_text) values = Err e"
  by (rule fill_template_text [OF keys parts tail])

text \<open>
  Text put into a page stays text: nothing of it can open or close a tag or an attribute, and
  no two texts read the same once escaped.
\<close>

theorem escape_safe:
  "set (escape_html s) \<inter> {CHR ''<'', CHR ''>'', CHR 0x22, CHR 0x27} = {} \<and> (escape_html s = escape_html t \<longleftrightarrow> s = t)"
  using escape_plain escape_inject by blast

theorem fill_renders_witness:
  "fill_page ''<h1>{{name}}</h1>{{name}}'' [(''name'', ''{{x}}'')] = Ok ''<h1>{{x}}</h1>{{x}}''"
proof -
  have "free_of (CHR ''{'') ''<h1>''" "free_of (CHR ''{'') ''</h1>''" "free_of (CHR ''}'') ''name''"
    "split_once_text ''{{'' [] = None"
    by (simp_all add: free_of_def split_once_text_Cons split_once_text_Nil)
  then show ?thesis
    using fill_renders [of "[(''name'', ''{{x}}'')]" "[(''<h1>'', ''name''), (''</h1>'', ''name'')]" "[]"]
    by (simp add: rendered_def)
qed

end
