(* ===== verification/Server_Pages.thy ===== *)
theory Server_Pages
  imports Server_Config Markup Sealing
begin

text \<open>
  \<open>metsuke-server/src/instructions.rs\<close>: the pages an operator is pointed at and the files they link. The
  templates, the shipped configurations and units, compiled into the binary from files of the repository, are
  \<open>assets\<close>; the \<open>url\<close>, \<open>toml\<close>, \<open>sha2\<close>, \<open>ed25519-dalek\<close> and \<open>serde_json\<close> crates (\<open>pg_pretty\<close> prints a JSON
  text again, indented) and what the build put in are \<open>page_libs\<close>. A page is rendered once, before the listener binds: a panic is
  \<open>Inl\<close> of its message.
\<close>

record assets =
  a_quickstart :: string
  a_details :: string
  a_analysis :: string
  a_style :: string
  a_logo :: string
  a_config_minimal :: string
  a_config_pipe :: string
  a_config_journald :: string
  a_config_example :: string
  a_journal :: string
  a_unit :: string
  a_unit_journald :: string
  a_pipe_dropin :: string
  a_node_unit :: string
  a_analytics_sql :: string
  a_archive_sql :: string

record page_libs =
  url_join :: "url \<Rightarrow> string \<Rightarrow> string option"
  table_string :: "string \<Rightarrow> string \<Rightarrow> string option option"
  pg_parse_url :: "string \<Rightarrow> (string, url) result"
  sha256 :: "bytes \<Rightarrow> bytes"
  pg_client_version :: string
  pg_repository :: string
  pg_reason_words :: "failure_reason \<Rightarrow> string"
  pg_crypto :: crypto
  pg_json :: json_lib
  pg_pretty :: "bytes \<Rightarrow> (string, string) result"

section \<open>Names\<close>

definition NAV :: "(string \<times> (string \<times> string) list) list" where
  "NAV =
     [(''Running a pool'', [(QUICKSTART_PATH, ''Quickstart''), (DETAILS_PATH, ''Details'')]),
      (''Reading the archive'', [(ANALYSIS_PATH, ''Analysis'')])]"

definition CONFIG_LINE :: string where "CONFIG_LINE = ''config: ''"

definition NAMED_NAMESPACES :: "string list" where
  "NAMED_NAMESPACES =
     [''Consensus.LeiosKernel'', ''Consensus.LeiosPeer'', ''Forge.Loop.AdoptedBlock'',
      ''ChainDB.AddBlockEvent.AddedToCurrentChain'']"

definition FILES :: "assets \<Rightarrow> (string \<times> string) list" where
  "FILES A =
     [(''config.pipe.toml'', a_config_pipe A), (''config.journald.toml'', a_config_journald A),
      (''config.minimal.toml'', a_config_minimal A), (''config.example.toml'', a_config_example A),
      (''metsuke.service'', a_unit A), (''metsuke-journald.service'', a_unit_journald A),
      (''node-pipe.conf'', a_pipe_dropin A), (''cardano-node.service'', a_node_unit A),
      (''analytics.sql'', a_analytics_sql A), (''archive.sql'', a_archive_sql A)]"

definition BINARIES :: "string list" where
  "BINARIES = [''metsuke-static-x86_64-linux'', ''metsuke-static-aarch64-linux'']"

definition ARCHITECTURES :: "string list" where "ARCHITECTURES = [''x86_64-linux'', ''aarch64-linux'']"
definition ARCH_VARIABLE :: string where "ARCH_VARIABLE = ''$ARCH''"
definition AGENT_STEM :: string where "AGENT_STEM = ''metsuke-static-''"
definition FETCH_STEM :: string where "FETCH_STEM = ''metsuke-fetch-static-''"
definition CHECKSUM_SUFFIX :: string where "CHECKSUM_SUFFIX = ''.sha256''"

abbreviation QUOTE_CHAR :: char where "QUOTE_CHAR \<equiv> CHR 0x22"

text \<open>\<open>lines.join\<close> with a newline between them.\<close>

abbreviation joined_lines :: "string list \<Rightarrow> string" where
  "joined_lines \<equiv> join_text [newline]"

section \<open>The architectures served\<close>

definition offers :: "served list \<Rightarrow> string \<Rightarrow> bool" where
  "offers offered name \<longleftrightarrow> (\<exists>f \<in> set offered. sv_name f = name)"

definition served_architectures :: "served list \<Rightarrow> string \<Rightarrow> string list" where
  "served_architectures offered stem = filter (\<lambda>arch. offers offered (stem @ arch)) ARCHITECTURES"

definition build_named :: "string list \<Rightarrow> string \<Rightarrow> string" where
  "build_named archs stem = (case archs of [only] \<Rightarrow> stem @ only | _ \<Rightarrow> stem @ ARCH_VARIABLE)"

definition choose_architecture :: "string list \<Rightarrow> string list" where
  "choose_architecture archs =
     (case archs of
        first # (second # rest) \<Rightarrow>
          [''ARCH='' @ first @ ''            # or '' @ join_text '', '' (second # rest), []]
      | _ \<Rightarrow> [])"

section \<open>Builds and their checksums\<close>

record binary_build =
  bn_name :: string
  bn_bytes :: bytes

definition build_digest :: "page_libs \<Rightarrow> bytes \<Rightarrow> string" where
  "build_digest L b = encode (sha256 L b)"

definition digest_of :: "page_libs \<Rightarrow> served list \<Rightarrow> string \<Rightarrow> string option" where
  "digest_of L offered name = map_option (\<lambda>f. build_digest L (sv_bytes f)) (find (\<lambda>f. sv_name f = name) offered)"

definition checksum_for :: "page_libs \<Rightarrow> served \<Rightarrow> served" where
  "checksum_for L build =
     \<lparr>sv_name = sv_name build @ CHECKSUM_SUFFIX,
      sv_bytes = build_digest L (sv_bytes build) @ ''  '' @ sv_name build @ [newline],
      sv_content_type = ''text/plain; charset=utf-8''\<rparr>"

section \<open>The install step and the others like it\<close>

definition offers_a_build :: "served list \<Rightarrow> bool" where
  "offers_a_build offered = offers offered (hd BINARIES)"

definition flake_ref :: "page_libs \<Rightarrow> (string, string) result" where
  "flake_ref L =
     and_then (ok_or ''the manifest's repository is a GitHub URL'' (strip_prefix ''https://github.com/'' (pg_repository L)))
       (\<lambda>p. Ok (''github:'' @ p))"

definition docs_prefix :: "page_libs \<Rightarrow> string" where
  "docs_prefix L = rev (dropWhile (\<lambda>c. c = CHR ''/'') (rev (pg_repository L))) @ ''/blob/main/''"

definition install_download :: "string list \<Rightarrow> string \<Rightarrow> string \<Rightarrow> string list" where
  "install_download archs files_url binary =
     (let name = build_named archs AGENT_STEM in
      choose_architecture archs @
      [''# Download the build for your architecture, and its checksum'',
       ''curl -fO '' @ files_url @ name,
       ''curl -fO '' @ files_url @ name @ CHECKSUM_SUFFIX,
       [],
       ''# Check it is the build this page describes'',
       ''sha256sum -c '' @ name @ CHECKSUM_SUFFIX,
       [],
       ''# Install it where the unit will look for it'',
       ''sudo install -D -m 0755 '' @ name @ '' '' @ binary])"

definition install_build :: "string \<Rightarrow> string \<Rightarrow> string list" where
  "install_build flake binary =
     choose_architecture ARCHITECTURES @
     [''# Build the static agent'',
      ''nix build '' @ flake @ ''#'' @ AGENT_STEM @ ARCH_VARIABLE,
      [],
      ''# Install it where the unit will look for it'',
      ''sudo install -D -m 0755 result/bin/metsuke '' @ binary]"

definition install :: "page_libs \<Rightarrow> served list \<Rightarrow> string \<Rightarrow> string \<Rightarrow> (string, string) result" where
  "install L offered files_url binary =
     (if offers_a_build offered
      then Ok (escape_html (joined_lines (install_download (served_architectures offered AGENT_STEM) files_url binary)))
      else and_then (flake_ref L) (\<lambda>flake. Ok (escape_html (joined_lines (install_build flake binary)))))"

definition try_it :: "page_libs \<Rightarrow> served list \<Rightarrow> string \<Rightarrow> (string, string \<times> string) result" where
  "try_it L offered files_url =
     (let name = hd BINARIES in
      if offers_a_build offered
      then Ok (escape_html
             (''# '' @ hd ARCHITECTURES @ ''. On '' @ join_text '' and '' (tl ARCHITECTURES) @ '', step 1 installs either build.''
              @ [newline] @ ''curl -fo metsuke '' @ files_url @ name
              @ [newline] @ ''echo '' @ [CHR 0x27] @ (case digest_of L offered name of Some d \<Rightarrow> d | None \<Rightarrow> [])
              @ ''  metsuke'' @ [CHR 0x27] @ '' | sha256sum -c''
              @ [newline] @ ''chmod +x metsuke''), ''./metsuke'')
      else and_then (flake_ref L) (\<lambda>flake. Ok (escape_html (''nix build '' @ flake @ ''#'' @ name), ''./result/bin/metsuke'')))"

definition fetch_it :: "page_libs \<Rightarrow> served list \<Rightarrow> string \<Rightarrow> (string, string \<times> string) result" where
  "fetch_it L offered files_url =
     (let archs = served_architectures offered FETCH_STEM; name = build_named archs FETCH_STEM in
      if archs \<noteq> []
      then Ok (escape_html (joined_lines (choose_architecture archs @
             [''curl -fO '' @ files_url @ name,
              ''curl -fO '' @ files_url @ name @ CHECKSUM_SUFFIX,
              ''sha256sum -c '' @ name @ CHECKSUM_SUFFIX,
              ''mv '' @ name @ '' metsuke-fetch'',
              ''chmod +x metsuke-fetch''])), ''./metsuke-fetch'')
      else and_then (flake_ref L) (\<lambda>flake.
        Ok (escape_html (''nix build '' @ flake @ ''#'' @ FETCH_STEM @ ARCH_VARIABLE), ''./result/bin/metsuke-fetch'')))"

section \<open>Files on their way out\<close>

definition joined_url :: "page_libs \<Rightarrow> url \<Rightarrow> string \<Rightarrow> string \<Rightarrow> (string, string) result" where
  "joined_url L u path what = ok_or (what @ '' joins onto an absolute URL'') (url_join L u path)"

definition files_url_of :: "page_libs \<Rightarrow> url \<Rightarrow> (string, string) result" where
  "files_url_of L u = joined_url L u FILES_PREFIX ''the files prefix''"

definition submit_url :: "page_libs \<Rightarrow> url \<Rightarrow> (string, string) result" where
  "submit_url L u = joined_url L u SUBMIT_PATH ''the submission path''"

definition siblings_linked :: "page_libs \<Rightarrow> assets \<Rightarrow> string \<Rightarrow> url \<Rightarrow> (string, string) result" where
  "siblings_linked L A text u =
     and_then (files_url_of L u) (\<lambda>files.
       Ok (fold (\<lambda>(name, _) t. replace_text (''contrib/'' @ name) (files @ name) t) (FILES A) text))"

definition pointed_at :: "page_libs \<Rightarrow> string \<Rightarrow> url \<Rightarrow> (string, string) result" where
  "pointed_at L config u =
     (case table_string L config ''upload_url'' of
        None \<Rightarrow> Err ''a shipped config parses as TOML''
      | Some None \<Rightarrow> Err ''a shipped config sets upload_url''
      | Some (Some example) \<Rightarrow> and_then (submit_url L u) (\<lambda>s. Ok (replace_text example s config)))"

section \<open>The journal as it is shown\<close>

definition SHOWN :: nat where "SHOWN = 52"

text \<open>\<open>char_indices\<close>: where in the line each character starts.\<close>

fun char_indices :: "nat \<Rightarrow> uchar list \<Rightarrow> (nat \<times> uchar) list" where
  "char_indices i [] = []"
| "char_indices i (g # gs) = (i, g) # char_indices (i + length g) gs"

definition shown_line :: "string \<Rightarrow> string" where
  "shown_line line =
     (case strip_prefix CONFIG_LINE line of
        None \<Rightarrow> line
      | Some _ \<Rightarrow>
          (let commas = map fst (filter (\<lambda>(i, g). g = '','') (takeWhile (\<lambda>(i, g). i \<le> SHOWN) (char_indices 0 (chars_of line))));
               head = (if commas = [] then 0 else last commas)
           in take (head + 1) line @ '' '' @ [CHR 0xE2, CHR 0x80, CHR 0xA6] @ ''}''))"

definition journal_shown :: "assets \<Rightarrow> string" where
  "journal_shown A = joined_lines (map shown_line (text_lines (trim_end (a_journal A))))"

section \<open>What the unit says\<close>

datatype exec_start_field = ExecBinary | ExecConfig

definition first_prefixed :: "string \<Rightarrow> string \<Rightarrow> string option" where
  "first_prefixed p unit_text =
     (case List.map_filter (strip_prefix p) (text_lines unit_text) of [] \<Rightarrow> None | x # _ \<Rightarrow> Some x)"

text \<open>\<open>nth(1)\<close> of what follows the flag.\<close>

definition exec_start :: "string \<Rightarrow> exec_start_field \<Rightarrow> (string, string) result" where
  "exec_start unit_text field =
     and_then (ok_or ''the shipped unit has an ExecStart'' (first_prefixed ''ExecStart='' unit_text)) (\<lambda>cmd.
       let words = map concat (split_whitespace (chars_of cmd)) in
       ok_or ''the shipped unit's ExecStart names the binary and its config''
         (case field of
            ExecBinary \<Rightarrow> (case words of [] \<Rightarrow> None | w # _ \<Rightarrow> Some w)
          | ExecConfig \<Rightarrow>
              (case dropWhile (\<lambda>w. w \<noteq> ''--config'') words of _ # w # _ \<Rightarrow> Some w | _ \<Rightarrow> None)))"

definition credential_source :: "string \<Rightarrow> (string, string) result" where
  "credential_source unit_text =
     ok_or ''the shipped unit loads the signing key as a credential''
       (map_option snd (Option.bind (first_prefixed ''LoadCredential='' unit_text) (split_once (CHR '':''))))"

text \<open>\<open>Path::parent\<close> of a path whose pieces are plain names; a relative one of one piece has the empty parent.\<close>

definition parent_of :: "string \<Rightarrow> string" where
  "parent_of p =
     (case rsplit_once (CHR ''/'') p of
        Some (dir, _) \<Rightarrow> if dir = [] then ''/'' else dir
      | None \<Rightarrow> ''/'')"

end
