(* ===== verification/Server_Documents.thy ===== *)
theory Server_Documents
  imports Server_Pages
begin

text \<open>
  \<open>metsuke-server/src/instructions.rs\<close>, continued: the parts of a page rendered from the program's own
  constants, the three documents, and \<open>pages\<close> (here \<open>pages_built\<close>), the set a server answers with.
\<close>

section \<open>The lists of pages and sections\<close>

definition attr :: "string \<Rightarrow> string \<Rightarrow> string" where
  "attr name v = name @ ''='' @ [QUOTE_CHAR] @ v @ [QUOTE_CHAR]"

definition nav_item :: "string \<Rightarrow> string \<times> string \<Rightarrow> string" where
  "nav_item current page =
     (case page of (path, title) \<Rightarrow>
       ''<li><a '' @ attr ''href'' path @ (if path = current then '' '' @ attr ''aria-current'' ''page'' else [])
       @ ''>'' @ title @ ''</a>'')"

definition nav_group :: "string \<Rightarrow> string \<times> (string \<times> string) list \<Rightarrow> string" where
  "nav_group current g =
     (case g of (audience, ps) \<Rightarrow>
       ''<p '' @ attr ''class'' ''nav-audience'' @ ''>'' @ audience @ ''</p>'' @ [newline] @ ''<ul>'' @ [newline]
       @ joined_lines (map (nav_item current) ps) @ [newline] @ ''</ul>'')"

definition nav :: "string \<Rightarrow> string" where
  "nav current =
     ''<nav '' @ attr ''class'' ''pages'' @ '' '' @ attr ''aria-label'' ''Pages'' @ ''>'' @ [newline]
     @ joined_lines (map (nav_group current) NAV) @ [newline] @ ''</nav>''"

definition nav_order :: "(string \<times> string) list" where
  "nav_order = concat (map snd NAV)"

definition sequence_link :: "string \<Rightarrow> string \<Rightarrow> (string \<times> string) option \<Rightarrow> string" where
  "sequence_link cls label entry =
     (case entry of
        None \<Rightarrow> []
      | Some (path, title) \<Rightarrow>
          ''<a '' @ attr ''class'' cls @ '' '' @ attr ''href'' path @ ''><span '' @ attr ''class'' ''sequence-label''
          @ ''>'' @ label @ ''</span>'' @ title @ ''</a>'' @ [newline])"

definition sequence :: "string \<Rightarrow> (string, string) result" where
  "sequence current =
     and_then (ok_or ''a rendered page is one the nav lists''
         (find (\<lambda>i. fst (nav_order ! i) = current) [0..<length nav_order])) (\<lambda>i.
       Ok (''<nav '' @ attr ''class'' ''sequence'' @ '' '' @ attr ''aria-label'' ''Pages either side'' @ ''>'' @ [newline]
         @ sequence_link ''prev'' ''Previous'' (if i = 0 then None else Some (nav_order ! (i - 1)))
         @ sequence_link ''next'' ''Next'' (if i + 1 < length nav_order then Some (nav_order ! (i + 1)) else None)
         @ ''</nav>''))"

definition H2_ID :: string where "H2_ID = ''<h2 id='' @ [QUOTE_CHAR]"

text \<open>The first failure stops the collecting.\<close>

fun collect_ok :: "('a \<Rightarrow> ('e, 'b) result) \<Rightarrow> 'a list \<Rightarrow> ('e, 'b list) result" where
  "collect_ok f [] = Ok []"
| "collect_ok f (x # xs) = and_then (f x) (\<lambda>y. and_then (collect_ok f xs) (\<lambda>ys. Ok (y # ys)))"

definition toc :: "string \<Rightarrow> (string, string) result" where
  "toc template =
     (if count_text ''<h2'' template \<noteq> count_text H2_ID template
      then Err ''every section needs an id for the contents to link it by''
      else
        and_then (collect_ok toc_entry (tl (split_text H2_ID template))) (\<lambda>items.
          if items = [] then Err ''a page lists no sections at all''
          else Ok (''<nav '' @ attr ''class'' ''toc'' @ '' '' @ attr ''aria-label'' ''On this page'' @ ''>'' @ [newline]
            @ ''<p '' @ attr ''class'' ''nav-audience'' @ ''>On this page</p>'' @ [newline] @ ''<ul>'' @ [newline]
            @ joined_lines items @ [newline] @ ''</ul>'' @ [newline] @ ''</nav>'')))"

section \<open>What the details page quotes\<close>

record metrics_address =
  ma_url :: string
  ma_host :: string
  ma_port :: nat

definition metrics_address_of :: "page_libs \<Rightarrow> string \<Rightarrow> (string, metrics_address) result" where
  "metrics_address_of L config_example =
     (case table_string L config_example ''metrics_url'' of
        None \<Rightarrow> Err ''the shipped example config parses as TOML''
      | Some None \<Rightarrow> Err ''the shipped example config sets metrics_url''
      | Some (Some u) \<Rightarrow>
          and_then (map_err (\<lambda>e. ''the example metrics_url parses as a URL: '' @ e) (pg_parse_url L u)) (\<lambda>parsed_url.
          and_then (ok_or ''the example metrics_url has a host'' (url_host parsed_url)) (\<lambda>host.
          and_then (ok_or ''the example metrics_url has a port'' (url_port parsed_url)) (\<lambda>port.
            Ok \<lparr>ma_url = u, ma_host = host, ma_port = port\<rparr>))))"

definition json_quoted :: "string \<Rightarrow> string" where
  "json_quoted s = [QUOTE_CHAR] @ s @ [QUOTE_CHAR]"

definition backend_config :: "metrics_address \<Rightarrow> string" where
  "backend_config m =
     joined_lines
       [''{'',
        ''  '' @ json_quoted ''TraceOptions'' @ '': {'',
        ''    '' @ json_quoted [] @ '': { '' @ json_quoted ''backends'' @ '': ['' @ json_quoted ''Stdout MachineFormat'' @ '', ''
          @ json_quoted (''PrometheusSimple '' @ ma_host m @ '' '' @ decimal (ma_port m)) @ ''] }'',
        ''  }'',
        ''}'']"

definition trim_commas :: "string \<Rightarrow> string" where
  "trim_commas s = rev (dropWhile (\<lambda>c. c = CHR '','') (rev s))"

definition trace_config :: string where
  "trace_config =
     ''{'' @ [newline] @ ''  '' @ json_quoted ''TraceOptions'' @ '': {''
     @ trim_commas (concat (map (\<lambda>ns. [newline] @ ''    '' @ json_quoted ns @ '': { '' @ json_quoted ''severity'' @ '': '' @ json_quoted ''Info''
         @ '', '' @ json_quoted ''maxFrequency'' @ '': 0 },'') NAMED_NAMESPACES))
     @ [newline] @ ''  }'' @ [newline] @ ''}''"

definition metadata_json :: string where
  "metadata_json =
     ''{'' @ json_quoted (decimal (nat METADATA_LABEL)) @ '': {'' @ json_quoted METADATA_KEY @ '': '' @ json_quoted ''YOUR-CODE'' @ ''}}''"

definition failure_reasons :: "page_libs \<Rightarrow> string" where
  "failure_reasons L = join_text '', '' (map (\<lambda>r. ''<code>'' @ escape_html (pg_reason_words L r) @ ''</code>'') reason_all)"

section \<open>The example submission\<close>

definition EXAMPLE_INSTANT :: instant where "EXAMPLE_INSTANT = 1780000000 * 10 ^ 9"

definition example_rows :: "scrape list" where
  "example_rows =
     [\<lparr>scraped_at = EXAMPLE_INSTANT, clock_offset_ms = Some (- 3), scrape_failure = None,
       metrics =
         [\<lparr>m_name = ''cardano_node_metrics_blockNum_int'', m_labels = [], m_value = ''12318442'',
           m_declared_type = Some ''gauge''\<rparr>,
          \<lparr>m_name = ''cardano_node_metrics_tipBlock'', m_labels = [(''hash'', concat (replicate 8 ''0e2b4b1a''))],
           m_value = ''1'', m_declared_type = Some ''info''\<rparr>]\<rparr>,
      \<lparr>scraped_at = EXAMPLE_INSTANT + 5 * 60 * 10 ^ 9, clock_offset_ms = None,
       scrape_failure = Some \<lparr>f_reason = Unreachable, f_detail = ''the endpoint did not answer: connection refused''\<rparr>,
       metrics = []\<rparr>]"

definition example_submission :: "page_libs \<Rightarrow> (string, envelope) result" where
  "example_submission L =
     (let vkey = VerifyingKey (ed_verifying_key (pg_crypto L) (replicate 32 (CHR 0x00))) in
      and_then (map_err (\<lambda>_. ''a fixed name slugifies'') (slugify ''relay-1'')) (\<lambda>agent.
        let provenance = \<lparr>pv_pool = from_cold_key (pg_crypto L) vkey, pv_agent = agent\<rparr> in
        and_then (collect_ok (\<lambda>row. map_err (\<lambda>_. ''plain fields stamp'') (payload_line_scrape (pg_json L) row provenance)) example_rows)
          (\<lambda>ls. Ok (new_envelope provenance (pg_client_version L) 42 EXAMPLE_INSTANT (scrapes_payload ls)))))"

definition example_envelope :: "page_libs \<Rightarrow> (string, string) result" where
  "example_envelope L =
     and_then (example_submission L) (\<lambda>envelope.
     and_then (map_err (\<lambda>_. ''plain fields serialize'') (header_json (pg_json L) envelope)) (\<lambda>bytes.
     and_then (map_err (\<lambda>_. ''a header is a JSON object'') (pg_pretty L bytes)) (\<lambda>header.
     and_then (if valid_utf8 (payload_lines envelope) then Ok (payload_lines envelope) else Err ''serde_json writes UTF-8'') (\<lambda>lines.
       Ok (header @ [newline, newline] @ lines)))))"

section \<open>The documents\<close>

text \<open>What every page's template is given.\<close>

definition page_frame :: "assets \<Rightarrow> string \<Rightarrow> string \<Rightarrow> (string, (string \<times> string) list) result" where
  "page_frame A path template =
     and_then (toc template) (\<lambda>sections.
     and_then (sequence path) (\<lambda>either_side.
       Ok [(''ICON_PATH'', ICON_PATH), (''ICON_CONTENT_TYPE'', ICON_CONTENT_TYPE), (''style'', trim_end (a_style A)),
           (''logo'', trim_end (a_logo A)), (''nav'', nav path), (''toc'', sections), (''sequence'', either_side)]))"

definition quickstart :: "page_libs \<Rightarrow> assets \<Rightarrow> string \<Rightarrow> url \<Rightarrow> served list \<Rightarrow> (string, string) result" where
  "quickstart L A unit_text u offered =
     and_then (files_url_of L u) (\<lambda>files.
     and_then (exec_start unit_text ExecBinary) (\<lambda>binary.
     and_then (try_it L offered files) (\<lambda>(try_fetch, try_agent).
     and_then (page_frame A QUICKSTART_PATH (a_quickstart A)) (\<lambda>framing.
     and_then (install L offered files binary) (\<lambda>steps.
     and_then (exec_start unit_text ExecConfig) (\<lambda>config_path.
     and_then (credential_source unit_text) (\<lambda>key_path.
     and_then (flake_ref L) (\<lambda>flake.
       fill_page (a_quickstart A)
         (framing @
          [(''DETAILS_PATH'', DETAILS_PATH), (''FILES_PREFIX'', FILES_PREFIX), (''CLIENT_VERSION'', pg_client_version L),
           (''files_url'', escape_html files), (''journal'', escape_html (journal_shown A)), (''try_fetch'', try_fetch),
           (''try_agent'', try_agent), (''install'', steps), (''config_path'', escape_html config_path),
           (''key_path'', escape_html key_path), (''config_dir'', escape_html (parent_of config_path)),
           (''flake'', escape_html flake)])))))))))"

definition details :: "page_libs \<Rightarrow> assets \<Rightarrow> string \<Rightarrow> url \<Rightarrow> (string, string) result" where
  "details L A config_example u =
     and_then (metrics_address_of L config_example) (\<lambda>metrics.
     and_then (page_frame A DETAILS_PATH (a_details A)) (\<lambda>framing.
     and_then (flake_ref L) (\<lambda>flake.
     and_then (example_envelope L) (\<lambda>envelope.
     and_then (submit_url L u) (\<lambda>submit.
     and_then (exec_start (a_unit A) ExecBinary) (\<lambda>binary.
     and_then (exec_start (a_unit A) ExecConfig) (\<lambda>config_path.
     and_then (credential_source (a_unit A)) (\<lambda>key_path.
       fill_page (a_details A)
         (framing @
          [(''PATH'', QUICKSTART_PATH), (''ANALYSIS_PATH'', ANALYSIS_PATH), (''HEADER_VKEY'', HEADER_VKEY),
           (''HEADER_SIGNATURE'', HEADER_SIGNATURE), (''HEADER_POOL'', HEADER_POOL),
           (''METADATA_LABEL'', decimal (nat METADATA_LABEL)), (''metadata'', escape_html metadata_json),
           (''flake'', escape_html flake), (''DOCS_PREFIX'', docs_prefix L), (''REPOSITORY'', pg_repository L),
           (''envelope'', escape_html envelope), (''reasons'', failure_reasons L),
           (''backend'', escape_html (backend_config metrics)), (''traces'', escape_html trace_config),
           (''metrics_url'', escape_html (ma_url metrics)), (''submit_url'', escape_html submit), (''FILES_PREFIX'', FILES_PREFIX),
           (''binary'', escape_html binary), (''config_path'', escape_html config_path), (''key_path'', escape_html key_path)])))))))))"

definition analysis :: "page_libs \<Rightarrow> assets \<Rightarrow> url \<Rightarrow> served list \<Rightarrow> (string, string) result" where
  "analysis L A u offered =
     and_then (files_url_of L u) (\<lambda>files.
     and_then (fetch_it L offered files) (\<lambda>(fetch_install, fetch_cmd).
     and_then (page_frame A ANALYSIS_PATH (a_analysis A)) (\<lambda>framing.
     and_then (flake_ref L) (\<lambda>flake.
       fill_page (a_analysis A)
         (framing @
          [(''PATH'', QUICKSTART_PATH), (''DETAILS_PATH'', DETAILS_PATH), (''FILES_PREFIX'', FILES_PREFIX),
           (''DOCS_PREFIX'', docs_prefix L), (''REPOSITORY'', pg_repository L), (''flake'', escape_html flake),
           (''files_url'', escape_html files), (''fetch_install'', fetch_install), (''fetch'', escape_html fetch_cmd),
           (''server_url'', escape_html (url_text u)), (''REALM'', REALM)])))))"

section \<open>The served set\<close>

datatype pages_error = PagesPanic string | Shadowed string

definition shipped_file :: "page_libs \<Rightarrow> assets \<Rightarrow> url \<Rightarrow> string \<times> string \<Rightarrow> (string, served) result" where
  "shipped_file L A u f =
     (case f of (name, shipped_text) \<Rightarrow>
       and_then (if strip_suffix ''.toml'' name \<noteq> None then pointed_at L shipped_text u else Ok shipped_text) (\<lambda>t.
       and_then (siblings_linked L A t u) (\<lambda>linked.
         Ok \<lparr>sv_name = name, sv_bytes = linked, sv_content_type = ''text/plain; charset=utf-8''\<rparr>)))"

definition build_file :: "binary_build \<Rightarrow> served" where
  "build_file b = \<lparr>sv_name = bn_name b, sv_bytes = bn_bytes b, sv_content_type = ''application/octet-stream''\<rparr>"

fun each_once :: "served list \<Rightarrow> served list \<Rightarrow> (pages_error, served list) result" where
  "each_once held [] = Ok held"
| "each_once held (f # fs) =
     (if offers held (sv_name f) then Err (Shadowed (sv_name f)) else each_once (held @ [f]) fs)"

definition pages_built :: "page_libs \<Rightarrow> assets \<Rightarrow> url \<Rightarrow> binary_build list \<Rightarrow> (pages_error, served_pages) result" where
  "pages_built L A u binaries =
     and_then (map_err PagesPanic (collect_ok (shipped_file L A u) (FILES A))) (\<lambda>shipped.
       let builds = map build_file binaries in
       and_then (each_once [] (shipped @ builds @ map (checksum_for L) builds)) (\<lambda>files.
       and_then (map_err PagesPanic (quickstart L A (a_unit_journald A) u files)) (\<lambda>q.
       and_then (map_err PagesPanic (pointed_at L (a_config_example A) u)) (\<lambda>example.
       and_then (map_err PagesPanic (details L A example u)) (\<lambda>de.
       and_then (map_err PagesPanic (analysis L A u files)) (\<lambda>an.
         Ok \<lparr>sp_quickstart = q, sp_details = de, sp_analysis = an, sp_files = files\<rparr>))))))"

end
