(* ===== verification/Server_Main.thy ===== *)
theory Server_Main
  imports Server_Documents Verify
begin

text \<open>
  \<open>metsuke-server/src/main.rs\<close>: the ingest binary, from the command line to the listener that serves until
  it cannot, or to the one audit \<open>verify-archive\<close> runs. What the process is run in is \<open>server_host\<close>: the disk
  at startup, the environment's credentials, the bind, what the build put in, and the other crates.
\<close>

section \<open>The process's own errors\<close>

datatype server_fatal =
    ServerArgsFatal server_args_error
  | ReadConfig string io_error
  | ReadDownload string io_error
  | DownloadShadowed string
  | PagesPanicked string
  | ServerConfigFatal server_config_error
  | DeveloperAccounts string io_error
  | DeveloperSecret string accounts_error
  | RosterFatal roster_error
  | S3Fatal s3_error
  | MissingCredentials
  | AuditFatal archive_error
  | CannotVerifyFilesystem
  | ArchiveNotVerified nat nat
  | ArchiveEmpty
  | ListenFatal string string

record server_host =
  sh_toml :: server_toml
  sh_read :: "string \<Rightarrow> (io_error, bytes) result"
  sh_roster :: "string \<Rightarrow> roster_disk"
  sh_http :: http_libs
  sh_page_libs :: page_libs
  sh_assets :: assets
  sh_s3 :: s3_libs
  sh_credentials :: "(string \<times> string) option"
  sh_bind :: "string \<Rightarrow> (string, string) result"
  sh_version :: string
  sh_build_rev :: string
  sh_usage :: string
  sh_verify_text :: "verify_error \<Rightarrow> string"
  sh_fatal_text :: "server_fatal \<Rightarrow> string"

definition read_text :: "server_host \<Rightarrow> string \<Rightarrow> (io_error, string) result" where
  "read_text W p =
     and_then (sh_read W p) (\<lambda>b.
       if valid_utf8 b then Ok b else Err (OtherIo ''stream did not contain valid UTF-8''))"

section \<open>Serving\<close>

record serving =
  sg_listen :: string
  sg_public_url :: public_url
  sg_http :: http_config
  sg_ingest :: ingest_section
  sg_developer :: developer_config
  sg_downloads :: "(string \<times> absolute_path) list option"

text \<open>A server that has bound its address: what it answers with, and the acceptor it serves from.\<close>

record started_server =
  ss_address :: string
  ss_limits :: http_config
  ss_intake :: intake
  ss_developer :: developer
  ss_pages :: served_pages
  ss_acceptor :: acceptor

definition agent_build :: "server_host \<Rightarrow> string \<times> absolute_path \<Rightarrow> (server_fatal, binary_build) result" where
  "agent_build W entry =
     (case entry of (name, p) \<Rightarrow>
       and_then (map_err (ReadDownload (as_path p)) (sh_read W (as_path p))) (\<lambda>b. Ok \<lparr>bn_name = name, bn_bytes = b\<rparr>))"

definition agent_builds ::
  "server_host \<Rightarrow> (string \<times> absolute_path) list option \<Rightarrow> (server_fatal, binary_build list) result" where
  "agent_builds W downloads =
     (case downloads of None \<Rightarrow> Ok [] | Some entries \<Rightarrow> collect_ok (agent_build W) entries)"

text \<open>Beside the accounts, the line that counts them.\<close>

definition server_developer ::
  "server_host \<Rightarrow> developer_config \<Rightarrow> (server_fatal, string list \<times> developer) result" where
  "server_developer W c =
     (let p = as_path (dc_password_file c) in
      and_then (map_err (DeveloperAccounts p) (read_text W p)) (\<lambda>written.
      and_then (map_err (DeveloperSecret p) (accounts_parse (hl_developer (sh_http W)) written)) (\<lambda>accounts.
        Ok ([INFO @ decimal (accounts_count accounts) @ '' developer accounts may pull the archive''],
            \<lparr>dv_accounts = accounts, dv_list_max_rows = dc_list_max_rows c\<rparr>))))"

definition server_roster :: "server_host \<Rightarrow> absolute_path option \<Rightarrow> (server_fatal, roster option) result" where
  "server_roster W p =
     (case p of
        None \<Rightarrow> Ok None
      | Some path \<Rightarrow>
          and_then (map_err RosterFatal (roster_load (sl_roster (hl_server (sh_http W))) (sh_roster W (as_path path)) (as_path path)))
            (\<lambda>r. Ok (Some r)))"

fun pages_fatal :: "pages_error \<Rightarrow> server_fatal" where
  "pages_fatal (PagesPanic m) = PagesPanicked m"
| "pages_fatal (Shadowed name) = DownloadShadowed name"

definition roster_said :: "roster option \<Rightarrow> string" where
  "roster_said r =
     (case r of
        Some loaded \<Rightarrow>
          (case roster_position loaded of (epoch, slot) \<Rightarrow>
             INFO @ ''Leios keys from a roster taken in epoch '' @ decimal epoch @ '' at slot '' @ decimal slot)
      | None \<Rightarrow> INFO @ ''cold-key submissions only: no Leios key roster is configured'')"

text \<open>\<open>serve\<close>, up to the listener's own loop: the lines written on the way, and where it got to.\<close>

definition serve_start :: "server_host \<Rightarrow> serving \<Rightarrow> string list \<times> (server_fatal, started_server) result" where
  "serve_start W sv =
     (case server_developer W (sg_developer sv) of
        Inl e \<Rightarrow> ([], Err e)
      | Inr (said, developer) \<Rightarrow>
          (case and_then (server_roster W (is_leios_roster (sg_ingest sv))) (\<lambda>roster.
                and_then (agent_builds W (sg_downloads sv)) (\<lambda>builds.
                and_then (map_err pages_fatal (pages_built (sh_page_libs W) (sh_assets W) (as_url (sg_public_url sv)) builds)) (\<lambda>rendered_pages.
                and_then (map_err (ListenFatal (sg_listen sv)) (sh_bind W (sg_listen sv))) (\<lambda>address.
                  Ok (roster, rendered_pages, address))))) of
             Inl e \<Rightarrow> (said, Err e)
           | Inr (roster, rendered_pages, address) \<Rightarrow>
               (said @ [INFO @ ''metsuke-server accepting '' @ decimal (length (is_codes (sg_ingest sv))) @ '' pools at http://''
                          @ address @ SUBMIT_PATH,
                        roster_said roster],
                Ok \<lparr>ss_address = address, ss_limits = sg_http sv,
                    ss_intake = new_intake (ingest_config.truncate (sg_ingest sv)) roster,
                    ss_developer = developer, ss_pages = rendered_pages,
                    ss_acceptor = accepting (hc_max_concurrent_requests (sg_http sv))\<rparr>)))"

section \<open>The audit\<close>

fun audit_failure_text :: "server_host \<Rightarrow> audit_failure \<Rightarrow> string" where
  "audit_failure_text W (AuditUnreadable key reason) = key @ '': not read, so not checked: '' @ reason"
| "audit_failure_text W (AuditFailed e) = sh_verify_text W e"

definition audit_lines :: "server_host \<Rightarrow> audit \<Rightarrow> string list" where
  "audit_lines W found =
     [''verified '' @ decimal (au_verified found) @ '' objects'']
     @ (if 0 < au_unattributed found
        then [decimal (au_unattributed found) @ '' objects verified in every part but the pool they are filed under, ''
                @ ''which a Leios key cannot re-derive (ADR 0011)'']
        else [])
     @ map (audit_failure_text W) (au_failures found)"

definition report_audit :: "audit \<Rightarrow> (server_fatal, unit) result" where
  "report_audit found =
     (if audit_failed found = 0 \<and> audit_unreadable found = 0
      then if au_verified found + au_unattributed found = 0 then Err ArchiveEmpty else Ok ()
      else Err (ArchiveNotVerified (audit_failed found) (audit_unreadable found)))"

text \<open>The bucket audited: the whole listing first, then each object, request \<open>n\<close> meeting \<open>ms n\<close>.\<close>

fun audit_walk ::
  "server_libs \<Rightarrow> nat \<Rightarrow> (nat \<Rightarrow> 'b \<Rightarrow> string \<Rightarrow> 'b \<times> (archive_error, fetched_object) result) \<Rightarrow> nat \<Rightarrow> string list
    \<Rightarrow> 'b \<Rightarrow> audit \<Rightarrow> 'b \<times> audit" where
  "audit_walk L cap fetch n [] b a = (b, a)"
| "audit_walk L cap fetch n (key # keys) b a =
     (case fetch n b key of
        (b', r) \<Rightarrow> audit_walk L cap fetch (Suc n) keys b' (audit_object L cap (\<lambda>_. r) key a))"

definition s3_audit ::
  "server_libs \<Rightarrow> nat \<Rightarrow> s3_libs \<Rightarrow> s3_archive \<Rightarrow> ('m, 'b) s3_send \<Rightarrow> (nat \<Rightarrow> 'm) \<Rightarrow> (nat \<Rightarrow> 'm) \<Rightarrow> 'b
    \<Rightarrow> 'b \<times> (archive_error, audit) result" where
  "s3_audit V cap L A send listing fetching b =
     (case s3_for_each_key L A send listing (\<lambda>e. e) (keep_key (\<lambda>_. True)) b [] of
        (b', _, Inl e) \<Rightarrow> (b', Err e)
      | (b', keys, Inr _) \<Rightarrow>
          (case audit_walk V cap (\<lambda>n b key. s3_fetch L A send (fetching n) b key) 0 keys b'
                  \<lparr>au_verified = 0, au_unattributed = 0, au_failures = []\<rparr> of
             (b'', found) \<Rightarrow> (b'', Ok found)))"

section \<open>The run\<close>

definition s3_opened :: "server_host \<Rightarrow> s3_config \<Rightarrow> (server_fatal, s3_archive) result" where
  "s3_opened W cfg =
     and_then (ok_or MissingCredentials (sh_credentials W)) (\<lambda>credentials.
       map_err S3Fatal (s3_new (sh_s3 W) cfg credentials))"

datatype archive_opened = FilesystemAt string | BucketAt s3_archive

datatype server_outcome = ServerSaid | AuditHeld | ServerUp archive_opened started_server

record 'b server_ran =
  ran_bucket :: 'b
  ran_out :: "string list"
  ran_err :: "string list"
  ran_end :: "(server_fatal, server_outcome) result"

definition serving_of :: "server_config \<Rightarrow> serving" where
  "serving_of c =
     \<lparr>sg_listen = sc_listen c, sg_public_url = sc_public_url c, sg_http = sc_http c, sg_ingest = sc_ingest c,
      sg_developer = sc_developer c, sg_downloads = sc_downloads c\<rparr>"

definition filesystem_warning :: "string \<Rightarrow> string" where
  "filesystem_warning root =
     WARNING @ ''archiving to the filesystem at '' @ root @ '': this stores the submission bytes ''
     @ ''alone and drops the key and signature they were checked with, so nothing can ''
     @ ''verify this archive afterwards, verify-archive refuses it, and every download ''
     @ ''reaches a consumer unattested. S3 is what production runs (ADR 0005).''"

text \<open>\<open>dispatch\<close>: \<open>audited\<close> is what \<open>verify_archive\<close> wrote to stdout and how it ended.\<close>

definition dispatch ::
  "server_host \<Rightarrow> archive_opened \<Rightarrow> server_command \<Rightarrow> serving \<Rightarrow> 'b \<times> string list \<times> (server_fatal, unit) result \<Rightarrow> 'b
    \<Rightarrow> 'b server_ran" where
  "dispatch W archive cmd sv audited b =
     (case cmd of
        ServeCommand \<Rightarrow>
          (case serve_start W sv of
             (said, r) \<Rightarrow>
               \<lparr>ran_bucket = b, ran_out = [], ran_err = said, ran_end = and_then r (\<lambda>s. Ok (ServerUp archive s))\<rparr>)
      | VerifyArchiveCommand \<Rightarrow>
          (case audited of (b', out, r) \<Rightarrow>
             \<lparr>ran_bucket = b', ran_out = out, ran_err = [], ran_end = and_then r (\<lambda>_. Ok AuditHeld)\<rparr>))"

definition verify_bucket ::
  "server_host \<Rightarrow> s3_archive \<Rightarrow> ('m, 'b) s3_send \<Rightarrow> (nat \<Rightarrow> 'm) \<Rightarrow> (nat \<Rightarrow> 'm) \<Rightarrow> nat \<Rightarrow> 'b
    \<Rightarrow> 'b \<times> string list \<times> (server_fatal, unit) result" where
  "verify_bucket W A send listing fetching cap b =
     (case s3_audit (hl_server (sh_http W)) cap (sh_s3 W) A send listing fetching b of
        (b', Inl e) \<Rightarrow> (b', [], Err (AuditFatal e))
      | (b', Inr found) \<Rightarrow> (b', audit_lines W found, report_audit found))"

definition configured_run ::
  "server_host \<Rightarrow> ('m, 'b) s3_send \<Rightarrow> (nat \<Rightarrow> 'm) \<Rightarrow> (nat \<Rightarrow> 'm) \<Rightarrow> server_args \<Rightarrow> 'b \<Rightarrow> 'b server_ran" where
  "configured_run W send listing fetching args b =
     (let stops = (\<lambda>e. \<lparr>ran_bucket = b, ran_out = [], ran_err = [], ran_end = Err e\<rparr>) in
      case and_then (map_err (ReadConfig (sa_config args)) (read_text W (sa_config args))) (\<lambda>written.
             map_err ServerConfigFatal (server_config_from_toml (sh_toml W) written)) of
        Inl e \<Rightarrow> stops e
      | Inr c \<Rightarrow>
          (case sc_archive c of
             ArchiveFilesystem root \<Rightarrow>
               (let ran = dispatch W (FilesystemAt root) (sa_command args) (serving_of c)
                            (b, [], Err CannotVerifyFilesystem) b
                in ran\<lparr>ran_err := filesystem_warning root # ran_err ran\<rparr>)
           | ArchiveS3 cfg \<Rightarrow>
               (case s3_opened W cfg of
                  Inl e \<Rightarrow> stops e
                | Inr A \<Rightarrow>
                    dispatch W (BucketAt A) (sa_command args) (serving_of c)
                      (verify_bucket W A send listing fetching (ic_max_header_bytes (sc_ingest c)) b) b)))"

definition server_run ::
  "server_host \<Rightarrow> ('m, 'b) s3_send \<Rightarrow> (nat \<Rightarrow> 'm) \<Rightarrow> (nat \<Rightarrow> 'm) \<Rightarrow> string list \<Rightarrow> 'b \<Rightarrow> 'b server_ran" where
  "server_run W send listing fetching argv b =
     (if list_ex (\<lambda>a. a = ''--help'' \<or> a = ''-h'') argv
      then \<lparr>ran_bucket = b, ran_out = [sh_usage W], ran_err = [], ran_end = Ok ServerSaid\<rparr>
      else if list_ex (\<lambda>a. a = ''--version'') argv
      then \<lparr>ran_bucket = b, ran_out = [version_line (sh_build_rev W) (sh_version W)], ran_err = [], ran_end = Ok ServerSaid\<rparr>
      else (case server_args_parse argv of
          Inl e \<Rightarrow> \<lparr>ran_bucket = b, ran_out = [], ran_err = [], ran_end = Err (ServerArgsFatal e)\<rparr>
        | Inr args \<Rightarrow>
            (let ran = configured_run W send listing fetching args b in
             ran\<lparr>ran_err := (INFO @ ''metsuke-server '' @ version_line (sh_build_rev W) (sh_version W) @ '' starting'')
                 # ran_err ran\<rparr>)))"

text \<open>\<open>main\<close>: the exit code of a run that has ended; a server that is up has none, a panic has 101.\<close>

definition server_main ::
  "server_host \<Rightarrow> ('m, 'b) s3_send \<Rightarrow> (nat \<Rightarrow> 'm) \<Rightarrow> (nat \<Rightarrow> 'm) \<Rightarrow> string list \<Rightarrow> 'b \<Rightarrow> 'b server_ran \<times> nat option" where
  "server_main W send listing fetching argv b =
     (let ran = server_run W send listing fetching argv b in
      case ran_end ran of
        Inl (PagesPanicked m) \<Rightarrow> (ran\<lparr>ran_err := ran_err ran @ [m]\<rparr>, Some 101)
      | Inl e \<Rightarrow> (ran\<lparr>ran_err := ran_err ran @ [ERR @ ''metsuke-server stopped: '' @ sh_fatal_text W e]\<rparr>, Some 1)
      | Inr (ServerUp _ _) \<Rightarrow> (ran, None)
      | Inr _ \<Rightarrow> (ran, Some 0))"

end
