(* ===== verification/Server_Started.thy ===== *)
theory Server_Started
  imports Server_Main S3_Served
begin

text \<open>
  What it says that the server is up, and that \<open>verify-archive\<close> exited zero.
\<close>

section \<open>The served set\<close>

lemma each_once_held:
  "each_once held fs = Ok gs \<Longrightarrow> gs = held @ fs \<and> (distinct (map sv_name held) \<longrightarrow> distinct (map sv_name gs))"
proof (induction fs arbitrary: held)
  case (Cons f fs)
  then have new: "\<not> offers held (sv_name f)" and rest: "each_once (held @ [f]) fs = Ok gs" by (auto split: if_splits)
  have "distinct (map sv_name held) \<Longrightarrow> distinct (map sv_name (held @ [f]))"
    using new by (auto simp: offers_def)
  moreover have "gs = (held @ [f]) @ fs"
    "distinct (map sv_name (held @ [f])) \<longrightarrow> distinct (map sv_name gs)"
    using Cons.IH [OF rest] by blast+
  ultimately show ?case by (metis append.assoc append_Cons append_Nil)
qed auto

lemma find_distinct: "distinct (map key xs) \<Longrightarrow> x \<in> set xs \<Longrightarrow> find (\<lambda>y. key y = key x) xs = Some x"
proof (induction xs)
  case (Cons y ys)
  then have "x \<noteq> y \<Longrightarrow> key x \<noteq> key y" by (metis distinct.simps(2) image_eqI list.set_map list.simps(9) set_ConsD)
  with Cons show ?case by auto
qed simp

lemma pages_files:
  assumes "pages_built L A u bs = Ok P"
  shows "distinct (map sv_name (sp_files P))
    \<and> (\<forall>b \<in> set bs. build_file b \<in> set (sp_files P) \<and> checksum_for L (build_file b) \<in> set (sp_files P))"
proof -
  from assms obtain shipped where
    "each_once [] (shipped @ map build_file bs @ map (checksum_for L) (map build_file bs)) = Ok (sp_files P)"
    by (auto simp: pages_built_def Let_def and_then_Ok_iff)
  then have "sp_files P = [] @ shipped @ map build_file bs @ map (checksum_for L) (map build_file bs)
      \<and> (distinct (map sv_name ([] :: served list)) \<longrightarrow> distinct (map sv_name (sp_files P)))" by (rule each_once_held)
  then have files: "sp_files P = shipped @ map build_file bs @ map (checksum_for L) (map build_file bs)"
    "distinct (map sv_name (sp_files P))" unfolding append_Nil list.map distinct.simps by blast+
  have "\<forall>b \<in> set bs. build_file b \<in> set (sp_files P) \<and> checksum_for L (build_file b) \<in> set (sp_files P)"
    unfolding files(1) by auto
  with files(2) show ?thesis by blast
qed

lemma served_build:
  assumes "pages_built L A u bs = Ok P" and "b \<in> set bs"
  shows "served_file P (bn_name b) = Some (build_file b)"
    and "served_file P (bn_name b @ CHECKSUM_SUFFIX) = Some (checksum_for L (build_file b))"
proof -
  note files = pages_files [OF assms(1)]
  from find_distinct [of sv_name "sp_files P" "build_file b"] files assms(2)
  show "served_file P (bn_name b) = Some (build_file b)" by (simp add: served_file_def build_file_def)
  from find_distinct [of sv_name "sp_files P" "checksum_for L (build_file b)"] files assms(2)
  show "served_file P (bn_name b @ CHECKSUM_SUFFIX) = Some (checksum_for L (build_file b))"
    by (simp add: served_file_def build_file_def checksum_for_def)
qed

lemma file_answered:
  assumes "rt_method r = Get" "request_path r = FILES_PREFIX @ name" "served_file P name = Some f"
  shows "answer_request H ops dev P w r ik a = (ik, a, ok_bytes (sv_content_type f) (sv_bytes f), [])"
proof -
  have "FILES_PREFIX @ name \<noteq> QUICKSTART_PATH" "FILES_PREFIX @ name \<noteq> DETAILS_PATH" "FILES_PREFIX @ name \<noteq> ANALYSIS_PATH"
    by (simp_all add: FILES_PREFIX_def QUICKSTART_PATH_def DETAILS_PATH_def ANALYSIS_PATH_def)
  moreover have "starts_with FILES_PREFIX (FILES_PREFIX @ name)" by (simp add: starts_with_iff)
  ultimately show ?thesis using assms by (simp add: answer_request_def Let_def)
qed

lemma collect_ok_Ok: "collect_ok f xs = Ok ys \<Longrightarrow> x \<in> set xs \<Longrightarrow> \<exists>y \<in> set ys. f x = Ok y"
  by (induction xs arbitrary: ys) (auto simp: and_then_Ok_iff)

lemma serve_start_Ok:
  assumes "serve_start W sv = (said, Ok srv)"
  shows "\<exists>log developer roster builds. server_developer W (sg_developer sv) = Ok (log, developer)
    \<and> server_roster W (is_leios_roster (sg_ingest sv)) = Ok roster
    \<and> agent_builds W (sg_downloads sv) = Ok builds
    \<and> pages_built (sh_page_libs W) (sh_assets W) (as_url (sg_public_url sv)) builds = Ok (ss_pages srv)
    \<and> sh_bind W (sg_listen sv) = Ok (ss_address srv)
    \<and> srv = \<lparr>ss_address = ss_address srv, ss_limits = sg_http sv,
        ss_intake = new_intake (ingest_config.truncate (sg_ingest sv)) roster, ss_developer = developer,
        ss_pages = ss_pages srv, ss_acceptor = accepting (hc_max_concurrent_requests (sg_http sv))\<rparr>"
  using assms
  by (auto simp: serve_start_def and_then_Ok_iff map_err_Ok_iff split: sum.splits prod.splits)

section \<open>What a configuration that loads is\<close>

definition server_config_wf :: "server_config \<Rightarrow> bool" where
  "server_config_wf c \<longleftrightarrow>
     is_origin (as_url (sc_public_url c))
     \<and> (url_scheme (as_url (sc_public_url c)) = ''https''
        \<or> url_scheme (as_url (sc_public_url c)) = ''http''
          \<and> (\<exists>host. url_host (as_url (sc_public_url c)) = Some host \<and> spells_loopback (trim_brackets host)))
     \<and> 0 < hc_idle_timeout_ms (sc_http c) \<and> 0 < hc_read_timeout_ms (sc_http c) \<and> 0 < hc_write_timeout_ms (sc_http c)
     \<and> 0 < hc_max_concurrent_requests (sc_http c)
     \<and> 0 < ic_max_body_bytes (sc_ingest c) \<and> 0 < ic_max_header_bytes (sc_ingest c)
     \<and> 0 < rate_limit_uploads (sc_ingest c) \<and> 0 < rate_limit_uploads_total (sc_ingest c)
     \<and> 0 < rate_limit_window_secs (sc_ingest c) \<and> rate_limit_window_secs (sc_ingest c) < 2 ^ 32
     \<and> 0 < dc_list_max_rows (sc_developer c)"

lemma as_nonzero_pos: "as_nonzero n = Some k \<Longrightarrow> 0 < k"
  by (auto simp: as_nonzero_def split: Option.bind_splits if_splits)

lemma as_nonzero_u32_pos: "as_nonzero_u32 n = Some k \<Longrightarrow> 0 < k \<and> k < 2 ^ 32"
  by (auto simp: as_nonzero_u32_def as_u32_def split: Option.bind_splits if_splits)

lemma public_url_of_Ok:
  "public_url_of u = Ok p \<Longrightarrow> as_url p = u \<and> is_origin u \<and> (url_scheme u = ''https''
     \<or> url_scheme u = ''http'' \<and> (\<exists>host. url_host u = Some host \<and> spells_loopback (trim_brackets host)))"
  by (auto simp: public_url_of_def Let_def is_loopback_iff split: if_splits option.splits)

lemma server_config_of_wf:
  assumes "server_config_of T t = Some c"
  shows "server_config_wf c"
proof -
  from assms obtain u public http ingest developer where
    parts: "public_url_of u = Ok public" "http_config_of t = Some http" "ingest_of (toml_bech32 T) t = Some ingest"
      "developer_config_of t = Some developer"
    and c: "sc_public_url c = public" "sc_http c = http" "sc_ingest c = ingest" "sc_developer c = developer"
    by (auto simp: server_config_of_def result_ok_def split: Option.bind_splits sum.splits)
  have "0 < hc_idle_timeout_ms http \<and> 0 < hc_read_timeout_ms http \<and> 0 < hc_write_timeout_ms http
      \<and> 0 < hc_max_concurrent_requests http"
    using parts(2) by (auto simp: http_config_of_def split: Option.bind_splits dest!: as_nonzero_pos as_nonzero_u32_pos)
  moreover have "0 < ic_max_body_bytes ingest \<and> 0 < ic_max_header_bytes ingest
     \<and> 0 < rate_limit_uploads ingest \<and> 0 < rate_limit_uploads_total ingest
     \<and> 0 < rate_limit_window_secs ingest \<and> rate_limit_window_secs ingest < 2 ^ 32"
    using parts(3) by (auto simp: ingest_of_def split: Option.bind_splits dest!: as_nonzero_pos as_nonzero_u32_pos)
  moreover have "0 < dc_list_max_rows developer"
    using parts(4) by (auto simp: developer_config_of_def split: Option.bind_splits dest!: as_nonzero_u32_pos)
  ultimately show ?thesis using public_url_of_Ok [OF parts(1)] by (simp add: server_config_wf_def c)
qed

lemma server_run_up:
  assumes "ran_end (server_run W send listing fetching argv b) = Ok (ServerUp h srv)"
  shows "\<exists>c said. serve_start W (serving_of c) = (said, Ok srv) \<and> server_config_wf c
    \<and> (\<exists>p text. sh_read W p = Ok text \<and> valid_utf8 text \<and> server_config_from_toml (sh_toml W) text = Ok c)"
proof -
  from assms obtain args where ran: "ran_end (configured_run W send listing fetching args b) = Ok (ServerUp h srv)"
    by (auto simp: server_run_def Let_def split: if_splits sum.splits)
  then obtain written c where c: "read_text W (sa_config args) = Ok written" "server_config_from_toml (sh_toml W) written = Ok c"
    by (auto simp: configured_run_def Let_def and_then_Ok_iff map_err_Ok_iff split: sum.splits)
  from ran c obtain h' audited where "ran_end (dispatch W h' (sa_command args) (serving_of c) audited b) = Ok (ServerUp h srv)"
    by (auto simp: configured_run_def Let_def split: sum.splits archive_config.splits)
  then obtain said where "serve_start W (serving_of c) = (said, Ok srv)"
    by (auto simp: dispatch_def and_then_Ok_iff split: server_command.splits prod.splits)
  moreover have "server_config_wf c"
    using c(2) by (auto simp: server_config_from_toml_def ok_or_def split: option.splits Option.bind_splits
        intro: server_config_of_wf)
  moreover from c(1) have "sh_read W (sa_config args) = Ok written \<and> valid_utf8 written"
    by (auto simp: read_text_def and_then_Ok_iff split: if_splits)
  ultimately show ?thesis using c(2) by blast
qed

section \<open>An audit that held\<close>

text \<open>GetObject, whatever happens to the request: it changes nothing, and a success carries the object.\<close>

definition fetch_documented :: "('m, 'b) s3_send \<Rightarrow> 'b s3_holds \<Rightarrow> bool" where
  "fetch_documented send objs \<longleftrightarrow>
     (\<forall>m rq key b b' x. sq_action rq = GetObject key \<longrightarrow> send m rq b = (b', x) \<longrightarrow>
        objs b' = objs b
        \<and> (\<forall>ans. x = Ok ans \<longrightarrow> succeeded ans \<longrightarrow>
             (\<exists>md body. map_of (objs b) key = Some (md, body)
                \<and> sa_header ans META_VKEY = map_of md META_VKEY \<and> sa_header ans META_SIGNATURE = map_of md META_SIGNATURE
                \<and> (\<forall>v. sa_vec ans = Ok v \<longrightarrow> v = body))))"

lemma s3_fetch_documented:
  assumes "fetch_documented send objs" and "s3_fetch L A send m b key = (b', r)"
  shows "objs b' = objs b
    \<and> (\<forall>ob. r = Ok ob \<longrightarrow> object_name_parse (s3l_key L) key = Ok (fo_name ob)
         \<and> (\<exists>md. map_of (objs b) key = Some (md, fo_wire_bytes ob) \<and> usable_pair L md = Some (fo_attestation ob)))"
proof (cases "object_name_parse (s3l_key L) key")
  case (Inl e)
  with assms(2) show ?thesis by (auto simp: s3_fetch_def)
next
  case (Inr name)
  let ?rq = "s3_signed A (GetObject key) [] []"
  obtain b1 x where x: "send m ?rq b = (b1, x)" by fastforce
  have act: "sq_action ?rq = GetObject key" by simp
  note doc = assms(1) [unfolded fetch_documented_def, rule_format, OF act x]
  have "b' = b1" using assms(2) Inr x by (auto simp: s3_fetch_def)
  moreover have "object_name_parse (s3l_key L) key = Ok (fo_name ob)
         \<and> (\<exists>md. map_of (objs b) key = Some (md, fo_wire_bytes ob) \<and> usable_pair L md = Some (fo_attestation ob))"
    if "r = Ok ob" for ob
  proof -
    from assms(2) Inr x that obtain ans pair wire where
      ans: "s3_answered L x = Ok ans" "s3_attestation L ans = Ok (Some pair)" "sa_vec ans = Ok wire"
        "ob = \<lparr>fo_name = name, fo_attestation = pair, fo_wire_bytes = wire\<rparr>"
      by (auto simp: s3_fetch_def and_then_Ok_iff)
    from ans(1) have "x = Ok ans" "succeeded ans" by (simp_all add: s3_answered_Ok)
    with doc obtain md body where md: "map_of (objs b) key = Some (md, body)" "sa_header ans META_VKEY = map_of md META_VKEY"
      "sa_header ans META_SIGNATURE = map_of md META_SIGNATURE" "wire = body" using ans(3) by blast
    then have "metadata_pair L md = s3_attestation L ans" by (simp add: metadata_pair_def s3_attestation_def)
    with ans(2,4) md Inr show ?thesis by (simp add: usable_pair_def)
  qed
  ultimately show ?thesis using doc by simp
qed

lemma audit_object_clean:
  "au_failures (audit_object L cap fetch key a) = [] \<longleftrightarrow>
     au_failures a = [] \<and> (\<exists>ob h. fetch key = Ok ob \<and> verify L ob cap = Ok h)"
  "au_verified (audit_object L cap fetch key a) + au_unattributed (audit_object L cap fetch key a)
     + length (au_failures (audit_object L cap fetch key a))
   = au_verified a + au_unattributed a + length (au_failures a) + 1"
  by (auto simp: audit_object_def split: sum.splits option.splits)

lemma audit_walk_clean:
  assumes fetch: "\<forall>n b key b' r. fetch n b key = (b', r) \<longrightarrow>
      objs b' = objs b \<and> (\<forall>ob. r = Ok ob \<longrightarrow> is_object (objs b) key ob)"
  shows "audit_walk L cap fetch n keys b a = (b', found) \<Longrightarrow>
    objs b' = objs b
    \<and> au_verified found + au_unattributed found + length (au_failures found)
        = au_verified a + au_unattributed a + length (au_failures a) + length keys
    \<and> (au_failures found = [] \<longrightarrow> au_failures a = []
        \<and> (\<forall>key \<in> set keys. \<exists>ob h. is_object (objs b) key ob \<and> verify L ob cap = Ok h))"
proof (induction keys arbitrary: n b a)
  case (Cons key keys)
  obtain b1 r where r: "fetch n b key = (b1, r)" by fastforce
  let ?a = "audit_object L cap (\<lambda>_. r) key a"
  from Cons.prems r have rest: "audit_walk L cap fetch (Suc n) keys b1 ?a = (b', found)" by simp
  note ih = Cons.IH [OF rest]
  note step = fetch [rule_format, OF r]
  have counts: "au_verified ?a + au_unattributed ?a + length (au_failures ?a)
      = au_verified a + au_unattributed a + length (au_failures a) + 1"
    by (rule audit_object_clean(2))
  have "au_failures a = [] \<and> (\<exists>ob h. is_object (objs b) key ob \<and> verify L ob cap = Ok h)" if "au_failures ?a = []"
    using that step unfolding audit_object_clean(1) by blast
  with ih counts step show ?case by auto
qed simp

lemma audit_held:
  assumes "ran_end (server_run W send listing fetching argv b) = Ok AuditHeld"
  shows "\<exists>A cap b' out. verify_bucket W A send listing fetching cap b = (b', out, Ok ())"
proof -
  from assms obtain args where ran: "ran_end (configured_run W send listing fetching args b) = Ok AuditHeld"
    by (auto simp: server_run_def Let_def split: if_splits sum.splits)
  then obtain written c where c: "read_text W (sa_config args) = Ok written" "server_config_from_toml (sh_toml W) written = Ok c"
    by (auto simp: configured_run_def Let_def and_then_Ok_iff split: sum.splits)
  show ?thesis
  proof (cases "sc_archive c")
    case (ArchiveFilesystem root)
    with ran c show ?thesis
      by (auto simp: configured_run_def Let_def dispatch_def and_then_Ok_iff split: server_command.splits prod.splits)
  next
    case (ArchiveS3 cfg)
    with ran c obtain A where "s3_opened W cfg = Ok A"
      by (cases "s3_opened W cfg") (auto simp: configured_run_def Let_def)
    with ran c ArchiveS3 obtain b' out r where
      "verify_bucket W A send listing fetching (ic_max_header_bytes (sc_ingest c)) b = (b', out, r)" "r = Ok ()"
      by (auto simp: configured_run_def Let_def dispatch_def and_then_Ok_iff split: server_command.splits prod.splits)
    then show ?thesis by blast
  qed
qed

lemma verify_bucket_sound:
  assumes docs: "list_documented (sh_s3 W) send resume objs" "fetch_documented send objs" "distinct (map fst (objs b))"
    and libs: "sl_key (hl_server (sh_http W)) = s3l_key (sh_s3 W)" "key_lib_ok (s3l_key (sh_s3 W))"
      "json_typed (sl_json (hl_server (sh_http W)))"
    and ran: "verify_bucket W A send listing fetching cap b = (b', out, Ok ())"
  shows "keys_after (objs b) KEY_PREFIX [] \<noteq> []
    \<and> (\<forall>key \<in> set (keys_after (objs b) KEY_PREFIX []). \<exists>md body name att h.
         map_of (objs b) key = Some (md, body) \<and> object_name_parse (s3l_key (sh_s3 W)) key = Ok name
         \<and> usable_pair (sh_s3 W) md = Some att
         \<and> sound_object (hl_server (sh_http W)) cap \<lparr>fo_name = name, fo_attestation = att, fo_wire_bytes = body\<rparr> h)"
proof -
  let ?V = "hl_server (sh_http W)" and ?L = "sh_s3 W" and ?keys = "keys_after (objs b) KEY_PREFIX []"
  let ?fetch = "\<lambda>n b key. s3_fetch ?L A send (fetching n) b key"
  let ?is = "\<lambda>os key ob. object_name_parse (s3l_key ?L) key = Ok (fo_name ob)
      \<and> (\<exists>md. map_of os key = Some (md, fo_wire_bytes ob) \<and> usable_pair ?L md = Some (fo_attestation ob))"
  from ran obtain b1 keys found b2 where
    listed: "s3_for_each_key ?L A send listing (\<lambda>e. e) (keep_key (\<lambda>_. True)) b [] = (b1, keys, Ok ())"
    and walked: "audit_walk ?V cap ?fetch 0 keys b1 \<lparr>au_verified = 0, au_unattributed = 0, au_failures = []\<rparr> = (b2, found)"
    and ok: "report_audit found = Ok ()"
    by (auto simp: verify_bucket_def s3_audit_def split: prod.splits sum.splits)
  from s3_pages_complete [OF docs(1,3) listed [unfolded s3_for_each_key_def]] have
    keys: "objs b1 = objs b" "keys = ?keys" by (simp_all add: list_start_def)
  have fetches: "\<forall>n b key b' r. ?fetch n b key = (b', r) \<longrightarrow>
      objs b' = objs b \<and> (\<forall>ob. r = Ok ob \<longrightarrow> ?is (objs b) key ob)"
    using s3_fetch_documented [OF docs(2)] by blast
  note clean = audit_walk_clean [of ?fetch objs ?is, OF fetches walked]
  from ok have none: "length (au_failures found) = 0" "au_verified found + au_unattributed found \<noteq> 0"
    by (auto simp: report_audit_def audit_failed_def split: if_splits)
  with clean have "keys \<noteq> []" by auto
  moreover have "\<exists>ob h. ?is (objs b) key ob \<and> sound_object ?V cap ob h" if "key \<in> set keys" for key
  proof -
    from clean none(1) that obtain ob h where ob: "?is (objs b) key ob" "verify ?V ob cap = Ok h" by (auto simp: keys(1))
    with libs have "object_name_wf (sl_key ?V) (fo_name ob)" using parse_Ok_sound by auto
    with ob libs show ?thesis using verify_Ok [of ?V ob cap h] by auto
  qed
  then have "\<exists>md body name att h. map_of (objs b) key = Some (md, body) \<and> object_name_parse (s3l_key ?L) key = Ok name
         \<and> usable_pair ?L md = Some att \<and> sound_object ?V cap \<lparr>fo_name = name, fo_attestation = att, fo_wire_bytes = body\<rparr> h"
    if "key \<in> set keys" for key
  proof -
    assume "\<And>key. key \<in> set keys \<Longrightarrow> \<exists>ob h. ?is (objs b) key ob \<and> sound_object ?V cap ob h"
    with that obtain ob h md where ob: "object_name_parse (s3l_key ?L) key = Ok (fo_name ob)"
      "map_of (objs b) key = Some (md, fo_wire_bytes ob)" "usable_pair ?L md = Some (fo_attestation ob)" "sound_object ?V cap ob h"
      by blast
    moreover have "ob = \<lparr>fo_name = fo_name ob, fo_attestation = fo_attestation ob, fo_wire_bytes = fo_wire_bytes ob\<rparr>" by simp
    ultimately show ?thesis by metis
  qed
  ultimately show ?thesis unfolding keys(2) by blast
qed

section \<open>Properties\<close>

text \<open>
  C8: An exit code of zero from \<open>verify-archive\<close> is proof. Over a bucket that lists and answers as S3 documents, whichever
  requests fail on the way, a run that exits zero after auditing has found the bucket not empty, and every object in it,
  none left out by a page boundary, names itself, carries the key and signature it was filed with, and is signed, framed,
  filed and attributed as its key says.
\<close>

theorem audit_zero_is_proof:
  assumes docs: "list_documented (sh_s3 W) send resume objs" "fetch_documented send objs" "distinct (map fst (objs b))"
    and libs: "sl_key (hl_server (sh_http W)) = s3l_key (sh_s3 W)" "key_lib_ok (s3l_key (sh_s3 W))"
      "json_typed (sl_json (hl_server (sh_http W)))"
    and zero: "server_main W send listing fetching argv b = (went, Some 0)" and audited: "ran_end went = Ok AuditHeld"
  shows "keys_after (objs b) KEY_PREFIX [] \<noteq> []
    \<and> (\<exists>cap. \<forall>key \<in> set (keys_after (objs b) KEY_PREFIX []). \<exists>md body name att h.
         map_of (objs b) key = Some (md, body) \<and> object_name_parse (s3l_key (sh_s3 W)) key = Ok name
         \<and> usable_pair (sh_s3 W) md = Some att
         \<and> sound_object (hl_server (sh_http W)) cap \<lparr>fo_name = name, fo_attestation = att, fo_wire_bytes = body\<rparr> h)"
proof -
  have "ran_end (server_run W send listing fetching argv b) = Ok AuditHeld"
    using zero audited by (auto simp: server_main_def Let_def split: sum.splits server_outcome.splits server_fatal.splits)
  from audit_held [OF this] obtain A cap b' out where
    "verify_bucket W A send listing fetching cap b = (b', out, Ok ())" by blast
  from verify_bucket_sound [OF docs libs this] show ?thesis by blast
qed


text \<open>
  A server process whose every part is concrete: its configuration, the pages it renders, the build it offers and
  the bucket it audits; and the witnesses of the properties of \<open>Server_Started\<close>.
\<close>

section \<open>Pages that render\<close>

definition demo_url :: url where
  "demo_url = \<lparr>url_text = ''https://metsuke.example/'', url_scheme = ''https'', url_host = Some ''metsuke.example'',
     url_port = Some 443, url_path = ''/'', url_query = None, url_fragment = None, url_username = [], url_password = None\<rparr>"

definition demo_page_libs :: page_libs where
  "demo_page_libs = \<lparr>url_join = (\<lambda>u p. Some (''https://metsuke.example'' @ p)),
     table_string = (\<lambda>t k. Some (Some ''https://example.org/'')), pg_parse_url = (\<lambda>_. Ok demo_url),
     sha256 = (\<lambda>b. take 32 (b @ replicate 32 (CHR 0x00))), pg_client_version = ''0.1.0'',
     pg_repository = ''https://github.com/owner/metsuke'', pg_reason_words = (\<lambda>_. ''reason''),
     pg_crypto = demo_crypto, pg_json = demo_json\<lparr>header_to_vec := (\<lambda>_. Ok ''{}''), stamp_scrape := (\<lambda>_ _. Ok ''s'')\<rparr>, pg_pretty = Ok\<rparr>"

definition demo_h2 :: string where
  "demo_h2 = ''<h2 id='' @ [CHR 0x22] @ ''a'' @ [CHR 0x22] @ ''>A</h2>''"

definition demo_template :: "string list \<Rightarrow> string" where
  "demo_template ns = template_text (case ns of n # ns' \<Rightarrow> (demo_h2, n) # map (\<lambda>m. ([], m)) ns' | [] \<Rightarrow> []) []"

definition frame_names :: "string list" where
  "frame_names = [''ICON_PATH'', ''ICON_CONTENT_TYPE'', ''style'', ''logo'', ''nav'', ''toc'', ''sequence'']"

definition quickstart_names :: "string list" where
  "quickstart_names = frame_names @
     [''DETAILS_PATH'', ''FILES_PREFIX'', ''CLIENT_VERSION'', ''files_url'', ''journal'', ''try_fetch'', ''try_agent'',
      ''install'', ''config_path'', ''key_path'', ''config_dir'', ''flake'']"

definition details_names :: "string list" where
  "details_names = frame_names @
     [''PATH'', ''ANALYSIS_PATH'', ''HEADER_VKEY'', ''HEADER_SIGNATURE'', ''HEADER_POOL'', ''METADATA_LABEL'', ''metadata'',
      ''flake'', ''DOCS_PREFIX'', ''REPOSITORY'', ''envelope'', ''reasons'', ''backend'', ''traces'', ''metrics_url'',
      ''submit_url'', ''FILES_PREFIX'', ''binary'', ''config_path'', ''key_path'']"

definition analysis_names :: "string list" where
  "analysis_names = frame_names @
     [''PATH'', ''DETAILS_PATH'', ''FILES_PREFIX'', ''DOCS_PREFIX'', ''REPOSITORY'', ''flake'', ''files_url'',
      ''fetch_install'', ''fetch'', ''server_url'', ''REALM'']"

definition demo_unit :: string where
  "demo_unit = ''ExecStart=/m --config /c'' @ [newline] @ ''LoadCredential=k:/k'' @ [newline]"

definition demo_assets :: assets where
  "demo_assets = \<lparr>a_quickstart = demo_template quickstart_names, a_details = demo_template details_names,
     a_analysis = demo_template analysis_names, a_style = [], a_logo = [], a_config_minimal = [], a_config_pipe = [],
     a_config_journald = [], a_config_example = [], a_journal = [], a_unit = demo_unit, a_unit_journald = demo_unit,
     a_pipe_dropin = [], a_node_unit = [], a_analytics_sql = [], a_archive_sql = []\<rparr>"

lemmas page_names = frame_names_def quickstart_names_def details_names_def analysis_names_def

lemma split_once_text_absent: "c \<notin> set s \<Longrightarrow> split_once_text (c # p) s = None"
proof (induction s)
  case Nil
  then show ?case by (subst split_once_text.simps) (simp add: starts_with_def)
next
  case (Cons x xs)
  then show ?case by (subst split_once_text.simps) (simp add: starts_with_def)
qed

lemma split_once_text_step:
  "split_once_text pat (x # xs) = (if starts_with pat (x # xs) then Some ([], drop (length pat) (x # xs))
     else map_option (\<lambda>(a, b). (x # a, b)) (split_once_text pat xs))"
  by (subst split_once_text.simps) simp

lemma split_text_two:
  "pat \<noteq> [] \<Longrightarrow> split_once_text pat s = Some (a, b) \<Longrightarrow> split_once_text pat b = None \<Longrightarrow> split_text pat s = [a, b]"
  by (subst split_text.simps, simp) (subst split_text.simps, simp)

lemma demo_toc:
  assumes "CHR ''<'' \<notin> set rest"
  shows "\<exists>t. toc (demo_h2 @ rest) = Ok t"
proof -
  note eval = demo_h2_def H2_ID_def split_once_text_step split_once_text_absent [OF assms] starts_with_def
  have "split_text ''<h2'' (demo_h2 @ rest) = [[], drop 3 (demo_h2 @ rest)]"
    "split_text H2_ID (demo_h2 @ rest) = [[], drop 8 (demo_h2 @ rest)]"
    by (rule split_text_two; simp add: eval)+
  then show ?thesis
    by (simp add: toc_def count_text_def toc_entry_def eval)
qed

lemma demo_tocs:
  assumes "ns \<noteq> []" "list_all (\<lambda>n. CHR ''<'' \<notin> set n) ns"
  shows "\<exists>t. toc (demo_template ns) = Ok t"
proof -
  have plain: "CHR ''<'' \<notin> set (template_text (map (\<lambda>m. ([], m)) ms) [])" if "list_all (\<lambda>n. CHR ''<'' \<notin> set n) ms" for ms
    using that by (induction ms) auto
  from assms obtain n ms where "ns = n # ms" by (cases ns) auto
  with assms plain [of ms] demo_toc [of "''{{'' @ n @ ''}}'' @ template_text (map (\<lambda>m. ([], m)) ms) []"]
  show ?thesis by (simp add: demo_template_def)
qed

lemma demo_sequences:
  "\<exists>t. sequence QUICKSTART_PATH = Ok t" "\<exists>t. sequence DETAILS_PATH = Ok t" "\<exists>t. sequence ANALYSIS_PATH = Ok t"
  by (simp_all add: sequence_def nav_order_def NAV_def QUICKSTART_PATH_def DETAILS_PATH_def ANALYSIS_PATH_def upt_rec)

lemma demo_unit_lines: "text_lines demo_unit = [''ExecStart=/m --config /c'', ''LoadCredential=k:/k'']"
  by (simp add: text_lines_def demo_unit_def)

lemma demo_unit_read:
  "exec_start demo_unit ExecBinary = Ok ''/m''" "exec_start demo_unit ExecConfig = Ok ''/c''"
  "credential_source demo_unit = Ok ''/k''"
proof -
  have "first_prefixed ''ExecStart='' demo_unit = Some ''/m --config /c''"
    "first_prefixed ''LoadCredential='' demo_unit = Some ''k:/k''"
    by (simp_all add: first_prefixed_def demo_unit_lines List.map_filter_simps)
  moreover have "chars_of ''/m --config /c'' = map (\<lambda>c. [c]) ''/m --config /c''" by (rule chars_of_ascii) auto
  ultimately show "exec_start demo_unit ExecBinary = Ok ''/m''" "exec_start demo_unit ExecConfig = Ok ''/c''"
    "credential_source demo_unit = Ok ''/k''"
    by (simp_all add: exec_start_def credential_source_def split_whitespace_def is_whitespace_def)
qed

lemma demo_filled_template:
  assumes "map fst vals = ns" "ns \<noteq> []" "distinct ns" "list_all (\<lambda>n. CHR ''}'' \<notin> set n) ns"
  shows "\<exists>page. fill_page (demo_template ns) vals = Ok page"
proof -
  obtain n ns' where ns: "ns = n # ns'" using assms(2) by (cases ns) auto
  let ?ps = "(demo_h2, n) # map (\<lambda>m. ([], m)) ns'"
  have "list_all (\<lambda>(l, n). free_of (CHR ''{'') l \<and> free_of (CHR ''}'') n) ?ps"
    using assms(4) by (auto simp: ns list_all_iff demo_h2_def intro!: free_of_absent)
  moreover have "map snd ?ps = ns" by (simp add: ns comp_def)
  then have "snd ` set ?ps = fst ` set vals" using assms(1) by (metis list.set_map)
  ultimately have "fill_page (template_text ?ps []) vals = Ok (rendered vals ?ps [])"
    using fill_template_text [OF _ _ split_once_text_Nil, of vals ?ps] assms(1,3) by presburger
  then show ?thesis unfolding demo_template_def ns list.case by blast
qed

lemma demo_links:
  "files_url_of demo_page_libs u = Ok (''https://metsuke.example'' @ FILES_PREFIX)"
  "submit_url demo_page_libs u = Ok (''https://metsuke.example'' @ SUBMIT_PATH)"
  "flake_ref demo_page_libs = Ok ''github:owner/metsuke''"
  by (simp_all add: files_url_of_def submit_url_def joined_url_def demo_page_libs_def flake_ref_def)

lemma demo_pointed: "\<exists>t. pointed_at demo_page_libs config u = Ok t"
proof -
  have "\<exists>t. table_string demo_page_libs config ''upload_url'' = Some (Some t)" by (simp add: demo_page_libs_def)
  then show ?thesis by (auto simp: pointed_at_def demo_links)
qed

lemma demo_page_frame:
  assumes "ns \<noteq> []" "list_all (\<lambda>n. CHR ''<'' \<notin> set n) ns" "\<exists>t. sequence path = Ok t"
  shows "\<exists>framing. page_frame A path (demo_template ns) = Ok framing \<and> map fst framing = frame_names"
  using demo_tocs [OF assms(1,2)] assms(3) by (auto simp: page_frame_def frame_names_def)

lemma demo_asset_simps [simp]:
  "a_quickstart demo_assets = demo_template quickstart_names" "a_details demo_assets = demo_template details_names"
  "a_analysis demo_assets = demo_template analysis_names" "a_unit demo_assets = demo_unit" "a_unit_journald demo_assets = demo_unit"
  by (simp_all add: demo_assets_def)

lemma demo_parts:
  "\<exists>a b. try_it demo_page_libs fs files = Ok (a, b)" "\<exists>a. install demo_page_libs fs files binary = Ok a"
  "\<exists>a b. fetch_it demo_page_libs fs files = Ok (a, b)" "\<exists>m. metrics_address_of demo_page_libs t = Ok m"
  by (simp_all add: try_it_def install_def fetch_it_def demo_links Let_def)
    (simp add: metrics_address_of_def demo_page_libs_def demo_url_def)

lemma demo_quickstart: "\<exists>page. quickstart demo_page_libs demo_assets demo_unit u fs = Ok page"
proof -
  have "list_all (\<lambda>n. CHR ''<'' \<notin> set n) quickstart_names" "quickstart_names \<noteq> []" by (simp_all add: page_names)
  with demo_page_frame [OF _ _ demo_sequences(1), of quickstart_names demo_assets] obtain framing where
    framing: "page_frame demo_assets QUICKSTART_PATH (demo_template quickstart_names) = Ok framing" "map fst framing = frame_names" by blast
  obtain try_fetch try_agent steps where
    parts: "try_it demo_page_libs fs (''https://metsuke.example'' @ FILES_PREFIX) = Ok (try_fetch, try_agent)"
      "install demo_page_libs fs (''https://metsuke.example'' @ FILES_PREFIX) ''/m'' = Ok steps"
    using demo_parts(1,2) by blast
  have "\<exists>page. fill_page (demo_template quickstart_names) vals = Ok page" if "map fst vals = quickstart_names" for vals
    by (rule demo_filled_template [OF that]) (simp_all add: page_names)
  then show ?thesis
    by (simp only: quickstart_def demo_links demo_unit_read parts and_then_simps framing demo_asset_simps prod.case)
      (simp add: framing(2) quickstart_names_def)
qed

lemma demo_example: "\<exists>t. example_envelope demo_page_libs = Ok t"
proof -
  have "slugify ''relay-1'' = Ok ''relay-1''"
    by (intro slugify_slug) (simp add: is_slug_def is_slug_char_def is_digit_def is_lower_def)
  then obtain e where e: "example_submission demo_page_libs = Ok e" "pl_lines (e_payload e) = [PayloadLine ''s'', PayloadLine ''s'']"
    by (simp add: example_submission_def demo_page_libs_def example_rows_def payload_line_scrape_def new_envelope_def
        scrapes_payload_def Let_def)
  then have "valid_utf8 (payload_lines e)" unfolding payload_lines_concat by (intro valid_utf8_ascii) auto
  moreover have "header_json (pg_json demo_page_libs) e = Ok ''{}''" "pg_pretty demo_page_libs = Ok"
    by (simp_all add: demo_page_libs_def header_json_def)
  ultimately show ?thesis using e(1) by (simp add: example_envelope_def)
qed

lemma demo_details: "\<exists>page. details demo_page_libs demo_assets example u = Ok page"
proof -
  have "list_all (\<lambda>n. CHR ''<'' \<notin> set n) details_names" "details_names \<noteq> []" by (simp_all add: page_names)
  with demo_page_frame [OF _ _ demo_sequences(2), of details_names demo_assets] obtain framing where
    framing: "page_frame demo_assets DETAILS_PATH (demo_template details_names) = Ok framing" "map fst framing = frame_names" by blast
  obtain m envelope where m: "metrics_address_of demo_page_libs example = Ok m" "example_envelope demo_page_libs = Ok envelope"
    using demo_parts(4) demo_example by blast
  have "\<exists>page. fill_page (demo_template details_names) vals = Ok page" if "map fst vals = details_names" for vals
    by (rule demo_filled_template [OF that]) (simp_all add: page_names)
  then show ?thesis
    by (simp only: details_def demo_links demo_unit_read m and_then_simps framing demo_asset_simps)
      (simp add: framing(2) details_names_def)
qed

lemma demo_analysis: "\<exists>page. analysis demo_page_libs demo_assets u fs = Ok page"
proof -
  have "list_all (\<lambda>n. CHR ''<'' \<notin> set n) analysis_names" "analysis_names \<noteq> []" by (simp_all add: page_names)
  with demo_page_frame [OF _ _ demo_sequences(3), of analysis_names demo_assets] obtain framing where
    framing: "page_frame demo_assets ANALYSIS_PATH (demo_template analysis_names) = Ok framing" "map fst framing = frame_names" by blast
  obtain fetch_install fetch_cmd where
    parts: "fetch_it demo_page_libs fs (''https://metsuke.example'' @ FILES_PREFIX) = Ok (fetch_install, fetch_cmd)"
    using demo_parts(3) by blast
  have "\<exists>page. fill_page (demo_template analysis_names) vals = Ok page" if "map fst vals = analysis_names" for vals
    by (rule demo_filled_template [OF that]) (simp_all add: page_names)
  then show ?thesis
    by (simp only: analysis_def demo_links parts and_then_simps framing demo_asset_simps prod.case)
      (simp add: framing(2) analysis_names_def)
qed

lemma each_once_distinct: "distinct (map sv_name (held @ fs)) \<Longrightarrow> each_once held fs = Ok (held @ fs)"
proof (induction fs arbitrary: held)
  case (Cons f fs)
  then have "\<not> offers held (sv_name f)" unfolding offers_def by (metis disjoint_iff distinct_append image_eqI list.set_intros(1) list.set_map map_append)
  with Cons.IH [of "held @ [f]"] Cons.prems show ?case by simp
qed simp

lemma demo_shipped: "\<exists>fs. collect_ok (shipped_file demo_page_libs A u) named_texts = Ok fs \<and> map sv_name fs = map fst named_texts"
proof (induction named_texts)
  case (Cons f named_texts)
  obtain name shipped_text where f: "f = (name, shipped_text)" by fastforce
  obtain t where "(if strip_suffix ''.toml'' name \<noteq> None then pointed_at demo_page_libs shipped_text u else Ok shipped_text) = Ok t"
    using demo_pointed by (cases "strip_suffix ''.toml'' name = None") auto
  moreover obtain linked where "siblings_linked demo_page_libs A t u = Ok linked" by (simp add: siblings_linked_def demo_links)
  ultimately have "\<exists>s. shipped_file demo_page_libs A u f = Ok s \<and> sv_name s = fst f"
    by (simp only: shipped_file_def f prod.case and_then_simps) simp
  with Cons show ?case by auto
qed simp

definition demo_build :: binary_build where
  "demo_build = \<lparr>bn_name = ''metsuke-static-x86_64-linux'', bn_bytes = ''the agent''\<rparr>"

lemma demo_pages: "\<exists>P. pages_built demo_page_libs demo_assets u [demo_build] = Ok P"
proof -
  obtain shipped where shipped: "collect_ok (shipped_file demo_page_libs demo_assets u) (FILES demo_assets) = Ok shipped"
    "map sv_name shipped = map fst (FILES demo_assets)" using demo_shipped by blast
  let ?fs = "shipped @ [build_file demo_build, checksum_for demo_page_libs (build_file demo_build)]"
  have "distinct (map sv_name ([] @ ?fs))"
    unfolding append_Nil map_append shipped(2)
    by (simp add: FILES_def build_file_def checksum_for_def demo_build_def CHECKSUM_SUFFIX_def)
  then have files: "each_once [] ?fs = Ok ?fs" using each_once_distinct by fastforce
  obtain example where example: "pointed_at demo_page_libs (a_config_example demo_assets) u = Ok example"
    using demo_pointed by blast
  from demo_quickstart demo_details demo_analysis obtain q de an where
    "quickstart demo_page_libs demo_assets demo_unit u ?fs = Ok q" "details demo_page_libs demo_assets example u = Ok de"
    "analysis demo_page_libs demo_assets u ?fs = Ok an" by metis
  with shipped(1) files example show ?thesis by (simp add: pages_built_def Let_def)
qed

section \<open>The process\<close>

definition demo_server_table :: server_table where
  "demo_server_table = \<lparr>st_listen = ''127.0.0.1:8080'', st_public_url = ''https://metsuke.example'', st_idle_timeout_ms = 1000,
     st_read_timeout_ms = 1000, st_write_timeout_ms = 1000, st_max_concurrent_requests = 8,
     st_archive = S3Table \<lparr>s3t_bucket = ''metsuke'', s3t_region = ''eu'', s3t_endpoint = ''https://s3.example/'',
       s3t_request_timeout_ms = 1000, s3t_signature_validity_secs = 60, s3t_put_retries = 2, s3t_put_retry_backoff_ms = 10,
       s3t_list_max_pages = 5\<rparr>,
     st_allowlist = [], st_leios_roster = None, st_max_body_bytes = 1000, st_max_header_bytes = 16,
     st_max_timestamp_skew_secs = 60, st_rate_limit_uploads = 4, st_rate_limit_uploads_total = 40,
     st_rate_limit_window_secs = 3600, st_password_file = ''/accounts'', st_list_max_rows = 10,
     st_downloads = Some [(''metsuke-static-x86_64-linux'', ''/srv/agent'')]\<rparr>"

definition demo_host :: server_host where
  "demo_host = \<lparr>sh_toml = \<lparr>read_server_table = (\<lambda>_. Some demo_server_table),
       parse_url = (\<lambda>t. Ok (demo_url\<lparr>url_text := t\<rparr>)), toml_bech32 = demo_bech32\<rparr>,
     sh_read = (\<lambda>p. Ok (if p = ''/srv/agent'' then ''the agent'' else [])),
     sh_roster = (\<lambda>_. \<lparr>seen_first = None, seen_again = None, seen_text = Err ''none''\<rparr>),
     sh_http = demo_http, sh_page_libs = demo_page_libs, sh_assets = demo_assets, sh_s3 = demo_s3_libs,
     sh_credentials = Some (''id'', ''secret''), sh_bind = Ok, sh_version = ''0.1.0'', sh_build_rev = ''rev'',
     sh_usage = [], sh_verify_text = (\<lambda>_. []), sh_fatal_text = (\<lambda>_. [])\<rparr>"

definition demo_audited_key :: string where
  "demo_audited_key = to_key demo_key_lib (fo_name (demo_object Metrics))"

lemma demo_audited_name: "object_name_wf demo_key_lib (fo_name (demo_object Metrics))"
  using demo_name_wf by (simp add: demo_object_def Let_def object_name_wf_def)

definition demo_audited :: demo_bucket where
  "demo_audited = [(demo_audited_key, s3_metadata (fo_attestation (demo_object Metrics)), fo_wire_bytes (demo_object Metrics))]"

lemma demo_config:
  "\<exists>c cfg. server_config_from_toml (sh_toml demo_host) [] = Ok c \<and> sc_archive c = ArchiveS3 cfg
    \<and> s3_opened demo_host cfg = Ok demo_s3 \<and> ic_max_header_bytes (sc_ingest c) = 16
    \<and> sc_downloads c = Some [(''metsuke-static-x86_64-linux'', AbsolutePath ''/srv/agent'')]
    \<and> dc_password_file (sc_developer c) = AbsolutePath ''/accounts'' \<and> is_leios_roster (sc_ingest c) = None"
  by (simp add: demo_host_def demo_server_table_def server_config_from_toml_def server_config_of_def public_url_of_def is_origin_def
      demo_url_def http_config_of_def archive_config_of_def s3_config_of_def ingest_of_def developer_config_of_def
      as_nonzero_def as_nonzero_u32_def as_u32_def as_u64_def absolute_path_new_def starts_with_def optional_def field_or_def u64_max_def
      s3_opened_def s3_new_def demo_s3_def demo_s3_libs_def result_ok_def)

lemma demo_fetch_documented: "fetch_documented demo_send (\<lambda>b. b)"
proof -
  have "b' = b \<and> (\<forall>ans. x = Ok ans \<longrightarrow> succeeded ans \<longrightarrow> (\<exists>md body. map_of b key = Some (md, body)
      \<and> sa_header ans META_VKEY = map_of md META_VKEY \<and> sa_header ans META_SIGNATURE = map_of md META_SIGNATURE
      \<and> (\<forall>v. sa_vec ans = Ok v \<longrightarrow> v = body)))"
    if "sq_action rq = GetObject key" "demo_send m rq b = (b', x)" for m rq key b b' x
  proof -
    from that(1) have applied: "demo_apply rq b
        = (b, case map_of b key of None \<Rightarrow> demo_answer 404 [] ''NoSuchKey'' | Some (md, body) \<Rightarrow> demo_answer 200 md body)"
      by (simp add: demo_apply_def)
    note sent = demo_send_cases [OF that(2), unfolded applied]
    then have "b' = b" by auto
    moreover have "\<exists>md body. map_of b key = Some (md, body) \<and> ans = demo_answer 200 md body" if "x = Ok ans" "succeeded ans" for ans
    proof (cases "map_of b key")
      case None
      with sent that have "ans = demo_answer 404 [] ''NoSuchKey''" by simp
      with that(2) show ?thesis by (simp add: demo_answer_def succeeded_def)
    next
      case (Some found)
      with sent that show ?thesis by (cases found) simp
    qed
    ultimately show ?thesis by (fastforce simp: demo_answer_def)
  qed
  then show ?thesis unfolding fetch_documented_def by blast
qed

lemma demo_audited_fetched:
  "s3_fetch demo_s3_libs demo_s3 demo_send Undisturbed demo_audited demo_audited_key = (demo_audited, Ok (demo_object Metrics))"
proof -
  let ?ob = "demo_object Metrics"
  have wf: "attestation_wf demo_crypto (fo_attestation ?ob)"
    unfolding demo_object_def Let_def fetched_object.simps
    by (rule attest_wf [OF demo_crypto_ok]) simp
  then have "usable_pair demo_s3_libs (s3_metadata (fo_attestation ?ob)) = Some (fo_attestation ?ob)"
    by (intro metadata_roundtrip) (simp add: demo_s3_libs_def)
  then have "metadata_pair demo_s3_libs (s3_metadata (fo_attestation ?ob)) = Ok (Some (fo_attestation ?ob))"
    by (simp add: usable_pair_def split: sum.splits)
  moreover have "metadata_pair demo_s3_libs md = s3_attestation demo_s3_libs (demo_answer 200 md body)" for md body
    by (simp add: metadata_pair_def s3_attestation_def demo_answer_def)
  ultimately have "s3_attestation demo_s3_libs (demo_answer 200 (s3_metadata (fo_attestation ?ob)) body) = Ok (Some (fo_attestation ?ob))"
    for body by metis
  moreover have "s3l_key demo_s3_libs = demo_key_lib" by (simp add: demo_s3_libs_def)
  moreover have "object_name_parse demo_key_lib demo_audited_key = Ok (fo_name ?ob)"
    unfolding demo_audited_key_def by (rule parse_to_key [OF demo_key_lib_ok demo_audited_name])
  moreover have "demo_apply (s3_signed demo_s3 (GetObject demo_audited_key) [] []) demo_audited
      = (demo_audited, demo_answer 200 (s3_metadata (fo_attestation ?ob)) (fo_wire_bytes ?ob))"
    by (simp add: demo_apply_def demo_audited_def)
  moreover have "s3_answered demo_s3_libs (Ok (demo_answer 200 md body)) = Ok (demo_answer 200 md body)" for md body
    by (simp add: s3_answered_def classify_def demo_answer_def)
  ultimately show ?thesis by (simp add: s3_fetch_def) (simp add: demo_answer_def)
qed

lemma demo_audited_keys: "keys_after demo_audited KEY_PREFIX [] = [demo_audited_key]"
proof -
  have "starts_with KEY_PREFIX demo_audited_key" "[] < demo_audited_key"
    by (simp_all add: demo_audited_key_def to_key_def starts_with_def KEY_PREFIX_def)
  then show ?thesis by (simp add: keys_after_def demo_audited_def key_matches_def)
qed

lemma demo_audited_listed:
  "s3_for_each_key demo_s3_libs demo_s3 demo_send (\<lambda>_. Undisturbed) (\<lambda>e. e) (keep_key (\<lambda>_. True)) demo_audited []
    = (demo_audited, [demo_audited_key], Ok ())"
proof -
  have "s3_list demo_s3_libs demo_s3 demo_send Undisturbed (ListObjects KEY_PREFIX None None None) demo_audited
      = (demo_audited, Ok \<lparr>li_contents = [demo_audited_key], li_next_token = None\<rparr>)"
    by (simp add: s3_list_def s3_get_def demo_apply_def s3_answered_def demo_s3_libs_def
        demo_answer_def classify_def demo_audited_keys list_start_def demo_listed_def demo_rows_def)
  moreover have "s3_list_max_pages demo_s3 = Suc 4" by (simp add: demo_s3_def)
  ultimately show ?thesis unfolding s3_for_each_key_def by (simp only: s3_pages.simps, simp add: visit_keep)
qed

lemma demo_object_verified: "verify demo_verifier (demo_object Metrics) 16 = Ok (header_of demo_envelope)"
proof -
  have "object_name_wf (sl_key demo_verifier) (fo_name (demo_object Metrics))"
    using demo_audited_name by (simp add: demo_verifier_def)
  then show ?thesis
    using verify_Ok [of demo_verifier "demo_object Metrics" 16] demo_object_sound
    by (simp add: demo_verifier_def demo_key_lib_ok demo_json_typed)
qed

lemma demo_audit_run:
  "\<exists>out. verify_bucket demo_host demo_s3 demo_send (\<lambda>_. Undisturbed) (\<lambda>_. Undisturbed) 16 demo_audited
    = (demo_audited, out, Ok ())"
  by (auto simp: verify_bucket_def s3_audit_def demo_host_def demo_http_def demo_audited_listed demo_audited_fetched
      audit_object_def demo_object_verified report_audit_def audit_failed_def audit_unreadable_def split: option.splits)

lemma demo_zero:
  "\<exists>went. server_main demo_host demo_send (\<lambda>_. Undisturbed) (\<lambda>_. Undisturbed) [''verify-archive''] demo_audited = (went, Some 0)
    \<and> ran_end went = Ok AuditHeld"
proof -
  from demo_config obtain c cfg where c: "server_config_from_toml (sh_toml demo_host) [] = Ok c"
    "sc_archive c = ArchiveS3 cfg" "s3_opened demo_host cfg = Ok demo_s3" "ic_max_header_bytes (sc_ingest c) = 16" by blast
  have "read_text demo_host SERVER_CONFIG_PATH = Ok []"
    by (simp add: read_text_def demo_host_def SERVER_CONFIG_PATH_def)
  moreover have "server_args_parse [''verify-archive''] = Ok \<lparr>sa_config = SERVER_CONFIG_PATH, sa_command = VerifyArchiveCommand\<rparr>"
    by (simp add: server_args_parse_def VERIFY_ARCHIVE_def)
  ultimately show ?thesis using c demo_audit_run
    by (auto simp: server_main_def server_run_def configured_run_def dispatch_def Let_def)
qed

lemma demo_up:
  "\<exists>h srv. ran_end (server_run demo_host demo_send (\<lambda>_. Undisturbed) (\<lambda>_. Undisturbed) [] demo_audited) = Ok (ServerUp h srv)"
proof -
  from demo_config obtain c cfg where c: "server_config_from_toml (sh_toml demo_host) [] = Ok c"
    "sc_archive c = ArchiveS3 cfg" "s3_opened demo_host cfg = Ok demo_s3"
    "sc_downloads c = Some [(''metsuke-static-x86_64-linux'', AbsolutePath ''/srv/agent'')]"
    "dc_password_file (sc_developer c) = AbsolutePath ''/accounts''" "is_leios_roster (sc_ingest c) = None" by blast
  have "read_text demo_host SERVER_CONFIG_PATH = Ok []" "read_text demo_host ''/accounts'' = Ok []"
    by (simp_all add: read_text_def demo_host_def SERVER_CONFIG_PATH_def)
  moreover have "server_args_parse [] = Ok \<lparr>sa_config = SERVER_CONFIG_PATH, sa_command = ServeCommand\<rparr>"
    by (simp add: server_args_parse_def)
  moreover have "accounts_parse (hl_developer (sh_http demo_host)) [] = Ok (dv_accounts demo_developer)"
    using demo_account_parse by (simp add: demo_host_def)
  moreover have "agent_builds demo_host (sc_downloads c) = Ok [demo_build]"
    by (simp add: c agent_builds_def agent_build_def demo_host_def demo_build_def)
  moreover obtain P where "pages_built (sh_page_libs demo_host) (sh_assets demo_host) (as_url (sc_public_url c)) [demo_build] = Ok P"
    using demo_pages by (auto simp: demo_host_def)
  moreover have "sh_bind demo_host = Ok" by (simp add: demo_host_def)
  ultimately show ?thesis using c
    by (auto simp: server_run_def configured_run_def dispatch_def Let_def serve_start_def server_developer_def
        server_roster_def serving_of_def)
qed

section \<open>Witnesses\<close>

theorem audit_zero_is_proof_witness:
  "\<exists>cap md body name att h. map_of demo_audited demo_audited_key = Some (md, body)
    \<and> sound_object demo_verifier cap \<lparr>fo_name = name, fo_attestation = att, fo_wire_bytes = body\<rparr> h"
proof -
  have libs: "sh_s3 demo_host = demo_s3_libs" "hl_server (sh_http demo_host) = demo_verifier" "s3l_key demo_s3_libs = demo_key_lib"
    "sl_key demo_verifier = demo_key_lib" "sl_json demo_verifier = demo_json"
    by (simp_all add: demo_host_def demo_http_def demo_s3_libs_def demo_verifier_def)
  obtain went where
    "server_main demo_host demo_send (\<lambda>_. Undisturbed) (\<lambda>_. Undisturbed) [''verify-archive''] demo_audited = (went, Some 0)"
    "ran_end went = Ok AuditHeld" using demo_zero by blast
  note found = audit_zero_is_proof [where W = demo_host and objs = "\<lambda>b. b" and resume = "\<lambda>t. t",
      unfolded libs, OF demo_list_documented demo_fetch_documented _ _ _ _ this, unfolded demo_audited_keys]
  have "distinct (map fst demo_audited)" by (simp add: demo_audited_def)
  from found [OF this refl demo_key_lib_ok demo_json_typed] obtain cap where
    each: "\<forall>key \<in> set [demo_audited_key]. \<exists>md body name att h. map_of demo_audited key = Some (md, body)
      \<and> object_name_parse demo_key_lib key = Ok name \<and> usable_pair demo_s3_libs md = Some att
      \<and> sound_object demo_verifier cap \<lparr>fo_name = name, fo_attestation = att, fo_wire_bytes = body\<rparr> h"
    by (elim conjE exE)
  have "demo_audited_key \<in> set [demo_audited_key]" by simp
  from each [rule_format, OF this] show ?thesis by (elim exE conjE) (intro exI conjI)
qed


end
