(* ===== verification/Log_Run.thy ===== *)
theory Log_Run
  imports Log_Tail Agent_Main
begin

text \<open>
  The \<open>journalctl\<close> behind a stream (\<open>metsuke/src/logsource.rs\<close>: spawning, confirming, reaping, stopping and
  dropping it) and \<open>run\<close> of \<open>metsuke/src/logtail.rs\<close>, which follows, drains and starts over. What the operating
  system answers for one child, and what that child writes, is a \<open>follow_world\<close>; the process keeps count of the
  children of its own that may still be running. The lines a drain writes as it meets its first loss of a kind,
  and as a read fails, are left out; its totals are not.
\<close>

section \<open>The child\<close>

datatype child_end = ChildStatus string | Unavailable io_error

record follow_world =
  fw_spawn :: "(io_error, unit) result"
  fw_try_wait :: "(io_error, string option) result"
  fw_output :: "fill list"
  fw_kill :: "(io_error, unit) result"
  fw_wait :: "(io_error, string) result"
  fw_push :: push_world

record tail_state =
  tl_db :: spool_db
  tl_children :: nat
  tl_said :: "string list"

definition child_end_text :: "(io_error \<Rightarrow> string) \<Rightarrow> child_end \<Rightarrow> string" where
  "child_end_text io e =
     (case e of
        ChildStatus status \<Rightarrow> ''journalctl '' @ status
      | Unavailable err \<Rightarrow> ''journalctl's own exit status is unavailable: '' @ io err)"

fun start_error_text :: "(io_error \<Rightarrow> string) \<Rightarrow> start_error \<Rightarrow> string" where
  "start_error_text io (Spawn path source) = ''cannot start '' @ path @ '': '' @ io source"
| "start_error_text io (NotFollowing path child) = path @ '' stopped instead of following the journal ('' @ child @ '')''"

definition say :: "string list \<Rightarrow> tail_state \<Rightarrow> tail_state" where
  "say ls st = st\<lparr>tl_said := tl_said st @ ls\<rparr>"

definition gone :: "tail_state \<Rightarrow> tail_state" where
  "gone st = st\<lparr>tl_children := tl_children st - 1\<rparr>"

text \<open>\<open>Child::wait\<close>: an answer means the child has exited.\<close>

definition waited :: "follow_world \<Rightarrow> tail_state \<Rightarrow> tail_state \<times> child_end" where
  "waited w st =
     (case fw_wait w of Inr status \<Rightarrow> (gone st, ChildStatus status) | Inl e \<Rightarrow> (st, Unavailable e))"

text \<open>The guard's \<open>drop\<close>: it waits only after a kill that landed.\<close>

definition guard_drop :: "follow_world \<Rightarrow> tail_state \<Rightarrow> tail_state" where
  "guard_drop w st = (case fw_kill w of Inl _ \<Rightarrow> st | Inr _ \<Rightarrow> fst (waited w st))"

record spawned =
  wn_lines :: "fill list"
  wn_path :: string
  wn_grace :: nat
  wn_max_line_bytes :: nat
  wn_argv :: "string list"

definition journalctl_args :: "journal_config \<Rightarrow> string list" where
  "journalctl_args cfg = [''--follow'', ''--lines=0'', ''--no-pager'', ''--output=cat'', ''--unit'', jc_journal_unit cfg]"

definition journal_spawn :: "journal_config \<Rightarrow> follow_world \<Rightarrow> tail_state \<Rightarrow> tail_state \<times> (start_error, spawned) result" where
  "journal_spawn cfg w st =
     (case fw_spawn w of
        Inl e \<Rightarrow> (st, Err (Spawn (jc_journalctl_path cfg) e))
      | Inr _ \<Rightarrow>
          (st\<lparr>tl_children := tl_children st + 1\<rparr>,
           Ok \<lparr>wn_lines = fw_output w, wn_path = jc_journalctl_path cfg, wn_grace = jc_start_grace cfg,
               wn_max_line_bytes = jc_max_line_bytes cfg, wn_argv = journalctl_args cfg\<rparr>))"

definition spawned_source :: "spawned \<Rightarrow> journal_source" where
  "spawned_source s = \<lparr>js_lines = wn_lines s, js_path = wn_path s, js_max_line_bytes = wn_max_line_bytes s, js_oversized = 0\<rparr>"

text \<open>After the grace: a child that has exited is not following, nor one whose state cannot be had, which is dropped.\<close>

definition confirm_following ::
  "(io_error \<Rightarrow> string) \<Rightarrow> follow_world \<Rightarrow> spawned \<Rightarrow> tail_state \<Rightarrow> tail_state \<times> (start_error, journal_source) result" where
  "confirm_following io w s st =
     (case fw_try_wait w of
        Inr None \<Rightarrow> (st, Ok (spawned_source s))
      | Inr (Some status) \<Rightarrow> (gone st, Err (NotFollowing (wn_path s) (child_end_text io (ChildStatus status))))
      | Inl e \<Rightarrow> (guard_drop w st, Err (NotFollowing (wn_path s) (child_end_text io (Unavailable e)))))"

definition report_oversized :: "journal_source \<Rightarrow> string list" where
  "report_oversized s =
     (if 0 < js_oversized s
      then [WARNING @ decimal (js_oversized s) @ '' trace lines were past max_line_bytes and dropped''] else [])"

definition reap :: "follow_world \<Rightarrow> journal_source \<Rightarrow> tail_state \<Rightarrow> tail_state \<times> child_end" where
  "reap w s st = waited w (say (report_oversized s) st)"

definition stop :: "follow_world \<Rightarrow> journal_source \<Rightarrow> tail_state \<Rightarrow> tail_state \<times> child_end" where
  "stop w s st =
     (let st' = say (report_oversized s) st in
      case fw_kill w of Inr _ \<Rightarrow> waited w st' | Inl e \<Rightarrow> (st', Unavailable e))"

section \<open>Following\<close>

definition stream_ended :: "(io_error \<Rightarrow> string) \<Rightarrow> journal_config \<Rightarrow> child_end \<Rightarrow> string" where
  "stream_ended io cfg e =
     WARNING @ ''the trace line stream from '' @ jc_journal_unit cfg @ '' ended ('' @ child_end_text io e
       @ ''); no lines are collected until it is followed again''"

definition report_totals :: "Log_Tail.drain_state \<Rightarrow> string list" where
  "report_totals d =
     (if 0 < dr_dropped d then [WARNING @ ''the trace-line spool cap dropped '' @ decimal (dr_dropped d) @ '' lines in all''] else [])
     @ (if 0 < dr_reserved d
        then [WARNING @ decimal (dr_reserved d) @ '' node lines carried metsuke's reserved key and were dropped''] else [])
     @ (if 0 < dr_too_big d then [WARNING @ decimal (dr_too_big d) @ '' trace lines were too long for sqlite to store''] else [])"

definition next_stream ::
  "(io_error \<Rightarrow> string) \<Rightarrow> journal_config \<Rightarrow> follow_world \<Rightarrow> journal_source option \<Rightarrow> tail_state
    \<Rightarrow> tail_state \<times> (start_error, journal_source) result" where
  "next_stream io cfg w opened st =
     (case opened of
        Some source \<Rightarrow> (st, Ok source)
      | None \<Rightarrow>
          (case journal_spawn cfg w st of
             (st', Inl e) \<Rightarrow> (st', Err e)
           | (st', Inr s) \<Rightarrow> confirm_following io w s st'))"

text \<open>One turn of the loop; an error is the one \<open>run\<close> returns.\<close>

definition log_round ::
  "(io_error \<Rightarrow> string) \<Rightarrow> json_lib \<Rightarrow> journal_config \<Rightarrow> select_config \<Rightarrow> log_spool \<Rightarrow> follow_world
    \<Rightarrow> journal_source option \<Rightarrow> tail_state \<Rightarrow> (tail_state \<times> spool_error option) option" where
  "log_round io J cfg sel sp w opened st =
     (case next_stream io cfg w opened st of
        (st', Inl e) \<Rightarrow> Some (say [ERR @ ''trace lines not collected: '' @ start_error_text io e] st', None)
      | (st', Inr source) \<Rightarrow>
          Option.bind (drain journal_next_line J (fw_push w) sel sp source (drain_start (tl_db st'))) (\<lambda>(source', d, r).
            let st'' = say (report_totals d) (st'\<lparr>tl_db := dr_db d\<rparr>) in
            case r of
              Inl e \<Rightarrow> Some (guard_drop w st'', Some e)
            | Inr NodeExited \<Rightarrow> (case reap w source' st'' of (s, e) \<Rightarrow> Some (say [stream_ended io cfg e] s, None))
            | Inr SourceFailed \<Rightarrow> (case stop w source' st'' of (s, e) \<Rightarrow> Some (say [stream_ended io cfg e] s, None))))"

text \<open>\<open>run\<close> over the worlds its turns meet; it is still running where they give out.\<close>

fun log_run ::
  "(io_error \<Rightarrow> string) \<Rightarrow> json_lib \<Rightarrow> journal_config \<Rightarrow> select_config \<Rightarrow> log_spool \<Rightarrow> follow_world list
    \<Rightarrow> journal_source option \<Rightarrow> tail_state \<Rightarrow> (tail_state \<times> spool_error option) option" where
  "log_run io J cfg sel sp [] opened st = Some (st, None)"
| "log_run io J cfg sel sp (w # ws) opened st =
     Option.bind (log_round io J cfg sel sp w opened st) (\<lambda>(st', e).
       case e of Some err \<Rightarrow> Some (st', Some err) | None \<Rightarrow> log_run io J cfg sel sp ws None st')"

section \<open>Children\<close>

definition loose :: "follow_world \<Rightarrow> bool" where
  "loose w \<longleftrightarrow> isl (fw_kill w) \<or> isl (fw_wait w)"

lemma said_keeps [simp]: "tl_children (say ls st) = tl_children st" "tl_db (say ls st) = tl_db st"
  "tl_children (gone st) = tl_children st - 1" "tl_db (gone st) = tl_db st"
  by (simp_all add: say_def gone_def)

lemma waited_facts [simp]:
  "tl_db (fst (waited w st)) = tl_db st" "tl_children (fst (waited w st)) = (if isl (fw_wait w) then tl_children st else tl_children st - 1)"
  by (auto simp: waited_def split: sum.split)

lemma guard_drop_facts [simp]:
  "tl_db (guard_drop w st) = tl_db st" "tl_children (guard_drop w st) = (if loose w then tl_children st else tl_children st - 1)"
  by (auto simp: guard_drop_def loose_def split: sum.split)

lemma reap_children: "tl_children (fst (reap w s st)) \<le> (if loose w then tl_children st else tl_children st - 1)"
  by (auto simp: reap_def loose_def split: sum.split)

lemma ended_facts [simp]:
  "tl_db (fst (reap w s st)) = tl_db st" "tl_db (fst (stop w s st)) = tl_db st"
  "tl_children (fst (stop w s st)) = (if loose w then tl_children st else tl_children st - 1)"
  by (auto simp: reap_def stop_def loose_def Let_def split: sum.split)

text \<open>The stream a turn reads, and what it hands over.\<close>

definition turn_source :: "journal_config \<Rightarrow> follow_world \<Rightarrow> journal_source option \<Rightarrow> journal_source option" where
  "turn_source cfg w opened =
     (case opened of
        Some source \<Rightarrow> Some source
      | None \<Rightarrow>
          if isl (fw_spawn w) \<or> fw_try_wait w \<noteq> Inr None then None
          else Some \<lparr>js_lines = fw_output w, js_path = jc_journalctl_path cfg, js_max_line_bytes = jc_max_line_bytes cfg,
                     js_oversized = 0\<rparr>)"

definition hands_over :: "journal_config \<Rightarrow> follow_world \<Rightarrow> journal_source option \<Rightarrow> string list \<Rightarrow> bool" where
  "hands_over cfg w opened ls \<longleftrightarrow>
     (case turn_source cfg w opened of None \<Rightarrow> ls = [] | Some source \<Rightarrow> \<exists>e. streams journal_next_line source ls e)"

definition held :: "journal_source option \<Rightarrow> nat" where
  "held opened = (case opened of None \<Rightarrow> 0 | Some _ \<Rightarrow> 1)"

lemma next_stream_cases:
  assumes "next_stream io cfg w opened st = (st', r)"
  shows "tl_db st' = tl_db st"
    and "\<exists>e. r = Err e \<Longrightarrow> turn_source cfg w opened = None \<and> tl_children st' \<le> tl_children st + (if loose w then 1 else 0)"
    and "r = Ok source \<Longrightarrow> turn_source cfg w opened = Some source \<and> tl_children st' = tl_children st + (1 - held opened)"
  using assms
  by (auto simp: next_stream_def journal_spawn_def confirm_following_def turn_source_def held_def spawned_source_def
      split: option.splits sum.splits if_splits prod.splits)

text \<open>A turn leaves at most the child it read, and that only where it could not be killed or waited for.\<close>

lemma log_round_children:
  assumes "log_round io J cfg sel sp w opened st = Some (st', r)" and "held opened \<le> tl_children st"
  shows "tl_children st' \<le> tl_children st - held opened + (if loose w then 1 else 0)"
proof -
  obtain st1 started_as where next1: "next_stream io cfg w opened st = (st1, started_as)" by fastforce
  show ?thesis
  proof (cases started_as)
    case (Inl e)
    with next1 have "opened = None" by (auto simp: next_stream_def split: option.splits)
    with assms(1) next1 Inl next_stream_cases(2) [OF next1] show ?thesis by (auto simp: log_round_def held_def)
  next
    case (Inr source)
    with next_stream_cases(3) [OF next1, of source] assms(2) have
      c: "tl_children st1 = tl_children st - held opened + 1" by (auto simp: held_def split: option.splits)
    from assms(1) next1 Inr obtain source' d e where
      ended: "(let st'' = say (report_totals d) (st1\<lparr>tl_db := dr_db d\<rparr>) in
            case e of
              Inl e \<Rightarrow> Some (guard_drop w st'', Some e)
            | Inr NodeExited \<Rightarrow> (case reap w source' st'' of (s, e) \<Rightarrow> Some (say [stream_ended io cfg e] s, None))
            | Inr SourceFailed \<Rightarrow> (case stop w source' st'' of (s, e) \<Rightarrow> Some (say [stream_ended io cfg e] s, None)))
        = Some (st', r)"
      by (auto simp: log_round_def bind_eq_Some_conv)
    define st2 where st2: "st2 = say (report_totals d) (st1\<lparr>tl_db := dr_db d\<rparr>)"
    from ended have st': "st' \<in> {guard_drop w st2, say [stream_ended io cfg (snd (reap w source' st2))] (fst (reap w source' st2)),
        say [stream_ended io cfg (snd (stop w source' st2))] (fst (stop w source' st2))}"
      unfolding st2 [symmetric] Let_def by (auto simp: case_prod_beta split: sum.splits drain_end.splits)
    have "tl_children st2 = tl_children st1" by (simp add: st2)
    with c st' reap_children [of w source' st2] show ?thesis by auto
  qed
qed

lemma log_round_quiet:
  assumes "quiet_push (fw_push w)" "\<forall>l. payload_line_trace J l (lsp_provenance sp) = Ok (stamp l)"
  shows "\<exists>st' ls. log_round io J cfg sel sp w opened st = Some (st', None) \<and> hands_over cfg w opened ls
    \<and> table LINES (tl_db st') = fold (\<lambda>l t. fst (push_table (stamp l) (lsp_max_bytes sp) t)) (shipped J sel ls) (table LINES (tl_db st))
    \<and> table SCRAPES (tl_db st') = table SCRAPES (tl_db st) \<and> delivery_counter (tl_db st') = delivery_counter (tl_db st)"
proof -
  obtain st1 started_as where next1: "next_stream io cfg w opened st = (st1, started_as)" by fastforce
  note db = next_stream_cases(1) [OF next1]
  show ?thesis
  proof (cases started_as)
    case (Inl e)
    with next1 next_stream_cases(2) [OF next1] db show ?thesis
      by (auto simp: log_round_def hands_over_def shipped_def List.map_filter_simps)
  next
    case (Inr source)
    note src = next_stream_cases(3) [OF next1 Inr]
    obtain ls e source' where ls: "streams journal_next_line source ls e"
      and drained: "drain journal_next_line J (fw_push w) sel sp source (drain_start (tl_db st1))
        = (case drain_lines J (fw_push w) sel sp ls (drain_start (tl_db st1)) of
             (d, None) \<Rightarrow> Some (source', d, Ok e) | (d, Some err) \<Rightarrow> Some (source', d, Err err))"
      by (rule journal.drain_returns [of source J "fw_push w" sel sp "drain_start (tl_db st1)"]) auto
    obtain d where d: "drain_lines J (fw_push w) sel sp ls (drain_start (tl_db st1)) = (d, None)"
      "table LINES (dr_db d) = fold (\<lambda>l t. fst (push_table (stamp l) (lsp_max_bytes sp) t)) (shipped J sel ls) (table LINES (tl_db st1))"
      "table SCRAPES (dr_db d) = table SCRAPES (tl_db st1)" "delivery_counter (dr_db d) = delivery_counter (tl_db st1)"
      using drain_lines_quiet [OF assms, of sel ls "drain_start (tl_db st1)"] by (auto simp: drain_start_def)
    have "\<exists>st'. log_round io J cfg sel sp w opened st = Some (st', None) \<and> tl_db st' = dr_db d"
      using next1 Inr drained d(1) by (cases e) (simp_all add: log_round_def Let_def case_prod_beta)
    moreover have "hands_over cfg w opened ls" using ls src by (auto simp: hands_over_def)
    ultimately show ?thesis using d(2-) db by metis
  qed
qed

lemma log_run_children:
  "log_run io J cfg sel sp ws opened st = Some (st', r) \<Longrightarrow> held opened \<le> tl_children st \<Longrightarrow> ws \<noteq> [] \<Longrightarrow>
    tl_children st' \<le> tl_children st - held opened + length (filter loose ws)"
proof (induction ws arbitrary: opened st)
  case (Cons w ws)
  then obtain st1 e where round1: "log_round io J cfg sel sp w opened st = Some (st1, e)"
    and rest: "(case e of Some err \<Rightarrow> Some (st1, Some err) | None \<Rightarrow> log_run io J cfg sel sp ws None st1) = Some (st', r)"
    by (auto simp: bind_eq_Some_conv)
  note c = log_round_children [OF round1 Cons.prems(2)]
  show ?case
  proof (cases "e = None \<and> ws \<noteq> []")
    case True
    with rest Cons.IH [of None st1] have "tl_children st' \<le> tl_children st1 + length (filter loose ws)" by (simp add: held_def)
    with c show ?thesis by auto
  next
    case False
    with rest have "st' = st1" by (cases e) auto
    with c show ?thesis by auto
  qed
qed simp

lemma log_run_quiet:
  assumes "\<forall>l. payload_line_trace J l (lsp_provenance sp) = Ok (stamp l)"
  shows "list_all (\<lambda>w. quiet_push (fw_push w)) ws \<Longrightarrow>
    \<exists>st' lss. log_run io J cfg sel sp ws opened st = Some (st', None)
      \<and> length lss = length ws
      \<and> (\<forall>i < length ws. hands_over cfg (ws ! i) (if i = 0 then opened else None) (lss ! i))
      \<and> table LINES (tl_db st') = fold (\<lambda>l t. fst (push_table (stamp l) (lsp_max_bytes sp) t)) (shipped J sel (concat lss)) (table LINES (tl_db st))
      \<and> table SCRAPES (tl_db st') = table SCRAPES (tl_db st) \<and> delivery_counter (tl_db st') = delivery_counter (tl_db st)"
proof (induction ws arbitrary: opened st)
  case Nil
  then show ?case by (simp add: shipped_def List.map_filter_simps)
next
  case (Cons w ws)
  then have "quiet_push (fw_push w)" by simp
  from log_round_quiet [OF this assms] obtain st1 ls where
    one: "log_round io J cfg sel sp w opened st = Some (st1, None)" "hands_over cfg w opened ls"
    "table LINES (tl_db st1) = fold (\<lambda>l t. fst (push_table (stamp l) (lsp_max_bytes sp) t)) (shipped J sel ls) (table LINES (tl_db st))"
    "table SCRAPES (tl_db st1) = table SCRAPES (tl_db st)" "delivery_counter (tl_db st1) = delivery_counter (tl_db st)" by blast
  from Cons.IH [of None st1] Cons.prems obtain st' lss where
    rest: "log_run io J cfg sel sp ws None st1 = Some (st', None)" "length lss = length ws"
    "\<forall>i < length ws. hands_over cfg (ws ! i) None (lss ! i)"
    "table LINES (tl_db st') = fold (\<lambda>l t. fst (push_table (stamp l) (lsp_max_bytes sp) t)) (shipped J sel (concat lss)) (table LINES (tl_db st1))"
    "table SCRAPES (tl_db st') = table SCRAPES (tl_db st1)" "delivery_counter (tl_db st') = delivery_counter (tl_db st1)"
    by auto
  have "\<forall>i < length (w # ws). hands_over cfg ((w # ws) ! i) (if i = 0 then opened else None) ((ls # lss) ! i)"
    using one(2) rest(3) by (auto simp: nth_Cons split: nat.split)
  moreover have "shipped J sel (concat (ls # lss)) = shipped J sel ls @ shipped J sel (concat lss)"
    by (simp add: shipped_def map_filter_def)
  ultimately show ?case using one rest by (intro exI [of _ st'] exI [of _ "ls # lss"]) simp
qed

section \<open>Properties\<close>

text \<open>
  C34: Following survives its child. However often \<open>journalctl\<close> dies, is refused or cannot be started, the thread goes
  on, and the spool comes to hold exactly the selected lines of what every stream handed over, in order, under its
  cap, with nothing else in the file touched; and of the children started, no more are still running than there were
  turns whose child could not be killed or waited for, so two never follow the unit where the system does as it is told.
\<close>

theorem following_survives:
  assumes stamps: "\<forall>l. payload_line_trace J l (lsp_provenance sp) = Ok (stamp l)"
    and quiet: "list_all (\<lambda>w. quiet_push (fw_push w)) ws" and turns: "ws \<noteq> []"
  shows "\<exists>st' lss. log_run io J cfg sel sp ws (Some first) \<lparr>tl_db = db, tl_children = 1, tl_said = []\<rparr> = Some (st', None)
    \<and> length lss = length ws
    \<and> (\<forall>i < length ws. hands_over cfg (ws ! i) (if i = 0 then Some first else None) (lss ! i))
    \<and> table LINES (tl_db st') = fold (\<lambda>l t. fst (push_table (stamp l) (lsp_max_bytes sp) t)) (shipped J sel (concat lss)) (table LINES db)
    \<and> table SCRAPES (tl_db st') = table SCRAPES db \<and> delivery_counter (tl_db st') = delivery_counter db
    \<and> tl_children st' \<le> length (filter loose ws)"
proof -
  let ?st = "\<lparr>tl_db = db, tl_children = 1, tl_said = []\<rparr>"
  from log_run_quiet [OF stamps quiet, of io cfg sel "Some first" ?st] obtain st' lss where
    went: "log_run io J cfg sel sp ws (Some first) ?st = Some (st', None)" "length lss = length ws"
    "\<forall>i < length ws. hands_over cfg (ws ! i) (if i = 0 then Some first else None) (lss ! i)"
    "table LINES (tl_db st') = fold (\<lambda>l t. fst (push_table (stamp l) (lsp_max_bytes sp) t)) (shipped J sel (concat lss)) (table LINES db)"
    "table SCRAPES (tl_db st') = table SCRAPES db" "delivery_counter (tl_db st') = delivery_counter db"
    by auto
  from log_run_children [OF went(1) _ turns] have "tl_children st' \<le> length (filter loose ws)" by (simp add: held_def)
  with went show ?thesis by blast
qed

section \<open>Witness\<close>

text \<open>A stream that ends, a \<open>journalctl\<close> the journal refuses, and a stream that is read again.\<close>

definition demo_follow :: "(io_error, string option) result \<Rightarrow> fill list \<Rightarrow> follow_world" where
  "demo_follow tried out = \<lparr>fw_spawn = Ok (), fw_try_wait = tried, fw_output = out, fw_kill = Ok (), fw_wait = Ok ''exit status: 1'',
     fw_push = demo_push\<rparr>"

theorem following_survives_witness:
  "\<exists>st'. log_run (\<lambda>_. []) line_json \<lparr>jc_journal_unit = ''node'', jc_journalctl_path = ''journalctl'', jc_start_grace = 1, jc_max_line_bytes = 5\<rparr>
      \<lparr>sel_namespaces = [''a''], sel_excludes = []\<rparr> \<lparr>lsp_max_bytes = 9, lsp_provenance = \<lparr>pv_pool = PoolId [], pv_agent = ''x''\<rparr>\<rparr>
      [demo_follow (Ok None) [], demo_follow (Ok (Some ''exit status: 1'')) [], demo_follow (Ok None) [Filled [CHR ''a'', newline]]]
      (Some \<lparr>js_lines = [], js_path = ''journalctl'', js_max_line_bytes = 5, js_oversized = 0\<rparr>)
      \<lparr>tl_db = fresh_db, tl_children = 1, tl_said = []\<rparr> = Some (st', None)
    \<and> tl_children st' = 0"
  using following_survives [of line_json "\<lparr>lsp_max_bytes = 9, lsp_provenance = \<lparr>pv_pool = PoolId [], pv_agent = ''x''\<rparr>\<rparr>" "\<lambda>_. PayloadLine ''o''"
      "[demo_follow (Ok None) [], demo_follow (Ok (Some ''exit status: 1'')) [], demo_follow (Ok None) [Filled [CHR ''a'', newline]]]"
      "\<lambda>_. []" "\<lparr>jc_journal_unit = ''node'', jc_journalctl_path = ''journalctl'', jc_start_grace = 1, jc_max_line_bytes = 5\<rparr>"
      "\<lparr>sel_namespaces = [''a''], sel_excludes = []\<rparr>" "\<lparr>js_lines = [], js_path = ''journalctl'', js_max_line_bytes = 5, js_oversized = 0\<rparr>" fresh_db]
  by (auto simp: demo_follow_def loose_def quiet_push_def demo_push_def payload_line_trace_def line_json_def)

end
