(* ===== verification/Spool_File.thy ===== *)
theory Spool_File
  imports Spool_Client Migrate
begin

text \<open>
  \<open>open_spool\<close> of \<open>metsuke/src/spool.rs\<close>: the directory, the file and its modes, WAL, and the migrations. The
  file system is the modes of its paths; creating directories, \<open>symlink_metadata\<close>, a refused \<open>chmod\<close> and
  what SQLite does to files on opening and on the pragma are arguments (\<open>open_world\<close>). The content is the
  connection of \<open>Migrate\<close> over the schema's versions.
\<close>

section \<open>The schema's versions\<close>

text \<open>Version 1 has no \<open>stream_bytes\<close>: the totals of its tables mean nothing.\<close>

datatype spool_schema = NoSchema | Schema1 spool_db | Schema2 spool_db

definition migration_to_1 :: "spool_schema migration" where
  "migration_to_1 s =
     (case s of NoSchema \<Rightarrow> Ok (Schema1 fresh_db, 1) | _ \<Rightarrow> Err ''table scrapes already exists'')"

definition migration_to_2 :: "spool_schema migration" where
  "migration_to_2 s =
     (case s of
        NoSchema \<Rightarrow> Err ''no such table: scrapes''
      | Schema1 db \<Rightarrow> Ok (Schema2 (migration_2 db), 2)
      | Schema2 _ \<Rightarrow> Err ''table stream_bytes already exists'')"

definition MIGRATIONS :: "spool_schema migration list" where
  "MIGRATIONS = [migration_to_1, migration_to_2]"

section \<open>Opening\<close>

type_synonym modes = "string \<Rightarrow> nat option"

definition mode_600 :: nat where "mode_600 = 6 * 8 * 8"

text \<open>No bit for the group or anybody else.\<close>

definition private_mode :: "nat \<Rightarrow> bool" where
  "private_mode b \<longleftrightarrow> b mod 64 = 0"

datatype mkdir_error = AlreadyExists | OtherMkdir string

datatype file_kind = SymlinkKind | FileKind | OtherKind

datatype spool_open_error =
    DirectoryFailed string string
  | DirectoryUnusable string string
  | ModeFailed string string
  | OpenSqlite string
  | OpenMigrate migrate_error

record open_world =
  ow_mkdir :: "string \<Rightarrow> modes \<Rightarrow> modes \<times> (mkdir_error, unit) result"
  ow_lstat :: "string \<Rightarrow> file_kind option"
  ow_connect :: "string \<Rightarrow> modes \<Rightarrow> modes \<times> (string, unit) result"
  ow_chmod_fails :: "string \<Rightarrow> string option"
  ow_busy_timeout :: "string option"
  ow_wal :: "string \<Rightarrow> modes \<Rightarrow> modes \<times> (string, unit) result"
  ow_faults :: faults

record spool_disk =
  sk_modes :: modes
  sk_conn :: "spool_schema connection"

definition spool_parent :: "string \<Rightarrow> string option" where
  "spool_parent p = map_option (\<lambda>(d, _). if d = [] then ''/'' else d) (rsplit_once (CHR ''/'') p)"

definition unusable_kind :: "file_kind option \<Rightarrow> string" where
  "unusable_kind k =
     (case k of
        Some SymlinkKind \<Rightarrow> ''a symlink this user cannot follow''
      | Some FileKind \<Rightarrow> ''a file''
      | Some OtherKind \<Rightarrow> ''a directory this user cannot use''
      | None \<Rightarrow> ''something this user cannot read'')"

definition spool_directory :: "open_world \<Rightarrow> string \<Rightarrow> modes \<Rightarrow> modes \<times> (spool_open_error, unit) result" where
  "spool_directory W p m =
     (case spool_parent p of
        None \<Rightarrow> (m, Ok ())
      | Some directory \<Rightarrow>
          (case ow_mkdir W directory m of
             (m', Inr _) \<Rightarrow> (m', Ok ())
           | (m', Inl AlreadyExists) \<Rightarrow> (m', Err (DirectoryUnusable directory (unusable_kind (ow_lstat W directory))))
           | (m', Inl (OtherMkdir e)) \<Rightarrow> (m', Err (DirectoryFailed directory e))))"

text \<open>\<open>set_permissions\<close> of 0600: the \<open>None\<close> of the error is a path that is not there.\<close>

definition set_600 :: "open_world \<Rightarrow> string \<Rightarrow> modes \<Rightarrow> modes \<times> (string option, unit) result" where
  "set_600 W p m =
     (case m p of
        None \<Rightarrow> (m, Err None)
      | Some _ \<Rightarrow> (case ow_chmod_fails W p of Some e \<Rightarrow> (m, Err (Some e)) | None \<Rightarrow> (m(p \<mapsto> mode_600), Ok ())))"

definition restrict :: "open_world \<Rightarrow> string \<Rightarrow> modes \<Rightarrow> modes \<times> (spool_open_error, unit) result" where
  "restrict W p m =
     (case set_600 W p m of
        (m', Inr _) \<Rightarrow> (m', Ok ())
      | (m', Inl e) \<Rightarrow> (m', Err (ModeFailed p (case e of None \<Rightarrow> ''No such file or directory'' | Some t \<Rightarrow> t))))"

definition SIDECARS :: "string list" where "SIDECARS = [''-wal'', ''-shm'']"

fun restrict_sidecars :: "open_world \<Rightarrow> string \<Rightarrow> string list \<Rightarrow> modes \<Rightarrow> modes \<times> (spool_open_error, unit) result" where
  "restrict_sidecars W p [] m = (m, Ok ())"
| "restrict_sidecars W p (suffix # rest) m =
     (case set_600 W (p @ suffix) m of
        (m', Inl (Some e)) \<Rightarrow> (m', Err (ModeFailed (p @ suffix) e))
      | (m', _) \<Rightarrow> restrict_sidecars W p rest m')"

text \<open>A step on the modes alone, and the next step where it went well.\<close>

definition on_modes ::
  "(modes \<Rightarrow> modes \<times> ('e, unit) result) \<Rightarrow> ('e \<Rightarrow> spool_open_error)
    \<Rightarrow> (spool_disk \<Rightarrow> spool_disk \<times> (spool_open_error, unit) result) \<Rightarrow> spool_disk \<Rightarrow> spool_disk \<times> (spool_open_error, unit) result" where
  "on_modes step conv go d =
     (case step (sk_modes d) of
        (m, Inl e) \<Rightarrow> (d\<lparr>sk_modes := m\<rparr>, Err (conv e))
      | (m, Inr _) \<Rightarrow> go (d\<lparr>sk_modes := m\<rparr>))"

definition migrate_spool :: "open_world \<Rightarrow> spool_disk \<Rightarrow> spool_disk \<times> (spool_open_error, unit) result" where
  "migrate_spool W d =
     (case migrate (ow_faults W) MIGRATIONS (sk_conn d) of
        (c, Inl e) \<Rightarrow> (d\<lparr>sk_conn := c\<rparr>, Err (OpenMigrate e))
      | (c, Inr _) \<Rightarrow> (d\<lparr>sk_conn := c\<rparr>, Ok ()))"

definition open_spool :: "open_world \<Rightarrow> string \<Rightarrow> spool_disk \<Rightarrow> spool_disk \<times> (spool_open_error, unit) result" where
  "open_spool W p =
     on_modes (spool_directory W p) id
    (on_modes (ow_connect W p) OpenSqlite
    (on_modes (restrict W p) id
    (on_modes (\<lambda>m. (m, case ow_busy_timeout W of None \<Rightarrow> Ok () | Some e \<Rightarrow> Err e)) OpenSqlite
    (on_modes (ow_wal W p) OpenSqlite
    (on_modes (restrict_sidecars W p SIDECARS) id (migrate_spool W))))))"

record spool_config =
  spc_path :: string
  spc_max_bytes :: nat
  spc_provenance :: provenance

definition spool_open :: "open_world \<Rightarrow> spool_config \<Rightarrow> spool_disk \<Rightarrow> spool_disk \<times> (spool_open_error, spool) result" where
  "spool_open W cfg d =
     (case open_spool W (spc_path cfg) d of
        (d', Inl e) \<Rightarrow> (d', Err e)
      | (d', Inr _) \<Rightarrow>
          (d', Ok \<lparr>sp_max_bytes = spc_max_bytes cfg, sp_provenance = spc_provenance cfg, sp_uncarriable = no_uncarriable\<rparr>))"

definition log_spool_open :: "open_world \<Rightarrow> spool_config \<Rightarrow> spool_disk \<Rightarrow> spool_disk \<times> (spool_open_error, log_spool) result" where
  "log_spool_open W cfg d =
     (case open_spool W (spc_path cfg) d of
        (d', Inl e) \<Rightarrow> (d', Err e)
      | (d', Inr _) \<Rightarrow> (d', Ok \<lparr>lsp_max_bytes = spc_max_bytes cfg, lsp_provenance = spc_provenance cfg\<rparr>))"

section \<open>What the system documents\<close>

text \<open>
  A recursive create makes what is missing with the mode asked for and leaves what is there. SQLite creates the
  file it is given and, on the pragma, its sidecars with the mode the file has.
\<close>

abbreviation sidecars :: "string \<Rightarrow> string set" where
  "sidecars p \<equiv> (\<lambda>s. p @ s) ` set SIDECARS"

definition files_documented :: "open_world \<Rightarrow> string \<Rightarrow> bool" where
  "files_documented W p \<longleftrightarrow>
     (\<forall>d m m' r q. spool_parent p = Some d \<longrightarrow> ow_mkdir W d m = (m', r) \<longrightarrow> m' q = m q \<or> m q = None \<and> (\<exists>b. m' q = Some b \<and> private_mode b) \<and> q \<notin> sidecars p)
     \<and> (\<forall>m m' r. ow_connect W p m = (m', r) \<longrightarrow> (\<forall>q. q \<noteq> p \<longrightarrow> m' q = m q))
     \<and> (\<forall>m m' r q. ow_wal W p m = (m', r) \<longrightarrow> m' q = m q \<or> q \<in> sidecars p \<and> m q = None \<and> m' q = m p)"

text \<open>The content fits its version.\<close>

definition rows_ok :: "stream_table \<Rightarrow> bool" where
  "rows_ok t \<longleftrightarrow> sorted_wrt (<) (map r_id (t_rows t)) \<and> (\<forall>r \<in> set (t_rows t). row_wf r \<and> r_id r \<le> t_last_id t)"

definition schema_sound :: "spool_schema connection \<Rightarrow> bool" where
  "schema_sound c \<longleftrightarrow>
     (case tables c of
        NoSchema \<Rightarrow> user_version c = 0
      | Schema1 db \<Rightarrow> user_version c = 1 \<and> rows_ok (table SCRAPES db) \<and> rows_ok (table LINES db)
      | Schema2 db \<Rightarrow> user_version c = 2 \<and> spool_inv db)"

text \<open>The rows a file of any version holds, and the counter.\<close>

fun held_rows :: "stream \<Rightarrow> spool_schema \<Rightarrow> row list" where
  "held_rows s NoSchema = []"
| "held_rows s (Schema1 db) = t_rows (table s db)"
| "held_rows s (Schema2 db) = t_rows (table s db)"

section \<open>Modes\<close>

definition kept_private :: "string \<Rightarrow> modes \<Rightarrow> modes \<Rightarrow> bool" where
  "kept_private p m0 m \<longleftrightarrow>
     (\<forall>q. q \<noteq> p \<longrightarrow> m q = m0 q \<or> (m0 q = None \<and> (\<exists>b. m q = Some b \<and> private_mode b)) \<or> q \<in> sidecars p \<and> m q = Some mode_600)"

lemma sidecar_apart: "q \<in> sidecars p \<Longrightarrow> q \<noteq> p"
  by (auto simp: SIDECARS_def)

lemma set_600_only: "set_600 W q m = (m', r) \<Longrightarrow> m' = m \<or> m' = m(q \<mapsto> mode_600)"
  "set_600 W q m = (m', Ok ()) \<Longrightarrow> m' q = Some mode_600"
  "set_600 W q m = (m', Err None) \<Longrightarrow> m' = m \<and> m q = None"
  by (auto simp: set_600_def split: option.splits)

lemma restrict_kept:
  "restrict W p m = (m', r) \<Longrightarrow> kept_private p m0 m \<Longrightarrow> kept_private p m0 m' \<and> (r = Ok () \<longrightarrow> m' p = Some mode_600)"
proof -
  assume did: "restrict W p m = (m', r)" and kept: "kept_private p m0 m"
  obtain m1 r1 where one: "set_600 W p m = (m1, r1)" by fastforce
  with did have m1: "m' = m1" "r = Ok () \<Longrightarrow> r1 = Ok ()" by (auto simp: restrict_def split: sum.splits)
  have "kept_private p m0 m'" using set_600_only(1) [OF one] kept m1(1) by (auto simp: kept_private_def)
  moreover have "r = Ok () \<Longrightarrow> m' p = Some mode_600" using m1 one set_600_only(2) by metis
  ultimately show ?thesis by blast
qed

lemma directory_kept: "files_documented W p \<Longrightarrow> spool_directory W p m = (m', r) \<Longrightarrow> kept_private p m m'"
  unfolding files_documented_def kept_private_def
  by (auto simp: spool_directory_def split: option.splits prod.splits sum.splits mkdir_error.splits)

lemma connect_kept: "files_documented W p \<Longrightarrow> ow_connect W p m = (m', r) \<Longrightarrow> kept_private p m0 m \<Longrightarrow> kept_private p m0 m'"
  unfolding files_documented_def kept_private_def by metis

lemma wal_kept:
  assumes "files_documented W p" "ow_wal W p m = (m', r)" "kept_private p m0 m" "m p = Some mode_600"
  shows "kept_private p m0 m' \<and> m' p = Some mode_600"
proof -
  have moved: "m' q = m q \<or> q \<in> sidecars p \<and> m' q = Some mode_600" for q
    using assms(1,2,4) unfolding files_documented_def by metis
  have "m' p = m p" using moved [of p] sidecar_apart by blast
  moreover have "kept_private p m0 m'"
    unfolding kept_private_def
  proof (intro allI impI)
    fix q assume "q \<noteq> p"
    with assms(3) moved [of q] show "m' q = m0 q \<or> (m0 q = None \<and> (\<exists>b. m' q = Some b \<and> private_mode b)) \<or> q \<in> sidecars p \<and> m' q = Some mode_600"
      unfolding kept_private_def by metis
  qed
  ultimately show ?thesis using assms(4) by simp
qed

lemma restrict_sidecars_facts:
  "restrict_sidecars W p ss m = (m', r) \<Longrightarrow> set ss \<subseteq> set SIDECARS \<Longrightarrow>
    (\<forall>q. m' q = m q \<or> q \<in> sidecars p \<and> m' q = Some mode_600)
    \<and> (r = Ok () \<longrightarrow> (\<forall>s \<in> set ss. m' (p @ s) \<in> {None, Some mode_600}))"
proof (induction ss arbitrary: m)
  case (Cons s ss)
  obtain m1 r1 where one: "set_600 W (p @ s) m = (m1, r1)" by fastforce
  have m1: "m1 q = m q \<or> q \<in> sidecars p \<and> m1 q = Some mode_600" for q
    using set_600_only(1) [OF one] Cons.prems(2) by (cases "q = p @ s") auto
  show ?case
  proof (cases "\<exists>e. r1 = Err (Some e)")
    case True
    with one Cons.prems(1) have "m' = m1" "r \<noteq> Ok ()" by auto
    with m1 show ?thesis by blast
  next
    case False
    with one Cons.prems(1) have rest: "restrict_sidecars W p ss m1 = (m', r)" by (auto split: sum.splits option.splits)
    from False one have here: "m1 (p @ s) \<in> {None, Some mode_600}"
      using set_600_only(2,3) [of W "p @ s" m m1] by (cases r1) auto
    note ih = Cons.IH [OF rest]
    have "m' q = m q \<or> q \<in> sidecars p \<and> m' q = Some mode_600" for q using ih m1 [of q] Cons.prems(2) by (metis set_subset_Cons subset_trans)
    moreover have "m' (p @ s) \<in> {None, Some mode_600}" using ih here Cons.prems(2) by (metis insertCI set_subset_Cons subset_trans)
    ultimately show ?thesis using ih Cons.prems(2) by auto
  qed
qed simp

lemma sidecars_kept:
  assumes "restrict_sidecars W p SIDECARS m = (m', r)" "kept_private p m0 m" "m p = Some mode_600"
  shows "kept_private p m0 m' \<and> m' p = Some mode_600 \<and> (r = Ok () \<longrightarrow> (\<forall>q \<in> sidecars p. m' q \<in> {None, Some mode_600}))"
proof -
  note facts = restrict_sidecars_facts [OF assms(1) subset_refl]
  have "m' p = m p" using facts sidecar_apart by blast
  moreover have "kept_private p m0 m'" using facts assms(2) unfolding kept_private_def by metis
  ultimately show ?thesis using facts assms(3) by auto
qed

section \<open>Content\<close>

lemma migrated:
  assumes "schema_sound c" and "migrate f MIGRATIONS c = (c', r)"
  shows "schema_sound c' \<and> (\<forall>s. held_rows s (tables c') = held_rows s (tables c)) \<and> (\<forall>as. r = Ok as \<longrightarrow> user_version c' = 2)"
proof -
  have inv: "spool_inv (migration_2 db)" if "rows_ok (table SCRAPES db)" "rows_ok (table LINES db)" for db
    by (rule migration_2_inv) (use that in \<open>auto simp: rows_ok_def elim: stream.exhaust, (case_tac s; simp)+\<close>)
  have rows: "t_rows (table s (migration_2 db)) = t_rows (table s db)" for s db
    by (cases s) (simp_all add: migration_2_def seed_total_def)
  have fresh: "rows_ok (table SCRAPES fresh_db)" "rows_ok (table LINES fresh_db)" "t_rows (table s fresh_db) = []" for s
    by (cases s; simp add: rows_ok_def fresh_db_def empty_table_def)+
  show ?thesis
    using assms inv rows fresh
    by (cases "tables c")
      (auto simp: schema_sound_def migrate_def MIGRATIONS_def run_migration_def migration_to_1_def migration_to_2_def Let_def
        numeral_2_eq_2 split: option.splits if_splits sum.splits prod.splits)
qed

section \<open>One step after the other\<close>

definition outcome :: "string \<Rightarrow> spool_disk \<Rightarrow> spool_disk \<Rightarrow> (spool_open_error, unit) result \<Rightarrow> bool" where
  "outcome p d0 d' r \<longleftrightarrow>
     kept_private p (sk_modes d0) (sk_modes d')
     \<and> schema_sound (sk_conn d') \<and> (\<forall>s. held_rows s (tables (sk_conn d')) = held_rows s (tables (sk_conn d0)))
     \<and> (r = Ok () \<longrightarrow> sk_modes d' p = Some mode_600 \<and> (\<forall>q \<in> sidecars p. sk_modes d' q \<in> {None, Some mode_600})
          \<and> (\<exists>db. tables (sk_conn d') = Schema2 db \<and> spool_inv db))"

definition leads ::
  "string \<Rightarrow> spool_disk \<Rightarrow> (modes \<Rightarrow> bool) \<Rightarrow> (spool_disk \<Rightarrow> spool_disk \<times> (spool_open_error, unit) result) \<Rightarrow> bool" where
  "leads p d0 P go \<longleftrightarrow> (\<forall>d d' r. P (sk_modes d) \<longrightarrow> sk_conn d = sk_conn d0 \<longrightarrow> go d = (d', r) \<longrightarrow> outcome p d0 d' r)"

lemma leads_step:
  assumes "schema_sound (sk_conn d0)"
    and "\<And>m m' x. P m \<Longrightarrow> step m = (m', x) \<Longrightarrow> kept_private p (sk_modes d0) m' \<and> (x = Ok () \<longrightarrow> P' m')"
    and "leads p d0 P' go"
  shows "leads p d0 P (on_modes step conv go)"
  unfolding leads_def
proof (intro allI impI)
  fix d d' :: spool_disk and r
  assume d: "P (sk_modes d)" "sk_conn d = sk_conn d0" and went: "on_modes step conv go d = (d', r)"
  obtain m x where x: "step (sk_modes d) = (m, x)" by fastforce
  note m = assms(2) [OF d(1) x]
  show "outcome p d0 d' r"
  proof (cases x)
    case (Inl e)
    with went x have "d' = d\<lparr>sk_modes := m\<rparr>" "r = Err (conv e)" by (auto simp: on_modes_def)
    with m d(2) assms(1) show ?thesis by (simp add: outcome_def)
  next
    case (Inr u)
    with went x have "go (d\<lparr>sk_modes := m\<rparr>) = (d', r)" by (simp add: on_modes_def)
    moreover have "P' (sk_modes (d\<lparr>sk_modes := m\<rparr>))" using m Inr by simp
    ultimately show ?thesis using assms(3) d(2) unfolding leads_def by (metis spool_disk.select_convs(2) spool_disk.surjective spool_disk.update_convs(1))
  qed
qed

lemma open_spool_leads:
  assumes docs: "files_documented W p" and sound: "schema_sound (sk_conn d0)"
  shows "leads p d0 (\<lambda>m. m = sk_modes d0) (open_spool W p)"
proof -
  let ?kept = "kept_private p (sk_modes d0)"
  let ?ours = "\<lambda>m. ?kept m \<and> m p = Some mode_600"
  let ?closed = "\<lambda>m. ?ours m \<and> (\<forall>q \<in> sidecars p. m q \<in> {None, Some mode_600})"
  let ?busy = "\<lambda>m. (m, case ow_busy_timeout W of None \<Rightarrow> Ok () | Some e \<Rightarrow> Err e)"
  note step = leads_step [OF sound, rotated]
  have "outcome p d0 d' r" if d: "?closed (sk_modes d)" "sk_conn d = sk_conn d0" and went: "migrate_spool W d = (d', r)" for d d' r
  proof -
    obtain c x where c: "migrate (ow_faults W) MIGRATIONS (sk_conn d0) = (c, x)" by fastforce
    note facts = migrated [OF sound c]
    from went c d(2) have d': "d' = d\<lparr>sk_conn := c\<rparr>" "r = Ok () \<longrightarrow> (\<exists>as. x = Ok as)"
      by (auto simp: migrate_spool_def split: sum.splits)
    have "\<exists>db. tables c = Schema2 db \<and> spool_inv db" if "user_version c = 2"
      using facts that by (cases "tables c") (auto simp: schema_sound_def)
    with d d' facts show ?thesis by (auto simp: outcome_def)
  qed
  then have "leads p d0 ?closed (migrate_spool W)" unfolding leads_def by blast
  then have "leads p d0 ?ours (on_modes (restrict_sidecars W p SIDECARS) id (migrate_spool W))" (is "leads _ _ _ ?tightened")
    by (rule step) (elim conjE, drule (2) sidecars_kept, simp)
  then have "leads p d0 ?ours (on_modes (ow_wal W p) OpenSqlite ?tightened)" (is "leads _ _ _ ?logged")
    by (rule step) (use wal_kept [OF docs] in blast)
  then have "leads p d0 ?ours (on_modes ?busy OpenSqlite ?logged)" (is "leads _ _ _ ?waiting")
    by (rule step) simp
  then have "leads p d0 ?kept (on_modes (restrict W p) id ?waiting)" (is "leads _ _ _ ?restricted")
    by (rule step) (use restrict_kept in blast)
  then have "leads p d0 ?kept (on_modes (ow_connect W p) OpenSqlite ?restricted)"
    by (rule step) (use connect_kept [OF docs] in blast)
  then show ?thesis
    unfolding open_spool_def by (rule step) (use directory_kept [OF docs] in blast)
qed

section \<open>Properties\<close>


section \<open>Witness\<close>

text \<open>A spool of the first schema, left at 0644 with a \<open>-wal\<close> an unclean exit kept.\<close>

definition demo_open :: open_world where
  "demo_open =
     \<lparr>ow_mkdir = (\<lambda>d m. (if m d = None then m(d \<mapsto> 7 * 8 * 8) else m, Ok ())), ow_lstat = (\<lambda>_. None),
      ow_connect = (\<lambda>p m. (if m p = None then m(p \<mapsto> 6 * 64 + 4 * 8 + 4) else m, Ok ())),
      ow_chmod_fails = (\<lambda>_. None), ow_busy_timeout = None,
      ow_wal = (\<lambda>p m. (if m (p @ ''-wal'') = None then m(p @ ''-wal'' := m p) else m, Ok ())), ow_faults = (\<lambda>_. None)\<rparr>"

definition demo_left :: spool_disk where
  "demo_left =
     \<lparr>sk_modes = [''/var/spool.db'' \<mapsto> 6 * 64 + 4 * 8 + 4, ''/var/spool.db-wal'' \<mapsto> 6 * 64 + 4 * 8 + 4, ''/var'' \<mapsto> 7 * 64 + 5 * 8 + 5],
      sk_conn = \<lparr>user_version = 1, tables = Schema1 (fresh_db\<lparr>log_lines_table :=
        \<lparr>t_rows = [\<lparr>r_id = 1, r_text = ''aa'', r_bytes = 3\<rparr>], t_last_id = 1, t_total = 0\<rparr>\<rparr>), total_changes = 0\<rparr>\<rparr>"


end
