(* ===== verification/Spec2Isabelle.thy ===== *)
theory Spec2Isabelle
  imports Hex Agent_Id Sealing Http_Client Object_Key Migrate Spool_Client Schedule Agent_Laws Log_Tail Intake_Laws S3_Served Serve_Laws Agent_Started Fetch_Laws Server_Started Log_Run Spool_File
begin

text \<open>
  Metsuke collects metrics and trace lines from Cardano stake pools. An agent (\<open>crates/metsuke\<close>) scrapes
  its node and tails its logs into a SQLite spool, seals what is spooled into signed envelopes and posts
  them; a server (\<open>crates/metsuke-server\<close>) proves each upload, files it in an archive under a key that
  names its pool, agent, day and kind, and lets accounts list and read the archive; a developer's client
  (\<open>crates/metsuke-fetch\<close>) syncs the archive to a directory. What the three share is \<open>crates/metsuke-wire\<close>.
  A definition bears the name of the item it models; where two files use one name, or HOL has it already,
  it bears a prefix (\<open>Spool::push\<close> is \<open>spool_push\<close>). Record fields have the source's field names behind a
  prefix per record, results are \<open>Inl\<close> of the error or \<open>Inr\<close> of the value, and an operation on
  state takes it and returns it.

  The wire (\<open>metsuke-wire/src\<close>). \<open>Hex\<close>: \<open>hex.rs\<close>. \<open>Agent_Id\<close>, \<open>Pool_Id\<close>, \<open>Codec\<close>, \<open>Envelope\<close>, \<open>Sealing\<close>,
  \<open>Json\<close>: \<open>envelope.rs\<close>, its identifiers, payloads and framing, seal and open. \<open>Leios\<close>, \<open>Attestation\<close>: \<open>leios.rs\<close>
  and \<open>key.rs\<close>. \<open>Object_Key\<close>: the key an object is filed under. \<open>Http_Client\<close>: \<open>http.rs\<close>. \<open>Migrate\<close>: \<open>sqlite.rs\<close>.
  The properties: what is sealed opens to itself, what opens was signed, is framed within the limits and
  carries only lines stamped by its sender; keys, ids and headers are read back as they were written.

  The agent (\<open>metsuke/src\<close>). \<open>Spool\<close>, \<open>Spool_Laws\<close>, \<open>Spool_Client\<close>: \<open>spool.rs\<close>, tables of rows with their
  totals; every operation keeps the totals, and a row leaves only by an acknowledgement, at the cap, or
  as an oversized head. \<open>Spool_File\<close>: its opening, the modes of the file and its sidecars and the
  migrations; however an opening ends, no row is lost. \<open>Delivery\<close>, \<open>Delivery_Laws\<close>: \<open>delivery.rs\<close>,
  submissions that fit their budget and acknowledge exactly their own rows. \<open>Uploader\<close>, \<open>Schedule\<close>, \<open>Agent\<close>,
  \<open>Agent_Laws\<close>: \<open>uploader.rs\<close>, \<open>schedule.rs\<close>, \<open>agent.rs\<close> and \<open>scraper.rs\<close>; a tick is a run of the spool's
  operations that obeys the server's answers. \<open>Scrape\<close>, \<open>Sntp\<close>: \<open>scrape.rs\<close>, \<open>sntp.rs\<close>. \<open>Log_Select\<close>,
  \<open>Line_Source\<close>, \<open>Log_Tee\<close>, \<open>Log_Tail\<close>: \<open>logselect.rs\<close>, \<open>logsource.rs\<close>, \<open>logtail.rs\<close>, from a stream of bytes to
  the selected lines in the spool; \<open>Log_Run\<close> follows a \<open>journalctl\<close> child, drains it and starts another, and
  never leaves one running that could be stopped. \<open>Endpoint\<close>, \<open>Agent_Keys\<close>, \<open>Report\<close>, \<open>Agent_Config\<close>,
  \<open>Agent_Config_Laws\<close>: \<open>endpoint.rs\<close>, \<open>keys.rs\<close> and \<open>identity.rs\<close>, \<open>report.rs\<close>, \<open>config.rs\<close> and \<open>cli.rs\<close>; nothing is
  sent in the clear except to this host, and the journal's counts add up. \<open>Agent_Main\<close>: \<open>main.rs\<close>, the
  start and one turn of the loop; \<open>Agent_Life\<close>, \<open>Agent_Loop\<close>, \<open>Agent_Said\<close>: what holds from the start on,
  the pace of the turns, and what the journal accounts for.

  The server (\<open>metsuke-server/src\<close>). \<open>Rate_Limit\<close>: \<open>ratelimit.rs\<close>. \<open>Roster\<close>, \<open>Authority\<close>: \<open>roster.rs\<close> and
  \<open>authority.rs\<close>, who may speak for a pool. \<open>Archive\<close>, \<open>Archive_Laws\<close>: \<open>archive.rs\<close>, a directory tree with the
  failures of its disk, and the two contracts it keeps. \<open>S3_Archive\<close>, \<open>S3_Laws\<close>: \<open>s3.rs\<close>, the production archive,
  which keeps the same two over an endpoint that does what S3 documents; a store ends in the bound of its
  attempts and a listing is whole or an error. \<open>Intake\<close>, \<open>Intake_Laws\<close>: \<open>intake.rs\<close>, what is acknowledged, that
  it stays and that it verifies. \<open>Verify\<close>: \<open>verify.rs\<close>. \<open>Developer\<close>, \<open>Server_Http\<close>, \<open>Server_Laws\<close>: \<open>developer.rs\<close> and
  \<open>http.rs\<close>, accounts and every route; only an account reads the archive, and a status means to the agent
  what the server decided. \<open>Serve\<close>, \<open>Serve_Laws\<close>: the listener of \<open>serve.rs\<close>, its bodies, streams,
  deadlines and slots. \<open>Server_Config\<close>: \<open>config.rs\<close>, \<open>applications.rs\<close> and \<open>cli.rs\<close>. \<open>Markup\<close>, \<open>Server_Pages\<close>,
  \<open>Server_Documents\<close>: \<open>instructions.rs\<close>, the rendered pages and the files they link. \<open>Server_Main\<close>, \<open>Server_Started\<close>:
  \<open>main.rs\<close>, what a server that is up serves and what an audit that exits zero has found.

  The client (\<open>metsuke-fetch/src\<close>). \<open>Percent\<close>, \<open>Select\<close>, \<open>Pull\<close>: the requests (\<open>pull.rs\<close>, \<open>select.rs\<close>) and the
  server's reading of them. \<open>Staged\<close>, \<open>Cursor\<close>, \<open>Sync\<close>: \<open>staged.rs\<close>, \<open>cursor.rs\<close>, \<open>provenance.rs\<close>, \<open>sync.rs\<close>,
  over a disk that fails where its list of faults says. \<open>Sync_Laws\<close> proves that any number of runs, each
  broken off anywhere, leave the keys cut by the cursor into settled and pending. \<open>Fetch_Cli\<close>, \<open>Fetch_Main\<close>:
  \<open>cli.rs\<close>, \<open>main.rs\<close> and \<open>recipe.rs\<close>, from the command line to the exit code; \<open>Fetch_Days\<close> shows which days the
  flags select and \<open>Fetch_Laws\<close> that exit zero means the directory is whole.

  Interfaces between the parts. \<open>codec\<close> (\<open>Codec\<close>): a text that is read back; kept by agent ids and kinds.
  \<open>row_store\<close> (\<open>Spool_Client\<close>): what the delivery needs of a stream; kept by both streams of the spool.
  \<open>line_source\<close> (\<open>Log_Tail\<close>): a stream of lines that ends; kept by the journal and the pipe. \<open>object_store\<close> and
  \<open>paged_listing\<close> (\<open>Archive_Laws\<close>): what is stored reads back and displaces nothing, and pages cover the keys;
  kept by the directory and by the bucket. \<open>steady_archive\<close> (\<open>Sync_Walk\<close>): what a client needs of an archive
  that stands still; \<open>Served\<close> proves that the server of \<open>Server_Http\<close> behind a network that loses and cuts
  answers is one. On these rest the properties that cross the processes: \<open>Served_Laws\<close> (sync against the
  server), \<open>S3_Served\<close> (from the intake's acknowledgement through the bucket to the developer's disk) and
  \<open>Agent_Started\<close> (from the command line of an agent to the server's acknowledgement).

  \<open>Prelude\<close>, \<open>Strings\<close>, \<open>Reader\<close> hold the results, texts as byte lists, UTF-8 and streams all of these use.
  The witnesses evaluate concrete instances: \<open>Served_Demo\<close> is one server, account, archive and run, and the
  instances of the other parts stand at the end of their theories.

  Machine integers: counters, totals and ids that SQLite stores are \<open>int\<close> with the clamps the code writes
  out; sizes are \<open>nat\<close> with checked or saturating subtraction; a timestamp of SNTP is a \<open>64 word\<close>, read with
  \<open>uint\<close>, whose product wraps as \<open>u64\<close> does. A loop that another party drives runs over a list of what it
  meets (\<open>loop_turns\<close>, \<open>log_run\<close>, \<open>accept_step\<close> as a relation), so a property of every such list is one of
  every run. Fuel appears in \<open>sync_pages\<close> and \<open>list_pages\<close>, one unit a page: \<open>None\<close> is a walk the fuel did not
  reach the end of, and \<open>sync_settles\<close> shows that one more than the number of keys is enough. \<open>s3_pages\<close> and
  \<open>s3_store_loop\<close> count the code's own bounds; every other loop is total by a measure.

  Libraries the sources only call are records of functions with their documented laws as predicates
  (\<open>crypto_ok\<close>, \<open>json_ok\<close>, \<open>zstd_ok\<close>, \<open>bech32_ok\<close>, \<open>bls_lib_ok\<close>, \<open>key_lib_ok\<close>, \<open>uri_lib_ok\<close>, \<open>calendar_ok\<close>, \<open>base64_ok\<close>,
  \<open>listing_ok\<close>, \<open>codecs_ok\<close>); the \<open>demo\<close> definitions show that each can hold.

  Not modelled: sockets, threads, sleeps and the async runtime, with what only they meet (binding the
  listener, the panic of an answer that \<open>blocking\<close> of \<open>serve.rs\<close> turns into a 503); the line a drain writes on
  its first loss of a kind, and the intake's line of an accepted upload; the texts of \<open>--help\<close> and of the
  usages; what the \<open>toml\<close>, \<open>url\<close>, \<open>serde\<close>, \<open>time\<close> and \<open>http\<close> crates parse; the shared test fixtures, the build scripts
  and the examples that record fixtures.
\<close>

end
